(* ===== verification/Rust_Prelude.thy ===== *)
theory Rust_Prelude
  imports Main "HOL-Library.Word" "HOL-Library.Sublist"
begin

text \<open>
  What every component of the development shares.

  \<^item> Rust's integer types as words, and the saturating and checked operations the code calls.
  \<^item> Rust's \<open>Result\<close> as the sum \<open>'e + 'a\<close>: \<open>Inl\<close> is \<open>Err\<close>, \<open>Inr\<close> is \<open>Ok\<close>. A validator
    is a sequence of checks that stops at the first error (\<open>all_ok\<close>), the \<open>?\<close> operator is
    \<open>and_then\<close>.
  \<^item> Rust's \<open>str\<close> as the list of its UTF-8 bytes (an Isabelle \<open>char\<close> is one byte), with the
    byte classes, \<open>chars().count()\<close>, \<open>trim().is_empty()\<close> and \<open>split\<close> of the standard library.
  \<^item> The named theorem collection \<open>ok_iff\<close>: what a successful check says.
\<close>

section \<open>Automation shared by the components\<close>

named_theorems ok_iff \<open>success of a check as a plain condition\<close>
named_theorems rust_num \<open>numeric characterisation of machine operations\<close>

section \<open>Machine integers\<close>

type_synonym u16 = "16 word"
type_synonym u32 = "32 word"
type_synonym u64 = "64 word"
type_synonym i64 = int

definition sat_add :: "'a::len word \<Rightarrow> 'a word \<Rightarrow> 'a word" where
  "sat_add a b = (if unat a + unat b < 2 ^ LENGTH('a) then a + b else - 1)"

definition sat_mul :: "'a::len word \<Rightarrow> 'a word \<Rightarrow> 'a word" where
  "sat_mul a b = (if unat a * unat b < 2 ^ LENGTH('a) then a * b else - 1)"

definition checked_add :: "'a::len word \<Rightarrow> 'a word \<Rightarrow> 'a word option" where
  "checked_add a b = (if unat a + unat b < 2 ^ LENGTH('a) then Some (a + b) else None)"

text \<open>Two's complement wrap-around of a signed 64-bit result (a release build does not trap).\<close>

definition wrap_i64 :: "int \<Rightarrow> i64" where
  "wrap_i64 x = (x + 2 ^ 63) mod 2 ^ 64 - 2 ^ 63"

lemma unat_max_word: "unat (- 1 :: 'a::len word) = 2 ^ LENGTH('a) - 1"
  by (simp add: unsigned_minus_1_eq_mask mask_eq_exp_minus_1)

lemma unat_sat_add [rust_num]:
  "unat (sat_add a b) = min (unat a + unat b) (2 ^ LENGTH('a) - 1)" for a b :: "'a::len word"
proof (cases "unat a + unat b < 2 ^ LENGTH('a)")
  case True
  then show ?thesis by (simp add: sat_add_def unat_word_ariths)
next
  case False
  then have "2 ^ LENGTH('a) - 1 \<le> unat a + unat b" by linarith
  with False show ?thesis by (simp add: sat_add_def unat_max_word)
qed

lemma unat_sat_mul [rust_num]:
  "unat (sat_mul a b) = min (unat a * unat b) (2 ^ LENGTH('a) - 1)" for a b :: "'a::len word"
proof (cases "unat a * unat b < 2 ^ LENGTH('a)")
  case True
  then show ?thesis by (simp add: sat_mul_def unat_word_ariths)
next
  case False
  then have "2 ^ LENGTH('a) - 1 \<le> unat a * unat b" by linarith
  with False show ?thesis by (simp add: sat_mul_def unat_max_word)
qed

lemma checked_add_Some [rust_num]:
  "checked_add a b = Some c \<longleftrightarrow> unat c = unat a + unat b" for a b c :: "'a::len word"
proof
  assume "checked_add a b = Some c"
  then show "unat c = unat a + unat b"
    by (auto simp: checked_add_def unat_word_ariths split: if_splits)
next
  assume eq: "unat c = unat a + unat b"
  have "unat c < 2 ^ LENGTH('a)" by (rule unsigned_less)
  with eq have bound: "unat a + unat b < 2 ^ LENGTH('a)" by simp
  then have "unat (a + b) = unat c"
    using eq by (simp add: unat_word_ariths)
  then show "checked_add a b = Some c"
    using bound by (simp add: checked_add_def word_unat_eq_iff)
qed

lemma checked_add_None [rust_num]:
  "checked_add a b = None \<longleftrightarrow> 2 ^ LENGTH('a) \<le> unat a + unat b" for a b :: "'a::len word"
  by (auto simp: checked_add_def)

lemma wrap_i64_id: "- (2 ^ 63) \<le> x \<Longrightarrow> x < 2 ^ 63 \<Longrightarrow> wrap_i64 x = x"
  by (simp add: wrap_i64_def)

lemma wrap_i64_range: "- (2 ^ 63) \<le> wrap_i64 x \<and> wrap_i64 x < 2 ^ 63"
proof -
  have "0 \<le> (x + 2 ^ 63) mod 2 ^ 64" and "(x + 2 ^ 63) mod 2 ^ 64 < (2 ^ 64 :: int)"
    by simp_all
  then show ?thesis by (simp add: wrap_i64_def)
qed

lemma wrap_i64_add: "wrap_i64 (wrap_i64 a + b) = wrap_i64 (a + b)"
proof -
  have "(a + 2 ^ 63) mod 2 ^ 64 - 2 ^ 63 + b + 2 ^ 63 = (a + 2 ^ 63) mod 2 ^ 64 + b" by simp
  then show ?thesis unfolding wrap_i64_def by (simp only: mod_add_left_eq) (simp add: algebra_simps)
qed

lemma wrap_i64_0 [simp]: "wrap_i64 0 = 0"
  by (simp add: wrap_i64_def)

section \<open>Results and sequences of checks\<close>

definition ensure :: "bool \<Rightarrow> 'e \<Rightarrow> 'e + unit" where
  "ensure b e = (if b then Inr () else Inl e)"

fun all_ok :: "('e + unit) list \<Rightarrow> 'e + unit" where
  "all_ok [] = Inr ()"
| "all_ok (Inl e # cs) = Inl e"
| "all_ok (Inr u # cs) = all_ok cs"

definition for_ok :: "('a \<Rightarrow> 'e + unit) \<Rightarrow> 'a list \<Rightarrow> 'e + unit" where
  "for_ok f xs = all_ok (map f xs)"

definition opt_ok :: "('a \<Rightarrow> 'e + unit) \<Rightarrow> 'a option \<Rightarrow> 'e + unit" where
  "opt_ok f x = (case x of None \<Rightarrow> Inr () | Some v \<Rightarrow> f v)"

fun and_then :: "'e + 'a \<Rightarrow> ('a \<Rightarrow> 'e + 'b) \<Rightarrow> 'e + 'b" where
  "and_then (Inl e) f = Inl e"
| "and_then (Inr x) f = f x"

text \<open>\<open>iter.map(f).collect::<Result<_, _>>()\<close>: the results, or the first error.\<close>

fun try_map :: "('a \<Rightarrow> 'e + 'b) \<Rightarrow> 'a list \<Rightarrow> 'e + 'b list" where
  "try_map f [] = Inr []"
| "try_map f (x # xs) = and_then (f x) (\<lambda>y. and_then (try_map f xs) (\<lambda>ys. Inr (y # ys)))"

definition map_err :: "('e \<Rightarrow> 'f) \<Rightarrow> 'e + 'a \<Rightarrow> 'f + 'a" where
  "map_err f r = (case r of Inl e \<Rightarrow> Inl (f e) | Inr x \<Rightarrow> Inr x)"

definition ok_or :: "'e \<Rightarrow> 'a option \<Rightarrow> 'e + 'a" where
  "ok_or e x = (case x of None \<Rightarrow> Inl e | Some v \<Rightarrow> Inr v)"

definition is_some_and :: "('a \<Rightarrow> bool) \<Rightarrow> 'a option \<Rightarrow> bool" where
  "is_some_and p x = (case x of None \<Rightarrow> False | Some v \<Rightarrow> p v)"

definition is_none_or :: "('a \<Rightarrow> bool) \<Rightarrow> 'a option \<Rightarrow> bool" where
  "is_none_or p x = (case x of None \<Rightarrow> True | Some v \<Rightarrow> p v)"

lemma ensure_ok [simp, ok_iff]: "ensure b e = Inr u \<longleftrightarrow> b"
  by (simp add: ensure_def)

lemma ensure_err [simp]: "ensure b e = Inl e' \<longleftrightarrow> \<not> b \<and> e' = e"
  by (auto simp: ensure_def)

lemma ensure_True [simp]: "ensure True e = Inr ()"
  by (simp add: ensure_def)

lemma ensure_False [simp]: "ensure False e = Inl e"
  by (simp add: ensure_def)

lemma all_ok_Cons_ok [simp]: "all_ok (c # cs) = Inr u \<longleftrightarrow> c = Inr () \<and> all_ok cs = Inr ()"
  by (cases c) simp_all

lemma all_ok_iff [ok_iff]: "all_ok cs = Inr u \<longleftrightarrow> (\<forall>c \<in> set cs. c = Inr ())"
  by (induction cs) simp_all

lemma all_ok_append: "all_ok (xs @ ys) = (case all_ok xs of Inl e \<Rightarrow> Inl e | Inr _ \<Rightarrow> all_ok ys)"
  by (induction xs rule: all_ok.induct) simp_all

lemma all_ok_first_error:
  "all_ok cs = Inl e \<longleftrightarrow> (\<exists>ps qs. cs = ps @ Inl e # qs \<and> (\<forall>c \<in> set ps. c = Inr ()))"
proof (induction cs rule: all_ok.induct)
  case 1
  then show ?case by simp
next
  case (2 e' cs)
  then show ?case by (auto simp: Cons_eq_append_conv)
next
  case (3 u cs)
  show ?case
  proof
    assume "all_ok (Inr u # cs) = Inl e"
    with 3 obtain ps qs where "cs = ps @ Inl e # qs" and "\<forall>c \<in> set ps. c = Inr ()"
      by auto
    then have "Inr u # cs = (Inr u # ps) @ Inl e # qs" and "\<forall>c \<in> set (Inr u # ps). c = Inr ()"
      by auto
    then show "\<exists>ps qs. Inr u # cs = ps @ Inl e # qs \<and> (\<forall>c \<in> set ps. c = Inr ())"
      by blast
  next
    assume "\<exists>ps qs. Inr u # cs = ps @ Inl e # qs \<and> (\<forall>c \<in> set ps. c = Inr ())"
    with 3 show "all_ok (Inr u # cs) = Inl e"
      by (auto simp: Cons_eq_append_conv)
  qed
qed

lemma for_ok_iff [simp, ok_iff]: "for_ok f xs = Inr u \<longleftrightarrow> (\<forall>x \<in> set xs. f x = Inr ())"
  by (induction xs) (simp_all add: for_ok_def)

lemma opt_ok_iff [ok_iff]: "opt_ok f x = Inr u \<longleftrightarrow> (\<forall>v. x = Some v \<longrightarrow> f v = Inr ())"
  by (cases x) (simp_all add: opt_ok_def)

lemma opt_ok_simps [simp]: "opt_ok f None = Inr ()" "opt_ok f (Some v) = f v"
  by (simp_all add: opt_ok_def)

lemma and_then_ok: "and_then r f = Inr y \<longleftrightarrow> (\<exists>x. r = Inr x \<and> f x = Inr y)"
  by (cases r) simp_all

lemma and_then_err: "and_then r f = Inl e \<longleftrightarrow> r = Inl e \<or> (\<exists>x. r = Inr x \<and> f x = Inl e)"
  by (cases r) auto

lemma try_map_ok: "try_map f xs = Inr ys \<longleftrightarrow> map f xs = map Inr ys"
  by (induction xs arbitrary: ys) (auto simp: and_then_ok)

lemma map_err_ok [simp]: "map_err f r = Inr x \<longleftrightarrow> r = Inr x"
  by (cases r) (simp_all add: map_err_def)

lemma map_err_simps [simp]: "map_err f (Inl e) = Inl (f e)" "map_err f (Inr x) = Inr x"
  by (simp_all add: map_err_def)

lemma ok_or_ok [simp]: "ok_or e x = Inr v \<longleftrightarrow> x = Some v"
  by (cases x) (simp_all add: ok_or_def)

lemma ok_or_simps [simp]: "ok_or e None = Inl e" "ok_or e (Some v) = Inr v"
  by (simp_all add: ok_or_def)

lemma is_some_and_simps [simp]:
  "is_some_and p None = False" "is_some_and p (Some v) = p v"
  by (simp_all add: is_some_and_def)

lemma is_none_or_simps [simp]:
  "is_none_or p None = True" "is_none_or p (Some v) = p v"
  by (simp_all add: is_none_or_def)

lemma find_mem: "find P xs = Some x \<Longrightarrow> x \<in> set xs \<and> P x"
  by (metis find_Some_iff nth_mem)

lemma find_by_text:
  assumes "distinct (map text_of xs)" and "\<And>s. s \<in> set xs"
  shows "find (\<lambda>s. text_of s = t) xs = Some s \<longleftrightarrow> text_of s = t"
proof
  assume "find (\<lambda>s. text_of s = t) xs = Some s"
  then show "text_of s = t" using find_mem by fastforce
next
  assume t: "text_of s = t"
  obtain u where u: "find (\<lambda>s. text_of s = t) xs = Some u"
    using assms(2) [of s] t by (cases "find (\<lambda>s. text_of s = t) xs") (auto simp: find_None_iff)
  with find_mem [OF u] t have "text_of u = text_of s" by simp
  with assms have "u = s" by (auto simp: distinct_map inj_on_def)
  with u show "find (\<lambda>s. text_of s = t) xs = Some s" by simp
qed

section \<open>Byte strings\<close>

definition byte :: "char \<Rightarrow> nat" where
  "byte c = of_char c"

definition is_ascii_digit :: "char \<Rightarrow> bool" where
  "is_ascii_digit c \<longleftrightarrow> 48 \<le> byte c \<and> byte c \<le> 57"

definition is_ascii_lowercase :: "char \<Rightarrow> bool" where
  "is_ascii_lowercase c \<longleftrightarrow> 97 \<le> byte c \<and> byte c \<le> 122"

definition is_ascii_uppercase :: "char \<Rightarrow> bool" where
  "is_ascii_uppercase c \<longleftrightarrow> 65 \<le> byte c \<and> byte c \<le> 90"

definition is_ascii_alphanumeric :: "char \<Rightarrow> bool" where
  "is_ascii_alphanumeric c \<longleftrightarrow> is_ascii_digit c \<or> is_ascii_lowercase c \<or> is_ascii_uppercase c"

definition is_ascii_hexdigit :: "char \<Rightarrow> bool" where
  "is_ascii_hexdigit c \<longleftrightarrow> is_ascii_digit c \<or> (97 \<le> byte c \<and> byte c \<le> 102) \<or>
     (65 \<le> byte c \<and> byte c \<le> 70)"

lemmas ascii_defs = byte_def is_ascii_digit_def is_ascii_lowercase_def is_ascii_uppercase_def
  is_ascii_alphanumeric_def is_ascii_hexdigit_def

text \<open>
  \<open>str::chars().count()\<close> on valid UTF-8: one character per byte that is not a continuation byte.
\<close>

definition chars_count :: "string \<Rightarrow> nat" where
  "chars_count s = length (filter (\<lambda>c. \<not> (128 \<le> byte c \<and> byte c < 192)) s)"

lemma chars_count_simps:
  "chars_count [] = 0"
  "chars_count (c # s) = (if 128 \<le> byte c \<and> byte c < 192 then 0 else 1) + chars_count s"
  by (simp_all add: chars_count_def)

lemma chars_count_le_length: "chars_count s \<le> length s"
  by (simp add: chars_count_def)

text \<open>
  \<open>char::is_whitespace\<close> is Unicode's White\_Space property: \<open>drop_space\<close> removes one such
  character, given as its UTF-8 bytes, from the front of a string.
\<close>

fun drop_space :: "string \<Rightarrow> string option" where
  "drop_space [] = None"
| "drop_space (a # s) =
    (if (9 \<le> byte a \<and> byte a \<le> 13) \<or> byte a = 32 then Some s
     else case s of
       [] \<Rightarrow> None
     | b # t \<Rightarrow>
        (if byte a = 194 \<and> (byte b = 133 \<or> byte b = 160) then Some t
         else case t of
           [] \<Rightarrow> None
         | c # r \<Rightarrow>
            (if (byte a = 225 \<and> byte b = 154 \<and> byte c = 128)
              \<or> (byte a = 226 \<and> byte b = 128 \<and> (128 \<le> byte c \<and> byte c \<le> 138
                   \<or> byte c = 168 \<or> byte c = 169 \<or> byte c = 175))
              \<or> (byte a = 226 \<and> byte b = 129 \<and> byte c = 159)
              \<or> (byte a = 227 \<and> byte b = 128 \<and> byte c = 128)
             then Some r else None)))"

lemma drop_space_shorter: "drop_space s = Some r \<Longrightarrow> length r < length s"
  by (cases s) (auto split: if_splits list.splits)

text \<open>\<open>value.trim().is_empty()\<close>: the string holds white space only.\<close>

function trim_is_empty :: "string \<Rightarrow> bool" where
  "trim_is_empty s = (s = [] \<or> (case drop_space s of None \<Rightarrow> False | Some r \<Rightarrow> trim_is_empty r))"
  by pat_completeness auto
termination
  by (relation "measure length") (auto dest: drop_space_shorter)

declare trim_is_empty.simps [simp del]

lemma trim_is_empty_Nil [simp]: "trim_is_empty []"
  by (subst trim_is_empty.simps) simp

lemma trim_is_empty_Cons:
  "trim_is_empty (a # s) = (case drop_space (a # s) of None \<Rightarrow> False | Some r \<Rightarrow> trim_is_empty r)"
  by (subst trim_is_empty.simps) simp

lemmas text_eval = chars_count_simps trim_is_empty_Cons byte_def

text \<open>
  \<open>str::trim\<close>. A byte inside a character never starts one of white space, so cutting the string at
  any byte whose rest is white space cuts it between characters.
\<close>

function trim_start :: "string \<Rightarrow> string" where
  "trim_start s = (case drop_space s of None \<Rightarrow> s | Some r \<Rightarrow> trim_start r)"
  by pat_completeness auto
termination
  by (relation "measure length") (auto dest: drop_space_shorter)

declare trim_start.simps [simp del]

fun trim_end :: "string \<Rightarrow> string" where
  "trim_end [] = []"
| "trim_end (c # s) = (if trim_is_empty (c # s) then [] else c # trim_end s)"

definition trim :: "string \<Rightarrow> string" where
  "trim s = trim_end (trim_start s)"

definition to_ascii_lowercase :: "string \<Rightarrow> string" where
  "to_ascii_lowercase s = map (\<lambda>c. if is_ascii_uppercase c then char_of (byte c + 32) else c) s"

text \<open>\<open>str::contains\<close> and \<open>str::starts_with\<close> with a string pattern.\<close>

definition contains_str :: "string \<Rightarrow> string \<Rightarrow> bool" where
  "contains_str s pat = sublist pat s"

definition starts_with :: "string \<Rightarrow> string \<Rightarrow> bool" where
  "starts_with s pat = prefix pat s"

lemma contains_str_prefix: "contains_str a pat \<Longrightarrow> contains_str (a @ b) pat"
  unfolding contains_str_def by (metis sublist_append_rightI sublist_order.order.trans)

lemma to_ascii_lowercase_append [simp]:
  "to_ascii_lowercase (a @ b) = to_ascii_lowercase a @ to_ascii_lowercase b"
  by (simp add: to_ascii_lowercase_def)

text \<open>Decimal printing of unsigned numbers by \<open>format!\<close>.\<close>

fun digits :: "nat \<Rightarrow> string" where
  "digits n = (if n < 10 then [char_of (48 + n)] else digits (n div 10) @ [char_of (48 + n mod 10)])"

declare digits.simps [simp del]

text \<open>\<open>str::split\<close> with a one-byte separator: the empty string has one empty segment.\<close>

fun split_on :: "char \<Rightarrow> string \<Rightarrow> string list" where
  "split_on d [] = [[]]"
| "split_on d (c # s) =
    (if c = d then [] # split_on d s
     else (case split_on d s of [] \<Rightarrow> [[c]] | w # ws \<Rightarrow> (c # w) # ws))"

fun join_with :: "char \<Rightarrow> string list \<Rightarrow> string" where
  "join_with d [] = []"
| "join_with d [w] = w"
| "join_with d (w # v # ws) = w @ d # join_with d (v # ws)"

lemma split_on_nonempty [simp]: "split_on d s \<noteq> []"
  by (cases s) (auto split: list.splits)

lemma split_on_no_separator: "w \<in> set (split_on d s) \<Longrightarrow> d \<notin> set w"
  by (induction s arbitrary: w) (force split: if_splits list.splits)+

lemma join_split: "join_with d (split_on d s) = s"
proof (induction s)
  case Nil
  then show ?case by simp
next
  case (Cons c s)
  obtain w ws where sp: "split_on d s = w # ws"
    by (cases "split_on d s") auto
  show ?case
  proof (cases "c = d")
    case True
    with sp Cons show ?thesis by simp
  next
    case False
    with sp Cons show ?thesis by (cases ws) simp_all
  qed
qed

lemma split_on_absent: "d \<notin> set s \<Longrightarrow> split_on d s = [s]"
  by (induction s) auto

lemma split_on_append: "d \<notin> set a \<Longrightarrow> split_on d (a @ d # b) = a # split_on d b"
  by (induction a) auto

text \<open>
  \<open>str::lines\<close>: the pieces between line feeds, each without a carriage return before its line
  feed; nothing follows a final line feed.
\<close>

definition strip_cr :: "string \<Rightarrow> string" where
  "strip_cr l = (if l \<noteq> [] \<and> last l = CHR 0x0D then butlast l else l)"

definition lines :: "string \<Rightarrow> string list" where
  "lines s = (let ps = split_on (CHR 0x0A) s in
     map strip_cr (butlast ps) @ (if last ps = [] then [] else [last ps]))"

lemma lines_single: "s \<noteq> [] \<Longrightarrow> CHR 0x0A \<notin> set s \<Longrightarrow> lines s = [s]"
  by (simp add: lines_def split_on_absent)

section \<open>Paths through a state machine\<close>

text \<open>
  A run of a machine whose legal moves are a relation \<open>can\<close>: a non-empty list of states in
  which each state may follow the one before it.
\<close>

fun run_of :: "('s \<Rightarrow> 's \<Rightarrow> bool) \<Rightarrow> 's list \<Rightarrow> bool" where
  "run_of can [] = False"
| "run_of can [s] = True"
| "run_of can (s # t # ss) = (can s t \<and> run_of can (t # ss))"

lemma run_of_nonempty: "run_of can ss \<Longrightarrow> ss \<noteq> []"
  by auto

lemma run_of_snoc: "run_of can (ss @ [t]) \<longleftrightarrow> ss = [] \<or> (run_of can ss \<and> can (last ss) t)"
proof (induction ss)
  case Nil
  then show ?case by simp
next
  case (Cons s ss)
  then show ?case by (cases ss) auto
qed

lemma run_of_prefix: "run_of can (ss @ ts) \<Longrightarrow> ss \<noteq> [] \<Longrightarrow> run_of can ss"
proof (induction ts rule: rev_induct)
  case Nil
  then show ?case by simp
next
  case (snoc t ts)
  then have "run_of can ((ss @ ts) @ [t])" by simp
  then have "ss @ ts = [] \<or> run_of can (ss @ ts)"
    by (simp only: run_of_snoc) blast
  with snoc show ?case by auto
qed

text \<open>
  A gate: a region of states that can only be left by entering one given state. The contract is
  what a transition table promises; the lemmas say what it means for whole runs.
\<close>

locale gated =
  fixes can :: "'s \<Rightarrow> 's \<Rightarrow> bool"
    and region :: "'s set"
    and gate :: 's
  assumes exit_by_gate: "s \<in> region \<Longrightarrow> can s t \<Longrightarrow> t \<in> region \<or> t = gate"
begin

lemma run_meets_gate:
  assumes "run_of can ss" and "hd ss \<in> region" and "last ss \<notin> region"
  shows "\<exists>ys zs. ss = ys @ zs \<and> run_of can ys \<and> hd ys = hd ss \<and> last ys = gate"
  using assms
proof (induction ss rule: rev_induct)
  case Nil
  then show ?case by simp
next
  case (snoc t ss)
  then have "ss \<noteq> []" by auto
  then have run: "run_of can ss" and step: "can (last ss) t"
    using snoc.prems(1) by (simp_all add: run_of_snoc)
  show ?case
  proof (cases "last ss \<in> region")
    case True
    with exit_by_gate [OF True step] snoc.prems have "t = gate" by simp
    with snoc.prems have "ss @ [t] = (ss @ [t]) @ [] \<and> run_of can (ss @ [t]) \<and> last (ss @ [t]) = gate"
      by simp
    then show ?thesis by blast
  next
    case False
    have "hd ss \<in> region" using snoc.prems \<open>ss \<noteq> []\<close> by simp
    from snoc.IH [OF run this False] obtain ys zs where
      yz: "ss = ys @ zs" "run_of can ys" "hd ys = hd ss" "last ys = gate" by blast
    have "ss @ [t] = ys @ (zs @ [t])" and "hd ys = hd (ss @ [t])"
      using yz run_of_nonempty [OF yz(2)] by (simp_all add: hd_append)
    with yz show ?thesis by blast
  qed
qed

text \<open>Every run from the region to a state outside it enters the gate.\<close>

lemma gate_visited:
  assumes "run_of can ss" and "hd ss \<in> region" and "last ss \<notin> region"
  shows "gate \<in> set ss"
proof -
  from run_meets_gate [OF assms] obtain ys zs where "ss = ys @ zs" "run_of can ys" "last ys = gate"
    by blast
  then show ?thesis using run_of_nonempty last_in_set by fastforce
qed

text \<open>
  A chain of states that every run to the gate visits in order extends to every run that ends
  outside the region, at a state other than the gate.
\<close>

lemma chain_extends:
  assumes chain: "\<And>ys. run_of can ys \<Longrightarrow> hd ys = s0 \<Longrightarrow> last ys = gate \<Longrightarrow> subseq gs ys"
    and "s0 \<in> region" and "t \<notin> region" and "t \<noteq> gate"
    and "run_of can ss" and "hd ss = s0" and "last ss = t"
  shows "subseq (gs @ [t]) ss"
proof -
  have "hd ss \<in> region" "last ss \<notin> region" using assms by simp_all
  from run_meets_gate [OF assms(5) this] obtain ys zs where
    yz: "ss = ys @ zs" "run_of can ys" "hd ys = hd ss" "last ys = gate" by blast
  have "subseq gs ys" using chain yz assms(6) by simp
  moreover have "zs \<noteq> []" using yz assms by auto
  then have "t \<in> set zs" using yz assms(7) by (metis last_appendR last_in_set)
  then have "subseq [t] zs" by (simp add: subseq_singleton_left)
  ultimately show ?thesis unfolding yz(1) by (rule list_emb_append_mono)
qed

end

text \<open>
  A chain of gates, decided on the table. Each link is a gate with the states that become
  reachable once it has been entered; \<open>states\<close> enumerates the machine's states.
\<close>

definition exits_by :: "('s \<Rightarrow> 's \<Rightarrow> bool) \<Rightarrow> 's list \<Rightarrow> 's list \<Rightarrow> 's \<Rightarrow> bool" where
  "exits_by can states rs g =
     list_all (\<lambda>s. list_all (\<lambda>t. can s t \<longrightarrow> t \<in> set rs \<or> t = g) states) rs"

fun chain_check ::
  "('s \<Rightarrow> 's \<Rightarrow> bool) \<Rightarrow> 's list \<Rightarrow> 's list \<Rightarrow> ('s \<times> 's list) list \<Rightarrow> bool" where
  "chain_check can states rs [] = True"
| "chain_check can states rs [(g, ex)] = (g \<notin> set rs)"
| "chain_check can states rs ((g, ex) # l # ls) =
    (exits_by can states rs g \<and> g \<notin> set rs \<and> chain_check can states (rs @ g # ex) (l # ls))"

definition chain_region :: "'s list \<Rightarrow> ('s \<times> 's list) list \<Rightarrow> 's list" where
  "chain_region rs ls = rs @ concat (map (\<lambda>(g, ex). g # ex) ls)"

lemma chain_check_snoc:
  "ls \<noteq> [] \<Longrightarrow> chain_check can states rs (ls @ [(t, ex)]) \<longleftrightarrow>
     chain_check can states rs ls \<and>
     exits_by can states (chain_region rs (butlast ls)) (fst (last ls)) \<and>
     t \<notin> set (chain_region rs ls)"
proof (induction can states rs ls rule: chain_check.induct)
  case (2 can states rs g ex)
  then show ?case by (auto simp: chain_region_def)
next
  case (3 can states rs g ex l ls)
  then show ?case by (auto simp: chain_region_def)
qed simp

locale gate_chain =
  fixes can :: "'s \<Rightarrow> 's \<Rightarrow> bool"
    and states :: "'s list"
    and start :: "'s list"
    and links :: "('s \<times> 's list) list"
  assumes states_complete: "s \<in> set states"
    and links_checked: "chain_check can states start links"
begin

lemma exits_by_gated: "exits_by can states rs g \<Longrightarrow> gated can (set rs) g"
  by unfold_locales (use states_complete in \<open>auto simp: exits_by_def list_all_iff\<close>)

lemma chain_in_order_prefix:
  assumes "chain_check can states start ls" and "ls \<noteq> []"
    and "run_of can ss" and "hd ss \<in> set start" and "last ss = fst (last ls)"
  shows "subseq (map fst ls) ss"
  using assms
proof (induction ls arbitrary: ss rule: rev_induct)
  case Nil
  then show ?case by simp
next
  case (snoc l ls)
  obtain t ex where l: "l = (t, ex)" by (cases l)
  show ?case
  proof (cases "ls = []")
    case True
    have "t \<in> set ss" using snoc.prems l True
      by (metis fst_conv last_in_set last_snoc run_of_nonempty)
    then show ?thesis using True l by (simp add: subseq_singleton_left)
  next
    case False
    from snoc.prems(1) l have checked: "chain_check can states start ls"
      and exit: "exits_by can states (chain_region start (butlast ls)) (fst (last ls))"
      and new: "t \<notin> set (chain_region start ls)"
      by (simp_all add: chain_check_snoc [OF False])
    have split: "chain_region start ls =
        chain_region start (butlast ls) @ (case last ls of (g, e) \<Rightarrow> g # e)"
      using False by (cases ls rule: rev_cases) (simp_all add: chain_region_def)
    have outside: "t \<notin> set (chain_region start (butlast ls))" "t \<noteq> fst (last ls)"
      using new unfolding split by (cases "last ls"; simp)+
    have inside: "hd ss \<in> set (chain_region start (butlast ls))"
      using snoc.prems(4) by (simp add: chain_region_def)
    have "subseq (map fst ls @ [t]) ss"
    proof (rule gated.chain_extends [OF exits_by_gated [OF exit], where ?s0.0 = "hd ss"])
      fix ys assume "run_of can ys" "hd ys = hd ss" "last ys = fst (last ls)"
      with snoc.IH [OF checked False] snoc.prems(4) show "subseq (map fst ls) ys" by simp
    qed (use snoc.prems l outside inside in simp_all)
    then show ?thesis using l by simp
  qed
qed

text \<open>Every run from a start state to the last gate passes all the gates, in their order.\<close>

lemma chain_in_order:
  assumes "links \<noteq> []" and "run_of can ss" and "hd ss \<in> set start" and "last ss = fst (last links)"
  shows "subseq (map fst links) ss"
  using chain_in_order_prefix [OF links_checked assms] .

end

section \<open>Evaluation\<close>

text \<open>Code equations over binary integers, for the evaluation of concrete runs.\<close>

lemma unat_less_power: "unat v < 2 ^ n \<longleftrightarrow> uint v < 2 ^ n"
proof -
  have "int (unat v) < int (2 ^ n) \<longleftrightarrow> unat v < 2 ^ n" by (rule of_nat_less_iff)
  then show ?thesis by simp
qed

lemma checked_add_code [code]:
  "checked_add a b = (if uint a + uint b < 2 ^ LENGTH('a) then Some (a + b) else None)" for a b :: "'a::len word"
proof -
  have "int (unat a + unat b) < int (2 ^ LENGTH('a)) \<longleftrightarrow> unat a + unat b < 2 ^ LENGTH('a)" by (rule of_nat_less_iff)
  then have "unat a + unat b < 2 ^ LENGTH('a) \<longleftrightarrow> uint a + uint b < 2 ^ LENGTH('a)"
    by simp
  then show ?thesis by (simp add: checked_add_def)
qed

lemma byte_le:
  "numeral n \<le> byte c \<longleftrightarrow> numeral n \<le> (of_char c :: int)"
  "byte c \<le> numeral n \<longleftrightarrow> of_char c \<le> (numeral n :: int)"
proof -
  have b: "int (byte c) = of_char c" by (cases c) (simp add: byte_def of_char_def)
  show "numeral n \<le> byte c \<longleftrightarrow> numeral n \<le> (of_char c :: int)" "byte c \<le> numeral n \<longleftrightarrow> of_char c \<le> (numeral n :: int)"
    unfolding b [symmetric] by simp_all
qed

lemma ascii_code [code]:
  "is_ascii_digit c \<longleftrightarrow> 48 \<le> (of_char c :: int) \<and> (of_char c :: int) \<le> 57"
  "is_ascii_lowercase c \<longleftrightarrow> 97 \<le> (of_char c :: int) \<and> (of_char c :: int) \<le> 122"
  "is_ascii_uppercase c \<longleftrightarrow> 65 \<le> (of_char c :: int) \<and> (of_char c :: int) \<le> 90"
  "is_ascii_hexdigit c \<longleftrightarrow> is_ascii_digit c \<or> (97 \<le> (of_char c :: int) \<and> (of_char c :: int) \<le> 102) \<or>
     (65 \<le> (of_char c :: int) \<and> (of_char c :: int) \<le> 70)"
  by (simp_all only: is_ascii_digit_def is_ascii_lowercase_def is_ascii_uppercase_def is_ascii_hexdigit_def byte_le)

lemma chars_count_code [code]:
  "chars_count s = length (filter (\<lambda>c. \<not> (128 \<le> (of_char c :: int) \<and> (of_char c :: int) \<le> 191)) s)"
proof -
  have "byte c < 192 \<longleftrightarrow> byte c \<le> 191" for c by auto
  then show ?thesis by (simp only: chars_count_def byte_le)
qed

end
