(* ===== verification/Run_Lifecycle.thy ===== *)
theory Run_Lifecycle
  imports Rust_Prelude
begin

text \<open>
  The run state machine of \<^verbatim>\<open>crates/harness-domain/src/lib.rs\<close>: the closed enum \<open>RunState\<close>, its
  terminal states and the transition table \<open>can_transition_to\<close> every run update is checked against.

  The lemmas read the table as a graph. Each gate (a state that every run from \<open>Created\<close> to some
  later state must enter) is an interpretation of the locale \<open>gated\<close>; chaining them gives the
  order in which a run passes verification, integration, audit and human review.
\<close>

section \<open>States and transitions\<close>

datatype RunState =
    Created | Preparing | Interviewing | ReadyForArchitecture | Architecting
  | PlanAdversarialReview | PlanRevisionRequired | PlanReviewRequired | ReadyToExecute
  | Executing | TaskVerification | IntegrationReady | Integrating | IntegrationVerification
  | FinalAudit | HumanReview | PublicationReady | DraftPrCreated | Completed | Paused
  | Blocked | Stopping | Canceled | Failed | Archived

definition run_is_terminal :: "RunState \<Rightarrow> bool" where
  "run_is_terminal s \<longleftrightarrow> s \<in> set [Completed, Canceled, Failed, Archived]"

definition run_edges :: "(RunState \<times> RunState list) list" where
  "run_edges =
    [(Created, [Preparing]),
     (Preparing, [Interviewing, ReadyForArchitecture]),
     (Interviewing, [ReadyForArchitecture]),
     (ReadyForArchitecture, [Architecting]),
     (Architecting, [ReadyForArchitecture]),
     (Architecting, [PlanRevisionRequired]),
     (Architecting, [PlanAdversarialReview]),
     (PlanAdversarialReview, [PlanRevisionRequired]),
     (PlanAdversarialReview, [PlanReviewRequired]),
     (PlanRevisionRequired, [Architecting]),
     (PlanReviewRequired, [PlanAdversarialReview]),
     (PlanReviewRequired, [PlanRevisionRequired]),
     (PlanReviewRequired, [Completed]),
     (PlanReviewRequired, [ReadyToExecute]),
     (ReadyToExecute, [Executing]),
     (Executing, [TaskVerification]),
     (TaskVerification, [IntegrationReady]),
     (IntegrationReady, [Integrating]),
     (Integrating, [IntegrationVerification]),
     (IntegrationVerification, [FinalAudit]),
     (FinalAudit, [Executing]),
     (FinalAudit, [HumanReview]),
     (HumanReview, [Executing]),
     (HumanReview, [PublicationReady]),
     (PublicationReady, [DraftPrCreated]),
     (PublicationReady, [Completed]),
     (DraftPrCreated, [Completed]),
     (Paused, [ReadyToExecute, Executing, TaskVerification]),
     (Blocked, [Interviewing, ReadyForArchitecture, PlanAdversarialReview, PlanRevisionRequired,
        PlanReviewRequired, ReadyToExecute, Executing]),
     (Stopping, [Canceled]),
     (Completed, [Archived]), (Canceled, [Archived]), (Failed, [Archived])]"

definition run_can_transition_to :: "RunState \<Rightarrow> RunState \<Rightarrow> bool" where
  "run_can_transition_to s n =
    (if s = n then True
     else if n \<in> set [Paused, Blocked, Stopping, Canceled, Failed] then \<not> run_is_terminal s
     else list_ex (\<lambda>(a, bs). s = a \<and> n \<in> set bs) run_edges)"

section \<open>The table as a graph\<close>

definition run_states :: "RunState list" where
  "run_states =
    [Created, Preparing, Interviewing, ReadyForArchitecture, Architecting, PlanAdversarialReview,
     PlanRevisionRequired, PlanReviewRequired, ReadyToExecute, Executing, TaskVerification,
     IntegrationReady, Integrating, IntegrationVerification, FinalAudit, HumanReview,
     PublicationReady, DraftPrCreated, Completed, Paused, Blocked, Stopping, Canceled, Failed,
     Archived]"

lemma run_states_complete: "s \<in> set run_states"
  by (cases s) (simp_all add: run_states_def)

section \<open>States as text\<close>

text \<open>
  \<open>Display\<close> and \<open>FromStr\<close> go through serde's \<open>SCREAMING_SNAKE_CASE\<close> names; the text is what the database
  stores.
\<close>

fun run_state_text :: "RunState \<Rightarrow> string" where
  "run_state_text Created = ''CREATED''"
| "run_state_text Preparing = ''PREPARING''"
| "run_state_text Interviewing = ''INTERVIEWING''"
| "run_state_text ReadyForArchitecture = ''READY_FOR_ARCHITECTURE''"
| "run_state_text Architecting = ''ARCHITECTING''"
| "run_state_text PlanAdversarialReview = ''PLAN_ADVERSARIAL_REVIEW''"
| "run_state_text PlanRevisionRequired = ''PLAN_REVISION_REQUIRED''"
| "run_state_text PlanReviewRequired = ''PLAN_REVIEW_REQUIRED''"
| "run_state_text ReadyToExecute = ''READY_TO_EXECUTE''"
| "run_state_text Executing = ''EXECUTING''"
| "run_state_text TaskVerification = ''TASK_VERIFICATION''"
| "run_state_text IntegrationReady = ''INTEGRATION_READY''"
| "run_state_text Integrating = ''INTEGRATING''"
| "run_state_text IntegrationVerification = ''INTEGRATION_VERIFICATION''"
| "run_state_text FinalAudit = ''FINAL_AUDIT''"
| "run_state_text HumanReview = ''HUMAN_REVIEW''"
| "run_state_text PublicationReady = ''PUBLICATION_READY''"
| "run_state_text DraftPrCreated = ''DRAFT_PR_CREATED''"
| "run_state_text Completed = ''COMPLETED''"
| "run_state_text Paused = ''PAUSED''"
| "run_state_text Blocked = ''BLOCKED''"
| "run_state_text Stopping = ''STOPPING''"
| "run_state_text Canceled = ''CANCELED''"
| "run_state_text Failed = ''FAILED''"
| "run_state_text Archived = ''ARCHIVED''"

definition parse_run_state :: "string \<Rightarrow> RunState option" where
  "parse_run_state t = find (\<lambda>s. run_state_text s = t) run_states"

lemma run_state_texts_distinct: "distinct (map run_state_text run_states)"
  by code_simp

lemma parse_run_state_iff: "parse_run_state t = Some s \<longleftrightarrow> run_state_text s = t"
  unfolding parse_run_state_def
  by (rule find_by_text [OF run_state_texts_distinct run_states_complete])

lemma parse_run_state_text [simp]: "parse_run_state (run_state_text s) = Some s"
  by (simp add: parse_run_state_iff)

text \<open>
  The states a run can be in before verification: the planning states, and the states that any
  run may be parked or ended in.
\<close>

definition planning_region :: "RunState list" where
  "planning_region =
    [Created, Preparing, Interviewing, ReadyForArchitecture, Architecting, PlanAdversarialReview,
     PlanRevisionRequired, PlanReviewRequired, ReadyToExecute, Executing, Completed, Paused,
     Blocked, Stopping, Canceled, Failed, Archived]"

definition delivery_chain :: "(RunState \<times> RunState list) list" where
  "delivery_chain = map (\<lambda>g. (g, []))
    [TaskVerification, IntegrationReady, Integrating, IntegrationVerification, FinalAudit,
     HumanReview, PublicationReady, DraftPrCreated]"

interpretation delivery: gate_chain run_can_transition_to run_states planning_region delivery_chain
  by unfold_locales (rule run_states_complete, code_simp)

text \<open>
  The moves of a run that is never parked: \<open>Paused\<close> and \<open>Blocked\<close> can be entered from every state
  that is not terminal and left into the middle of the planning phase, so the order of planning
  is a promise about runs that avoid them.
\<close>

definition unparked_move :: "RunState \<Rightarrow> RunState \<Rightarrow> bool" where
  "unparked_move s t \<longleftrightarrow> run_can_transition_to s t \<and> t \<noteq> Paused \<and> t \<noteq> Blocked"

definition approval_chain :: "(RunState \<times> RunState list) list" where
  "approval_chain =
    [(ReadyForArchitecture, []), (Architecting, [PlanRevisionRequired]),
     (PlanAdversarialReview, []), (PlanReviewRequired, []), (ReadyToExecute, [])]"

interpretation approval: gate_chain unparked_move run_states
    "[Created, Preparing, Interviewing, Completed, Stopping, Canceled, Failed, Archived]"
    approval_chain
  by unfold_locales (rule run_states_complete, code_simp)

lemma unparked_run:
  "run_of run_can_transition_to ss \<Longrightarrow> Paused \<notin> set ss \<Longrightarrow> Blocked \<notin> set ss \<Longrightarrow> run_of unparked_move ss"
  by (induction run_can_transition_to ss rule: run_of.induct) (auto simp: unparked_move_def)

text \<open>The whole road of a run that is never parked.\<close>

definition whole_chain :: "(RunState \<times> RunState list) list" where
  "whole_chain = approval_chain @ (Executing, []) # delivery_chain"

interpretation whole: gate_chain unparked_move run_states
    "[Created, Preparing, Interviewing, Completed, Stopping, Canceled, Failed, Archived]"
    whole_chain
  by unfold_locales (rule run_states_complete, code_simp)

text \<open>
  C1. Publication is the end of one road: every run that starts in \<open>Created\<close> and gets a draft pull
  request has passed task verification, integration, integration verification, the final audit and
  human review, in this order, whatever pauses, blocks and returns lie in between. If it was never paused or
  blocked it has, before that and also in order, been ready for architecture, architected, adversarially reviewed, put
  up for plan review, ready to execute and executing. (A run can leave a pause into the middle of planning or into
  execution, so a paused run may skip planning and plan review.)
\<close>

theorem draft_pr_passes_every_gate:
  assumes "run_of run_can_transition_to ss" and "hd ss = Created" and "last ss = DraftPrCreated"
  shows "subseq [TaskVerification, IntegrationReady, Integrating, IntegrationVerification,
           FinalAudit, HumanReview, PublicationReady, DraftPrCreated] ss \<and>
    (Paused \<notin> set ss \<and> Blocked \<notin> set ss \<longrightarrow>
      subseq [ReadyForArchitecture, Architecting, PlanAdversarialReview, PlanReviewRequired, ReadyToExecute, Executing,
        TaskVerification, IntegrationReady, Integrating, IntegrationVerification, FinalAudit, HumanReview,
        PublicationReady, DraftPrCreated] ss)"
proof (intro conjI impI)
  show "subseq [TaskVerification, IntegrationReady, Integrating, IntegrationVerification,
           FinalAudit, HumanReview, PublicationReady, DraftPrCreated] ss"
    using delivery.chain_in_order [of ss] assms by (simp add: delivery_chain_def planning_region_def)
  assume "Paused \<notin> set ss \<and> Blocked \<notin> set ss"
  with assms have "run_of unparked_move ss" by (simp add: unparked_run)
  with whole.chain_in_order [of ss] assms
  show "subseq [ReadyForArchitecture, Architecting, PlanAdversarialReview, PlanReviewRequired, ReadyToExecute, Executing,
        TaskVerification, IntegrationReady, Integrating, IntegrationVerification, FinalAudit, HumanReview,
        PublicationReady, DraftPrCreated] ss"
    by (simp add: whole_chain_def approval_chain_def delivery_chain_def)
qed

definition paused_run :: "RunState list" where
  "paused_run = [Created, Paused, Executing, TaskVerification, IntegrationReady, Integrating,
     IntegrationVerification, FinalAudit, HumanReview, PublicationReady, DraftPrCreated]"

definition straight_run :: "RunState list" where
  "straight_run = [Created, Preparing, ReadyForArchitecture, Architecting, PlanAdversarialReview, PlanReviewRequired,
     ReadyToExecute, Executing, TaskVerification, IntegrationReady, Integrating, IntegrationVerification, FinalAudit,
     Executing, TaskVerification, IntegrationReady, Integrating, IntegrationVerification, FinalAudit, HumanReview,
     PublicationReady, DraftPrCreated]"

lemma sample_runs:
  "run_of run_can_transition_to paused_run" "hd paused_run = Created" "last paused_run = DraftPrCreated"
  "run_of run_can_transition_to straight_run" "hd straight_run = Created" "last straight_run = DraftPrCreated"
  "Paused \<notin> set straight_run \<and> Blocked \<notin> set straight_run"
  by code_simp+

theorem draft_pr_passes_every_gate_witness:
  "subseq [TaskVerification, IntegrationReady, Integrating, IntegrationVerification,
           FinalAudit, HumanReview, PublicationReady, DraftPrCreated] paused_run \<and>
   subseq [ReadyForArchitecture, Architecting, PlanAdversarialReview, PlanReviewRequired, ReadyToExecute, Executing,
           TaskVerification, IntegrationReady, Integrating, IntegrationVerification, FinalAudit, HumanReview,
           PublicationReady, DraftPrCreated] straight_run"
  using draft_pr_passes_every_gate [OF sample_runs(1-3)] draft_pr_passes_every_gate [OF sample_runs(4-6)] sample_runs(7)
  by blast

text \<open>
  A run that is never paused or blocked executes only an approved plan: before it is ready to
  execute it has been architected, adversarially reviewed and put up for plan review, in this
  order.
\<close>

theorem execution_follows_plan_review:
  assumes "run_of run_can_transition_to ss" and "hd ss = Created" and "last ss = ReadyToExecute"
    and "Paused \<notin> set ss" and "Blocked \<notin> set ss"
  shows "subseq [ReadyForArchitecture, Architecting, PlanAdversarialReview, PlanReviewRequired,
           ReadyToExecute] ss"
  using approval.chain_in_order [of ss] unparked_run [of ss] assms
  by (simp add: approval_chain_def)

theorem execution_follows_plan_review_witness:
  "subseq [ReadyForArchitecture, Architecting, PlanAdversarialReview, PlanReviewRequired,
           ReadyToExecute]
     [Created, Preparing, Interviewing, ReadyForArchitecture, Architecting, PlanRevisionRequired,
      Architecting, PlanAdversarialReview, PlanReviewRequired, ReadyToExecute]"
  by (rule execution_follows_plan_review) code_simp+

lemma terminal_run_move:
  "run_is_terminal s \<Longrightarrow> run_can_transition_to s t \<longleftrightarrow> t = s \<or> t = Archived"
  by (cases s; cases t) (simp_all add: run_is_terminal_def run_can_transition_to_def run_edges_def)

text \<open>
  A terminal run stays terminal: whatever updates follow, its state is the one it ended in or
  \<open>Archived\<close>.
\<close>

theorem terminal_run_is_final:
  assumes "run_of run_can_transition_to ss" and "run_is_terminal (hd ss)"
  shows "set ss \<subseteq> {hd ss, Archived}"
  using assms
proof (induction run_can_transition_to ss rule: run_of.induct)
  case (3 s t ss)
  then have "t = s \<or> t = Archived" by (simp add: terminal_run_move)
  moreover have "run_is_terminal t"
    using 3 calculation by (auto simp: run_is_terminal_def)
  ultimately show ?case using 3 by auto
qed simp_all

theorem terminal_run_is_final_witness:
  "set [Failed, Failed, Archived] \<subseteq> {hd [Failed, Failed, Archived], Archived}"
  by (rule terminal_run_is_final) code_simp+

end
