(* ===== verification/Task_Lifecycle.thy ===== *)
theory Task_Lifecycle
  imports Rust_Prelude
begin

text \<open>
  The task state machine of \<^verbatim>\<open>crates/harness-domain/src/lib.rs\<close>: \<open>TaskState\<close>, \<open>is_terminal\<close> and
  \<open>can_transition_to\<close>. As for runs, the table is read as a graph: a task that is integrated has
  been leased, implemented, reviewed and verified by somebody else than its worker, and a task that
  is closed has at least been implemented.
\<close>

section \<open>States and transitions\<close>

datatype TaskState =
    Proposed | Ready | WaitingDependency | WaitingResource | WaitingApproval | Leased | Starting
  | Implementing | ReviewReady | Verifying | ChangesRequested | Verified | IntegrationQueued
  | Integrating | Integrated | CiProven | LiveProven | Closed | Blocked | NeedsHelp | Stalled
  | Interrupted | Failed | Superseded | Canceled

definition task_is_terminal :: "TaskState \<Rightarrow> bool" where
  "task_is_terminal s \<longleftrightarrow> s \<in> set [Closed, Failed, Superseded, Canceled]"

definition task_edges :: "(TaskState list \<times> TaskState list) list" where
  "task_edges =
    [([Proposed], [Ready]),
     ([Ready, WaitingDependency, WaitingResource], [Leased]),
     ([Leased], [Starting]),
     ([Starting], [Implementing]),
     ([Implementing], [ReviewReady]),
     ([Implementing], [Closed]),
     ([ReviewReady], [Verifying]),
     ([Verifying], [ChangesRequested, Verified]),
     ([ChangesRequested], [Ready, Superseded]),
     ([Verified], [IntegrationQueued]),
     ([IntegrationQueued], [Integrating]),
     ([Integrating], [Integrated]),
     ([Integrated], [ChangesRequested, Verified, CiProven, Closed]),
     ([CiProven], [LiveProven, Closed]),
     ([LiveProven], [Closed]),
     ([Blocked, NeedsHelp, Interrupted, Stalled, Failed], [Ready, Superseded])]"

definition task_can_transition_to :: "TaskState \<Rightarrow> TaskState \<Rightarrow> bool" where
  "task_can_transition_to s n =
    (if s = n then True
     else if n \<in> set [WaitingDependency, WaitingResource, WaitingApproval, Blocked, NeedsHelp,
                      Stalled, Interrupted, Failed, Canceled] then \<not> task_is_terminal s
     else list_ex (\<lambda>(as, bs). s \<in> set as \<and> n \<in> set bs) task_edges)"

section \<open>The table as a graph\<close>

definition task_states :: "TaskState list" where
  "task_states =
    [Proposed, Ready, WaitingDependency, WaitingResource, WaitingApproval, Leased, Starting,
     Implementing, ReviewReady, Verifying, ChangesRequested, Verified, IntegrationQueued,
     Integrating, Integrated, CiProven, LiveProven, Closed, Blocked, NeedsHelp, Stalled,
     Interrupted, Failed, Superseded, Canceled]"

lemma task_states_complete: "s \<in> set task_states"
  by (cases s) (simp_all add: task_states_def)

section \<open>States as text\<close>

text \<open>
  \<open>Display\<close> and \<open>FromStr\<close> go through serde's \<open>SCREAMING_SNAKE_CASE\<close> names; the text is what the database
  stores.
\<close>

fun task_state_text :: "TaskState \<Rightarrow> string" where
  "task_state_text Proposed = ''PROPOSED''"
| "task_state_text Ready = ''READY''"
| "task_state_text WaitingDependency = ''WAITING_DEPENDENCY''"
| "task_state_text WaitingResource = ''WAITING_RESOURCE''"
| "task_state_text WaitingApproval = ''WAITING_APPROVAL''"
| "task_state_text Leased = ''LEASED''"
| "task_state_text Starting = ''STARTING''"
| "task_state_text Implementing = ''IMPLEMENTING''"
| "task_state_text ReviewReady = ''REVIEW_READY''"
| "task_state_text Verifying = ''VERIFYING''"
| "task_state_text ChangesRequested = ''CHANGES_REQUESTED''"
| "task_state_text Verified = ''VERIFIED''"
| "task_state_text IntegrationQueued = ''INTEGRATION_QUEUED''"
| "task_state_text Integrating = ''INTEGRATING''"
| "task_state_text Integrated = ''INTEGRATED''"
| "task_state_text CiProven = ''CI_PROVEN''"
| "task_state_text LiveProven = ''LIVE_PROVEN''"
| "task_state_text Closed = ''CLOSED''"
| "task_state_text Blocked = ''BLOCKED''"
| "task_state_text NeedsHelp = ''NEEDS_HELP''"
| "task_state_text Stalled = ''STALLED''"
| "task_state_text Interrupted = ''INTERRUPTED''"
| "task_state_text Failed = ''FAILED''"
| "task_state_text Superseded = ''SUPERSEDED''"
| "task_state_text Canceled = ''CANCELED''"

definition parse_task_state :: "string \<Rightarrow> TaskState option" where
  "parse_task_state t = find (\<lambda>s. task_state_text s = t) task_states"

lemma task_state_texts_distinct: "distinct (map task_state_text task_states)"
  by code_simp

lemma parse_task_state_iff: "parse_task_state t = Some s \<longleftrightarrow> task_state_text s = t"
  unfolding parse_task_state_def
  by (rule find_by_text [OF task_state_texts_distinct task_states_complete])

lemma parse_task_state_text [simp]: "parse_task_state (task_state_text s) = Some s"
  by (simp add: parse_task_state_iff)

text \<open>Where a task can be before it is first leased: waiting, parked, failed or dropped.\<close>

definition unleased_region :: "TaskState list" where
  "unleased_region =
    [Proposed, Ready, WaitingDependency, WaitingResource, WaitingApproval, Blocked, NeedsHelp,
     Stalled, Interrupted, Failed, Superseded, Canceled]"

definition integration_chain :: "(TaskState \<times> TaskState list) list" where
  "integration_chain =
    [(Leased, []), (Starting, []), (Implementing, [Closed]), (ReviewReady, []),
     (Verifying, [ChangesRequested]), (Verified, []), (IntegrationQueued, []), (Integrating, []),
     (Integrated, [])]"

interpretation integration: gate_chain task_can_transition_to task_states unleased_region
    integration_chain
  by unfold_locales (rule task_states_complete, code_simp)

definition closing_chain :: "(TaskState \<times> TaskState list) list" where
  "closing_chain = [(Leased, []), (Starting, []), (Implementing, []), (Closed, [])]"

interpretation closing: gate_chain task_can_transition_to task_states unleased_region closing_chain
  by unfold_locales (rule task_states_complete, code_simp)

text \<open>
  No self-verification: every history of a task that ends in \<open>Integrated\<close> leads through a lease,
  the implementation, the review hand-over, the verifier's \<open>Verifying\<close> and \<open>Verified\<close> and the
  integration queue, in this order.
\<close>

theorem integrated_task_was_verified:
  assumes "run_of task_can_transition_to ss" and "hd ss = Proposed" and "last ss = Integrated"
  shows "subseq [Leased, Starting, Implementing, ReviewReady, Verifying, Verified,
           IntegrationQueued, Integrating, Integrated] ss"
  using integration.chain_in_order [of ss] assms
  by (simp add: integration_chain_def unleased_region_def)

theorem integrated_task_was_verified_witness:
  "subseq [Leased, Starting, Implementing, ReviewReady, Verifying, Verified, IntegrationQueued,
           Integrating, Integrated]
     [Proposed, Ready, Leased, Starting, Implementing, Stalled, Ready, Leased, Starting,
      Implementing, ReviewReady, Verifying, Verified, IntegrationQueued, Integrating, Integrated]"
  by (rule integrated_task_was_verified) code_simp+

text \<open>
  No task is closed without work: every history that ends in \<open>Closed\<close> has leased, started and
  implemented the task before (a read-only investigation closes right after its implementation).
\<close>

theorem closed_task_was_implemented:
  assumes "run_of task_can_transition_to ss" and "hd ss = Proposed" and "last ss = Closed"
  shows "subseq [Leased, Starting, Implementing, Closed] ss"
  using closing.chain_in_order [of ss] assms
  by (simp add: closing_chain_def unleased_region_def)

theorem closed_task_was_implemented_witness:
  "subseq [Leased, Starting, Implementing, Closed]
     [Proposed, WaitingDependency, Leased, Starting, Implementing, Closed]"
  by (rule closed_task_was_implemented) code_simp+

text \<open>
  The states \<open>is_terminal\<close> names: three of them are absorbing, and \<open>Failed\<close> can be left only by
  a retry (\<open>Ready\<close>) or by being superseded.
\<close>

theorem terminal_task_moves:
  assumes "task_is_terminal s"
  shows "task_can_transition_to s t \<longleftrightarrow> t = s \<or> (s = Failed \<and> (t = Ready \<or> t = Superseded))"
  using assms
  by (cases s; cases t)
    (simp_all add: task_is_terminal_def task_can_transition_to_def task_edges_def)

theorem terminal_task_moves_witness:
  "task_is_terminal Failed \<and> task_can_transition_to Failed Ready \<and>
   \<not> task_can_transition_to Failed Canceled"
proof -
  have "task_is_terminal Failed" by (simp add: task_is_terminal_def)
  then show ?thesis using terminal_task_moves [of Failed Ready] terminal_task_moves [of Failed Canceled]
    by simp
qed

end
