(* ===== verification/Identifiers.thy ===== *)
theory Identifiers
  imports Rust_Prelude
begin

text \<open>
  The identifier and digest shapes the contracts share
  (\<^verbatim>\<open>harness-domain/src/lib.rs\<close>, \<^verbatim>\<open>harness-domain/src/operator_control.rs\<close>): bounded tokens over a
  closed byte set, fixed-length hexadecimal digests and relative repository paths, with the
  validators that turn them into errors.

  The lemmas show what the shapes buy: a token is one segment of a path, a digest is pure ASCII,
  and following an accepted repository path never leaves the directory it starts from.
\<close>

section \<open>Safe identifiers\<close>

definition MAX_OPERATOR_CONTROL_IDENTIFIER_LEN :: nat where
  "MAX_OPERATOR_CONTROL_IDENTIFIER_LEN = 160"

definition is_safe_operator_control_identifier :: "string \<Rightarrow> bool" where
  "is_safe_operator_control_identifier v \<longleftrightarrow>
     v \<noteq> [] \<and> length v \<le> MAX_OPERATOR_CONTROL_IDENTIFIER_LEN \<and>
     list_all (\<lambda>b. is_ascii_alphanumeric b \<or> b \<in> set ''_-.:'') v"

definition is_safe_outcome_identifier :: "string \<Rightarrow> nat \<Rightarrow> bool" where
  "is_safe_outcome_identifier v maximum \<longleftrightarrow>
     v \<noteq> [] \<and> length v \<le> maximum \<and>
     list_all (\<lambda>b. is_ascii_alphanumeric b \<or> b \<in> set ''_-.'') v"

definition is_safe_outcome_reason_code :: "string \<Rightarrow> bool" where
  "is_safe_outcome_reason_code v \<longleftrightarrow>
     v \<noteq> [] \<and> length v \<le> 80 \<and>
     list_all (\<lambda>b. is_ascii_lowercase b \<or> is_ascii_digit b \<or> b = CHR ''_'') v"

definition is_lower_hex :: "string \<Rightarrow> nat \<Rightarrow> bool" where
  "is_lower_hex v len \<longleftrightarrow>
     length v = len \<and>
     list_all (\<lambda>b. is_ascii_digit b \<or> (is_ascii_lowercase b \<and> is_ascii_hexdigit b)) v"

section \<open>Validators\<close>

datatype AttentionState =
  Open | Acknowledged | WaitingExternal | Resolved | Declined | Superseded | Invalidated

datatype OperatorControlError =
    InvalidField string string
  | IllegalAttentionTransition AttentionState AttentionState

type_synonym check = "OperatorControlError + unit"

definition MAX_IDENTIFIER_LEN :: nat where
  "MAX_IDENTIFIER_LEN = MAX_OPERATOR_CONTROL_IDENTIFIER_LEN"

definition MAX_TOPOLOGY_IDENTIFIER_LEN :: nat where
  "MAX_TOPOLOGY_IDENTIFIER_LEN = MAX_IDENTIFIER_LEN + length ''attempt:''"

definition MAX_TOPOLOGY_SOURCE_REF_LEN :: nat where
  "MAX_TOPOLOGY_SOURCE_REF_LEN = 512"

definition MAX_TITLE_LEN :: nat where "MAX_TITLE_LEN = 240"
definition MAX_SUMMARY_LEN :: nat where "MAX_SUMMARY_LEN = 4000"
definition MAX_SECTION_ROWS :: nat where "MAX_SECTION_ROWS = 1000"
definition SHA256_HEX_LEN :: nat where "SHA256_HEX_LEN = 64"
definition TRACE_ID_HEX_LEN :: nat where "TRACE_ID_HEX_LEN = 32"
definition SPAN_ID_HEX_LEN :: nat where "SPAN_ID_HEX_LEN = 16"
definition MAX_INVESTIGATION_PAYLOAD_BYTES :: nat where
  "MAX_INVESTIGATION_PAYLOAD_BYTES = 2 * 1024 * 1024"
definition MAX_INVESTIGATION_FINDINGS :: nat where "MAX_INVESTIGATION_FINDINGS = 200"
definition MAX_INVESTIGATION_RECOMMENDATIONS :: nat where "MAX_INVESTIGATION_RECOMMENDATIONS = 100"
definition MAX_INVESTIGATION_DECISIONS :: nat where "MAX_INVESTIGATION_DECISIONS = 100"
definition MAX_INVESTIGATION_REFS :: nat where "MAX_INVESTIGATION_REFS = 1000"
definition MAX_INVESTIGATION_LIST_ITEM_LEN :: nat where "MAX_INVESTIGATION_LIST_ITEM_LEN = 4000"
definition MAX_INVESTIGATION_TIME_BUDGET_MS :: u64 where
  "MAX_INVESTIGATION_TIME_BUDGET_MS = 24 * 60 * 60 * 1000"
definition MAX_INVESTIGATION_TOKEN_BUDGET :: u64 where "MAX_INVESTIGATION_TOKEN_BUDGET = 100000000"
definition MAX_CONDITION_PAYLOAD_BYTES :: nat where "MAX_CONDITION_PAYLOAD_BYTES = 256 * 1024"
definition MAX_CONDITION_SPEC_BYTES :: nat where "MAX_CONDITION_SPEC_BYTES = 64 * 1024"

lemmas limit_defs = MAX_OPERATOR_CONTROL_IDENTIFIER_LEN_def MAX_IDENTIFIER_LEN_def
  MAX_TOPOLOGY_IDENTIFIER_LEN_def MAX_TOPOLOGY_SOURCE_REF_LEN_def MAX_TITLE_LEN_def
  MAX_SUMMARY_LEN_def MAX_SECTION_ROWS_def SHA256_HEX_LEN_def TRACE_ID_HEX_LEN_def
  SPAN_ID_HEX_LEN_def MAX_INVESTIGATION_PAYLOAD_BYTES_def MAX_INVESTIGATION_FINDINGS_def
  MAX_INVESTIGATION_RECOMMENDATIONS_def MAX_INVESTIGATION_DECISIONS_def MAX_INVESTIGATION_REFS_def
  MAX_INVESTIGATION_LIST_ITEM_LEN_def MAX_INVESTIGATION_TIME_BUDGET_MS_def
  MAX_INVESTIGATION_TOKEN_BUDGET_def MAX_CONDITION_PAYLOAD_BYTES_def MAX_CONDITION_SPEC_BYTES_def

definition validate_identifier :: "string \<Rightarrow> string \<Rightarrow> check" where
  "validate_identifier v field =
    (if \<not> is_safe_operator_control_identifier v
     then Inl (InvalidField field
       (if v = [] \<or> length v > MAX_IDENTIFIER_LEN then ''must be non-empty and bounded''
        else ''contains a path-unsafe character''))
     else Inr ())"

definition validate_topology_identifier :: "string \<Rightarrow> string \<Rightarrow> check" where
  "validate_topology_identifier v field =
    (if v = [] \<or> length v > MAX_TOPOLOGY_IDENTIFIER_LEN \<or>
        \<not> list_all (\<lambda>b. is_ascii_alphanumeric b \<or> b \<in> set ''_-.:'') v
     then Inl (InvalidField field ''must be a bounded path-safe topology identifier'')
     else Inr ())"

definition validate_text :: "string \<Rightarrow> string \<Rightarrow> nat \<Rightarrow> check" where
  "validate_text v field maximum =
    (if trim_is_empty v \<or> chars_count v > maximum
     then Inl (InvalidField field ''must be non-empty and bounded'')
     else Inr ())"

definition validate_hex :: "string \<Rightarrow> string \<Rightarrow> nat \<Rightarrow> check" where
  "validate_hex v field len =
    (if length v \<noteq> len \<or> \<not> list_all is_ascii_hexdigit v
     then Inl (InvalidField field ''must be fixed-length hexadecimal'')
     else Inr ())"

definition validate_lower_hex :: "string \<Rightarrow> string \<Rightarrow> nat \<Rightarrow> check" where
  "validate_lower_hex v field len =
    (if length v \<noteq> len \<or>
        \<not> list_all (\<lambda>b. is_ascii_digit b \<or> (97 \<le> byte b \<and> byte b \<le> 102)) v
     then Inl (InvalidField field ''must be fixed-length lowercase hexadecimal'')
     else Inr ())"

definition validate_relative_repo_path :: "string \<Rightarrow> string \<Rightarrow> check" where
  "validate_relative_repo_path v field =
    (if v = [] \<or> length v > MAX_IDENTIFIER_LEN \<or> hd v = CHR ''/'' \<or> byte (hd v) = 92 \<or>
        list_ex (\<lambda>seg. seg = [] \<or> seg = ''.'' \<or> seg = ''..'') (split_on CHR ''/'' v)
     then Inl (InvalidField field ''must be a bounded relative repository path'')
     else Inr ())"

definition validate_bounded_texts :: "string list \<Rightarrow> string \<Rightarrow> nat \<Rightarrow> nat \<Rightarrow> check" where
  "validate_bounded_texts vs field maximum_items maximum_len =
    (if length vs > maximum_items
     then Inl (InvalidField field ''exceeds the bounded item limit'')
     else for_ok (\<lambda>v. validate_text v field maximum_len) vs)"

definition validate_bounded_identifiers :: "string list \<Rightarrow> string \<Rightarrow> nat \<Rightarrow> check" where
  "validate_bounded_identifiers vs field maximum_items =
    (if length vs > maximum_items
     then Inl (InvalidField field ''exceeds the bounded item limit'')
     else for_ok (\<lambda>v. validate_identifier v field) vs)"

definition validate_unique_strings :: "string list \<Rightarrow> string \<Rightarrow> check" where
  "validate_unique_strings vs field =
    (if card (set vs) \<noteq> length vs
     then Inl (InvalidField field ''must not contain duplicate entries'')
     else Inr ())"

text \<open>\<open>parse\<close> of the identifier types the macro \<open>operator_control_id\<close> declares.\<close>

definition parse_id :: "string \<Rightarrow> string \<Rightarrow> OperatorControlError + string" where
  "parse_id type_name v = and_then (validate_identifier v type_name) (\<lambda>_. Inr v)"

section \<open>What a successful validation says\<close>

lemma validate_identifier_ok [simp, ok_iff]:
  "validate_identifier v f = Inr u \<longleftrightarrow> is_safe_operator_control_identifier v"
  by (simp add: validate_identifier_def)

lemma parse_id_ok [simp]:
  "parse_id n v = Inr w \<longleftrightarrow> is_safe_operator_control_identifier v \<and> w = v"
  by (auto simp: parse_id_def and_then_ok)

lemma validate_topology_identifier_ok [simp, ok_iff]:
  "validate_topology_identifier v f = Inr u \<longleftrightarrow>
     v \<noteq> [] \<and> length v \<le> MAX_TOPOLOGY_IDENTIFIER_LEN \<and>
     list_all (\<lambda>b. is_ascii_alphanumeric b \<or> b \<in> set ''_-.:'') v"
  by (auto simp: validate_topology_identifier_def)

lemma validate_text_ok [simp, ok_iff]:
  "validate_text v f m = Inr u \<longleftrightarrow> \<not> trim_is_empty v \<and> chars_count v \<le> m"
  by (simp add: validate_text_def not_less)

lemma validate_hex_ok [simp, ok_iff]:
  "validate_hex v f n = Inr u \<longleftrightarrow> length v = n \<and> list_all is_ascii_hexdigit v"
  by (simp add: validate_hex_def)

lemma lower_hex_byte:
  "is_ascii_digit b \<or> (97 \<le> byte b \<and> byte b \<le> 102) \<longleftrightarrow>
   is_ascii_digit b \<or> (is_ascii_lowercase b \<and> is_ascii_hexdigit b)"
  by (auto simp: ascii_defs)

lemma validate_lower_hex_ok [simp, ok_iff]:
  "validate_lower_hex v f n = Inr u \<longleftrightarrow> is_lower_hex v n"
  by (simp only: validate_lower_hex_def is_lower_hex_def lower_hex_byte) simp

lemma validate_bounded_texts_ok [simp, ok_iff]:
  "validate_bounded_texts vs f n m = Inr u \<longleftrightarrow>
     length vs \<le> n \<and> (\<forall>v \<in> set vs. \<not> trim_is_empty v \<and> chars_count v \<le> m)"
  by (simp add: validate_bounded_texts_def not_less)

lemma validate_bounded_identifiers_ok [simp, ok_iff]:
  "validate_bounded_identifiers vs f n = Inr u \<longleftrightarrow>
     length vs \<le> n \<and> (\<forall>v \<in> set vs. is_safe_operator_control_identifier v)"
  by (simp add: validate_bounded_identifiers_def not_less)

lemma validate_unique_strings_ok [simp, ok_iff]:
  "validate_unique_strings vs f = Inr u \<longleftrightarrow> distinct vs"
  by (auto simp: validate_unique_strings_def card_distinct distinct_card)

text \<open>The all-zero digests that concrete records carry.\<close>

definition zeros :: "nat \<Rightarrow> string" where
  "zeros n = replicate n (CHR ''0'')"

lemma zeros_lower_hex [simp]: "is_lower_hex (zeros n) m \<longleftrightarrow> n = m"
  by (auto simp: is_lower_hex_def zeros_def ascii_defs list_all_iff)

lemma zeros_hexdigits [simp]: "list_all is_ascii_hexdigit (zeros n)" "length (zeros n) = n"
  by (auto simp: zeros_def ascii_defs list_all_iff)

lemmas safe_eval = is_safe_operator_control_identifier_def limit_defs ascii_defs

section \<open>Identifiers are single path segments\<close>

lemma token_byte_ascii:
  assumes "is_ascii_alphanumeric b \<or> b \<in> set ''_-.:''"
  shows "32 < byte b \<and> byte b < 127 \<and> b \<noteq> CHR ''/'' \<and> byte b \<noteq> 92"
  using assms by (auto simp: ascii_defs)

text \<open>
  An identifier is one path segment: an accepted identifier is printable ASCII of at most 160
  bytes, and splitting it at path separators gives the identifier itself.
\<close>

theorem safe_identifier_is_one_segment:
  assumes "validate_identifier v f = Inr ()"
  shows "split_on CHR ''/'' v = [v] \<and> v \<noteq> [] \<and> length v \<le> 160 \<and>
         (\<forall>b \<in> set v. 32 < byte b \<and> byte b < 127)"
proof -
  have all: "\<forall>b \<in> set v. is_ascii_alphanumeric b \<or> b \<in> set ''_-.:''"
    using assms by (simp add: is_safe_operator_control_identifier_def list_all_iff)
  then have "CHR ''/'' \<notin> set v" using token_byte_ascii by blast
  then show ?thesis
    using assms all token_byte_ascii
    by (auto simp: split_on_absent is_safe_operator_control_identifier_def limit_defs)
qed

theorem safe_identifier_is_one_segment_witness:
  "split_on CHR ''/'' ''attn_01'' = [''attn_01''] \<and> length ''attn_01'' \<le> 160 \<and> byte CHR ''a'' < 127"
proof -
  have "validate_identifier ''attn_01'' ''id'' = Inr ()"
    by (simp add: is_safe_operator_control_identifier_def limit_defs ascii_defs)
  from safe_identifier_is_one_segment [OF this] show ?thesis by simp
qed

section \<open>Relative repository paths\<close>

text \<open>
  What an operating system does with a relative path: starting in a directory given by its list of
  names, \<open>..\<close> goes up (and stays at the root), \<open>.\<close> and empty segments stay, a name goes down.
\<close>

fun walk :: "string list \<Rightarrow> string list \<Rightarrow> string list" where
  "walk dir [] = dir"
| "walk dir (seg # segs) =
    (if seg = [] \<or> seg = ''.'' then walk dir segs
     else if seg = ''..'' then walk (butlast dir) segs
     else walk (dir @ [seg]) segs)"

lemma walk_names:
  "(\<forall>seg \<in> set segs. seg \<noteq> [] \<and> seg \<noteq> ''.'' \<and> seg \<noteq> ''..'') \<Longrightarrow> walk dir segs = dir @ segs"
  by (induction segs arbitrary: dir) auto

text \<open>
  An accepted repository path stays inside the repository: followed segment by segment from any
  directory, it ends at that directory extended by its own segments, so it never passes through a
  parent; and its segments joined again give the path.
\<close>

theorem repo_path_stays_below:
  assumes "validate_relative_repo_path v f = Inr ()"
  shows "walk dir (split_on CHR ''/'' v) = dir @ split_on CHR ''/'' v \<and>
         join_with CHR ''/'' (split_on CHR ''/'' v) = v \<and> hd v \<noteq> CHR ''/''"
proof -
  have "\<forall>seg \<in> set (split_on CHR ''/'' v). seg \<noteq> [] \<and> seg \<noteq> ''.'' \<and> seg \<noteq> ''..''"
    and "hd v \<noteq> CHR ''/''"
    using assms by (auto simp: validate_relative_repo_path_def list_ex_iff split: if_splits)
  then show ?thesis by (simp add: walk_names join_split)
qed

theorem repo_path_stays_below_witness:
  "walk [''repo''] (split_on CHR ''/'' ''src/main.rs'') = [''repo''] @ split_on CHR ''/'' ''src/main.rs'' \<and>
   join_with CHR ''/'' (split_on CHR ''/'' ''src/main.rs'') = ''src/main.rs'' \<and>
   hd ''src/main.rs'' \<noteq> CHR ''/''"
proof -
  have "validate_relative_repo_path ''src/main.rs'' ''path'' = Inr ()"
    by (simp add: validate_relative_repo_path_def limit_defs byte_def)
  then show ?thesis by (rule repo_path_stays_below)
qed

end
