(* ===== verification/Improvement_Taxonomy.thy ===== *)
theory Improvement_Taxonomy
  imports Identifiers
begin

text \<open>
  The closed vocabularies of self-improvement and budgets in \<^verbatim>\<open>harness-domain/src/lib.rs\<close>: the
  schemas, record kinds and record states, the runtime status derived from the configuration, the
  edit dimensions with their fixed risk classes, and the token budget classes.

  The lemmas show that the candidate boundary admits exactly the Green and Amber dimensions under
  their own label, that the runtime status never enables more than observation, and that the
  budget classes are monotone in use and exact below the saturation point.
\<close>

section \<open>Record kinds, schemas and states\<close>

datatype ImprovementRecordKind =
    Trace | Outcome | Failure | Taskset | EvalCase | GraderBundle | PolicyBundle | Candidate
  | AvoEpisode | Experiment | Promotion | Rollback | Knowledge

datatype ImprovementSchema =
    TraceV1 | TraceV2 | OutcomeV1 | TasksetV1 | EvalCaseV1 | GraderBundleV1 | PolicyBundleV1
  | ImprovementCandidateV1 | AvoEpisodeV1 | ExperimentV1 | KnowledgeItemV1 | PromotionDecisionV1
  | RollbackV1

fun schema_as_str :: "ImprovementSchema \<Rightarrow> string" where
  "schema_as_str TraceV1 = ''harness.trace.v1''"
| "schema_as_str TraceV2 = ''harness.trace.v2''"
| "schema_as_str OutcomeV1 = ''harness.outcome.v1''"
| "schema_as_str TasksetV1 = ''harness.taskset.v1''"
| "schema_as_str EvalCaseV1 = ''harness.eval-case.v1''"
| "schema_as_str GraderBundleV1 = ''harness.grader-bundle.v1''"
| "schema_as_str PolicyBundleV1 = ''harness.policy-bundle.v1''"
| "schema_as_str ImprovementCandidateV1 = ''harness.improvement-candidate.v1''"
| "schema_as_str AvoEpisodeV1 = ''harness.avo-episode.v1''"
| "schema_as_str ExperimentV1 = ''harness.experiment.v1''"
| "schema_as_str KnowledgeItemV1 = ''harness.knowledge-item.v1''"
| "schema_as_str PromotionDecisionV1 = ''harness.promotion-decision.v1''"
| "schema_as_str RollbackV1 = ''harness.rollback.v1''"

fun schema_kind :: "ImprovementSchema \<Rightarrow> ImprovementRecordKind" where
  "schema_kind TraceV1 = Trace"
| "schema_kind TraceV2 = Trace"
| "schema_kind OutcomeV1 = Outcome"
| "schema_kind TasksetV1 = Taskset"
| "schema_kind EvalCaseV1 = EvalCase"
| "schema_kind GraderBundleV1 = GraderBundle"
| "schema_kind PolicyBundleV1 = PolicyBundle"
| "schema_kind ImprovementCandidateV1 = Candidate"
| "schema_kind AvoEpisodeV1 = AvoEpisode"
| "schema_kind ExperimentV1 = Experiment"
| "schema_kind KnowledgeItemV1 = Knowledge"
| "schema_kind PromotionDecisionV1 = Promotion"
| "schema_kind RollbackV1 = Rollback"

datatype ImprovementState =
    Captured | Observed | Proposed | Validated | Rejected | ExperimentReady | Superseded | Active
  | Quarantined | Retired | Revoked | Running | Passed | Failed | Inconclusive | Promoted
  | RolledBack | Requested | Completed | Candidate | Expired | Contradicted | Decided

fun allowed_for :: "ImprovementState \<Rightarrow> ImprovementRecordKind \<Rightarrow> bool" where
  "allowed_for s Trace = (s \<in> set [Captured])"
| "allowed_for s Outcome = (s \<in> set [Observed, Superseded])"
| "allowed_for s Failure = (s \<in> set [Observed, Superseded])"
| "allowed_for s Taskset = (s \<in> set [Proposed, Active, Quarantined, Retired, Superseded, Revoked])"
| "allowed_for s EvalCase = (s \<in> set [Proposed, Active, Quarantined, Retired, Superseded, Revoked])"
| "allowed_for s GraderBundle = (s \<in> set [Proposed, Active, Quarantined, Retired, Superseded, Revoked])"
| "allowed_for s PolicyBundle = (s \<in> set [Proposed, Quarantined, Retired, Superseded, Revoked])"
| "allowed_for s ImprovementRecordKind.Candidate =
    (s \<in> set [Proposed, Validated, Rejected, ExperimentReady, Superseded])"
| "allowed_for s AvoEpisode = (s \<in> set [Proposed, Running, Passed, Failed, Inconclusive])"
| "allowed_for s Experiment =
    (s \<in> set [Proposed, Validated, Running, Passed, Failed, Inconclusive, Promoted, RolledBack, Retired])"
| "allowed_for s Promotion = (s \<in> set [Decided])"
| "allowed_for s Rollback = (s \<in> set [Requested, Completed])"
| "allowed_for s Knowledge =
    (s \<in> set [ImprovementState.Candidate, Active, Expired, Contradicted, Superseded, Rejected])"

section \<open>Budgets\<close>

datatype BudgetState = Normal | Warning | Critical | Exhausted

definition budget_state :: "u64 \<Rightarrow> u64 \<Rightarrow> BudgetState" where
  "budget_state used budget =
    (if budget = 0 \<or> used \<ge> budget then Exhausted
     else if sat_mul used 100 \<ge> sat_mul budget 90 then Critical
     else if sat_mul used 100 \<ge> sat_mul budget 70 then Warning
     else Normal)"

fun budget_rank :: "BudgetState \<Rightarrow> nat" where
  "budget_rank Normal = 0"
| "budget_rank Warning = 1"
| "budget_rank Critical = 2"
| "budget_rank Exhausted = 3"

instantiation BudgetState :: linorder
begin

definition less_eq_BudgetState :: "BudgetState \<Rightarrow> BudgetState \<Rightarrow> bool" where
  "less_eq_BudgetState a b \<longleftrightarrow> budget_rank a \<le> budget_rank b"

definition less_BudgetState :: "BudgetState \<Rightarrow> BudgetState \<Rightarrow> bool" where
  "less_BudgetState a b \<longleftrightarrow> budget_rank a < budget_rank b"

instance
proof
  fix a b :: BudgetState
  show "a \<le> b \<Longrightarrow> b \<le> a \<Longrightarrow> a = b"
    by (cases a; cases b) (simp_all add: less_eq_BudgetState_def)
qed (auto simp: less_eq_BudgetState_def less_BudgetState_def)

end

section \<open>The runtime status\<close>

datatype ImprovementMode = Disabled | ObserveOnly

record ImprovementRuntimeStatus =
  configured_mode :: ImprovementMode
  effective_mode :: ImprovementMode
  anchor_sha256 :: string
  configured_anchor_sha256 :: string
  anchor_match :: bool
  observation_enabled :: bool
  candidate_generation_enabled :: bool
  candidate_execution_enabled :: bool
  status_detail :: "string option"

definition from_config ::
  "ImprovementMode \<Rightarrow> string \<Rightarrow> string \<Rightarrow> bool \<Rightarrow> ImprovementRuntimeStatus" where
  "from_config mode anchor configured_anchor matches =
    (let observe = (matches \<and> mode = ObserveOnly) in
     \<lparr>configured_mode = mode,
      effective_mode = (if observe then ObserveOnly else Disabled),
      anchor_sha256 = anchor,
      configured_anchor_sha256 = configured_anchor,
      anchor_match = matches,
      observation_enabled = observe,
      candidate_generation_enabled = False,
      candidate_execution_enabled = False,
      status_detail = (if \<not> matches then
          Some ''frozen safety-anchor digest mismatch; improvement capabilities are disabled''
        else None)\<rparr>)"

section \<open>Edit dimensions\<close>

datatype ImprovementDimension =
    ContextSourceOrdering | TokenBudget | ReadOnlyProbeParameters | RetryTiming
  | CacheSummaryPolicy | RolePrompts | PlanningContracts | Skills | ProceduralMemory
  | ModelEffortRouting | DelegationStrategy | ValidatorSelection | ValidatorThresholds
  | KnowledgeRetrieval | CompactionHandoff | ControllerStateMachines | GitWorktreePathCustody
  | SandboxNetworkPolicy | ApprovalSemantics | SecretHandlingRedaction | EvidenceResultSemantics
  | TasksetHoldoutAccess | GraderPromotionIsolation | ExternalWritesPublicationMerge
  | DatabaseIntegrityMigration | FrozenSafetyAnchor

datatype ImprovementRiskClass = Green | Amber | Red

definition risk_class :: "ImprovementDimension \<Rightarrow> ImprovementRiskClass" where
  "risk_class d =
    (if d \<in> set [ContextSourceOrdering, TokenBudget, ReadOnlyProbeParameters, RetryTiming,
                 CacheSummaryPolicy] then Green
     else if d \<in> set [RolePrompts, PlanningContracts, Skills, ProceduralMemory,
                      ModelEffortRouting, DelegationStrategy, ValidatorSelection,
                      ValidatorThresholds, KnowledgeRetrieval, CompactionHandoff] then Amber
     else Red)"

datatype CandidateEditValidationError =
    UnknownDimension string
  | ProtectedDimension string
  | ContradictoryRiskClass string ImprovementRiskClass ImprovementRiskClass

definition dimension_names :: "(string \<times> ImprovementDimension) list" where
  "dimension_names =
    [(''context_source_ordering'', ContextSourceOrdering),
     (''token_budget'', TokenBudget),
     (''read_only_probe_parameters'', ReadOnlyProbeParameters),
     (''retry_timing'', RetryTiming),
     (''cache_summary_policy'', CacheSummaryPolicy),
     (''role_prompts'', RolePrompts),
     (''planning_contracts'', PlanningContracts),
     (''skills'', Skills),
     (''procedural_memory'', ProceduralMemory),
     (''model_effort_routing'', ModelEffortRouting),
     (''delegation_strategy'', DelegationStrategy),
     (''validator_selection'', ValidatorSelection),
     (''validator_thresholds'', ValidatorThresholds),
     (''knowledge_retrieval'', KnowledgeRetrieval),
     (''compaction_handoff'', CompactionHandoff),
     (''controller_state_machines'', ControllerStateMachines),
     (''git_worktree_path_custody'', GitWorktreePathCustody),
     (''sandbox_network_policy'', SandboxNetworkPolicy),
     (''approval_semantics'', ApprovalSemantics),
     (''secret_handling_redaction'', SecretHandlingRedaction),
     (''evidence_result_semantics'', EvidenceResultSemantics),
     (''taskset_holdout_access'', TasksetHoldoutAccess),
     (''grader_promotion_isolation'', GraderPromotionIsolation),
     (''external_writes_publication_merge'', ExternalWritesPublicationMerge),
     (''database_integrity_migration'', DatabaseIntegrityMigration),
     (''frozen_safety_anchor'', FrozenSafetyAnchor)]"

definition dimension_from_str :: "string \<Rightarrow> CandidateEditValidationError + ImprovementDimension" where
  "dimension_from_str v =
    (case map_of dimension_names v of
       Some d \<Rightarrow> Inr d
     | None \<Rightarrow> Inl (UnknownDimension v))"

definition validate_candidate_edit_dimension ::
  "string \<Rightarrow> CandidateEditValidationError + ImprovementDimension" where
  "validate_candidate_edit_dimension v =
    and_then (dimension_from_str v) (\<lambda>d.
      if risk_class d = Red then Inl (ProtectedDimension v) else Inr d)"

definition validate_candidate_edit ::
  "string \<Rightarrow> ImprovementRiskClass \<Rightarrow> CandidateEditValidationError + ImprovementDimension" where
  "validate_candidate_edit v r =
    and_then (validate_candidate_edit_dimension v) (\<lambda>d.
      let expected = risk_class d in
      if r \<noteq> expected then Inl (ContradictoryRiskClass v expected r) else Inr d)"

section \<open>Properties\<close>

lemma dimension_names_complete: "d \<in> snd ` set dimension_names"
proof -
  have "d \<in> set (map snd dimension_names)"
    unfolding dimension_names_def list.map prod.sel by (cases d; simp only: list.set insert_iff refl simp_thms)
  then show ?thesis by simp
qed

lemma dimension_names_distinct: "distinct (map fst dimension_names)" "distinct (map snd dimension_names)"
  by (simp_all add: dimension_names_def)

lemma dimension_from_str_iff: "dimension_from_str v = Inr d \<longleftrightarrow> (v, d) \<in> set dimension_names"
  unfolding map_of_eq_Some_iff [OF dimension_names_distinct(1), symmetric]
  by (simp add: dimension_from_str_def split: option.split)

text \<open>
  The candidate boundary is exact: an edit is accepted as dimension \<open>d\<close> if and only if the name
  is the one name of \<open>d\<close>, the label is the fixed risk class of \<open>d\<close>, and that class is not Red. Every
  dimension has exactly one name.
\<close>

theorem candidate_edit_boundary:
  "(validate_candidate_edit v r = Inr d \<longleftrightarrow>
      dimension_from_str v = Inr d \<and> risk_class d = r \<and> r \<noteq> Red) \<and>
   (\<exists>!n. dimension_from_str n = Inr d)"
proof
  show "validate_candidate_edit v r = Inr d \<longleftrightarrow>
      dimension_from_str v = Inr d \<and> risk_class d = r \<and> r \<noteq> Red"
    by (auto simp: validate_candidate_edit_def validate_candidate_edit_dimension_def and_then_ok
        Let_def split: if_splits)
  obtain n where n: "(n, d) \<in> set dimension_names" using dimension_names_complete [of d] by force
  moreover have "m = n" if "(m, d) \<in> set dimension_names" for m
    using n that dimension_names_distinct(2) inj_onD [of snd "set dimension_names" "(m, d)" "(n, d)"]
    by (simp add: distinct_map)
  ultimately show "\<exists>!n. dimension_from_str n = Inr d" by (auto simp: dimension_from_str_iff)
qed

text \<open>
  The runtime status never enables more than observation: candidate generation and execution
  are off for every configuration, observation needs a matching safety anchor, and a mismatched
  anchor forces the disabled mode.
\<close>

theorem runtime_status_is_observe_only:
  "\<not> candidate_generation_enabled (from_config m a c b) \<and>
   \<not> candidate_execution_enabled (from_config m a c b) \<and>
   (observation_enabled (from_config m a c b) \<longleftrightarrow> b \<and> m = ObserveOnly) \<and>
   (effective_mode (from_config m a c b) = ObserveOnly \<longleftrightarrow> observation_enabled (from_config m a c b)) \<and>
   (status_detail (from_config m a c b) = None \<longleftrightarrow> b)"
  by (simp add: from_config_def Let_def)

lemma sat_mul_mono: "a \<le> b \<Longrightarrow> sat_mul a c \<le> sat_mul b c" for a b c :: u64
  by (auto simp: word_le_nat_alt unat_sat_mul min_def) (meson le_trans mult_le_mono1)

text \<open>
  Using more never improves the budget class, for every pair of 64-bit counters, saturation
  included; and the class is Exhausted exactly when the budget is zero or used up.
\<close>

theorem budget_state_monotone:
  assumes "used \<le> used'"
  shows "budget_state used budget \<le> budget_state used' budget \<and>
         (budget_state used budget = Exhausted \<longleftrightarrow> budget = 0 \<or> budget \<le> used)"
proof
  have "sat_mul used 100 \<le> sat_mul used' 100" using assms by (rule sat_mul_mono)
  then show "budget_state used budget \<le> budget_state used' budget"
    using assms by (auto simp: budget_state_def less_eq_BudgetState_def)
  show "budget_state used budget = Exhausted \<longleftrightarrow> budget = 0 \<or> budget \<le> used"
    by (simp add: budget_state_def)
qed

theorem budget_state_monotone_witness:
  "budget_state 69 100 \<le> budget_state 90 100 \<and>
   (budget_state 69 100 = Exhausted \<longleftrightarrow> (100 :: u64) = 0 \<or> (100 :: u64) \<le> 69)"
  by (rule budget_state_monotone) simp

text \<open>
  Below the saturation point (a budget of at most \<open>(2 ^ 64 - 1) div 100\<close>) the classes are the
  exact percentages: Critical from 90 percent, Warning from 70 percent, Normal below.
\<close>

theorem budget_state_exact:
  assumes "unat budget * 100 < 2 ^ 64" and "used < budget"
  shows "(budget_state used budget = Critical \<longleftrightarrow> unat budget * 90 \<le> unat used * 100) \<and>
         (budget_state used budget = Warning \<longleftrightarrow>
            unat budget * 70 \<le> unat used * 100 \<and> unat used * 100 < unat budget * 90) \<and>
         (budget_state used budget = Normal \<longleftrightarrow> unat used * 100 < unat budget * 70)"
proof -
  have lt: "unat used < unat budget" using assms(2) by (simp add: word_less_nat_alt)
  have "unat (sat_mul used 100) = unat used * 100" "unat (sat_mul budget 90) = unat budget * 90"
    "unat (sat_mul budget 70) = unat budget * 70"
    using assms(1) lt by (simp_all add: unat_sat_mul)
  moreover have "budget \<noteq> 0" "\<not> budget \<le> used" using assms(2) by auto
  ultimately show ?thesis
    using lt by (auto simp: budget_state_def word_le_nat_alt)
qed

theorem budget_state_exact_witness:
  "budget_state 90 100 = Critical \<and> budget_state 70 100 = Warning \<and> budget_state 69 100 = Normal"
  using budget_state_exact [of 100 90] budget_state_exact [of 100 70] budget_state_exact [of 100 69]
  by simp

text \<open>
  Above it the products saturate and the classes overstate the use: a budget of \<open>2 ^ 63\<close> tokens
  of which half is used is reported Critical, although 50 percent is below both thresholds.
\<close>

theorem budget_state_saturates:
  "budget_state (2 ^ 62) (2 ^ 63) = Critical \<and> 2 * unat (2 ^ 62 :: u64) = unat (2 ^ 63 :: u64)"
  by (simp add: budget_state_def sat_mul_def)

end
