(* ===== verification/Outcome_Contract.thy ===== *)
theory Outcome_Contract
  imports Identifiers
begin

text \<open>
  The outcome observation contract of \<^verbatim>\<open>harness-domain/src/lib.rs\<close>: the finite label space of each
  outcome dimension, the operator's subset of it, and the persisted wire record \<open>OutcomeWireV1\<close> with
  its validator.

  The lemmas show that a code fixes its classification, that the operator boundary is exactly the
  human dimensions, and that in a valid wire record the confidence and the source are determined by
  the dimension, so that no operator assertion can pass as validation, evidence or CI authority.
\<close>

section \<open>Labels\<close>

datatype OutcomeDimension =
    OperatorAcceptance | OperatorCorrection | Validation | Evidence | VerifierFindings
  | CompletionState | ResourceUse | CiRequiredChecks | ReviewRegression | PrReopened | Rollback
  | DownstreamRegression

datatype OutcomeClassification = Positive | Negative | Neutral | Unknown

datatype OutcomeLabelValidationError =
    NotOperatorDimension OutcomeDimension
  | InvalidCode OutcomeDimension OutcomeClassification string

datatype OutcomeWireValidationError =
    InvalidWireField string
  | InvalidLabel OutcomeLabelValidationError

definition outcome_labels ::
  "(OutcomeDimension \<times> OutcomeClassification \<times> string list) list" where
  "outcome_labels =
    [(OperatorAcceptance, Positive, [''accepted_without_correction'', ''accepted_after_correction'']),
     (OperatorAcceptance, Negative, [''changes_requested'', ''abandoned_wrong'', ''abandoned_cost'']),
     (OperatorCorrection, Neutral, [''correction_recorded'']),
     (OperatorCorrection, Unknown, [''correction_not_available'']),
     (ReviewRegression, Negative, [''review_regression'']),
     (ReviewRegression, Positive, [''review_no_regression'']),
     (PrReopened, Negative, [''reopened'']),
     (PrReopened, Positive, [''not_reopened'']),
     (Rollback, Negative, [''rollback_recorded'']),
     (Rollback, Neutral, [''no_rollback'']),
     (DownstreamRegression, Negative, [''downstream_regression'']),
     (DownstreamRegression, Positive, [''no_downstream_regression'']),
     (Validation, Positive, [''passed'']),
     (Validation, Negative, [''failed'']),
     (Validation, Unknown, [''unavailable'']),
     (Evidence, Positive, [''proved'']),
     (Evidence, Negative, [''unproved'']),
     (Evidence, Unknown, [''unavailable'']),
     (VerifierFindings, Positive, [''none'']),
     (VerifierFindings, Negative, [''blocking'', ''nonblocking'']),
     (VerifierFindings, Unknown, [''unavailable'']),
     (CompletionState, Neutral, [''completed'', ''blocked'', ''stopped'']),
     (CompletionState, Unknown, [''unknown'']),
     (ResourceUse, Neutral, [''within_budget'']),
     (ResourceUse, Negative, [''budget_exceeded'']),
     (ResourceUse, Unknown, [''unavailable'']),
     (CiRequiredChecks, Positive, [''passed'']),
     (CiRequiredChecks, Negative, [''failed'', ''head_mismatch'']),
     (CiRequiredChecks, Unknown, [''unavailable''])]"

definition validate_outcome_label ::
  "OutcomeDimension \<Rightarrow> OutcomeClassification \<Rightarrow> string \<Rightarrow> OutcomeLabelValidationError + unit" where
  "validate_outcome_label d c code =
    (if list_ex (\<lambda>(d', c', codes). d = d' \<and> c = c' \<and> code \<in> set codes) outcome_labels
     then Inr () else Inl (InvalidCode d c code))"

definition validate_operator_outcome_label ::
  "OutcomeDimension \<Rightarrow> OutcomeClassification \<Rightarrow> string \<Rightarrow> OutcomeLabelValidationError + unit" where
  "validate_operator_outcome_label d c code =
    (if d \<notin> set [OperatorAcceptance, OperatorCorrection, ReviewRegression, PrReopened, Rollback,
                  DownstreamRegression]
     then Inl (NotOperatorDimension d)
     else validate_outcome_label d c code)"

section \<open>The wire record\<close>

datatype OutcomeConfidence = Authoritative | OperatorAsserted

datatype OutcomeSubjectKind = Run | TaskAttempt | Publication

datatype OutcomeSourceKind =
    HumanAction | SourceValidation | SourceEvidence | Finding | SourcePublication | DomainEvent

record OutcomeSubject =
  subject_kind :: OutcomeSubjectKind
  subject_id :: string

record OutcomeSource =
  source_kind :: OutcomeSourceKind
  record_id :: string
  record_sha256 :: string
  source_sha :: "string option"
  source_domain_event_id :: "i64 option"

record OutcomeWireV1 =
  ow_schema :: string
  ow_outcome_id :: string
  ow_run_id :: string
  ow_subject :: OutcomeSubject
  ow_dimension :: OutcomeDimension
  ow_classification :: OutcomeClassification
  ow_code :: string
  ow_observed_at :: i64
  ow_confidence :: OutcomeConfidence
  ow_source :: OutcomeSource
  ow_supersedes :: "string list"
  ow_reason_code :: "string option"
  ow_correction_artifact_id :: "string option"
  ow_redactor_version :: string
  ow_free_text_redacted :: bool

definition source_is_allowed ::
  "OutcomeDimension \<Rightarrow> OutcomeConfidence \<Rightarrow> OutcomeSourceKind \<Rightarrow> bool" where
  "source_is_allowed d c k =
    (d = Validation \<and> c = Authoritative \<and> k = SourceValidation
     \<or> d = Evidence \<and> c = Authoritative \<and> k = SourceEvidence
     \<or> d = VerifierFindings \<and> c = Authoritative \<and> (k = Finding \<or> k = DomainEvent)
     \<or> (d = CompletionState \<or> d = ResourceUse) \<and> c = Authoritative \<and> k = DomainEvent
     \<or> d = CiRequiredChecks \<and> c = Authoritative \<and> (k = SourceValidation \<or> k = SourceEvidence)
     \<or> (d = OperatorAcceptance \<or> d = OperatorCorrection \<or> d = ReviewRegression \<or> d = PrReopened
        \<or> d = Rollback \<or> d = DownstreamRegression) \<and> c = OperatorAsserted \<and> k = HumanAction)"

definition validate_outcome_wire :: "OutcomeWireV1 \<Rightarrow> OutcomeWireValidationError + unit" where
  "validate_outcome_wire w = all_ok
    [ensure (ow_schema w = ''harness.outcome.v1'') (InvalidWireField ''schema''),
     ensure (is_safe_outcome_identifier (ow_outcome_id w) 128) (InvalidWireField ''outcome_id''),
     ensure (is_safe_operator_control_identifier (ow_run_id w)) (InvalidWireField ''run_id''),
     ensure (is_safe_operator_control_identifier (subject_id (ow_subject w)))
       (InvalidWireField ''subject.id''),
     map_err InvalidLabel
       (validate_outcome_label (ow_dimension w) (ow_classification w) (ow_code w)),
     ensure (source_is_allowed (ow_dimension w) (ow_confidence w) (source_kind (ow_source w)))
       (InvalidWireField ''dimension/confidence/source''),
     ensure (\<not> ow_observed_at w < 0) (InvalidWireField ''observed_at''),
     ensure (\<not> (\<not> is_safe_outcome_identifier (record_id (ow_source w)) 128
               \<or> \<not> is_lower_hex (record_sha256 (ow_source w)) 64
               \<or> is_some_and (\<lambda>v. \<not> is_lower_hex v 40) (source_sha (ow_source w))
               \<or> is_some_and (\<lambda>v. v \<le> 0) (source_domain_event_id (ow_source w))))
       (InvalidWireField ''source''),
     ensure (\<not> (list_ex (\<lambda>v. \<not> is_safe_outcome_identifier v 128) (ow_supersedes w)
               \<or> is_some_and (\<lambda>v. \<not> is_safe_outcome_reason_code v) (ow_reason_code w)
               \<or> is_some_and (\<lambda>v. \<not> is_safe_outcome_identifier v 128) (ow_correction_artifact_id w)
               \<or> \<not> is_safe_outcome_identifier (ow_redactor_version w) 128))
       (InvalidWireField ''bounded identifiers'')]"

section \<open>Properties\<close>

lemma validate_outcome_label_ok [ok_iff]:
  "validate_outcome_label d c code = Inr u \<longleftrightarrow>
     (\<exists>codes. (d, c, codes) \<in> set outcome_labels \<and> code \<in> set codes)"
  by (auto simp: validate_outcome_label_def list_ex_iff)

definition operator_dimensions :: "OutcomeDimension list" where
  "operator_dimensions =
    [OperatorAcceptance, OperatorCorrection, ReviewRegression, PrReopened, Rollback,
     DownstreamRegression]"

lemma validate_operator_outcome_label_ok [ok_iff]:
  "validate_operator_outcome_label d c code = Inr u \<longleftrightarrow>
     d \<in> set operator_dimensions \<and> validate_outcome_label d c code = Inr ()"
  by (simp add: validate_operator_outcome_label_def operator_dimensions_def)

text \<open>The label space as a table from dimension and code to classification.\<close>

definition label_table :: "((OutcomeDimension \<times> string) \<times> OutcomeClassification) list" where
  "label_table = concat (map (\<lambda>(d, c, codes). map (\<lambda>code. ((d, code), c)) codes) outcome_labels)"

lemma label_table_distinct: "distinct (map fst label_table)"
  by (simp add: label_table_def outcome_labels_def)

text \<open>
  A code fixes its classification: the label check accepts exactly the graph of a function from
  dimension and code to classification, so no code of a dimension is ever read both, say, as
  positive and as negative.
\<close>

theorem outcome_code_fixes_classification:
  "validate_outcome_label d c code = Inr () \<longleftrightarrow> map_of label_table (d, code) = Some c"
proof -
  have "validate_outcome_label d c code = Inr () \<longleftrightarrow> ((d, code), c) \<in> set label_table"
    unfolding validate_outcome_label_ok label_table_def
    by (auto intro!: bexI [where x = "(d, c, _)"])
  then show ?thesis by (simp add: map_of_eq_Some_iff [OF label_table_distinct])
qed

lemma wire_ok_parts:
  assumes "validate_outcome_wire w = Inr ()"
  shows "validate_outcome_label (ow_dimension w) (ow_classification w) (ow_code w) = Inr ()"
    and "source_is_allowed (ow_dimension w) (ow_confidence w) (source_kind (ow_source w))"
    and "0 \<le> ow_observed_at w" and "is_lower_hex (record_sha256 (ow_source w)) 64"
  using assms by (simp_all add: validate_outcome_wire_def)

lemma source_allowed_operator:
  "source_is_allowed d c k \<Longrightarrow> c = OperatorAsserted \<longleftrightarrow> d \<in> set operator_dimensions"
  "source_is_allowed d c k \<Longrightarrow> k = HumanAction \<longleftrightarrow> d \<in> set operator_dimensions"
  by (cases d; cases c; cases k; simp_all add: source_is_allowed_def operator_dimensions_def)+

text \<open>
  Provenance cannot be forged on the wire: in a valid outcome record the operator's confidence,
  the human source and the operator's label space coincide, so an operator assertion never carries
  a validation, evidence, verifier, CI, completion or resource outcome, and none of those is ever
  recorded with operator confidence.
\<close>

theorem outcome_wire_provenance:
  assumes "validate_outcome_wire w = Inr ()"
  shows "(ow_confidence w = OperatorAsserted \<longleftrightarrow>
            validate_operator_outcome_label (ow_dimension w) (ow_classification w) (ow_code w) = Inr ()) \<and>
         (source_kind (ow_source w) = HumanAction \<longleftrightarrow> ow_confidence w = OperatorAsserted) \<and>
         (ow_dimension w = CiRequiredChecks \<longrightarrow>
            source_kind (ow_source w) \<in> {SourceValidation, SourceEvidence})"
proof -
  note parts = wire_ok_parts [OF assms]
  have "ow_dimension w = CiRequiredChecks \<longrightarrow>
      source_kind (ow_source w) \<in> {SourceValidation, SourceEvidence}"
    using parts(2) by (auto simp: source_is_allowed_def)
  then show ?thesis
    using source_allowed_operator [OF parts(2)] parts(1) by (simp add: ok_iff)
qed

definition sample_wire :: OutcomeWireV1 where
  "sample_wire =
    \<lparr>ow_schema = ''harness.outcome.v1'', ow_outcome_id = ''outcome_01'', ow_run_id = ''run_01'',
     ow_subject = \<lparr>subject_kind = Run, subject_id = ''run_01''\<rparr>,
     ow_dimension = Validation, ow_classification = Positive, ow_code = ''passed'',
     ow_observed_at = 1, ow_confidence = Authoritative,
     ow_source = \<lparr>source_kind = SourceValidation, record_id = ''validation_01'',
       record_sha256 = replicate 64 (CHR ''a''), source_sha = Some (replicate 40 (CHR ''b'')),
       source_domain_event_id = Some 1\<rparr>,
     ow_supersedes = [], ow_reason_code = None, ow_correction_artifact_id = None,
     ow_redactor_version = ''outcome-redactor.v1'', ow_free_text_redacted = False\<rparr>"

lemma sample_wire_ok: "validate_outcome_wire sample_wire = Inr ()"
  by code_simp

theorem outcome_wire_provenance_witness:
  "validate_operator_outcome_label (ow_dimension sample_wire) (ow_classification sample_wire)
     (ow_code sample_wire) \<noteq> Inr () \<and> source_kind (ow_source sample_wire) \<noteq> HumanAction"
  using outcome_wire_provenance [OF sample_wire_ok] by (simp add: sample_wire_def)

end
