(* ===== verification/Task_Contract.thy ===== *)
theory Task_Contract
  imports Identifiers
begin

text \<open>
  Task packets (\<^verbatim>\<open>harness-domain/src/lib.rs\<close>) and the authority boundary they are checked against
  (\<open>TaskPacket::validate_execution_contract\<close> and \<open>InvestigationScope::validate\<close> of
  \<^verbatim>\<open>harness-domain/src/operator_control.rs\<close>). The main theorem: the scope is present exactly on
  investigations, and an investigation owns nothing it could write to.
\<close>

section \<open>Data\<close>

datatype TaskExecutionKind = Implementation | Investigation | Verification | Review | Integration

record DiffBudget =
  db_files :: u32
  db_lines :: u32

record TaskMilestone =
  tm_id :: string
  tm_title :: string
  tm_objective :: string
  tm_success_criteria :: "string list"

record InvestigationScope =
  is_owned_read_paths :: "string list"
  is_forbidden_paths :: "string list"
  is_time_budget_ms :: u64
  is_token_budget :: u64

text \<open>\<open>dependency_shas\<close> is a \<open>BTreeMap\<close>, held here as its entries in key order.\<close>

record TaskPacket =
  tp_schema :: string
  tp_program_id :: string
  tp_task_id :: string
  tp_title :: string
  tp_state :: string
  tp_priority :: string
  tp_execution_mode :: string
  tp_execution_kind :: TaskExecutionKind
  tp_investigation_scope :: "InvestigationScope option"
  tp_owner_profile :: string
  tp_reviewer_profile :: string
  tp_checklist_rows :: "string list"
  tp_authority_refs :: "string list"
  tp_base_sha :: string
  tp_dependency_shas :: "(string \<times> string) list"
  tp_depends_on :: "string list"
  tp_owned_paths :: "string list"
  tp_forbidden_paths :: "string list"
  tp_reserved_serial_paths :: "string list"
  tp_objective :: string
  tp_milestones :: "TaskMilestone list"
  tp_non_goals :: "string list"
  tp_success_criteria :: "string list"
  tp_required_positive_tests :: "string list"
  tp_required_negative_tests :: "string list"
  tp_required_metrics :: "string list"
  tp_required_evidence :: "string list"
  tp_proof_limits :: "string list"
  tp_diff_budget :: DiffBudget
  tp_token_budget :: u64
  tp_tool_budget :: "u64 option"
  tp_lease_expires_at :: string
  tp_stop_conditions :: "string list"
  tp_handoff_path :: string
  tp_risk_flags :: "string list"

section \<open>Operations\<close>

definition is_high_risk :: "TaskPacket \<Rightarrow> bool" where
  "is_high_risk p \<longleftrightarrow> list_ex (\<lambda>flag. flag \<in> set
     [''canonical_contract'', ''generated_contract'', ''migration'', ''tenancy'', ''authentication'',
      ''authorization'', ''privacy'', ''unsafe_native'', ''hardware'', ''ota_release'',
      ''ci_required_context'', ''serial_path'']) (tp_risk_flags p)"

definition validate_scope :: "InvestigationScope \<Rightarrow> check" where
  "validate_scope s = all_ok
    [ensure (\<not> (is_owned_read_paths s = [] \<or>
        length (is_owned_read_paths s) > MAX_INVESTIGATION_REFS \<or>
        length (is_forbidden_paths s) > MAX_INVESTIGATION_REFS \<or>
        is_time_budget_ms s = 0 \<or> is_time_budget_ms s > MAX_INVESTIGATION_TIME_BUDGET_MS \<or>
        is_token_budget s = 0 \<or> is_token_budget s > MAX_INVESTIGATION_TOKEN_BUDGET))
       (InvalidField ''investigation scope'' ''must have bounded read paths plus time and token budgets within controller ceilings''),
     for_ok (\<lambda>path. validate_relative_repo_path path ''investigation scope path'')
       (is_owned_read_paths s @ is_forbidden_paths s),
     validate_unique_strings (is_owned_read_paths s) ''investigation owned read paths'',
     validate_unique_strings (is_forbidden_paths s) ''investigation forbidden paths'']"

definition validate_execution_contract :: "TaskPacket \<Rightarrow> check" where
  "validate_execution_contract p = all_ok
    [ensure (tp_schema p = ''harness.orchestration.task.v1'')
       (InvalidField ''task packet schema'' ''must be harness.orchestration.task.v1''),
     ensure (tp_execution_mode p \<in>
         set [''controller'', ''agent'', ''subagent_required'', ''manual_operator''])
       (InvalidField ''task execution mode'' ''must be one current closed execution mode''),
     (case tp_investigation_scope p of
        Some scope \<Rightarrow>
          (if tp_execution_kind p = Investigation
           then all_ok
             [validate_scope scope,
              ensure (tp_owned_paths p = [] \<and> tp_reserved_serial_paths p = [])
                (InvalidField ''investigation task custody'' ''investigations cannot request mutable path ownership or serial leases''),
              ensure (tp_depends_on p = [] \<and> tp_dependency_shas p = [])
                (InvalidField ''investigation task dependencies'' ''investigations must bind directly to the pinned run base''),
              ensure (tp_authority_refs p = [])
                (InvalidField ''investigation task authority refs'' ''investigations use only their explicit read scope and cannot declare global authority refs'')]
           else Inl (InvalidField ''investigation scope'' ''only investigation tasks may declare an investigation scope''))
      | None \<Rightarrow>
          (if tp_execution_kind p = Investigation
           then Inl (InvalidField ''investigation scope'' ''investigations require a bounded read-only scope'')
           else Inr ()))]"

section \<open>Properties\<close>

lemma validate_relative_repo_path_segments:
  "validate_relative_repo_path v f = Inr () \<Longrightarrow> seg \<in> set (split_on CHR ''/'' v) \<Longrightarrow>
     seg \<noteq> [] \<and> seg \<noteq> ''.'' \<and> seg \<noteq> ''..''"
  by (auto simp: validate_relative_repo_path_def list_ex_iff split: if_splits)

lemma validate_scope_ok [ok_iff]:
  "validate_scope s = Inr u \<longleftrightarrow>
     is_owned_read_paths s \<noteq> [] \<and> length (is_owned_read_paths s) \<le> 1000 \<and>
     length (is_forbidden_paths s) \<le> 1000 \<and>
     0 < is_time_budget_ms s \<and> is_time_budget_ms s \<le> 86400000 \<and>
     0 < is_token_budget s \<and> is_token_budget s \<le> 100000000 \<and>
     (\<forall>p \<in> set (is_owned_read_paths s) \<union> set (is_forbidden_paths s).
        validate_relative_repo_path p ''investigation scope path'' = Inr ()) \<and>
     distinct (is_owned_read_paths s) \<and> distinct (is_forbidden_paths s)"
  by (auto simp: validate_scope_def limit_defs not_less not_le word_gt_0)

lemma scope_required:
  "validate_execution_contract p = Inr u \<Longrightarrow>
     tp_execution_kind p = Investigation \<longleftrightarrow> tp_investigation_scope p \<noteq> None"
  by (auto simp: validate_execution_contract_def split: option.splits if_splits)

lemma investigation_branch:
  "validate_execution_contract p = Inr u \<Longrightarrow> tp_investigation_scope p = Some s \<Longrightarrow>
     validate_scope s = Inr () \<and> tp_owned_paths p = [] \<and> tp_reserved_serial_paths p = [] \<and>
     tp_depends_on p = [] \<and> tp_dependency_shas p = [] \<and> tp_authority_refs p = []"
  by (auto simp: validate_execution_contract_def split: if_splits)

text \<open>
  Investigations have no write authority: in an accepted packet the read scope is present exactly
  when the task is an investigation; an investigation then owns no path, holds no serial lease,
  depends on no other task and cites no global authority, its budgets are positive and within the
  controller ceilings (a day, a hundred million tokens), and each path it may read stays below the
  directory it is resolved from.
\<close>

theorem investigation_has_no_custody:
  assumes "validate_execution_contract p = Inr ()"
  shows "(tp_execution_kind p = Investigation \<longleftrightarrow> tp_investigation_scope p \<noteq> None) \<and>
    (\<forall>s. tp_investigation_scope p = Some s \<longrightarrow>
       tp_owned_paths p = [] \<and> tp_reserved_serial_paths p = [] \<and> tp_depends_on p = [] \<and>
       tp_dependency_shas p = [] \<and> tp_authority_refs p = [] \<and>
       0 < is_time_budget_ms s \<and> is_time_budget_ms s \<le> 86400000 \<and>
       0 < is_token_budget s \<and> is_token_budget s \<le> 100000000 \<and>
       is_owned_read_paths s \<noteq> [] \<and>
       (\<forall>path \<in> set (is_owned_read_paths s). \<forall>dir.
          walk dir (split_on CHR ''/'' path) = dir @ split_on CHR ''/'' path))"
proof (intro conjI allI impI)
  show "tp_execution_kind p = Investigation \<longleftrightarrow> tp_investigation_scope p \<noteq> None"
    by (rule scope_required [OF assms])
next
  fix s assume "tp_investigation_scope p = Some s"
  note br = investigation_branch [OF assms this]
  then show "tp_owned_paths p = []" "tp_reserved_serial_paths p = []" "tp_depends_on p = []"
    "tp_dependency_shas p = []" "tp_authority_refs p = []" by simp_all
  from br have ok: "validate_scope s = Inr ()" by simp
  then show "0 < is_time_budget_ms s" "is_time_budget_ms s \<le> 86400000"
    "0 < is_token_budget s" "is_token_budget s \<le> 100000000" "is_owned_read_paths s \<noteq> []"
    unfolding validate_scope_ok by blast+
  show "\<forall>path \<in> set (is_owned_read_paths s). \<forall>dir.
      walk dir (split_on CHR ''/'' path) = dir @ split_on CHR ''/'' path"
  proof (intro ballI allI)
    fix path dir assume "path \<in> set (is_owned_read_paths s)"
    then have "validate_relative_repo_path path ''investigation scope path'' = Inr ()"
      using ok unfolding validate_scope_ok by blast
    then show "walk dir (split_on CHR ''/'' path) = dir @ split_on CHR ''/'' path"
      by (intro walk_names ballI validate_relative_repo_path_segments)
  qed
qed

definition sample_scope :: InvestigationScope where
  "sample_scope = \<lparr>is_owned_read_paths = [''src/lib.rs''], is_forbidden_paths = [],
     is_time_budget_ms = 60000, is_token_budget = 5000\<rparr>"

definition sample_packet :: TaskPacket where
  "sample_packet = \<lparr>tp_schema = ''harness.orchestration.task.v1'', tp_program_id = ''p'',
     tp_task_id = ''t1'', tp_title = ''look'', tp_state = ''planned'', tp_priority = ''high'',
     tp_execution_mode = ''agent'', tp_execution_kind = Investigation,
     tp_investigation_scope = Some sample_scope, tp_owner_profile = ''o'', tp_reviewer_profile = ''r'',
     tp_checklist_rows = [], tp_authority_refs = [], tp_base_sha = ''b'', tp_dependency_shas = [],
     tp_depends_on = [], tp_owned_paths = [], tp_forbidden_paths = [], tp_reserved_serial_paths = [],
     tp_objective = ''x'', tp_milestones = [], tp_non_goals = [], tp_success_criteria = [],
     tp_required_positive_tests = [], tp_required_negative_tests = [], tp_required_metrics = [],
     tp_required_evidence = [], tp_proof_limits = [],
     tp_diff_budget = \<lparr>db_files = 1, db_lines = 10\<rparr>, tp_token_budget = 10, tp_tool_budget = None,
     tp_lease_expires_at = ''l'', tp_stop_conditions = [], tp_handoff_path = ''h'',
     tp_risk_flags = []\<rparr>"

lemma sample_scope_valid: "validate_scope sample_scope = Inr ()"
  by (simp add: sample_scope_def validate_scope_def validate_relative_repo_path_def limit_defs byte_def)

lemma sample_packet_valid: "validate_execution_contract sample_packet = Inr ()"
  by (simp add: sample_packet_def validate_execution_contract_def sample_scope_valid)

theorem investigation_has_no_custody_witness:
  "tp_investigation_scope sample_packet = Some sample_scope \<and> tp_owned_paths sample_packet = [] \<and>
   is_token_budget sample_scope \<le> 100000000 \<and>
   walk [''repo''] (split_on CHR ''/'' ''src/lib.rs'') = [''repo''] @ split_on CHR ''/'' ''src/lib.rs''"
proof -
  have scope: "tp_investigation_scope sample_packet = Some sample_scope"
    by (simp add: sample_packet_def)
  have "''src/lib.rs'' \<in> set (is_owned_read_paths sample_scope)"
    by (simp add: sample_scope_def)
  with investigation_has_no_custody [OF sample_packet_valid] scope show ?thesis by blast
qed

end
