(* ===== verification/Attention_Contract.thy ===== *)
theory Attention_Contract
  imports Identifiers
begin

text \<open>
  The attention contract of \<^verbatim>\<open>harness-domain/src/operator_control.rs\<close>: the items the control plane
  raises for an operator, their life cycle \<open>AttentionState\<close> and the validators of the item, its
  source reference and its resolution.
\<close>

section \<open>Life cycle\<close>

definition attention_is_terminal :: "AttentionState \<Rightarrow> bool" where
  "attention_is_terminal s \<longleftrightarrow> s \<in> set [Resolved, Declined, Superseded, Invalidated]"

fun attention_can_transition_to :: "AttentionState \<Rightarrow> AttentionState \<Rightarrow> bool" where
  "attention_can_transition_to Open n =
    (n \<in> set [Acknowledged, WaitingExternal, Resolved, Declined, Superseded, Invalidated])"
| "attention_can_transition_to Acknowledged n =
    (n \<in> set [WaitingExternal, Resolved, Declined, Superseded, Invalidated])"
| "attention_can_transition_to WaitingExternal n =
    (n \<in> set [Open, Resolved, Declined, Superseded, Invalidated])"
| "attention_can_transition_to Resolved n = (n = Resolved)"
| "attention_can_transition_to Declined n = (n = Declined)"
| "attention_can_transition_to Superseded n = (n = Superseded)"
| "attention_can_transition_to Invalidated n = (n = Invalidated)"

definition validate_transition :: "AttentionState \<Rightarrow> AttentionState \<Rightarrow> bool \<Rightarrow> check" where
  "validate_transition s n same_terminal_receipt =
    (if \<not> attention_can_transition_to s n \<or> (attention_is_terminal s \<and> \<not> same_terminal_receipt)
     then Inl (IllegalAttentionTransition s n)
     else Inr ())"

section \<open>Items\<close>

datatype AttentionCategory =
    Decision | Approval | Credential | PolicyException | DestructiveAction | Publication
  | MissingEvidence | ExternalDependency | RecoveryConflict | Infrastructure

datatype AttentionSeverity = Info | Normal | High | Critical

datatype AttentionSourceType =
    SourceApproval | SourceDecision | CredentialRequirement | SourcePublication | PolicyDecision
  | EvidenceGap | SourceExternalCondition | Reconciliation | SourceInfrastructure

record AttentionSourceRef =
  source_type :: AttentionSourceType
  source_id :: string
  source_revision :: u64

definition validate_source_ref :: "AttentionSourceRef \<Rightarrow> check" where
  "validate_source_ref r = validate_identifier (source_id r) ''attention source id''"

record AttentionResurfacingPolicy =
  resurfacing_policy :: string
  maximum_defer_ms :: u64

record AttentionResolution =
  res_outcome :: string
  res_actor_type :: string
  res_actor_id :: string
  res_resolved_at_ms :: i64
  res_authority_event_id :: string
  res_bound_head_sha :: "string option"
  res_worktree_fingerprint :: "string option"
  res_receipt_sha256 :: string

definition validate_resolution :: "AttentionResolution \<Rightarrow> check" where
  "validate_resolution r = all_ok
    [validate_identifier (res_authority_event_id r) ''attention authority event id'',
     validate_hex (res_receipt_sha256 r) ''attention receipt sha256'' SHA256_HEX_LEN,
     opt_ok (\<lambda>head. validate_hex head ''attention bound head sha'' 40) (res_bound_head_sha r),
     opt_ok (\<lambda>fp. validate_hex fp ''attention worktree fingerprint'' SHA256_HEX_LEN)
       (res_worktree_fingerprint r)]"

record AttentionItem =
  at_schema :: string
  at_attention_id :: string
  at_repository_id :: "string option"
  at_run_id :: "string option"
  at_task_id :: "string option"
  at_source :: AttentionSourceRef
  at_category :: AttentionCategory
  at_severity :: AttentionSeverity
  at_state :: AttentionState
  at_title :: string
  at_summary :: string
  at_option_refs :: "string list"
  at_evidence_refs :: "string list"
  at_blocked_refs :: "string list"
  at_dedupe_key :: string
  at_opened_event_id :: string
  at_opened_at_ms :: i64
  at_acknowledged_at_ms :: "i64 option"
  at_due_at_ms :: "i64 option"
  at_resurfacing :: AttentionResurfacingPolicy
  at_resolution :: "AttentionResolution option"
  at_version :: u64

definition validate_attention_item :: "AttentionItem \<Rightarrow> check" where
  "validate_attention_item item = all_ok
    [ensure (at_schema item = ''harness.attention-item.v1'')
       (InvalidField ''attention schema'' ''must be harness.attention-item.v1''),
     validate_source_ref (at_source item),
     validate_text (at_title item) ''attention title'' MAX_TITLE_LEN,
     validate_text (at_summary item) ''attention summary'' MAX_SUMMARY_LEN,
     validate_identifier (at_dedupe_key item) ''attention dedupe key'',
     validate_identifier (at_opened_event_id item) ''attention opened event id'',
     ensure (attention_is_terminal (at_state item) = (at_resolution item \<noteq> None))
       (InvalidField ''attention resolution'' ''must exist exactly for a terminal attention state''),
     opt_ok validate_resolution (at_resolution item)]"

section \<open>Properties\<close>

lemma validate_transition_ok [ok_iff]:
  "validate_transition s n same = Inr u \<longleftrightarrow>
     attention_can_transition_to s n \<and> (attention_is_terminal s \<longrightarrow> same)"
  by (auto simp: validate_transition_def)

lemma terminal_attention_moves:
  "attention_is_terminal s \<Longrightarrow> attention_can_transition_to s n \<longleftrightarrow> n = s"
  by (cases s) (simp_all add: attention_is_terminal_def)

lemma live_attention_closes:
  "\<not> attention_is_terminal s \<Longrightarrow> attention_is_terminal n \<Longrightarrow> attention_can_transition_to s n"
  by (cases s; cases n) (simp_all add: attention_is_terminal_def)

lemma attention_item_resolution:
  "validate_attention_item item = Inr () \<Longrightarrow>
     attention_is_terminal (at_state item) \<longleftrightarrow> (\<exists>r. at_resolution item = Some r)"
  by (auto simp: validate_attention_item_def)

text \<open>
  The attention life cycle: a closed item accepts only the replay of its own closing receipt and
  keeps its state; an item that is not closed can be moved to every closing state, but never from
  acknowledged back to open.
\<close>

theorem attention_transition_rules:
  "(attention_is_terminal s \<longrightarrow>
      (validate_transition s n same = Inr () \<longleftrightarrow> n = s \<and> same)) \<and>
   (\<not> attention_is_terminal s \<and> attention_is_terminal n \<longrightarrow> validate_transition s n same = Inr ()) \<and>
   (validate_transition s Open same = Inr () \<longrightarrow> s = WaitingExternal)"
proof -
  have "validate_transition s Open same = Inr () \<longrightarrow> s = WaitingExternal"
    by (cases s) (simp_all add: ok_iff attention_is_terminal_def)
  then show ?thesis
    by (auto simp: ok_iff terminal_attention_moves live_attention_closes)
qed

theorem attention_transition_rules_witness:
  "validate_transition Resolved Resolved True = Inr () \<and>
   validate_transition Open Declined False = Inr () \<and>
   validate_transition Acknowledged Open False = Inl (IllegalAttentionTransition Acknowledged Open) \<and>
   validate_transition WaitingExternal Open False = Inr ()"
  using attention_transition_rules [of Resolved Resolved True]
    attention_transition_rules [of Open Declined False]
    attention_transition_rules [of Acknowledged Open False]
  by (simp add: attention_is_terminal_def validate_transition_def)

end
