(* ===== verification/Sealed_Records.thy ===== *)
theory Sealed_Records
  imports Identifiers
begin

text \<open>
  Self-digested records. Many records of \<^verbatim>\<open>harness-domain/src/operator_control.rs\<close> carry in their
  field \<open>sha256\<close> the digest of themselves with that field cleared. The digest is computed with three
  libraries that are not part of the repository (\<open>serde_json::to_vec\<close>, \<open>sha2\<close> and \<open>hex\<close>): the
  serializer \<open>tv\<close> of a record type and the function \<open>sha\<close> from bytes to the hexadecimal digest are
  parameters of every definition that uses them.

  The locale \<open>sealed\<close> is the interface of such a record type: the digest field with the usual laws
  of a field, and a digest function that ignores it. Every record type with a self-digest
  interprets it. Its lemmas: sealing a record makes its digest check succeed, no other value of the
  field does, and two sealed records with the same digest are equal unless the digest function
  collides on their serializations.
\<close>

definition digest_json ::
  "('r \<Rightarrow> string option) \<Rightarrow> (string \<Rightarrow> string) \<Rightarrow> 'r \<Rightarrow> OperatorControlError + string" where
  "digest_json tv sha r =
    (case tv r of
       None \<Rightarrow> Inl (InvalidField ''operator control payload'' ''must serialize as JSON'')
     | Some raw \<Rightarrow> Inr (sha raw))"

text \<open>The check \<open>if self.digest()? != self.sha256 { return Err(..) }\<close>.\<close>

definition check_digest :: "OperatorControlError + string \<Rightarrow> string \<Rightarrow> OperatorControlError \<Rightarrow> check" where
  "check_digest d stored e = and_then d (\<lambda>actual. ensure (actual = stored) e)"

text \<open>The check \<open>if serde_json::to_vec(..)?.len() > limit { return Err(..) }\<close>.\<close>

definition check_size ::
  "string option \<Rightarrow> nat \<Rightarrow> OperatorControlError \<Rightarrow> OperatorControlError \<Rightarrow> check" where
  "check_size raw limit not_json too_big =
    (case raw of None \<Rightarrow> Inl not_json | Some r \<Rightarrow> ensure (length r \<le> limit) too_big)"

text \<open>
  The last two checks of every validator of a self-digested record: the shape of the stored digest
  and its equality with the recomputed one.
\<close>

definition seal_checks :: "string \<Rightarrow> OperatorControlError + string \<Rightarrow> string \<Rightarrow> check list" where
  "seal_checks field d stored =
    [validate_lower_hex stored field SHA256_HEX_LEN,
     check_digest d stored (InvalidField field ''does not match the canonical payload'')]"

text \<open>
  The operations of \<open>serde_json::Value\<close> the validators and the store call; \<open>'v\<close> is the type of
  JSON values. The library is not part of the repository, so they are a parameter.
\<close>

record 'v json_ops =
  to_vec :: "'v \<Rightarrow> string option"
  is_object :: "'v \<Rightarrow> bool"
  get_key :: "'v \<Rightarrow> string \<Rightarrow> 'v option"
  as_bool :: "'v \<Rightarrow> bool option"
  as_str :: "'v \<Rightarrow> string option"
  as_u64 :: "'v \<Rightarrow> u64 option"

lemma digest_json_ok [simp]: "digest_json tv sha r = Inr d \<longleftrightarrow> (\<exists>raw. tv r = Some raw \<and> d = sha raw)"
  by (auto simp: digest_json_def split: option.split)

lemma check_digest_ok [simp, ok_iff]: "check_digest d s e = Inr u \<longleftrightarrow> d = Inr s"
  by (auto simp: check_digest_def and_then_ok)

lemma check_size_ok [simp, ok_iff]:
  "check_size raw n e e' = Inr u \<longleftrightarrow> (\<exists>r. raw = Some r \<and> length r \<le> n)"
  by (auto simp: check_size_def split: option.split)

lemma all_ok_append_ok: "all_ok (xs @ ys) = Inr u \<longleftrightarrow> all_ok xs = Inr () \<and> all_ok ys = Inr ()"
  by (auto simp: all_ok_append split: sum.split)

lemma sealed_ok [ok_iff]:
  "all_ok (cs @ seal_checks field d stored) = Inr u \<longleftrightarrow>
     all_ok cs = Inr () \<and> is_lower_hex stored SHA256_HEX_LEN \<and> d = Inr stored"
  by (simp add: all_ok_append_ok seal_checks_def)

locale sealed =
  fixes get_sha :: "'r \<Rightarrow> string"
    and set_sha :: "string \<Rightarrow> 'r \<Rightarrow> 'r"
    and digest :: "('r \<Rightarrow> string option) \<Rightarrow> (string \<Rightarrow> string) \<Rightarrow> 'r \<Rightarrow> OperatorControlError + string"
  assumes get_set: "get_sha (set_sha s r) = s"
    and set_set: "set_sha s (set_sha t r) = set_sha s r"
    and set_get: "set_sha (get_sha r) r = r"
    and digest_unsigned: "digest tv sha r = digest_json tv sha (set_sha [] r)"
begin

lemma digest_ignores_seal: "digest tv sha (set_sha s r) = digest tv sha r"
  by (simp add: digest_unsigned set_set)

text \<open>Sealing with the computed digest makes the check succeed; only that value does.\<close>

lemma seal_iff:
  assumes "digest tv sha r = Inr d"
  shows "digest tv sha (set_sha s r) = Inr (get_sha (set_sha s r)) \<longleftrightarrow> s = d"
  using assms by (auto simp: digest_ignores_seal get_set)

lemma resealed: "digest tv sha r = Inr d \<Longrightarrow> digest tv sha (set_sha d r) = Inr (get_sha (set_sha d r))"
  by (simp add: seal_iff)

text \<open>
  Two records that both pass the digest check with the same digest serialize to the same bytes
  (digest field apart), unless the digest function collides on their serializations.
\<close>

lemma same_seal_same_payload:
  assumes r: "digest tv sha r = Inr (get_sha r)" and q: "digest tv sha q = Inr (get_sha q)"
    and same: "get_sha r = get_sha q"
  shows "(\<exists>raw. tv (set_sha [] r) = Some raw \<and> tv (set_sha [] q) = Some raw) \<or>
    (\<exists>a b. tv (set_sha [] r) = Some a \<and> tv (set_sha [] q) = Some b \<and> a \<noteq> b \<and> sha a = sha b)"
proof -
  obtain a b where a: "tv (set_sha [] r) = Some a" "get_sha r = sha a"
    and b: "tv (set_sha [] q) = Some b" "get_sha q = sha b"
    using r q by (auto simp: digest_unsigned)
  with same show ?thesis by (cases "a = b") auto
qed

text \<open>With a serializer that tells the two records apart, they are the same record.\<close>

lemma tamper_evident:
  assumes r: "digest tv sha r = Inr (get_sha r)" and q: "digest tv sha q = Inr (get_sha q)"
    and same: "get_sha r = get_sha q"
    and faithful: "tv (set_sha [] r) = tv (set_sha [] q) \<Longrightarrow> set_sha [] r = set_sha [] q"
  shows "r = q \<or>
    (\<exists>a b. tv (set_sha [] r) = Some a \<and> tv (set_sha [] q) = Some b \<and> a \<noteq> b \<and> sha a = sha b)"
  using same_seal_same_payload [OF r q same]
proof (elim disjE exE conjE)
  fix raw assume "tv (set_sha [] r) = Some raw" and "tv (set_sha [] q) = Some raw"
  then have "set_sha (get_sha r) (set_sha [] r) = set_sha (get_sha q) (set_sha [] q)"
    using faithful same by simp
  then show ?thesis by (simp add: set_set set_get)
qed auto

end

text \<open>
  A record type whose validator is a body that does not look at the digest field, followed by the
  shape check and the digest check. Then sealing is all that separates a well-formed body from a
  valid record.
\<close>

locale sealed_contract = sealed +
  fixes validate :: "('r \<Rightarrow> string option) \<Rightarrow> (string \<Rightarrow> string) \<Rightarrow> 'r \<Rightarrow> check"
    and body :: "'r \<Rightarrow> bool"
  assumes validate_iff: "validate tv sha r = Inr () \<longleftrightarrow>
      body r \<and> is_lower_hex (get_sha r) SHA256_HEX_LEN \<and> digest tv sha r = Inr (get_sha r)"
    and body_ignores_seal: "body (set_sha s r) = body r"
begin

lemma sealing_validates:
  assumes "body r" and "digest tv sha r = Inr d" and "is_lower_hex d SHA256_HEX_LEN"
  shows "validate tv sha (set_sha d r) = Inr ()"
  using assms by (simp add: validate_iff body_ignores_seal digest_ignores_seal get_set)

lemma valid_is_sealed: "validate tv sha r = Inr () \<Longrightarrow> digest tv sha r = Inr (get_sha r)"
  by (simp add: validate_iff)

lemma valid_records_with_equal_digest:
  assumes "validate tv sha r = Inr ()" and "validate tv sha q = Inr ()" and "get_sha r = get_sha q"
    and "tv (set_sha [] r) = tv (set_sha [] q) \<Longrightarrow> set_sha [] r = set_sha [] q"
  shows "r = q \<or>
    (\<exists>a b. tv (set_sha [] r) = Some a \<and> tv (set_sha [] q) = Some b \<and> a \<noteq> b \<and> sha a = sha b)"
  by (rule tamper_evident [OF valid_is_sealed valid_is_sealed]) (use assms in simp_all)

end

end
