(* ===== verification/Investigation_Contract.thy ===== *)
theory Investigation_Contract
  imports Task_Contract Attention_Contract Sealed_Records
begin

text \<open>
  Investigation artifacts (\<^verbatim>\<open>harness-domain/src/operator_control.rs\<close>): the immutable result of a
  read-only task, its findings, recommendations and open decisions, and the bounded summary that
  list views use. The theorems: a valid artifact draws conclusions and each of them cites exactly
  the context the controller admitted; the summary of a valid artifact never panics and counts
  exactly.
\<close>

section \<open>Data\<close>

datatype InvestigationFindingClassification =
  Confirmed | Supported | Hypothesis | Disproven | FindingInconclusive

datatype InvestigationSensitivity = Public | Internal | Restricted

record InvestigationFinding =
  if_finding_id :: string
  if_classification :: InvestigationFindingClassification
  if_summary :: string
  if_confidence_milli :: u16
  if_evidence_refs :: "string list"
  if_affected_refs :: "string list"
  if_risk :: AttentionSeverity
  if_limitations :: "string list"

record InvestigationRecommendation =
  ir_recommendation_id :: string
  ir_summary :: string
  ir_required_authority :: string
  ir_evidence_refs :: "string list"
  ir_alternatives :: "string list"
  ir_risk :: AttentionSeverity
  ir_next_verification :: string

record DecisionInventoryItem =
  di_decision_id :: string
  di_question :: string
  di_state :: string
  di_options :: "string list"
  di_evidence_refs :: "string list"
  di_impact :: string
  di_recommended_option :: "string option"
  di_required_actor :: string
  di_blocking_refs :: "string list"
  di_independent_work_can_continue :: bool

record InvestigationArtifact =
  ia_schema :: string
  ia_artifact_id :: string
  ia_run_id :: string
  ia_task_id :: string
  ia_attempt_id :: string
  ia_question :: string
  ia_scope :: InvestigationScope
  ia_base_sha :: string
  ia_repository_state_digest :: string
  ia_methods :: "string list"
  ia_sources :: "string list"
  ia_findings :: "InvestigationFinding list"
  ia_recommendations :: "InvestigationRecommendation list"
  ia_decision_inventory :: "DecisionInventoryItem list"
  ia_limitations :: "string list"
  ia_rejected_hypotheses :: "string list"
  ia_sensitivity :: InvestigationSensitivity
  ia_artifact_refs :: "string list"
  ia_created_at_ms :: i64
  ia_sha256 :: string

record InvestigationArtifactSummary =
  ias_schema :: string
  ias_artifact_id :: string
  ias_run_id :: string
  ias_task_id :: string
  ias_attempt_id :: string
  ias_question :: string
  ias_sensitivity :: InvestigationSensitivity
  ias_base_sha :: string
  ias_finding_count :: u32
  ias_recommendation_count :: u32
  ias_decision_count :: u32
  ias_created_at_ms :: i64
  ias_artifact_sha256 :: string

section \<open>Validators\<close>

definition validate_finding :: "InvestigationFinding \<Rightarrow> check" where
  "validate_finding f = all_ok
    [validate_identifier (if_finding_id f) ''investigation finding id'',
     validate_text (if_summary f) ''investigation finding summary'' MAX_SUMMARY_LEN,
     ensure (\<not> if_confidence_milli f > 1000)
       (InvalidField ''investigation finding confidence'' ''must be in 0..=1000''),
     validate_bounded_texts (if_evidence_refs f) ''investigation finding evidence refs''
       MAX_INVESTIGATION_REFS MAX_IDENTIFIER_LEN,
     validate_bounded_identifiers (if_affected_refs f) ''investigation finding affected refs''
       MAX_INVESTIGATION_REFS,
     validate_bounded_texts (if_limitations f) ''investigation finding limitations''
       MAX_INVESTIGATION_REFS MAX_INVESTIGATION_LIST_ITEM_LEN]"

definition validate_recommendation :: "InvestigationRecommendation \<Rightarrow> check" where
  "validate_recommendation r = all_ok
    [validate_identifier (ir_recommendation_id r) ''investigation recommendation id'',
     validate_text (ir_summary r) ''investigation recommendation summary'' MAX_SUMMARY_LEN,
     validate_identifier (ir_required_authority r) ''investigation recommendation required authority'',
     validate_bounded_texts (ir_evidence_refs r) ''investigation recommendation evidence refs''
       MAX_INVESTIGATION_REFS MAX_IDENTIFIER_LEN,
     validate_bounded_texts (ir_alternatives r) ''investigation recommendation alternatives''
       MAX_INVESTIGATION_REFS MAX_INVESTIGATION_LIST_ITEM_LEN,
     validate_text (ir_next_verification r) ''investigation recommendation next verification''
       MAX_SUMMARY_LEN]"

definition validate_decision :: "DecisionInventoryItem \<Rightarrow> check" where
  "validate_decision d = all_ok
    [validate_identifier (di_decision_id d) ''investigation decision id'',
     validate_text (di_question d) ''investigation decision question'' MAX_SUMMARY_LEN,
     validate_identifier (di_state d) ''investigation decision state'',
     validate_bounded_texts (di_options d) ''investigation decision options''
       MAX_INVESTIGATION_REFS MAX_SUMMARY_LEN,
     validate_bounded_texts (di_evidence_refs d) ''investigation decision evidence refs''
       MAX_INVESTIGATION_REFS MAX_IDENTIFIER_LEN,
     validate_text (di_impact d) ''investigation decision impact'' MAX_SUMMARY_LEN,
     opt_ok (\<lambda>option. validate_text option ''investigation decision recommended option''
       MAX_SUMMARY_LEN) (di_recommended_option d),
     validate_identifier (di_required_actor d) ''investigation decision required actor'',
     validate_bounded_identifiers (di_blocking_refs d) ''investigation decision blocking refs''
       MAX_INVESTIGATION_REFS]"

definition artifact_digest ::
  "(InvestigationArtifact \<Rightarrow> string option) \<Rightarrow> (string \<Rightarrow> string) \<Rightarrow> InvestigationArtifact \<Rightarrow>
     OperatorControlError + string" where
  "artifact_digest tv sha a = digest_json tv sha (a\<lparr>ia_sha256 := []\<rparr>)"

text \<open>The list of evidence lists the artifact's conclusions cite, in the order they are checked.\<close>

definition conclusion_evidence :: "InvestigationArtifact \<Rightarrow> string list list" where
  "conclusion_evidence a =
     map if_evidence_refs (ia_findings a) @ map ir_evidence_refs (ia_recommendations a) @
     map di_evidence_refs (ia_decision_inventory a)"

definition expected_context_source :: "InvestigationArtifact \<Rightarrow> string" where
  "expected_context_source a = ''context:'' @ ia_repository_state_digest a"

definition validate_artifact ::
  "(InvestigationArtifact \<Rightarrow> string option) \<Rightarrow> (string \<Rightarrow> string) \<Rightarrow> InvestigationArtifact \<Rightarrow> check" where
  "validate_artifact tv sha a = all_ok
    [ensure (ia_schema a = ''harness.investigation-artifact.v1'')
       (InvalidField ''investigation artifact schema'' ''must be harness.investigation-artifact.v1''),
     validate_identifier (ia_artifact_id a) ''investigation artifact id'',
     validate_identifier (ia_run_id a) ''investigation run id'',
     validate_identifier (ia_task_id a) ''investigation task id'',
     validate_identifier (ia_attempt_id a) ''investigation attempt id'',
     validate_text (ia_question a) ''investigation question'' MAX_SUMMARY_LEN,
     validate_scope (ia_scope a),
     validate_lower_hex (ia_base_sha a) ''investigation base SHA'' 40,
     validate_lower_hex (ia_repository_state_digest a) ''investigation repository state digest''
       SHA256_HEX_LEN,
     ensure (\<not> ia_created_at_ms a < 0)
       (InvalidField ''investigation creation time'' ''must be a UTC epoch millisecond timestamp''),
     validate_bounded_texts (ia_methods a) ''investigation methods''
       MAX_INVESTIGATION_REFS MAX_INVESTIGATION_LIST_ITEM_LEN,
     validate_bounded_texts (ia_sources a) ''investigation sources''
       MAX_INVESTIGATION_REFS MAX_IDENTIFIER_LEN,
     ensure (\<not> (length (ia_findings a) > MAX_INVESTIGATION_FINDINGS \<or>
         length (ia_recommendations a) > MAX_INVESTIGATION_RECOMMENDATIONS \<or>
         length (ia_decision_inventory a) > MAX_INVESTIGATION_DECISIONS))
       (InvalidField ''investigation artifact collections'' ''exceeds the contract bounds''),
     for_ok validate_finding (ia_findings a),
     for_ok validate_recommendation (ia_recommendations a),
     for_ok validate_decision (ia_decision_inventory a),
     validate_bounded_texts (ia_limitations a) ''investigation limitations''
       MAX_INVESTIGATION_REFS MAX_INVESTIGATION_LIST_ITEM_LEN,
     validate_bounded_texts (ia_rejected_hypotheses a) ''investigation rejected hypotheses''
       MAX_INVESTIGATION_REFS MAX_INVESTIGATION_LIST_ITEM_LEN,
     validate_bounded_texts (ia_artifact_refs a) ''investigation artifact refs''
       MAX_INVESTIGATION_REFS MAX_IDENTIFIER_LEN,
     ensure (\<not> (ia_sources a \<noteq> [expected_context_source a] \<or> ia_artifact_refs a \<noteq> []))
       (InvalidField ''investigation artifact evidence custody'' ''must cite only its controller-admitted immutable context and no external artifacts''),
     ensure (\<not> (ia_findings a = [] \<and> ia_recommendations a = [] \<and> ia_decision_inventory a = []))
       (InvalidField ''investigation artifact conclusions'' ''must contain at least one evidence-backed finding, recommendation, or decision''),
     for_ok (\<lambda>refs. ensure (\<not> (refs = [] \<or> list_ex (\<lambda>r. r \<noteq> expected_context_source a) refs))
         (InvalidField ''investigation artifact conclusion evidence refs'' ''each conclusion must cite only its controller-admitted immutable context evidence''))
       (conclusion_evidence a),
     check_size (tv a) MAX_INVESTIGATION_PAYLOAD_BYTES
       (InvalidField ''investigation artifact'' ''must serialize as JSON'')
       (InvalidField ''investigation artifact payload'' ''exceeds the 2 MiB contract bound''),
     validate_lower_hex (ia_sha256 a) ''investigation artifact sha256'' SHA256_HEX_LEN,
     check_digest (artifact_digest tv sha a) (ia_sha256 a)
       (InvalidField ''investigation artifact sha256'' ''does not match the canonical artifact payload'')]"

text \<open>\<open>u32::try_from(usize)\<close>; the caller's \<open>expect\<close> turns \<open>None\<close> into a panic.\<close>

definition u32_try_from :: "nat \<Rightarrow> u32 option" where
  "u32_try_from n = (if n < 2 ^ 32 then Some (of_nat n) else None)"

definition artifact_summary :: "InvestigationArtifact \<Rightarrow> InvestigationArtifactSummary option" where
  "artifact_summary a =
    (case (u32_try_from (length (ia_findings a)), u32_try_from (length (ia_recommendations a)),
           u32_try_from (length (ia_decision_inventory a))) of
       (Some fc, Some rc, Some dc) \<Rightarrow> Some
         \<lparr>ias_schema = ''harness.investigation-artifact-summary.v1'',
          ias_artifact_id = ia_artifact_id a, ias_run_id = ia_run_id a, ias_task_id = ia_task_id a,
          ias_attempt_id = ia_attempt_id a, ias_question = ia_question a,
          ias_sensitivity = ia_sensitivity a, ias_base_sha = ia_base_sha a,
          ias_finding_count = fc, ias_recommendation_count = rc, ias_decision_count = dc,
          ias_created_at_ms = ia_created_at_ms a, ias_artifact_sha256 = ia_sha256 a\<rparr>
     | _ \<Rightarrow> None)"

section \<open>The artifact is a sealed record\<close>

interpretation artifact: sealed ia_sha256 "\<lambda>s. ia_sha256_update (\<lambda>_. s)" artifact_digest
  by unfold_locales (simp_all add: artifact_digest_def)

section \<open>Properties\<close>

lemma u32_try_from_Some: "n < 2 ^ 32 \<Longrightarrow> \<exists>w. u32_try_from n = Some w \<and> unat w = n"
  by (simp add: u32_try_from_def unat_of_nat take_bit_nat_eq_self)

lemma artifact_counts:
  "validate_artifact tv sha a = Inr () \<Longrightarrow>
     length (ia_findings a) \<le> 200 \<and> length (ia_recommendations a) \<le> 100 \<and>
     length (ia_decision_inventory a) \<le> 100"
  by (simp add: validate_artifact_def limit_defs not_less)

lemma artifact_evidence:
  "validate_artifact tv sha a = Inr () \<Longrightarrow> refs \<in> set (conclusion_evidence a) \<Longrightarrow>
     refs \<noteq> [] \<and> set refs = {expected_context_source a}"
  by (auto simp: validate_artifact_def list_ex_iff neq_Nil_conv)

lemma artifact_concludes:
  "validate_artifact tv sha a = Inr () \<Longrightarrow> conclusion_evidence a \<noteq> []"
  by (auto simp: validate_artifact_def conclusion_evidence_def)

lemma artifact_custody:
  "validate_artifact tv sha a = Inr () \<Longrightarrow>
     ia_sources a = [expected_context_source a] \<and> ia_artifact_refs a = [] \<and>
     is_lower_hex (ia_repository_state_digest a) 64 \<and> validate_scope (ia_scope a) = Inr () \<and>
     artifact_digest tv sha a = Inr (ia_sha256 a)"
  by (simp add: validate_artifact_def limit_defs)

text \<open>
  Investigation conclusions cite admitted context only: a valid artifact draws at least one
  conclusion, and each finding, recommendation and open decision in it cites evidence, all of it the
  one context source named after the repository state digest; the artifact names no other source
  and no external artifact.
\<close>

theorem artifact_cites_admitted_context:
  assumes "validate_artifact tv sha a = Inr ()"
  shows "conclusion_evidence a \<noteq> [] \<and>
    (\<forall>refs \<in> set (conclusion_evidence a).
       refs \<noteq> [] \<and> set refs = {''context:'' @ ia_repository_state_digest a}) \<and>
    ia_sources a = [''context:'' @ ia_repository_state_digest a] \<and> ia_artifact_refs a = []"
  using artifact_concludes [OF assms] artifact_evidence [OF assms] artifact_custody [OF assms]
  by (simp add: expected_context_source_def)

text \<open>
  The summary of a valid artifact is total: the three narrowing conversions cannot panic, the
  counts are the exact lengths, and the summary carries the digest the artifact was checked against.
\<close>

theorem artifact_summary_total:
  assumes "validate_artifact tv sha a = Inr ()"
  shows "\<exists>s. artifact_summary a = Some s \<and>
    unat (ias_finding_count s) = length (ia_findings a) \<and>
    unat (ias_recommendation_count s) = length (ia_recommendations a) \<and>
    unat (ias_decision_count s) = length (ia_decision_inventory a) \<and>
    artifact_digest tv sha a = Inr (ias_artifact_sha256 s)"
proof -
  note counts = artifact_counts [OF assms]
  then obtain f r d where
    "u32_try_from (length (ia_findings a)) = Some f" "unat f = length (ia_findings a)"
    "u32_try_from (length (ia_recommendations a)) = Some r" "unat r = length (ia_recommendations a)"
    "u32_try_from (length (ia_decision_inventory a)) = Some d" "unat d = length (ia_decision_inventory a)"
    using u32_try_from_Some [of "length (ia_findings a)"]
      u32_try_from_Some [of "length (ia_recommendations a)"]
      u32_try_from_Some [of "length (ia_decision_inventory a)"] by auto
  then show ?thesis using artifact_custody [OF assms] by (simp add: artifact_summary_def)
qed

section \<open>A concrete artifact\<close>

definition sample_finding :: InvestigationFinding where
  "sample_finding = \<lparr>if_finding_id = ''f1'', if_classification = Confirmed, if_summary = ''seen'',
     if_confidence_milli = 900, if_evidence_refs = [''context:'' @ zeros 64], if_affected_refs = [],
     if_risk = Normal, if_limitations = []\<rparr>"

definition sample_artifact :: InvestigationArtifact where
  "sample_artifact = \<lparr>ia_schema = ''harness.investigation-artifact.v1'', ia_artifact_id = ''ia_1'',
     ia_run_id = ''run_1'', ia_task_id = ''t1'', ia_attempt_id = ''a1'', ia_question = ''why'',
     ia_scope = sample_scope, ia_base_sha = zeros 40, ia_repository_state_digest = zeros 64,
     ia_methods = [], ia_sources = [''context:'' @ zeros 64], ia_findings = [sample_finding],
     ia_recommendations = [], ia_decision_inventory = [], ia_limitations = [],
     ia_rejected_hypotheses = [], ia_sensitivity = Internal, ia_artifact_refs = [],
     ia_created_at_ms = 1, ia_sha256 = zeros 64\<rparr>"

lemma context_zeros [simp]:
  "\<not> trim_is_empty (''context:'' @ zeros n)" "chars_count (''context:'' @ zeros n) = 8 + n"
  by (simp_all add: trim_is_empty_Cons chars_count_def zeros_def byte_def)

lemma sample_finding_valid: "validate_finding sample_finding = Inr ()"
  by (simp add: sample_finding_def validate_finding_def safe_eval text_eval(1-3)
      del: append.simps)

lemma sample_artifact_valid:
  "validate_artifact (\<lambda>_. Some ''{}'') (\<lambda>_. zeros 64) sample_artifact = Inr ()"
proof -
  have "if_evidence_refs sample_finding = [''context:'' @ zeros 64]"
    by (simp add: sample_finding_def)
  then show ?thesis
    by (simp add: sample_artifact_def validate_artifact_def sample_finding_valid sample_scope_valid
        safe_eval text_eval(1-3) artifact_digest_def digest_json_def conclusion_evidence_def
        expected_context_source_def del: append.simps)
qed

theorem artifact_cites_admitted_context_witness:
  "set (if_evidence_refs sample_finding) = {''context:'' @ zeros 64} \<and>
   ia_sources sample_artifact = [''context:'' @ zeros 64]"
  using artifact_cites_admitted_context [OF sample_artifact_valid]
  by (simp add: sample_artifact_def conclusion_evidence_def del: append.simps)

theorem artifact_summary_total_witness:
  "\<exists>s. artifact_summary sample_artifact = Some s \<and> unat (ias_finding_count s) = 1"
  using artifact_summary_total [OF sample_artifact_valid] by (auto simp: sample_artifact_def)

end
