(* ===== verification/Liveness_Contract.thy ===== *)
theory Liveness_Contract
  imports Sealed_Records
begin

text \<open>
  The liveness contracts of \<^verbatim>\<open>harness-domain/src/operator_control.rs\<close>: material progress events,
  observations, episodes and intervention receipts, each with its digest and its validator. Every
  record type interprets the interface \<open>sealed_contract\<close>.
\<close>

section \<open>Material progress\<close>

datatype MaterialProgressKind =
    CandidateChanged | ValidationAdvanced | EvidenceRecorded | ExternalConditionChanged
  | ReconciliationAdvanced | AttentionChanged

record MaterialProgressEvent =
  mp_schema :: string
  mp_event_id :: string
  mp_run_id :: "string option"
  mp_task_id :: "string option"
  mp_attempt_id :: "string option"
  mp_kind :: MaterialProgressKind
  mp_source_event_id :: string
  mp_occurred_at_ms :: i64
  mp_classifier_version :: string
  mp_summary :: string
  mp_evidence_refs :: "string list"
  mp_candidate_sha :: "string option"
  mp_milestone_refs :: "string list"
  mp_sha256 :: string

definition progress_digest ::
  "(MaterialProgressEvent \<Rightarrow> string option) \<Rightarrow> (string \<Rightarrow> string) \<Rightarrow> MaterialProgressEvent \<Rightarrow>
     OperatorControlError + string" where
  "progress_digest tv sha e = digest_json tv sha (e\<lparr>mp_sha256 := []\<rparr>)"

definition progress_checks :: "MaterialProgressEvent \<Rightarrow> check list" where
  "progress_checks e =
    [ensure (mp_schema e = ''harness.material-progress.v1'')
       (InvalidField ''material progress schema'' ''must be harness.material-progress.v1''),
     validate_identifier (mp_event_id e) ''material progress id'',
     opt_ok (\<lambda>v. validate_identifier v ''material progress run id'') (mp_run_id e),
     opt_ok (\<lambda>v. validate_identifier v ''material progress task id'') (mp_task_id e),
     opt_ok (\<lambda>v. validate_identifier v ''material progress attempt id'') (mp_attempt_id e),
     validate_identifier (mp_source_event_id e) ''material progress source event id'',
     validate_identifier (mp_classifier_version e) ''material progress classifier version'',
     validate_text (mp_summary e) ''material progress summary'' MAX_SUMMARY_LEN,
     validate_bounded_texts (mp_evidence_refs e) ''material progress evidence refs''
       MAX_INVESTIGATION_REFS MAX_INVESTIGATION_LIST_ITEM_LEN,
     validate_bounded_texts (mp_milestone_refs e) ''material progress milestone refs''
       100 MAX_INVESTIGATION_LIST_ITEM_LEN,
     opt_ok (\<lambda>v. validate_hex v ''material progress candidate sha'' 40) (mp_candidate_sha e),
     ensure (\<not> mp_occurred_at_ms e < 0)
       (InvalidField ''material progress occurred at'' ''must not be negative'')]"

definition validate_progress ::
  "(MaterialProgressEvent \<Rightarrow> string option) \<Rightarrow> (string \<Rightarrow> string) \<Rightarrow> MaterialProgressEvent \<Rightarrow> check" where
  "validate_progress tv sha e = all_ok (progress_checks e @
     seal_checks ''material progress sha256'' (progress_digest tv sha e) (mp_sha256 e))"

lemma progress_checks_seal [simp]: "progress_checks (r\<lparr>mp_sha256 := s\<rparr>) = progress_checks r"
  by (simp add: progress_checks_def)

interpretation progress: sealed_contract mp_sha256 "\<lambda>s. mp_sha256_update (\<lambda>_. s)" progress_digest
  validate_progress "\<lambda>e. all_ok (progress_checks e) = Inr ()"
  by unfold_locales
    (simp_all add: progress_digest_def validate_progress_def sealed_ok)

section \<open>Observations\<close>

datatype LivenessState =
    Healthy | QuietActive | WaitingExternal | Degraded | SuspectedStall | ConfirmedStall
  | OwnershipUncertain | RecoveryRequired | Terminal

datatype LivenessObservationKind =
  MaterialProgress | RuntimeHeartbeat | CommandActivity | ExternalWait | OwnershipEvidence

record 'v LivenessObservation =
  lo_schema :: string
  lo_observation_id :: string
  lo_episode_id :: string
  lo_observation_kind :: LivenessObservationKind
  lo_source_event_id :: string
  lo_observed_at_ms :: i64
  lo_value :: 'v
  lo_classifier_version :: string
  lo_sha256 :: string

definition observation_digest ::
  "('v LivenessObservation \<Rightarrow> string option) \<Rightarrow> (string \<Rightarrow> string) \<Rightarrow> 'v LivenessObservation \<Rightarrow>
     OperatorControlError + string" where
  "observation_digest tv sha ob = digest_json tv sha (ob\<lparr>lo_sha256 := []\<rparr>)"

definition observation_checks :: "'v json_ops \<Rightarrow> 'v LivenessObservation \<Rightarrow> check list" where
  "observation_checks js ob =
    [ensure (lo_schema ob = ''harness.liveness-observation.v1'')
       (InvalidField ''liveness observation schema'' ''must be harness.liveness-observation.v1''),
     validate_identifier (lo_observation_id ob) ''liveness observation id'',
     validate_identifier (lo_episode_id ob) ''liveness episode id'',
     validate_identifier (lo_source_event_id ob) ''liveness observation source event id'',
     validate_identifier (lo_classifier_version ob) ''liveness observation classifier version'',
     ensure (\<not> lo_observed_at_ms ob < 0)
       (InvalidField ''liveness observation observed at'' ''must not be negative''),
     check_size (to_vec js (lo_value ob)) MAX_CONDITION_PAYLOAD_BYTES
       (InvalidField ''liveness observation value'' ''must serialize as JSON'')
       (InvalidField ''liveness observation value'' ''exceeds the bounded payload limit'')]"

definition validate_observation ::
  "'v json_ops \<Rightarrow> ('v LivenessObservation \<Rightarrow> string option) \<Rightarrow> (string \<Rightarrow> string) \<Rightarrow>
     'v LivenessObservation \<Rightarrow> check" where
  "validate_observation js tv sha ob = all_ok (observation_checks js ob @
     seal_checks ''liveness observation sha256'' (observation_digest tv sha ob) (lo_sha256 ob))"

lemma observation_checks_seal [simp]: "observation_checks js (r\<lparr>lo_sha256 := s\<rparr>) = observation_checks js r"
  by (simp add: observation_checks_def)

interpretation observation: sealed_contract lo_sha256 "\<lambda>s. lo_sha256_update (\<lambda>_. s)" observation_digest
  "validate_observation js" "\<lambda>ob. all_ok (observation_checks js ob) = Inr ()" for js
  by unfold_locales
    (simp_all add: observation_digest_def validate_observation_def sealed_ok)

section \<open>Episodes\<close>

record LivenessEpisode =
  le_schema :: string
  le_episode_id :: string
  le_run_id :: "string option"
  le_task_id :: "string option"
  le_attempt_id :: "string option"
  le_state :: LivenessState
  le_version :: u64
  le_opened_at_ms :: i64
  le_updated_at_ms :: i64
  le_state_reason_codes :: "string list"
  le_last_material_progress_at_ms :: "i64 option"
  le_next_review_at_ms :: "i64 option"
  le_intervention_count :: u32
  le_outcome :: "string option"
  le_sha256 :: string

definition episode_digest ::
  "(LivenessEpisode \<Rightarrow> string option) \<Rightarrow> (string \<Rightarrow> string) \<Rightarrow> LivenessEpisode \<Rightarrow>
     OperatorControlError + string" where
  "episode_digest tv sha e = digest_json tv sha (e\<lparr>le_sha256 := []\<rparr>)"

definition episode_checks :: "LivenessEpisode \<Rightarrow> check list" where
  "episode_checks e =
    [ensure (le_schema e = ''harness.liveness-episode.v1'')
       (InvalidField ''liveness episode schema'' ''must be harness.liveness-episode.v1''),
     validate_identifier (le_episode_id e) ''liveness episode id'',
     opt_ok (\<lambda>v. validate_identifier v ''liveness episode run id'') (le_run_id e),
     opt_ok (\<lambda>v. validate_identifier v ''liveness episode task id'') (le_task_id e),
     opt_ok (\<lambda>v. validate_identifier v ''liveness episode attempt id'') (le_attempt_id e),
     opt_ok (\<lambda>v. validate_identifier v ''liveness episode outcome'') (le_outcome e),
     ensure (\<not> (le_version e = 0 \<or> le_opened_at_ms e < 0 \<or>
         le_updated_at_ms e < le_opened_at_ms e))
       (InvalidField ''liveness episode timing/version'' ''must have a positive version and monotonic non-negative timestamps''),
     ensure (\<not> is_some_and (\<lambda>v. v < le_opened_at_ms e \<or> v > le_updated_at_ms e)
         (le_last_material_progress_at_ms e))
       (InvalidField ''liveness last material progress'' ''must be within the episode lifetime''),
     ensure (\<not> is_some_and (\<lambda>v. v < le_updated_at_ms e) (le_next_review_at_ms e))
       (InvalidField ''liveness next review'' ''must not precede the current episode revision''),
     validate_bounded_texts (le_state_reason_codes e) ''liveness state reason codes'' 32
       MAX_IDENTIFIER_LEN]"

definition validate_episode ::
  "(LivenessEpisode \<Rightarrow> string option) \<Rightarrow> (string \<Rightarrow> string) \<Rightarrow> LivenessEpisode \<Rightarrow> check" where
  "validate_episode tv sha e = all_ok (episode_checks e @
     seal_checks ''liveness episode sha256'' (episode_digest tv sha e) (le_sha256 e))"

lemma episode_checks_seal [simp]: "episode_checks (r\<lparr>le_sha256 := s\<rparr>) = episode_checks r"
  by (simp add: episode_checks_def)

interpretation episode: sealed_contract le_sha256 "\<lambda>s. le_sha256_update (\<lambda>_. s)" episode_digest
  validate_episode "\<lambda>e. all_ok (episode_checks e) = Inr ()"
  by unfold_locales
    (simp_all add: episode_digest_def validate_episode_def sealed_ok)

section \<open>Interventions\<close>

datatype InterventionKind =
  Wait | PauseForOperator | RequestOperatorDecision | RequestReconciliation | QueueReadOnlyReview

record InterventionReceipt =
  iv_schema :: string
  iv_intervention_id :: string
  iv_episode_id :: string
  iv_kind :: InterventionKind
  iv_source_event_id :: string
  iv_target_version :: u64
  iv_policy_version :: string
  iv_requested_by :: string
  iv_created_at_ms :: i64
  iv_sha256 :: string

definition intervention_digest ::
  "(InterventionReceipt \<Rightarrow> string option) \<Rightarrow> (string \<Rightarrow> string) \<Rightarrow> InterventionReceipt \<Rightarrow>
     OperatorControlError + string" where
  "intervention_digest tv sha r = digest_json tv sha (r\<lparr>iv_sha256 := []\<rparr>)"

definition intervention_checks :: "InterventionReceipt \<Rightarrow> check list" where
  "intervention_checks r =
    [ensure (\<not> (iv_schema r \<noteq> ''harness.intervention-receipt.v1'' \<or> iv_target_version r = 0 \<or>
         iv_created_at_ms r < 0))
       (InvalidField ''intervention receipt'' ''must use v1 with a target version and non-negative timestamp''),
     validate_identifier (iv_intervention_id r) ''intervention id'',
     validate_identifier (iv_episode_id r) ''intervention episode id'',
     validate_identifier (iv_source_event_id r) ''intervention source event id'',
     validate_identifier (iv_policy_version r) ''intervention policy version'',
     validate_identifier (iv_requested_by r) ''intervention requester'']"

definition validate_intervention ::
  "(InterventionReceipt \<Rightarrow> string option) \<Rightarrow> (string \<Rightarrow> string) \<Rightarrow> InterventionReceipt \<Rightarrow> check" where
  "validate_intervention tv sha r = all_ok (intervention_checks r @
     seal_checks ''intervention sha256'' (intervention_digest tv sha r) (iv_sha256 r))"

lemma intervention_checks_seal [simp]: "intervention_checks (r\<lparr>iv_sha256 := s\<rparr>) = intervention_checks r"
  by (simp add: intervention_checks_def)

interpretation intervention: sealed_contract iv_sha256 "\<lambda>s. iv_sha256_update (\<lambda>_. s)"
  intervention_digest validate_intervention "\<lambda>r. all_ok (intervention_checks r) = Inr ()"
  by unfold_locales
    (simp_all add: intervention_digest_def validate_intervention_def sealed_ok)

section \<open>What a valid episode says\<close>

lemma episode_times:
  "all_ok (episode_checks e) = Inr () \<Longrightarrow>
     le_version e \<noteq> 0 \<and> 0 \<le> le_opened_at_ms e \<and> le_opened_at_ms e \<le> le_updated_at_ms e \<and>
     (\<forall>t. le_last_material_progress_at_ms e = Some t \<longrightarrow>
        le_opened_at_ms e \<le> t \<and> t \<le> le_updated_at_ms e) \<and>
     (\<forall>t. le_next_review_at_ms e = Some t \<longrightarrow> le_updated_at_ms e \<le> t)"
  by (auto simp: episode_checks_def)

end
