(* ===== verification/Reconciliation_Contract.thy ===== *)
theory Reconciliation_Contract
  imports Sealed_Records
begin

text \<open>
  The reconciliation contracts of \<^verbatim>\<open>harness-domain/src/operator_control.rs\<close>: episodes, findings,
  action receipts and the exclusive ownership proof that a fresh attempt needs. The theorems: a
  receipt for an action that changes custody names its authority, and a valid ownership proof shows
  every part of the closed state it stands for and is tied to its digest.
\<close>

section \<open>Episodes\<close>

datatype ReconciliationTrigger =
    DaemonRestart | AppServerLoss | ProcessLoss | VersionTransition | AccountHandoff
  | WorktreeMismatch | UncertainCommandCompletion

datatype ReconciliationState =
  ReconOpen | ReconClaimed | AwaitingEvidence | ReconResolved | ReconRefused

datatype ReconciliationFindingKind =
  LiveOwner | UnknownOwner | PreservedCandidate | StaleApproval | AmbiguousExternalEffect

datatype ReconciliationActionKind =
    Preserve | ResumeProvenOwner | InvalidateStaleApproval | ReleaseProvenDeadLease
  | AuthorizeFreshAttempt | OpenAttention

record ReconciliationEpisode =
  re_schema :: string
  re_episode_id :: string
  re_run_id :: "string option"
  re_trigger_kind :: ReconciliationTrigger
  re_state :: ReconciliationState
  re_version :: u64
  re_opened_at_ms :: i64
  re_updated_at_ms :: i64
  re_source_event_id :: string
  re_inventory_sha256 :: string
  re_finding_count :: u32
  re_action_count :: u32
  re_report :: "string option"
  re_sha256 :: string

definition recon_digest ::
  "(ReconciliationEpisode \<Rightarrow> string option) \<Rightarrow> (string \<Rightarrow> string) \<Rightarrow> ReconciliationEpisode \<Rightarrow>
     OperatorControlError + string" where
  "recon_digest tv sha e = digest_json tv sha (e\<lparr>re_sha256 := []\<rparr>)"

definition recon_checks :: "ReconciliationEpisode \<Rightarrow> check list" where
  "recon_checks e =
    [ensure (re_schema e = ''harness.reconciliation-episode.v1'')
       (InvalidField ''reconciliation episode schema'' ''must be harness.reconciliation-episode.v1''),
     validate_identifier (re_episode_id e) ''reconciliation episode id'',
     opt_ok (\<lambda>v. validate_identifier v ''reconciliation run id'') (re_run_id e),
     validate_identifier (re_source_event_id e) ''reconciliation source event id'',
     opt_ok (\<lambda>v. validate_text v ''reconciliation report'' MAX_SUMMARY_LEN) (re_report e),
     ensure (\<not> (re_version e = 0 \<or> re_opened_at_ms e < 0 \<or>
         re_updated_at_ms e < re_opened_at_ms e))
       (InvalidField ''reconciliation timing/version'' ''must have a positive version and monotonic non-negative timestamps''),
     validate_lower_hex (re_inventory_sha256 e) ''reconciliation inventory sha256'' SHA256_HEX_LEN]"

definition validate_recon ::
  "(ReconciliationEpisode \<Rightarrow> string option) \<Rightarrow> (string \<Rightarrow> string) \<Rightarrow> ReconciliationEpisode \<Rightarrow> check" where
  "validate_recon tv sha e = all_ok (recon_checks e @
     seal_checks ''reconciliation sha256'' (recon_digest tv sha e) (re_sha256 e))"

lemma recon_checks_seal [simp]: "recon_checks (r\<lparr>re_sha256 := s\<rparr>) = recon_checks r"
  by (simp add: recon_checks_def)

interpretation recon: sealed_contract re_sha256 "\<lambda>s. re_sha256_update (\<lambda>_. s)" recon_digest
  validate_recon "\<lambda>e. all_ok (recon_checks e) = Inr ()"
  by unfold_locales (simp_all add: recon_digest_def validate_recon_def sealed_ok)

section \<open>Findings\<close>

record 'v ReconciliationFinding =
  rf_schema :: string
  rf_episode_id :: string
  rf_kind :: ReconciliationFindingKind
  rf_source_event_id :: string
  rf_observed_at_ms :: i64
  rf_payload :: 'v
  rf_sha256 :: string

definition recon_finding_digest ::
  "('v ReconciliationFinding \<Rightarrow> string option) \<Rightarrow> (string \<Rightarrow> string) \<Rightarrow> 'v ReconciliationFinding \<Rightarrow>
     OperatorControlError + string" where
  "recon_finding_digest tv sha f = digest_json tv sha (f\<lparr>rf_sha256 := []\<rparr>)"

definition recon_finding_checks :: "'v json_ops \<Rightarrow> 'v ReconciliationFinding \<Rightarrow> check list" where
  "recon_finding_checks js f =
    [ensure (rf_schema f = ''harness.reconciliation-finding.v1'')
       (InvalidField ''reconciliation finding schema'' ''must be harness.reconciliation-finding.v1''),
     validate_identifier (rf_episode_id f) ''reconciliation finding episode id'',
     validate_identifier (rf_source_event_id f) ''reconciliation finding source event id'',
     ensure (\<not> rf_observed_at_ms f < 0)
       (InvalidField ''reconciliation finding observed at'' ''must be a UTC epoch millisecond timestamp''),
     ensure (is_object js (rf_payload f))
       (InvalidField ''reconciliation finding payload'' ''must be a JSON object''),
     check_size (to_vec js (rf_payload f)) MAX_CONDITION_PAYLOAD_BYTES
       (InvalidField ''reconciliation finding payload'' ''must serialize as JSON'')
       (InvalidField ''reconciliation finding payload'' ''exceeds the bounded payload limit'')]"

definition validate_recon_finding ::
  "'v json_ops \<Rightarrow> ('v ReconciliationFinding \<Rightarrow> string option) \<Rightarrow> (string \<Rightarrow> string) \<Rightarrow>
     'v ReconciliationFinding \<Rightarrow> check" where
  "validate_recon_finding js tv sha f = all_ok (recon_finding_checks js f @
     seal_checks ''reconciliation finding sha256'' (recon_finding_digest tv sha f) (rf_sha256 f))"

lemma recon_finding_checks_seal [simp]:
  "recon_finding_checks js (r\<lparr>rf_sha256 := s\<rparr>) = recon_finding_checks js r"
  by (simp add: recon_finding_checks_def)

interpretation recon_finding: sealed_contract rf_sha256 "\<lambda>s. rf_sha256_update (\<lambda>_. s)"
  recon_finding_digest "validate_recon_finding js"
  "\<lambda>f. all_ok (recon_finding_checks js f) = Inr ()" for js
  by unfold_locales (simp_all add: recon_finding_digest_def validate_recon_finding_def sealed_ok)

section \<open>Action receipts\<close>

record 'v ReconciliationActionReceipt =
  ra_schema :: string
  ra_episode_id :: string
  ra_kind :: ReconciliationActionKind
  ra_source_event_id :: string
  ra_authority_event_id :: "string option"
  ra_created_at_ms :: i64
  ra_payload :: 'v
  ra_sha256 :: string

definition action_digest ::
  "('v ReconciliationActionReceipt \<Rightarrow> string option) \<Rightarrow> (string \<Rightarrow> string) \<Rightarrow>
     'v ReconciliationActionReceipt \<Rightarrow> OperatorControlError + string" where
  "action_digest tv sha r = digest_json tv sha (r\<lparr>ra_sha256 := []\<rparr>)"

definition action_checks :: "'v json_ops \<Rightarrow> 'v ReconciliationActionReceipt \<Rightarrow> check list" where
  "action_checks js r =
    [ensure (ra_schema r = ''harness.reconciliation-action-receipt.v1'')
       (InvalidField ''reconciliation action receipt schema'' ''must be harness.reconciliation-action-receipt.v1''),
     validate_identifier (ra_episode_id r) ''reconciliation action receipt episode id'',
     validate_identifier (ra_source_event_id r) ''reconciliation action receipt source event id'',
     opt_ok (\<lambda>v. validate_identifier v ''reconciliation action receipt authority event id'')
       (ra_authority_event_id r),
     ensure (\<not> (ra_kind r \<in> set [ResumeProvenOwner, InvalidateStaleApproval,
         ReleaseProvenDeadLease, AuthorizeFreshAttempt] \<and> ra_authority_event_id r = None))
       (InvalidField ''reconciliation action receipt authority event id'' ''is required for a state-changing reconciliation action''),
     ensure (\<not> ra_created_at_ms r < 0)
       (InvalidField ''reconciliation action receipt created at'' ''must be a UTC epoch millisecond timestamp''),
     ensure (is_object js (ra_payload r))
       (InvalidField ''reconciliation action receipt payload'' ''must be a JSON object''),
     check_size (to_vec js (ra_payload r)) MAX_CONDITION_PAYLOAD_BYTES
       (InvalidField ''reconciliation action receipt payload'' ''must serialize as JSON'')
       (InvalidField ''reconciliation action receipt payload'' ''exceeds the bounded payload limit'')]"

definition validate_action ::
  "'v json_ops \<Rightarrow> ('v ReconciliationActionReceipt \<Rightarrow> string option) \<Rightarrow> (string \<Rightarrow> string) \<Rightarrow>
     'v ReconciliationActionReceipt \<Rightarrow> check" where
  "validate_action js tv sha r = all_ok (action_checks js r @
     seal_checks ''reconciliation action receipt sha256'' (action_digest tv sha r) (ra_sha256 r))"

lemma action_checks_seal [simp]: "action_checks js (r\<lparr>ra_sha256 := s\<rparr>) = action_checks js r"
  by (simp add: action_checks_def)

interpretation action: sealed_contract ra_sha256 "\<lambda>s. ra_sha256_update (\<lambda>_. s)"
  action_digest "validate_action js" "\<lambda>r. all_ok (action_checks js r) = Inr ()" for js
  by unfold_locales (simp_all add: action_digest_def validate_action_def sealed_ok)

lemma action_authority:
  "all_ok (action_checks js r) = Inr () \<Longrightarrow> ra_kind r \<notin> {Preserve, OpenAttention} \<Longrightarrow>
     \<exists>v. ra_authority_event_id r = Some v \<and> is_safe_operator_control_identifier v"
  by (cases "ra_kind r") (auto simp: action_checks_def)

section \<open>Ownership proofs\<close>

record OwnershipProof =
  op_schema :: string
  op_proof_id :: string
  op_run_id :: string
  op_task_id :: string
  op_prior_attempt_id :: string
  op_worktree_id :: string
  op_source_event_id :: string
  op_head_sha :: string
  op_worktree_fingerprint :: string
  op_lease_generation :: u64
  op_process_state :: string
  op_session_state :: string
  op_command_state :: string
  op_external_effect_state :: string
  op_candidate_state :: string
  op_approved_actions :: "string list"
  op_observed_at_ms :: i64
  op_expires_at_ms :: i64
  op_sha256 :: string

definition ownership_digest ::
  "(OwnershipProof \<Rightarrow> string option) \<Rightarrow> (string \<Rightarrow> string) \<Rightarrow> OwnershipProof \<Rightarrow>
     OperatorControlError + string" where
  "ownership_digest tv sha p = digest_json tv sha (p\<lparr>op_sha256 := []\<rparr>)"

definition ownership_checks :: "OwnershipProof \<Rightarrow> check list" where
  "ownership_checks p =
    [ensure (op_schema p = ''harness.exclusive-ownership-proof.v1'')
       (InvalidField ''ownership proof schema'' ''must be harness.exclusive-ownership-proof.v1''),
     validate_identifier (op_proof_id p) ''ownership proof id'',
     validate_identifier (op_run_id p) ''ownership proof run id'',
     validate_identifier (op_task_id p) ''ownership proof task id'',
     validate_identifier (op_prior_attempt_id p) ''ownership proof attempt id'',
     validate_identifier (op_worktree_id p) ''ownership proof worktree id'',
     validate_identifier (op_source_event_id p) ''ownership proof source event id'',
     validate_hex (op_head_sha p) ''ownership proof head sha'' 40,
     validate_lower_hex (op_worktree_fingerprint p) ''ownership proof worktree fingerprint''
       SHA256_HEX_LEN,
     ensure (\<not> (op_process_state p \<noteq> ''proven_absent'' \<or> op_session_state p \<noteq> ''proven_closed'' \<or>
         op_command_state p \<noteq> ''terminal_or_none'' \<or>
         op_external_effect_state p \<noteq> ''none_or_reconciled'' \<or>
         op_candidate_state p \<noteq> ''preserved'' \<or>
         op_approved_actions p \<noteq> [''authorize_fresh_attempt'']))
       (InvalidField ''ownership proof exclusivity fields'' ''must prove the closed exclusive-ownership state for a fresh attempt''),
     ensure (\<not> (op_observed_at_ms p < 0 \<or> op_expires_at_ms p \<le> op_observed_at_ms p))
       (InvalidField ''ownership proof timestamps'' ''must be nonnegative and expire after observation'')]"

definition validate_ownership ::
  "(OwnershipProof \<Rightarrow> string option) \<Rightarrow> (string \<Rightarrow> string) \<Rightarrow> OwnershipProof \<Rightarrow> check" where
  "validate_ownership tv sha p = all_ok (ownership_checks p @
     seal_checks ''ownership proof sha256'' (ownership_digest tv sha p) (op_sha256 p))"

lemma ownership_checks_seal [simp]: "ownership_checks (r\<lparr>op_sha256 := s\<rparr>) = ownership_checks r"
  by (simp add: ownership_checks_def)

interpretation ownership: sealed_contract op_sha256 "\<lambda>s. op_sha256_update (\<lambda>_. s)"
  ownership_digest validate_ownership "\<lambda>p. all_ok (ownership_checks p) = Inr ()"
  by unfold_locales (simp_all add: ownership_digest_def validate_ownership_def sealed_ok)

section \<open>Properties\<close>

lemma ownership_exclusive:
  "all_ok (ownership_checks p) = Inr () \<Longrightarrow>
     op_process_state p = ''proven_absent'' \<and> op_session_state p = ''proven_closed'' \<and>
     op_command_state p = ''terminal_or_none'' \<and> op_external_effect_state p = ''none_or_reconciled'' \<and>
     op_candidate_state p = ''preserved'' \<and> op_approved_actions p = [''authorize_fresh_attempt''] \<and>
     0 \<le> op_observed_at_ms p \<and> op_observed_at_ms p < op_expires_at_ms p"
  unfolding ownership_checks_def by simp

text \<open>
  C33. An ownership proof cannot be altered under its digest: two valid proofs with the same digest
  are the same proof, field for field, unless the digest function collides on their serializations
  or the serializer fails to tell them apart; and either one shows that process, session, commands
  and external effects are closed, that the candidate is preserved, that it expires after it was
  observed, and that the only action it approves is a fresh attempt.
\<close>

theorem ownership_proof_is_tamper_evident:
  assumes p: "validate_ownership tv sha p = Inr ()" and q: "validate_ownership tv sha q = Inr ()"
    and same: "op_sha256 p = op_sha256 q"
    and serializer: "tv (p\<lparr>op_sha256 := []\<rparr>) = tv (q\<lparr>op_sha256 := []\<rparr>) \<Longrightarrow>
                     p\<lparr>op_sha256 := []\<rparr> = q\<lparr>op_sha256 := []\<rparr>"
  shows "(p = q \<or> (\<exists>a b. tv (p\<lparr>op_sha256 := []\<rparr>) = Some a \<and> tv (q\<lparr>op_sha256 := []\<rparr>) = Some b \<and>
             a \<noteq> b \<and> sha a = sha b)) \<and>
    op_process_state p = ''proven_absent'' \<and> op_session_state p = ''proven_closed'' \<and>
    op_command_state p = ''terminal_or_none'' \<and> op_external_effect_state p = ''none_or_reconciled'' \<and>
    op_candidate_state p = ''preserved'' \<and> op_approved_actions p = [''authorize_fresh_attempt''] \<and>
    0 \<le> op_observed_at_ms p \<and> op_observed_at_ms p < op_expires_at_ms p"
  using ownership.valid_records_with_equal_digest [OF p q same serializer]
    ownership_exclusive [of p] p
  by (simp add: validate_ownership_def sealed_ok)

definition sample_proof :: "string \<Rightarrow> OwnershipProof" where
  "sample_proof task = \<lparr>op_schema = ''harness.exclusive-ownership-proof.v1'', op_proof_id = ''op_1'',
     op_run_id = ''run_1'', op_task_id = task, op_prior_attempt_id = ''a1'', op_worktree_id = ''w1'',
     op_source_event_id = ''e1'', op_head_sha = zeros 40, op_worktree_fingerprint = zeros 64,
     op_lease_generation = 1, op_process_state = ''proven_absent'', op_session_state = ''proven_closed'',
     op_command_state = ''terminal_or_none'', op_external_effect_state = ''none_or_reconciled'',
     op_candidate_state = ''preserved'', op_approved_actions = [''authorize_fresh_attempt''],
     op_observed_at_ms = 1, op_expires_at_ms = 2, op_sha256 = zeros 64\<rparr>"

lemma sample_proof_valid:
  "is_safe_operator_control_identifier task \<Longrightarrow>
     validate_ownership (\<lambda>p. Some (op_task_id p)) (\<lambda>_. zeros 64) (sample_proof task) = Inr ()"
  by (simp add: validate_ownership_def sealed_ok ownership_digest_def digest_json_def SHA256_HEX_LEN_def)
    (simp add: ownership_checks_def sample_proof_def safe_eval)

text \<open>
  Both alternatives occur: with a digest function that sends everything to one value, two proofs
  for different tasks share a digest, and the theorem names the collision.
\<close>

theorem ownership_proof_is_tamper_evident_witness:
  "(\<exists>a b. Some (op_task_id (sample_proof ''t1'')) = Some a \<and>
      Some (op_task_id (sample_proof ''t2'')) = Some b \<and> a \<noteq> b \<and> zeros 64 = zeros 64) \<and>
   op_process_state (sample_proof ''t1'') = ''proven_absent'' \<and>
   op_approved_actions (sample_proof ''t1'') = [''authorize_fresh_attempt'']"
proof -
  have "is_safe_operator_control_identifier ''t1''" "is_safe_operator_control_identifier ''t2''"
    by (simp_all add: safe_eval)
  note valid = this [THEN sample_proof_valid]
  have ne: "sample_proof ''t1'' \<noteq> sample_proof ''t2''" by (simp add: sample_proof_def)
  have sep: "op_task_id ((sample_proof ''t1'')\<lparr>op_sha256 := []\<rparr>) \<noteq>
      op_task_id ((sample_proof ''t2'')\<lparr>op_sha256 := []\<rparr>)"
    by (simp add: sample_proof_def)
  have "op_sha256 (sample_proof ''t1'') = op_sha256 (sample_proof ''t2'')"
    by (simp add: sample_proof_def)
  from ownership_proof_is_tamper_evident [OF valid this] ne sep show ?thesis by simp
qed

text \<open>
  Custody changes name their authority: a valid action receipt for anything other than preserving
  state or opening an attention item carries an authority event, and that event is a safe identifier.
\<close>

theorem custody_change_names_authority:
  assumes "validate_action js tv sha r = Inr ()" and "ra_kind r \<noteq> Preserve" and "ra_kind r \<noteq> OpenAttention"
  shows "\<exists>v. ra_authority_event_id r = Some v \<and> is_safe_operator_control_identifier v \<and>
             action_digest tv sha r = Inr (ra_sha256 r)"
  using assms action_authority [of js r] by (auto simp: validate_action_def sealed_ok)

definition sample_json :: "string json_ops" where
  "sample_json = \<lparr>to_vec = Some, is_object = (\<lambda>_. True), get_key = (\<lambda>_ _. None),
     as_bool = (\<lambda>_. None), as_str = Some, as_u64 = (\<lambda>_. None)\<rparr>"

definition sample_receipt :: "string ReconciliationActionReceipt" where
  "sample_receipt = \<lparr>ra_schema = ''harness.reconciliation-action-receipt.v1'', ra_episode_id = ''e'',
     ra_kind = AuthorizeFreshAttempt, ra_source_event_id = ''s'', ra_authority_event_id = Some ''op_1'',
     ra_created_at_ms = 0, ra_payload = ''{}'', ra_sha256 = zeros 64\<rparr>"

theorem custody_change_names_authority_witness:
  "\<exists>v. ra_authority_event_id sample_receipt = Some v \<and> is_safe_operator_control_identifier v \<and>
       action_digest (\<lambda>_. Some ''{}'') (\<lambda>_. zeros 64) sample_receipt = Inr (ra_sha256 sample_receipt)"
proof (rule custody_change_names_authority)
  show "validate_action sample_json (\<lambda>_. Some ''{}'') (\<lambda>_. zeros 64) sample_receipt = Inr ()"
    by (simp add: validate_action_def sealed_ok action_digest_def digest_json_def SHA256_HEX_LEN_def)
      (simp add: action_checks_def sample_receipt_def sample_json_def safe_eval)
qed (simp_all add: sample_receipt_def)

end
