(* ===== verification/Condition_Contract.thy ===== *)
theory Condition_Contract
  imports Sealed_Records
begin

text \<open>
  External conditions (\<^verbatim>\<open>harness-domain/src/operator_control.rs\<close>): a fact outside the controller
  that work waits for, the observations of it, and the compact summary list views use.
\<close>

section \<open>Data\<close>

datatype ExternalConditionAdapter =
  CiCheck | ReviewState | CredentialAvailability | TimeGate | HardwareCapacity | ServiceAvailability

datatype ExternalConditionOwnerType = OwnerRun | OwnerTask | OwnerAttempt

datatype ExternalConditionState =
  CondOpen | Satisfied | Unsatisfied | CondUnknown | CondCancelled

definition condition_is_terminal :: "ExternalConditionState \<Rightarrow> bool" where
  "condition_is_terminal s \<longleftrightarrow> s \<in> set [Satisfied, Unsatisfied, CondCancelled]"

record ExternalConditionPollPolicy =
  pp_initial_ms :: u64
  pp_maximum_ms :: u64
  pp_deadline_ms :: "i64 option"

record LocalCapacitySpec =
  lc_schema :: string
  lc_resource :: string
  lc_minimum_available_bytes :: u64

record 'v ConditionObservation =
  co_schema :: string
  co_observation_id :: string
  co_condition_id :: string
  co_source_event_id :: string
  co_sequence :: u64
  co_observed_at_ms :: i64
  co_state :: ExternalConditionState
  co_payload :: 'v
  co_sha256 :: string

record 'v ExternalCondition =
  ec_schema :: string
  ec_condition_id :: string
  ec_owner_type :: ExternalConditionOwnerType
  ec_owner_id :: string
  ec_adapter :: ExternalConditionAdapter
  ec_source_id :: string
  ec_spec :: 'v
  ec_state :: ExternalConditionState
  ec_sequence :: u64
  ec_poll_policy :: ExternalConditionPollPolicy
  ec_source_identity_digest :: string
  ec_last_observation :: "'v ConditionObservation option"
  ec_version :: u64
  ec_opened_at_ms :: i64
  ec_updated_at_ms :: i64
  ec_sha256 :: string

record ExternalConditionSummary =
  es_schema :: string
  es_condition_id :: string
  es_owner_type :: ExternalConditionOwnerType
  es_owner_id :: string
  es_adapter :: ExternalConditionAdapter
  es_source_id :: string
  es_state :: ExternalConditionState
  es_sequence :: u64
  es_poll_policy :: ExternalConditionPollPolicy
  es_last_observation_state :: "ExternalConditionState option"
  es_last_observed_at_ms :: "i64 option"
  es_version :: u64
  es_opened_at_ms :: i64
  es_updated_at_ms :: i64
  es_condition_sha256 :: string

text \<open>
  What the condition code takes from \<open>serde_json\<close>, \<open>sha2\<close> and \<open>hex\<close>: the serializers of a JSON value,
  an observation and a condition, the parser of a capacity specification, and the digest.
\<close>

record 'v condition_libs =
  cl_value_to_vec :: "'v \<Rightarrow> string option"
  cl_observation_to_vec :: "'v ConditionObservation \<Rightarrow> string option"
  cl_condition_to_vec :: "'v ExternalCondition \<Rightarrow> string option"
  cl_spec_from_value :: "'v \<Rightarrow> LocalCapacitySpec option"
  cl_sha :: "string \<Rightarrow> string"

section \<open>Validators\<close>

definition MAX_MINIMUM_AVAILABLE_BYTES :: u64 where
  "MAX_MINIMUM_AVAILABLE_BYTES = push_bit 60 1"

definition validate_capacity :: "LocalCapacitySpec \<Rightarrow> check" where
  "validate_capacity s = all_ok
    [ensure (lc_schema s = ''harness.local-capacity-spec.v1'')
       (InvalidField ''local capacity specification schema'' ''must be harness.local-capacity-spec.v1''),
     ensure (lc_resource s = ''repository_root_filesystem'')
       (InvalidField ''local capacity specification resource'' ''must be the controller-owned repository_root_filesystem''),
     ensure (\<not> (lc_minimum_available_bytes s = 0 \<or>
         lc_minimum_available_bytes s > MAX_MINIMUM_AVAILABLE_BYTES))
       (InvalidField ''local capacity minimum available bytes'' ''must be between one byte and one exbibyte'')]"

definition validate_poll_policy :: "ExternalConditionPollPolicy \<Rightarrow> check" where
  "validate_poll_policy p = all_ok
    [ensure (\<not> (pp_initial_ms p = 0 \<or> pp_maximum_ms p < pp_initial_ms p))
       (InvalidField ''external condition poll policy'' ''must have a positive initial interval no larger than its maximum''),
     ensure (\<not> is_some_and (\<lambda>deadline. deadline < 0) (pp_deadline_ms p))
       (InvalidField ''external condition deadline'' ''must be a UTC epoch millisecond timestamp'')]"

definition cond_observation_digest ::
  "('v ConditionObservation \<Rightarrow> string option) \<Rightarrow> (string \<Rightarrow> string) \<Rightarrow> 'v ConditionObservation \<Rightarrow>
     OperatorControlError + string" where
  "cond_observation_digest tv sha ob = digest_json tv sha (ob\<lparr>co_sha256 := []\<rparr>)"

definition validate_cond_observation :: "'v condition_libs \<Rightarrow> 'v ConditionObservation \<Rightarrow> check" where
  "validate_cond_observation L ob = all_ok
    [ensure (co_schema ob = ''harness.condition-observation.v1'')
       (InvalidField ''condition observation schema'' ''must be harness.condition-observation.v1''),
     validate_identifier (co_observation_id ob) ''condition observation id'',
     validate_identifier (co_condition_id ob) ''condition observation condition id'',
     validate_identifier (co_source_event_id ob) ''condition observation source event id'',
     ensure (\<not> co_observed_at_ms ob < 0)
       (InvalidField ''condition observation time'' ''must be a UTC epoch millisecond timestamp''),
     check_size (cl_observation_to_vec L ob) MAX_CONDITION_PAYLOAD_BYTES
       (InvalidField ''condition observation'' ''must serialize as JSON'')
       (InvalidField ''condition observation payload'' ''exceeds the bounded payload limit''),
     validate_lower_hex (co_sha256 ob) ''condition observation sha256'' SHA256_HEX_LEN,
     check_digest (cond_observation_digest (cl_observation_to_vec L) (cl_sha L) ob) (co_sha256 ob)
       (InvalidField ''condition observation sha256'' ''does not match the canonical observation payload'')]"

definition condition_digest ::
  "('v ExternalCondition \<Rightarrow> string option) \<Rightarrow> (string \<Rightarrow> string) \<Rightarrow> 'v ExternalCondition \<Rightarrow>
     OperatorControlError + string" where
  "condition_digest tv sha c = digest_json tv sha (c\<lparr>ec_sha256 := []\<rparr>)"

definition local_capacity_spec ::
  "'v condition_libs \<Rightarrow> 'v ExternalCondition \<Rightarrow> OperatorControlError + LocalCapacitySpec" where
  "local_capacity_spec L c =
    (if ec_adapter c \<noteq> HardwareCapacity
     then Inl (InvalidField ''local capacity adapter'' ''must be hardware_capacity'')
     else ok_or (InvalidField ''local capacity specification'' ''must be the closed harness.local-capacity-spec.v1 shape'')
            (cl_spec_from_value L (ec_spec c)))"

definition observation_binding :: "'v condition_libs \<Rightarrow> 'v ExternalCondition \<Rightarrow> check" where
  "observation_binding L c =
    (case ec_last_observation c of
       Some ob \<Rightarrow> all_ok
         [validate_cond_observation L ob,
          ensure (\<not> (co_condition_id ob \<noteq> ec_condition_id c \<or> co_sequence ob \<noteq> ec_sequence c \<or>
              co_state ob \<noteq> ec_state c))
            (InvalidField ''external condition last observation'' ''must bind the exact condition, current sequence, and current state'')]
     | None \<Rightarrow> ensure (ec_sequence c = 0)
         (InvalidField ''external condition sequence'' ''cannot advance without an observation''))"

definition validate_condition :: "'v condition_libs \<Rightarrow> 'v ExternalCondition \<Rightarrow> check" where
  "validate_condition L c = all_ok
    [ensure (ec_schema c = ''harness.external-condition.v1'')
       (InvalidField ''external condition schema'' ''must be harness.external-condition.v1''),
     validate_identifier (ec_condition_id c) ''external condition id'',
     validate_identifier (ec_owner_id c) ''external condition owner id'',
     validate_identifier (ec_source_id c) ''external condition source id'',
     validate_lower_hex (ec_source_identity_digest c) ''external condition source identity digest''
       SHA256_HEX_LEN,
     ensure (\<not> (ec_version c = 0 \<or> ec_opened_at_ms c < 0 \<or>
         ec_updated_at_ms c < ec_opened_at_ms c))
       (InvalidField ''external condition version or timestamps'' ''must be monotonic and use UTC epoch milliseconds''),
     validate_poll_policy (ec_poll_policy c),
     (if ec_adapter c = HardwareCapacity then and_then (local_capacity_spec L c) validate_capacity
      else Inr ()),
     check_size (cl_value_to_vec L (ec_spec c)) MAX_CONDITION_SPEC_BYTES
       (InvalidField ''external condition spec'' ''must serialize as JSON'')
       (InvalidField ''external condition spec'' ''exceeds the bounded specification limit''),
     observation_binding L c,
     check_size (cl_condition_to_vec L c) MAX_CONDITION_PAYLOAD_BYTES
       (InvalidField ''external condition'' ''must serialize as JSON'')
       (InvalidField ''external condition payload'' ''exceeds the bounded payload limit''),
     validate_lower_hex (ec_sha256 c) ''external condition sha256'' SHA256_HEX_LEN,
     check_digest (condition_digest (cl_condition_to_vec L) (cl_sha L) c) (ec_sha256 c)
       (InvalidField ''external condition sha256'' ''does not match the canonical condition payload'')]"

definition condition_summary :: "'v ExternalCondition \<Rightarrow> ExternalConditionSummary" where
  "condition_summary c = \<lparr>es_schema = ''harness.external-condition-summary.v1'',
     es_condition_id = ec_condition_id c, es_owner_type = ec_owner_type c, es_owner_id = ec_owner_id c,
     es_adapter = ec_adapter c, es_source_id = ec_source_id c, es_state = ec_state c,
     es_sequence = ec_sequence c, es_poll_policy = ec_poll_policy c,
     es_last_observation_state = map_option co_state (ec_last_observation c),
     es_last_observed_at_ms = map_option co_observed_at_ms (ec_last_observation c),
     es_version = ec_version c, es_opened_at_ms = ec_opened_at_ms c,
     es_updated_at_ms = ec_updated_at_ms c, es_condition_sha256 = ec_sha256 c\<rparr>"

section \<open>Sealing\<close>

interpretation cond_observation: sealed co_sha256 "\<lambda>s. co_sha256_update (\<lambda>_. s)" cond_observation_digest
  by unfold_locales (simp_all add: cond_observation_digest_def)

interpretation cond: sealed ec_sha256 "\<lambda>s. ec_sha256_update (\<lambda>_. s)" condition_digest
  by unfold_locales (simp_all add: condition_digest_def)

section \<open>What a valid condition says\<close>

lemma condition_observation_bound:
  "validate_condition L c = Inr () \<Longrightarrow>
     (case ec_last_observation c of
        None \<Rightarrow> ec_sequence c = 0
      | Some ob \<Rightarrow> validate_cond_observation L ob = Inr () \<and> co_condition_id ob = ec_condition_id c \<and>
          co_sequence ob = ec_sequence c \<and> co_state ob = ec_state c)"
  by (simp add: validate_condition_def observation_binding_def split: option.splits)

lemma condition_times:
  "validate_condition L c = Inr () \<Longrightarrow>
     ec_version c \<noteq> 0 \<and> 0 \<le> ec_opened_at_ms c \<and> ec_opened_at_ms c \<le> ec_updated_at_ms c"
  by (simp add: validate_condition_def)

lemma condition_poll:
  "validate_condition L c = Inr () \<Longrightarrow>
     0 < pp_initial_ms (ec_poll_policy c) \<and>
     pp_initial_ms (ec_poll_policy c) \<le> pp_maximum_ms (ec_poll_policy c)"
  by (simp add: validate_condition_def validate_poll_policy_def word_gt_0 not_less)

lemma condition_identifiers:
  "validate_condition L c = Inr () \<Longrightarrow>
     is_safe_operator_control_identifier (ec_condition_id c) \<and>
     is_safe_operator_control_identifier (ec_source_id c)"
  by (simp add: validate_condition_def)

end
