(* ===== verification/Store_Base.thy ===== *)
theory Store_Base
  imports Sealed_Records "HOL-Library.List_Lexorder" "HOL-Library.Char_ord"
begin

text \<open>
  What the repositories of \<^verbatim>\<open>harness-store/src/operator_control\<close> share: the error type, stored payloads
  and the integrity check every read makes.

  A table is the list of its rows. A row keeps the columns its queries use together with the JSON
  payload and the digest of that payload. An operation returns either an error, and then the
  transaction rolls back and the tables are unchanged, or its result with the new tables.

  The JSON encoder and decoder of a record type (\<open>serde_json::to_string\<close>, \<open>serde_json::from_str\<close>) and
  the digest are parameters; \<open>codec_ok\<close> is what the code relies on: a record that was encoded decodes
  to itself. \<open>to_string\<close> and \<open>to_vec\<close> produce the same bytes, so the encoder is also the serializer
  of the record digests.
\<close>

section \<open>Errors\<close>

datatype StoreError =
    Sqlite string
  | Json
  | NotFound string
  | Conflict string
  | Validation string

type_synonym 'a stored = "StoreError + 'a"

fun debug_attention_state :: "AttentionState \<Rightarrow> string" where
  "debug_attention_state Open = ''Open''"
| "debug_attention_state Acknowledged = ''Acknowledged''"
| "debug_attention_state WaitingExternal = ''WaitingExternal''"
| "debug_attention_state Resolved = ''Resolved''"
| "debug_attention_state Declined = ''Declined''"
| "debug_attention_state Superseded = ''Superseded''"
| "debug_attention_state Invalidated = ''Invalidated''"

text \<open>The \<open>Display\<close> text of an \<open>OperatorControlError\<close>.\<close>

fun control_error_to_string :: "OperatorControlError \<Rightarrow> string" where
  "control_error_to_string (InvalidField field reason) = ''invalid '' @ field @ '': '' @ reason"
| "control_error_to_string (IllegalAttentionTransition a b) =
     ''illegal attention transition from '' @ debug_attention_state a @ '' to '' @ debug_attention_state b"

text \<open>\<open>.map_err(|error| StoreError::Validation(error.to_string()))\<close>.\<close>

definition validated :: "OperatorControlError + 'a \<Rightarrow> 'a stored" where
  "validated = map_err (Validation \<circ> control_error_to_string)"

lemma validated_ok [simp]: "validated r = Inr x \<longleftrightarrow> r = Inr x"
  by (simp add: validated_def)

section \<open>Payloads\<close>

record 'r codec =
  enc :: "'r \<Rightarrow> string option"
  dec :: "string \<Rightarrow> 'r option"

definition codec_ok :: "'r codec \<Rightarrow> bool" where
  "codec_ok c \<longleftrightarrow> (\<forall>r raw. enc c r = Some raw \<longrightarrow> dec c raw = Some r)"

lemma codec_okD: "codec_ok c \<Longrightarrow> enc c r = Some raw \<Longrightarrow> dec c raw = Some r"
  by (simp add: codec_ok_def)

lemma codec_ok_inj: "codec_ok c \<Longrightarrow> enc c r = Some raw \<Longrightarrow> enc c q = Some raw \<Longrightarrow> r = q"
  by (metis codec_okD option.inject)

text \<open>A codec for finitely many records, for concrete runs.\<close>

definition list_codec :: "('r \<times> string) list \<Rightarrow> 'r codec" where
  "list_codec xs = \<lparr>enc = map_of xs, dec = map_of (map (\<lambda>(r, raw). (raw, r)) xs)\<rparr>"

lemma list_codec_ok: "distinct (map snd xs) \<Longrightarrow> codec_ok (list_codec xs)"
proof -
  assume "distinct (map snd xs)"
  then have "distinct (map fst (map (\<lambda>(r, raw). (raw, r)) xs))"
    by (simp add: comp_def case_prod_unfold)
  then show ?thesis
    by (auto simp: codec_ok_def list_codec_def map_of_eq_Some_iff dest!: map_of_SomeD intro!: rev_image_eqI)
qed

text \<open>\<open>serde_json::to_string(..)?\<close>.\<close>

definition to_json :: "'r codec \<Rightarrow> 'r \<Rightarrow> string stored" where
  "to_json c r = ok_or Json (enc c r)"

lemma to_json_ok [simp]: "to_json c r = Inr raw \<longleftrightarrow> enc c r = Some raw"
  by (simp add: to_json_def)

text \<open>
  The \<open>checked_*_row\<close> functions: the stored digest must match the payload, the payload must parse and
  the record must validate. All failures are conversion errors of the database layer.
\<close>

definition checked_row ::
  "'r codec \<Rightarrow> (string \<Rightarrow> string) \<Rightarrow> ('r \<Rightarrow> check) \<Rightarrow> string \<Rightarrow> string \<Rightarrow> 'r stored" where
  "checked_row c sha validate raw payload_sha256 =
    (if sha raw \<noteq> payload_sha256 then Inl (Sqlite ''payload integrity check failed'')
     else case dec c raw of
       None \<Rightarrow> Inl (Sqlite ''conversion failure'')
     | Some r \<Rightarrow> (case validate r of
          Inl e \<Rightarrow> Inl (Sqlite (control_error_to_string e))
        | Inr _ \<Rightarrow> Inr r))"

lemma checked_row_ok [simp]:
  "checked_row c sha validate raw d = Inr r \<longleftrightarrow> sha raw = d \<and> dec c raw = Some r \<and> validate r = Inr ()"
  by (auto simp: checked_row_def split: option.splits sum.splits)

text \<open>\<open>u64\<close> values are stored as \<open>i64\<close>.\<close>

definition to_i64 :: "u64 \<Rightarrow> string \<Rightarrow> i64 stored" where
  "to_i64 v field = (if unat v < 2 ^ 63 then Inr (int (unat v))
     else Inl (Validation (field @ '' exceeds SQLite integer range'')))"

lemma to_i64_ok [simp]: "to_i64 v f = Inr i \<longleftrightarrow> unat v < 2 ^ 63 \<and> i = int (unat v)"
  by (auto simp: to_i64_def)

lemma to_i64_code [code]:
  "to_i64 v field = (if uint v < 2 ^ 63 then Inr (uint v) else Inl (Validation (field @ '' exceeds SQLite integer range'')))"
  unfolding to_i64_def unat_less_power by simp

text \<open>The table constraint on every payload digest column.\<close>

definition check_payload_sha :: "string \<Rightarrow> unit stored" where
  "check_payload_sha d = ensure (is_lower_hex d 64) (Sqlite ''CHECK constraint failed'')"

lemma check_payload_sha_ok [simp]: "check_payload_sha d = Inr u \<longleftrightarrow> is_lower_hex d 64"
  by (simp add: check_payload_sha_def)

text \<open>The first row a query finds, if any.\<close>

definition lookup_row :: "('r \<Rightarrow> bool) \<Rightarrow> 'r list \<Rightarrow> 'r option" where
  "lookup_row p rows = List.find p rows"

lemma lookup_row_Some: "lookup_row p rows = Some r \<Longrightarrow> r \<in> set rows \<and> p r"
  by (auto simp: lookup_row_def find_Some_iff)

lemma lookup_row_None: "lookup_row p rows = None \<longleftrightarrow> (\<forall>r \<in> set rows. \<not> p r)"
  by (auto simp: lookup_row_def find_None_iff)

end
