(* ===== verification/Topology_Contract.thy ===== *)
theory Topology_Contract
  imports Sealed_Records
begin

text \<open>
  The read models of the control plane in \<^verbatim>\<open>harness-domain/src/operator_control.rs\<close>: the bounded
  snapshot and its sections, the topology of a run, the trace context and the correlation link.
  The theorem: a valid topology is a graph, its nodes are told apart by their names and its edges
  connect nodes it contains.
\<close>

section \<open>Control plane snapshots\<close>

datatype SnapshotSectionState = SecCurrent | SecStale | SecUnknown | SecError

record 'v SnapshotSection =
  ss_state :: SnapshotSectionState
  ss_rows :: "'v list"
  ss_source_cursor :: u64
  ss_truncated :: bool
  ss_detail :: "string option"

definition validate_section :: "'v SnapshotSection \<Rightarrow> check" where
  "validate_section s = ensure (\<not> length (ss_rows s) > MAX_SECTION_ROWS)
     (InvalidField ''snapshot section rows'' ''exceeds the bounded section limit'')"

record SnapshotTruncation =
  st_section :: string
  st_omitted_rows :: u64
  st_limit :: u64

record 'v ControlPlaneSnapshot =
  cs_schema :: string
  cs_snapshot_id :: string
  cs_revision :: u64
  cs_compiled_at_ms :: i64
  cs_event_cursor :: u64
  cs_consistency :: string
  cs_system :: "'v SnapshotSection"
  cs_accounts :: "'v SnapshotSection"
  cs_scheduler :: "'v SnapshotSection"
  cs_runs :: "'v SnapshotSection"
  cs_attention :: "'v SnapshotSection"
  cs_attempts :: "'v SnapshotSection"
  cs_investigations :: "'v SnapshotSection"
  cs_progress :: "'v SnapshotSection"
  cs_liveness :: "'v SnapshotSection"
  cs_reconciliation :: "'v SnapshotSection"
  cs_external_conditions :: "'v SnapshotSection"
  cs_cost :: "'v SnapshotSection"
  cs_notifications :: "'v SnapshotSection"
  cs_limits :: "'v SnapshotSection"
  cs_truncation :: "SnapshotTruncation list"
  cs_source_cursors :: "(string \<times> u64) list"
  cs_sha256 :: string

definition snapshot_sections :: "'v ControlPlaneSnapshot \<Rightarrow> 'v SnapshotSection list" where
  "snapshot_sections s =
    [cs_system s, cs_accounts s, cs_scheduler s, cs_runs s, cs_attention s, cs_attempts s,
     cs_investigations s, cs_progress s, cs_liveness s, cs_reconciliation s,
     cs_external_conditions s, cs_cost s, cs_notifications s, cs_limits s]"

definition validate_snapshot :: "'v ControlPlaneSnapshot \<Rightarrow> check" where
  "validate_snapshot s = all_ok
    [ensure (cs_schema s = ''harness.control-plane-snapshot.v1'')
       (InvalidField ''snapshot schema'' ''must be harness.control-plane-snapshot.v1''),
     validate_hex (cs_sha256 s) ''snapshot sha256'' SHA256_HEX_LEN,
     for_ok validate_section (snapshot_sections s)]"

lemma snapshot_row_bound:
  assumes "validate_snapshot s = Inr ()"
  shows "sum_list (map (length \<circ> ss_rows) (snapshot_sections s)) \<le> 14000"
proof -
  have "\<forall>x \<in> set (snapshot_sections s). (length \<circ> ss_rows) x \<le> 1000"
    using assms by (simp add: validate_snapshot_def validate_section_def limit_defs not_less)
  then have "sum_list (map (length \<circ> ss_rows) (snapshot_sections s)) \<le>
      sum_list (map (\<lambda>_. 1000) (snapshot_sections s))"
    by (intro sum_list_mono) simp
  then show ?thesis by (simp add: snapshot_sections_def)
qed

section \<open>Run topology\<close>

record TopologyNode =
  tn_id :: string
  tn_kind :: string
  tn_source_ref :: string

record TopologyEdge =
  te_from :: string
  te_to :: string
  te_kind :: string
  te_source_ref :: string

record TopologySnapshot =
  ts_schema :: string
  ts_snapshot_id :: string
  ts_run_id :: string
  ts_nodes :: "TopologyNode list"
  ts_edges :: "TopologyEdge list"
  ts_source_cursor :: u64
  ts_sha256 :: string

definition topology_digest ::
  "(TopologySnapshot \<Rightarrow> string option) \<Rightarrow> (string \<Rightarrow> string) \<Rightarrow> TopologySnapshot \<Rightarrow>
     OperatorControlError + string" where
  "topology_digest tv sha t = digest_json tv sha (t\<lparr>ts_sha256 := []\<rparr>)"

text \<open>The loop over the nodes; \<open>seen\<close> is the set \<open>node_ids\<close> built so far.\<close>

fun check_nodes :: "string set \<Rightarrow> TopologyNode list \<Rightarrow> check" where
  "check_nodes seen [] = Inr ()"
| "check_nodes seen (n # ns) = all_ok
    [validate_topology_identifier (tn_id n) ''topology node id'',
     validate_identifier (tn_kind n) ''topology node kind'',
     validate_text (tn_source_ref n) ''topology node source ref'' MAX_TOPOLOGY_SOURCE_REF_LEN,
     ensure (tn_id n \<notin> seen)
       (InvalidField ''topology nodes'' ''contains a duplicate node id''),
     check_nodes (insert (tn_id n) seen) ns]"

definition check_edge :: "string set \<Rightarrow> TopologyEdge \<Rightarrow> check" where
  "check_edge node_ids e = all_ok
    [validate_topology_identifier (te_from e) ''topology edge source'',
     validate_topology_identifier (te_to e) ''topology edge destination'',
     validate_identifier (te_kind e) ''topology edge kind'',
     validate_text (te_source_ref e) ''topology edge source ref'' MAX_TOPOLOGY_SOURCE_REF_LEN,
     ensure (\<not> (te_from e \<notin> node_ids \<or> te_to e \<notin> node_ids))
       (InvalidField ''topology edge endpoints'' ''must refer to included nodes'')]"

definition topology_checks :: "TopologySnapshot \<Rightarrow> check list" where
  "topology_checks t =
    [ensure (ts_schema t = ''harness.run-topology.v1'')
       (InvalidField ''topology schema'' ''must be harness.run-topology.v1''),
     validate_identifier (ts_snapshot_id t) ''topology snapshot id'',
     validate_identifier (ts_run_id t) ''topology run id'',
     ensure (\<not> (length (ts_nodes t) > MAX_SECTION_ROWS \<or>
         length (ts_edges t) > MAX_SECTION_ROWS * 4))
       (InvalidField ''topology size'' ''exceeds the bounded node or edge limit''),
     check_nodes {} (ts_nodes t),
     for_ok (check_edge (tn_id ` set (ts_nodes t))) (ts_edges t)]"

definition validate_topology ::
  "(TopologySnapshot \<Rightarrow> string option) \<Rightarrow> (string \<Rightarrow> string) \<Rightarrow> TopologySnapshot \<Rightarrow> check" where
  "validate_topology tv sha t = all_ok (topology_checks t @
     seal_checks ''topology sha256'' (topology_digest tv sha t) (ts_sha256 t))"

lemma topology_checks_seal [simp]: "topology_checks (r\<lparr>ts_sha256 := s\<rparr>) = topology_checks r"
  by (simp add: topology_checks_def)

interpretation topology: sealed_contract ts_sha256 "\<lambda>s. ts_sha256_update (\<lambda>_. s)" topology_digest
  validate_topology "\<lambda>t. all_ok (topology_checks t) = Inr ()"
  by unfold_locales (simp_all add: topology_digest_def validate_topology_def sealed_ok)

section \<open>Trace contexts and correlation links\<close>

record TraceContext =
  tc_trace_id :: string
  tc_span_id :: string
  tc_parent_span_id :: "string option"

definition all_zero :: "string \<Rightarrow> bool" where
  "all_zero s \<longleftrightarrow> list_all (\<lambda>b. b = CHR ''0'') s"

definition validate_trace :: "TraceContext \<Rightarrow> check" where
  "validate_trace t = all_ok
    [validate_lower_hex (tc_trace_id t) ''trace id'' TRACE_ID_HEX_LEN,
     validate_lower_hex (tc_span_id t) ''span id'' SPAN_ID_HEX_LEN,
     ensure (\<not> (all_zero (tc_trace_id t) \<or> all_zero (tc_span_id t)))
       (InvalidField ''trace context'' ''trace and span identifiers must not be all zeroes''),
     opt_ok (\<lambda>parent. all_ok
       [validate_lower_hex parent ''parent span id'' SPAN_ID_HEX_LEN,
        ensure (\<not> (all_zero parent \<or> parent = tc_span_id t))
          (InvalidField ''parent span id'' ''must not be all zeroes or equal the current span id'')])
       (tc_parent_span_id t)]"

record CorrelationLink =
  cl_schema :: string
  cl_link_id :: string
  cl_trace :: TraceContext
  cl_from_kind :: string
  cl_from_id :: string
  cl_to_kind :: string
  cl_to_id :: string
  cl_relation :: string
  cl_created_at_ms :: i64

definition validate_link :: "CorrelationLink \<Rightarrow> check" where
  "validate_link l = all_ok
    [ensure (cl_schema l = ''harness.correlation-link.v1'')
       (InvalidField ''correlation schema'' ''must be harness.correlation-link.v1''),
     validate_trace (cl_trace l),
     validate_identifier (cl_from_kind l) ''correlation from kind'',
     validate_identifier (cl_from_id l) ''correlation from id'',
     validate_identifier (cl_to_kind l) ''correlation to kind'',
     validate_identifier (cl_to_id l) ''correlation to id'',
     validate_identifier (cl_relation l) ''correlation relation'',
     ensure (\<not> (cl_from_kind l = cl_to_kind l \<and> cl_from_id l = cl_to_id l))
       (InvalidField ''correlation link'' ''must connect distinct source records'')]"

section \<open>Properties\<close>

lemma check_nodes_distinct:
  "check_nodes seen ns = Inr () \<Longrightarrow> distinct (map tn_id ns) \<and> tn_id ` set ns \<inter> seen = {}"
  by (induction ns arbitrary: seen) auto

lemma topology_graph:
  assumes "all_ok (topology_checks t) = Inr ()"
  shows "distinct (map tn_id (ts_nodes t)) \<and> length (ts_nodes t) \<le> 1000 \<and> length (ts_edges t) \<le> 4000 \<and>
    (\<forall>e \<in> set (ts_edges t). te_from e \<in> tn_id ` set (ts_nodes t) \<and> te_to e \<in> tn_id ` set (ts_nodes t))"
proof -
  have nodes: "check_nodes {} (ts_nodes t) = Inr ()"
    and edges: "\<forall>e \<in> set (ts_edges t). check_edge (tn_id ` set (ts_nodes t)) e = Inr ()"
    and size: "length (ts_nodes t) \<le> 1000" "length (ts_edges t) \<le> 4000"
    using assms by (simp_all add: topology_checks_def limit_defs not_less)
  with check_nodes_distinct [OF nodes] show ?thesis by (auto simp: check_edge_def)
qed

text \<open>
  A valid topology is a graph: node names are pairwise different, so every edge of it starts at
  exactly one node of the snapshot and ends at exactly one; and there are at most a thousand nodes
  and four thousand edges.
\<close>

theorem topology_is_a_graph:
  assumes "validate_topology tv sha t = Inr ()"
  shows "length (ts_nodes t) \<le> 1000 \<and> length (ts_edges t) \<le> 4000 \<and>
    (\<forall>e \<in> set (ts_edges t).
       (\<exists>!i. i < length (ts_nodes t) \<and> tn_id (ts_nodes t ! i) = te_from e) \<and>
       (\<exists>!i. i < length (ts_nodes t) \<and> tn_id (ts_nodes t ! i) = te_to e))"
proof -
  note g = topology_graph [of t]
  have ok: "all_ok (topology_checks t) = Inr ()"
    using assms by (simp add: validate_topology_def sealed_ok)
  have unique: "\<exists>!i. i < length (ts_nodes t) \<and> tn_id (ts_nodes t ! i) = v"
    if "v \<in> tn_id ` set (ts_nodes t)" for v
  proof -
    from that obtain i where "i < length (ts_nodes t)" "tn_id (ts_nodes t ! i) = v"
      by (auto simp: in_set_conv_nth)
    moreover have "inj_on (\<lambda>i. map tn_id (ts_nodes t) ! i) {..<length (ts_nodes t)}"
      using g [OF ok] by (intro inj_on_nth) auto
    ultimately show ?thesis by (auto simp: inj_on_def)
  qed
  then show ?thesis using g [OF ok] by simp
qed

definition sample_topology :: TopologySnapshot where
  "sample_topology = \<lparr>ts_schema = ''harness.run-topology.v1'', ts_snapshot_id = ''topo_1'',
     ts_run_id = ''run_1'',
     ts_nodes = [\<lparr>tn_id = ''run:1'', tn_kind = ''run'', tn_source_ref = ''runs''\<rparr>,
       \<lparr>tn_id = ''task:1'', tn_kind = ''task'', tn_source_ref = ''tasks''\<rparr>],
     ts_edges = [\<lparr>te_from = ''run:1'', te_to = ''task:1'', te_kind = ''owns'', te_source_ref = ''tasks''\<rparr>],
     ts_source_cursor = 7, ts_sha256 = zeros 64\<rparr>"

lemma sample_topology_valid:
  "validate_topology (\<lambda>_. Some ''{}'') (\<lambda>_. zeros 64) sample_topology = Inr ()"
  by (simp add: validate_topology_def sealed_ok topology_digest_def digest_json_def SHA256_HEX_LEN_def
      sample_topology_def)
    (simp add: topology_checks_def check_edge_def safe_eval text_eval)

theorem topology_is_a_graph_witness:
  "(\<exists>!i. i < length (ts_nodes sample_topology) \<and> tn_id (ts_nodes sample_topology ! i) = ''run:1'') \<and>
   (\<exists>!i. i < length (ts_nodes sample_topology) \<and> tn_id (ts_nodes sample_topology ! i) = ''task:1'')"
proof -
  have "\<lparr>te_from = ''run:1'', te_to = ''task:1'', te_kind = ''owns'', te_source_ref = ''tasks''\<rparr>
      \<in> set (ts_edges sample_topology)"
    by (simp add: sample_topology_def)
  with topology_is_a_graph [OF sample_topology_valid] show ?thesis by fastforce
qed

end
