(* ===== verification/Causal_Links.thy ===== *)
theory Causal_Links
  imports Topology_Contract "HOL-Library.List_Lexorder" "HOL-Library.Char_ord"
begin

text \<open>
  Correlation contexts and causal links (\<^verbatim>\<open>harness-trace/src/correlation.rs\<close>): the parser of inbound
  \<open>traceparent\<close> headers, the policy that admits them, child contexts, and the depth-first search that
  accepts a set of links only when it is acyclic.

  The search is the recursive function \<open>visit\<close> of the code with its two sets. Its recursion is
  nested (the sets that one child's visit leaves are handed to the next child), so its termination
  rests on a fact about its results: a successful visit leaves the set of nodes under visit as it
  found it. The main theorem is that the validator decides acyclicity exactly.
\<close>

section \<open>Inbound contexts\<close>

datatype CorrelationError =
    InvalidTraceparent string
  | UntrustedBoundary string
  | InvalidComponent string
  | InvalidLink OperatorControlError
  | CausalCycle string
  | LinkLimit

definition validate_component :: "string \<Rightarrow> CorrelationError + unit" where
  "validate_component c =
    (if c = [] \<or> length c > 160 \<or> \<not> list_all (\<lambda>b. is_ascii_alphanumeric b \<or> b \<in> set ''._:-'') c
     then Inl (InvalidComponent c) else Inr ())"

record CorrelationPolicy =
  trusted_components :: "string set"

text \<open>\<open>CorrelationPolicy::new\<close>: the loop stops at the first invalid component.\<close>

definition new_policy :: "string list \<Rightarrow> CorrelationError + CorrelationPolicy" where
  "new_policy components =
     and_then (for_ok validate_component components)
       (\<lambda>_. Inr \<lparr>trusted_components = set components\<rparr>)"

definition permits :: "CorrelationPolicy \<Rightarrow> string \<Rightarrow> bool" where
  "permits p component \<longleftrightarrow> component \<in> trusted_components p"

definition trace_is_lower_hex :: "string \<Rightarrow> nat \<Rightarrow> bool" where
  "trace_is_lower_hex v len \<longleftrightarrow>
     length v = len \<and> list_all (\<lambda>b. is_ascii_digit b \<or> (97 \<le> byte b \<and> byte b \<le> 102)) v"

definition parse_traceparent :: "string \<Rightarrow> CorrelationError + TraceContext" where
  "parse_traceparent s =
    (case split_on CHR ''-'' s of
       [version, trace_id, parent_span_id, flags] \<Rightarrow>
         (if version \<noteq> ''00'' then Inl (InvalidTraceparent ''unsupported version'')
          else if \<not> trace_is_lower_hex trace_id 32 \<or> \<not> trace_is_lower_hex parent_span_id 16 \<or>
            \<not> trace_is_lower_hex flags 2 \<or> all_zero trace_id \<or> all_zero parent_span_id
          then Inl (InvalidTraceparent ''invalid identifiers'')
          else Inr \<lparr>tc_trace_id = trace_id, tc_span_id = parent_span_id, tc_parent_span_id = None\<rparr>)
     | _ \<Rightarrow> Inl (InvalidTraceparent ''unsupported version''))"

definition accept_inbound_traceparent ::
  "CorrelationPolicy \<Rightarrow> string \<Rightarrow> string \<Rightarrow> CorrelationError + TraceContext" where
  "accept_inbound_traceparent policy component traceparent =
     and_then (validate_component component)
       (\<lambda>_. if \<not> permits policy component then Inl (UntrustedBoundary component)
             else parse_traceparent traceparent)"

definition child_context :: "TraceContext \<Rightarrow> string \<Rightarrow> CorrelationError + TraceContext" where
  "child_context parent child_span_id =
     and_then (map_err InvalidLink (validate_trace parent))
       (\<lambda>_. let child = \<lparr>tc_trace_id = tc_trace_id parent, tc_span_id = child_span_id,
               tc_parent_span_id = Some (tc_span_id parent)\<rparr>
             in and_then (map_err InvalidLink (validate_trace child)) (\<lambda>_. Inr child))"

section \<open>The causal graph of a list of links\<close>

definition MAX_CAUSAL_LINKS :: nat where
  "MAX_CAUSAL_LINKS = 8192"

definition node_key :: "string \<Rightarrow> string \<Rightarrow> string \<Rightarrow> string" where
  "node_key trace kind ident = trace @ '':'' @ kind @ '':'' @ ident"

definition link_from :: "CorrelationLink \<Rightarrow> string" where
  "link_from l = node_key (tc_trace_id (cl_trace l)) (cl_from_kind l) (cl_from_id l)"

definition link_to :: "CorrelationLink \<Rightarrow> string" where
  "link_to l = node_key (tc_trace_id (cl_trace l)) (cl_to_kind l) (cl_to_id l)"

definition link_key :: "CorrelationLink \<Rightarrow> string \<times> string \<times> string \<times> string" where
  "link_key l = (tc_trace_id (cl_trace l), link_from l, link_to l, cl_relation l)"

text \<open>
  \<open>BTreeSet\<close>s are ordered lists without duplicates, the \<open>BTreeMap\<close> of adjacent nodes is an
  association list; \<open>add_edge\<close> is \<open>adjacent.entry(from).or_default().insert(to)\<close>.
\<close>

type_synonym adjacency = "(string \<times> string list) list"

fun add_edge :: "string \<Rightarrow> string \<Rightarrow> adjacency \<Rightarrow> adjacency" where
  "add_edge from to [] = [(from, [to])]"
| "add_edge from to ((n, ns) # adj) =
    (if n = from then (n, insort_insert to ns) # adj else (n, ns) # add_edge from to adj)"

type_synonym collected = "adjacency \<times> string list \<times> (string \<times> string \<times> string \<times> string) set"

fun collect_links :: "CorrelationLink list \<Rightarrow> collected \<Rightarrow> CorrelationError + collected" where
  "collect_links [] st = Inr st"
| "collect_links (l # ls) (adj, nodes, unique) =
    and_then (map_err InvalidLink (validate_link l))
      (\<lambda>_. if link_key l \<in> unique then Inl (InvalidTraceparent ''duplicate causal link'')
            else collect_links ls
              (add_edge (link_from l) (link_to l) adj,
               insort_insert (link_to l) (insort_insert (link_from l) nodes),
               insert (link_key l) unique))"

section \<open>Depth-first search\<close>

type_synonym marks = "string set \<times> string set"

function visit :: "adjacency \<Rightarrow> string \<Rightarrow> marks \<Rightarrow> CorrelationError + marks"
  and visit_each :: "adjacency \<Rightarrow> string list \<Rightarrow> marks \<Rightarrow> CorrelationError + marks" where
  "visit adj node (visiting, visited) =
    (if node \<in> visited then Inr (visiting, visited)
     else if node \<in> visiting then Inl (CausalCycle node)
     else case map_of adj node of
       None \<Rightarrow> Inr (insert node visiting - {node}, insert node visited)
     | Some next \<Rightarrow>
        (case visit_each adj next (insert node visiting, visited) of
           Inl e \<Rightarrow> Inl e
         | Inr (visiting', visited') \<Rightarrow> Inr (visiting' - {node}, insert node visited')))"
| "visit_each adj [] st = Inr st"
| "visit_each adj (child # children) st =
    (case visit adj child st of Inl e \<Rightarrow> Inl e | Inr st' \<Rightarrow> visit_each adj children st')"
  by pat_completeness auto

lemma visit_keeps_visiting:
  "visit_visit_each_dom (Inl (adj, node, st)) \<Longrightarrow> visit adj node st = Inr st' \<Longrightarrow> fst st' = fst st"
  "visit_visit_each_dom (Inr (adj, nodes, st)) \<Longrightarrow> visit_each adj nodes st = Inr st' \<Longrightarrow> fst st' = fst st"
proof (induction adj node st and adj nodes st arbitrary: st' and st' rule: visit_visit_each.pinduct)
  case (1 adj node visiting visited)
  from 1 show ?case
    by (fastforce simp: visit.psimps split: if_splits option.splits sum.splits)
next
  case (2 adj st)
  then show ?case by (simp add: visit_each.psimps)
next
  case (3 adj child children st)
  then show ?case by (auto simp: visit_each.psimps split: sum.splits)
qed

definition unvisiting :: "adjacency \<Rightarrow> marks \<Rightarrow> nat" where
  "unvisiting adj st = card (fst ` set adj - fst st)"

lemma unvisiting_less:
  "node \<notin> visiting \<Longrightarrow> map_of adj node = Some ns \<Longrightarrow>
     unvisiting adj (insert node visiting, visited) < unvisiting adj (visiting, visited)"
proof -
  assume "node \<notin> visiting" and "map_of adj node = Some ns"
  then have "node \<in> fst ` set adj - visiting" by (force dest: map_of_SomeD)
  then have "fst ` set adj - insert node visiting \<subset> fst ` set adj - visiting" by blast
  then show ?thesis by (simp add: unvisiting_def psubset_card_mono)
qed

lemma visit_total: "All visit_visit_each_dom"
  by (relation "measures
      [\<lambda>x. case x of Inl (adj, node, st) \<Rightarrow> unvisiting adj st | Inr (adj, nodes, st) \<Rightarrow> unvisiting adj st,
       \<lambda>x. case x of Inl _ \<Rightarrow> 0 | Inr (adj, nodes, st) \<Rightarrow> Suc (length nodes)]")
    (auto simp: unvisiting_less dest!: visit_keeps_visiting(1) simp: unvisiting_def [of _ "(_, _)"]
      intro: unvisiting_less [unfolded unvisiting_def fst_conv])

termination visit
  by (rule visit_total)

declare visit.simps [simp del]

lemmas visit_same_visiting = visit_keeps_visiting [OF visit_total [THEN spec]]

definition validate_causal_links :: "CorrelationLink list \<Rightarrow> CorrelationError + unit" where
  "validate_causal_links links =
    (if length links > MAX_CAUSAL_LINKS then Inl LinkLimit
     else and_then (collect_links links ([], [], {}))
       (\<lambda>(adj, nodes, _). and_then (visit_each adj nodes ({}, {})) (\<lambda>_. Inr ())))"

section \<open>The graph a search works on\<close>

text \<open>The edges of an adjacency list, and of a list of links.\<close>

definition edges_of :: "adjacency \<Rightarrow> (string \<times> string) set" where
  "edges_of adj = {(n, m). \<exists>ns. map_of adj n = Some ns \<and> m \<in> set ns}"

definition link_edges :: "CorrelationLink list \<Rightarrow> (string \<times> string) set" where
  "link_edges links = (\<lambda>l. (link_from l, link_to l)) ` set links"

lemma map_of_add_edge:
  "map_of (add_edge a b adj) n =
     (if n = a then Some (insort_insert b (case map_of adj a of None \<Rightarrow> [] | Some ns \<Rightarrow> ns))
      else map_of adj n)"
  by (induction adj) (auto simp: insort_insert_key_def)

lemma edges_of_add_edge: "edges_of (add_edge a b adj) = insert (a, b) (edges_of adj)"
  by (auto simp: edges_of_def map_of_add_edge set_insort_insert split: if_splits option.splits)

lemma collect_links_ok:
  "collect_links ls (adj, nodes, unique) = Inr (adj', nodes', unique') \<Longrightarrow>
     (\<forall>l \<in> set ls. validate_link l = Inr ()) \<and> distinct (map link_key ls) \<and>
     link_key ` set ls \<inter> unique = {} \<and> edges_of adj' = edges_of adj \<union> link_edges ls \<and>
     set nodes' = set nodes \<union> fst ` link_edges ls \<union> snd ` link_edges ls"
proof (induction ls arbitrary: adj nodes unique)
  case Nil
  then show ?case by (simp add: link_edges_def)
next
  case (Cons l ls)
  from Cons.prems have valid: "validate_link l = Inr ()" and new: "link_key l \<notin> unique"
    and rest: "collect_links ls (add_edge (link_from l) (link_to l) adj,
        insort_insert (link_to l) (insort_insert (link_from l) nodes), insert (link_key l) unique) =
      Inr (adj', nodes', unique')"
    by (auto simp: and_then_ok split: if_splits)
  from Cons.IH [OF rest] valid new show ?case
    by (auto simp: link_edges_def edges_of_add_edge set_insort_insert)
qed

lemma collect_links_total:
  assumes "\<forall>l \<in> set ls. validate_link l = Inr ()" and "distinct (map link_key ls)"
    and "link_key ` set ls \<inter> unique = {}"
  shows "\<exists>st'. collect_links ls (adj, nodes, unique) = Inr st'"
  using assms
proof (induction ls arbitrary: adj nodes unique)
  case Nil
  then show ?case by simp
next
  case (Cons l ls)
  then have "link_key l \<notin> unique" and "link_key ` set ls \<inter> insert (link_key l) unique = {}"
    by auto
  with Cons show ?case by simp
qed

lemma collect_links_no_cycle: "collect_links ls st = Inl e \<Longrightarrow> e \<noteq> CausalCycle m"
  by (induction ls st rule: collect_links.induct) (auto simp: and_then_err map_err_def split: if_splits sum.splits)

section \<open>What a search establishes\<close>

text \<open>
  A set of nodes is settled when no edge leaves it and no cycle runs inside it. A successful visit
  extends a settled set by the node visited; a failed one names a node on a cycle.
\<close>

definition settled :: "(string \<times> string) set \<Rightarrow> string set \<Rightarrow> bool" where
  "settled E D \<longleftrightarrow> E `` D \<subseteq> D \<and> acyclic (E \<inter> D \<times> UNIV)"

lemma settled_insert:
  assumes "settled E D" and "E `` {n} \<subseteq> D" and "n \<notin> D"
  shows "settled E (insert n D)"
proof -
  let ?R = "E \<inter> D \<times> UNIV"
  let ?S = "E \<inter> insert n D \<times> UNIV"
  have inside: "y \<in> D" if "(x, y) \<in> ?S\<^sup>+" for x y
    using that assms by (induction rule: trancl_induct) (auto simp: settled_def)
  have step: "(x, y) \<in> ?R\<^sup>+" if "(x, y) \<in> ?S\<^sup>+" and "x \<in> D" for x y
    using that
  proof (induction rule: trancl_induct)
    case (base y)
    then show ?case by auto
  next
    case (step y z)
    then have "y \<in> D" using inside by blast
    with step have "(y, z) \<in> ?R" by auto
    with step show ?case by (meson trancl.trancl_into_trancl)
  qed
  have "(x, x) \<notin> ?S\<^sup>+" for x
  proof
    assume loop: "(x, x) \<in> ?S\<^sup>+"
    then have "x \<in> D" using inside by blast
    with step [OF loop] assms(1) show False by (auto simp: settled_def acyclic_def)
  qed
  then show ?thesis using assms by (auto simp: settled_def acyclic_def)
qed

lemma visit_ok:
  "visit adj node st = Inr st' \<Longrightarrow> fst st \<inter> snd st = {} \<Longrightarrow> settled (edges_of adj) (snd st) \<Longrightarrow>
     fst st' = fst st \<and> fst st \<inter> snd st' = {} \<and> insert node (snd st) \<subseteq> snd st' \<and>
     settled (edges_of adj) (snd st')"
  "visit_each adj nodes st = Inr st' \<Longrightarrow> fst st \<inter> snd st = {} \<Longrightarrow> settled (edges_of adj) (snd st) \<Longrightarrow>
     fst st' = fst st \<and> fst st \<inter> snd st' = {} \<and> set nodes \<union> snd st \<subseteq> snd st' \<and>
     settled (edges_of adj) (snd st')"
proof (induction adj node st and adj nodes st arbitrary: st' and st' rule: visit_visit_each.induct)
  case (1 adj node visiting visited)
  consider "node \<in> visited" | "node \<notin> visited" "node \<notin> visiting" "map_of adj node = None"
    | ns where "node \<notin> visited" "node \<notin> visiting" "map_of adj node = Some ns"
    using 1(2) by (auto simp: visit.simps split: if_splits)
  then show ?case
  proof cases
    case 1
    then show ?thesis using \<open>visit adj node (visiting, visited) = Inr st'\<close> 1 \<open>fst (visiting, visited) \<inter> _ = {}\<close>
        \<open>settled _ _\<close> by (auto simp: visit.simps)
  next
    case 2
    then have "edges_of adj `` {node} \<subseteq> visited" by (simp add: edges_of_def)
    then have "settled (edges_of adj) (insert node visited)"
      using 2 \<open>settled _ _\<close> by (intro settled_insert) simp_all
    then show ?thesis using 2 \<open>visit adj node (visiting, visited) = Inr st'\<close>
        \<open>fst (visiting, visited) \<inter> _ = {}\<close> by (auto simp: visit.simps)
  next
    case (3 ns)
    then obtain vg vd where each: "visit_each adj ns (insert node visiting, visited) = Inr (vg, vd)"
      and st': "st' = (vg - {node}, insert node vd)"
      using \<open>visit adj node (visiting, visited) = Inr st'\<close>
      by (auto simp: visit.simps split: sum.splits)
    have "vg = insert node visiting" "insert node visiting \<inter> vd = {}" "set ns \<union> visited \<subseteq> vd"
      "settled (edges_of adj) vd"
      using 1(1) [OF _ _ _ each] 3 1(3,4) by auto
    moreover from this 3 have "settled (edges_of adj) (insert node vd)"
      by (intro settled_insert) (auto simp: edges_of_def)
    ultimately show ?thesis using st' 3 by auto
  qed
next
  case (2 adj st)
  then show ?case by simp
next
  case (3 adj child children st)
  then obtain mid where mid: "visit adj child st = Inr mid" "visit_each adj children mid = Inr st'"
    by (auto split: sum.splits)
  from 3(1) [OF mid(1) 3(4,5)] 3(2) [OF mid] show ?case by auto
qed

text \<open>A failed search names a node on a cycle.\<close>

lemma visit_err:
  "visit adj node st = Inl e \<Longrightarrow> \<forall>v \<in> fst st. (v, node) \<in> (edges_of adj)\<^sup>+ \<Longrightarrow>
     \<exists>m. e = CausalCycle m \<and> (m, m) \<in> (edges_of adj)\<^sup>+"
  "visit_each adj nodes st = Inl e \<Longrightarrow> \<forall>v \<in> fst st. \<forall>n \<in> set nodes. (v, n) \<in> (edges_of adj)\<^sup>+ \<Longrightarrow>
     \<exists>m. e = CausalCycle m \<and> (m, m) \<in> (edges_of adj)\<^sup>+"
proof (induction adj node st and adj nodes st arbitrary: e and e rule: visit_visit_each.induct)
  case (1 adj node visiting visited)
  show ?case
  proof (cases "node \<in> visiting")
    case True
    with 1(2,3) show ?thesis by (auto simp: visit.simps split: if_splits)
  next
    case False
    with 1(2) obtain ns where ns: "node \<notin> visited" "map_of adj node = Some ns"
      and each: "visit_each adj ns (insert node visiting, visited) = Inl e"
      by (auto simp: visit.simps split: if_splits option.splits sum.splits)
    have edge: "(node, n) \<in> edges_of adj" if "n \<in> set ns" for n
      using ns that by (simp add: edges_of_def)
    have "\<forall>v \<in> insert node visiting. \<forall>n \<in> set ns. (v, n) \<in> (edges_of adj)\<^sup>+"
      using 1(3) edge by (auto intro: trancl_into_trancl)
    then show ?thesis using 1(1) [OF _ _ _ each] ns False by simp
  qed
next
  case (2 adj st)
  then show ?case by simp
next
  case (3 adj child children st)
  show ?case
  proof (cases "visit adj child st")
    case (Inl e')
    with 3 show ?thesis by simp
  next
    case (Inr st')
    have same: "fst st' = fst st" by (rule visit_same_visiting(1) [OF Inr])
    have each: "visit_each adj children st' = Inl e" using 3(3) Inr by simp
    show ?thesis by (rule 3(2) [OF Inr each]) (use 3(4) same in simp)
  qed
qed

lemma acyclic_edges:
  assumes "settled E D" and "fst ` E \<subseteq> D"
  shows "acyclic E"
proof -
  have "E \<inter> D \<times> UNIV = E" using assms(2) by force
  then show ?thesis using assms(1) by (simp add: settled_def)
qed

lemma search_decides:
  assumes "collect_links links ([], [], {}) = Inr (adj, nodes, unique)"
  shows "(\<exists>st. visit_each adj nodes ({}, {}) = Inr st) \<longleftrightarrow> acyclic (link_edges links)"
proof -
  have adj: "edges_of adj = link_edges links"
    and nodes: "set nodes = fst ` link_edges links \<union> snd ` link_edges links"
    using collect_links_ok [OF assms] by (simp_all add: edges_of_def)
  have start: "settled (link_edges links) {}" by (simp add: settled_def acyclic_def)
  show ?thesis
  proof
    assume "\<exists>st. visit_each adj nodes ({}, {}) = Inr st"
    then obtain st where "visit_each adj nodes ({}, {}) = Inr st" by blast
    from visit_ok(2) [OF this] adj nodes start
    have "settled (link_edges links) (snd st)" "fst ` link_edges links \<subseteq> snd st" by auto
    then show "acyclic (link_edges links)" by (rule acyclic_edges)
  next
    assume ac: "acyclic (link_edges links)"
    show "\<exists>st. visit_each adj nodes ({}, {}) = Inr st"
    proof (cases "visit_each adj nodes ({}, {})")
      case (Inl e)
      from visit_err(2) [OF this] adj ac show ?thesis by (auto simp: acyclic_def)
    qed blast
  qed
qed

section \<open>Properties\<close>

lemma causal_links_iff:
  "validate_causal_links links = Inr () \<longleftrightarrow>
     length links \<le> 8192 \<and> (\<forall>l \<in> set links. validate_link l = Inr ()) \<and>
     distinct (map link_key links) \<and> acyclic (link_edges links)"
proof (cases "collect_links links ([], [], {})")
  case (Inl e)
  then show ?thesis
    using collect_links_total [of links "{}" "[]" "[]"]
    by (auto simp: validate_causal_links_def)
next
  case (Inr st)
  obtain adj nodes unique where st: "st = (adj, nodes, unique)" by (cases st)
  note ok = collect_links_ok [OF Inr [unfolded st]]
  have "validate_causal_links links = Inr () \<longleftrightarrow>
      length links \<le> 8192 \<and> (\<exists>x. visit_each adj nodes ({}, {}) = Inr x)"
    by (auto simp: validate_causal_links_def MAX_CAUSAL_LINKS_def Inr st and_then_ok)
  with ok search_decides [OF Inr [unfolded st]] show ?thesis by blast
qed

text \<open>
  C3. The causal check decides acyclicity: a list of links is accepted exactly when it has at most
  8192 of them, each is valid, no two carry the same trace, ends and relation, and the graph they
  form has no cycle; and when a cycle is reported, the reported node lies on one.
\<close>

theorem causal_check_decides_acyclicity:
  "(validate_causal_links links = Inr () \<longleftrightarrow>
      length links \<le> 8192 \<and> (\<forall>l \<in> set links. validate_link l = Inr ()) \<and>
      distinct (map link_key links) \<and> acyclic (link_edges links)) \<and>
   (validate_causal_links links = Inl (CausalCycle m) \<longrightarrow> (m, m) \<in> (link_edges links)\<^sup>+)"
proof (intro conjI impI causal_links_iff)
  assume err: "validate_causal_links links = Inl (CausalCycle m)"
  show "(m, m) \<in> (link_edges links)\<^sup>+"
  proof (cases "collect_links links ([], [], {})")
    case (Inl e)
    with err collect_links_no_cycle [OF Inl] show ?thesis
      by (auto simp: validate_causal_links_def split: if_splits)
  next
    case (Inr st)
    obtain adj nodes unique where st: "st = (adj, nodes, unique)" by (cases st)
    with err Inr have "visit_each adj nodes ({}, {}) = Inl (CausalCycle m)"
      by (auto simp: validate_causal_links_def and_then_err split: if_splits)
    from visit_err(2) [OF this] collect_links_ok [OF Inr [unfolded st]] show ?thesis
      by (simp add: edges_of_def [of "[]"])
  qed
qed

definition sample_link :: "string \<Rightarrow> string \<Rightarrow> CorrelationLink" where
  "sample_link from to = \<lparr>cl_schema = ''harness.correlation-link.v1'', cl_link_id = from,
     cl_trace = \<lparr>tc_trace_id = replicate 32 (CHR ''a''), tc_span_id = replicate 16 (CHR ''b''),
       tc_parent_span_id = None\<rparr>,
     cl_from_kind = ''event'', cl_from_id = from, cl_to_kind = ''event'', cl_to_id = to,
     cl_relation = ''derived_from'', cl_created_at_ms = 1\<rparr>"

theorem causal_check_decides_acyclicity_witness:
  "validate_causal_links [sample_link ''x'' ''y''] = Inr () \<and>
   acyclic (link_edges [sample_link ''x'' ''y'']) \<and>
   (link_from (sample_link ''x'' ''y''), link_from (sample_link ''x'' ''y'')) \<in>
     (link_edges [sample_link ''x'' ''y'', sample_link ''y'' ''x''])\<^sup>+"
proof -
  have "validate_causal_links [sample_link ''x'' ''y''] = Inr ()" by code_simp
  moreover have "validate_causal_links [sample_link ''x'' ''y'', sample_link ''y'' ''x''] =
      Inl (CausalCycle (link_from (sample_link ''x'' ''y'')))" by code_simp
  ultimately show ?thesis
    using causal_check_decides_acyclicity [of "[sample_link ''x'' ''y'']"]
      causal_check_decides_acyclicity [of "[sample_link ''x'' ''y'', sample_link ''y'' ''x'']"
        "link_from (sample_link ''x'' ''y'')"]
    by blast
qed

text \<open>
  Node keys join kind and identifier with a colon, which both may contain: two different pairs can
  give the same key. Two links that connect four different records then form a cycle of keys.
\<close>

lemma node_key_ambiguous: "node_key t ''a:b'' ''c'' = node_key t ''a'' ''b:c''"
  by (simp add: node_key_def)

text \<open>
  Distinct records can share a node key: a link between two different records, each valid by
  itself, is rejected as a causal cycle because kind and identifier are joined with a character that
  both may contain.
\<close>

theorem distinct_records_can_be_called_a_cycle:
  "\<exists>l. validate_link l = Inr () \<and>
     (cl_from_kind l, cl_from_id l) \<noteq> (cl_to_kind l, cl_to_id l) \<and>
     validate_causal_links [l] = Inl (CausalCycle (link_from l))"
proof -
  let ?l = "(sample_link ''c'' ''b:c'')\<lparr>cl_from_kind := ''a:b'', cl_to_kind := ''a''\<rparr>"
  have "validate_link ?l = Inr ()" by code_simp
  moreover have "validate_causal_links [?l] = Inl (CausalCycle (link_from ?l))" by code_simp
  moreover have "(cl_from_kind ?l, cl_from_id ?l) \<noteq> (cl_to_kind ?l, cl_to_id ?l)"
    by (simp add: sample_link_def)
  ultimately show ?thesis by blast
qed

section \<open>Trace contexts\<close>

lemma trace_is_lower_hex_iff [simp]: "trace_is_lower_hex v n \<longleftrightarrow> is_lower_hex v n"
  unfolding trace_is_lower_hex_def is_lower_hex_def lower_hex_byte by (rule refl)

lemma hex_has_no_dash: "is_lower_hex v n \<Longrightarrow> CHR ''-'' \<notin> set v"
  by (auto simp: is_lower_hex_def list_all_iff ascii_defs)

lemma parse_traceparent_ok:
  "parse_traceparent s = Inr t \<longleftrightarrow>
     (\<exists>flags. split_on CHR ''-'' s = [''00'', tc_trace_id t, tc_span_id t, flags] \<and> is_lower_hex flags 2) \<and>
     is_lower_hex (tc_trace_id t) 32 \<and> is_lower_hex (tc_span_id t) 16 \<and>
     \<not> all_zero (tc_trace_id t) \<and> \<not> all_zero (tc_span_id t) \<and> tc_parent_span_id t = None"
  by (cases t) (auto simp: parse_traceparent_def split: list.splits if_splits)

text \<open>
  Parsing a \<open>traceparent\<close> header inverts printing it: a header parses to a context exactly when it
  is the version \<open>00\<close>, the trace and span of that context and two hexadecimal flag digits joined with
  dashes, and the context is then valid by the controller's own contract.
\<close>

theorem traceparent_roundtrip:
  "parse_traceparent s = Inr t \<longleftrightarrow>
     (\<exists>flags. s = join_with CHR ''-'' [''00'', tc_trace_id t, tc_span_id t, flags] \<and>
        is_lower_hex flags 2) \<and>
     validate_trace t = Inr () \<and> tc_parent_span_id t = None"
proof -
  have valid: "validate_trace t = Inr () \<and> tc_parent_span_id t = None \<longleftrightarrow>
      is_lower_hex (tc_trace_id t) 32 \<and> is_lower_hex (tc_span_id t) 16 \<and>
      \<not> all_zero (tc_trace_id t) \<and> \<not> all_zero (tc_span_id t) \<and> tc_parent_span_id t = None"
    by (auto simp: validate_trace_def limit_defs)
  have print: "split_on CHR ''-'' s = [''00'', tc_trace_id t, tc_span_id t, flags] \<longleftrightarrow>
      s = join_with CHR ''-'' [''00'', tc_trace_id t, tc_span_id t, flags]"
    if "is_lower_hex flags 2" "is_lower_hex (tc_trace_id t) 32" "is_lower_hex (tc_span_id t) 16" for flags
  proof
    assume "split_on CHR ''-'' s = [''00'', tc_trace_id t, tc_span_id t, flags]"
    with join_split [of "CHR ''-''" s] show "s = join_with CHR ''-'' [''00'', tc_trace_id t, tc_span_id t, flags]"
      by simp
  next
    assume "s = join_with CHR ''-'' [''00'', tc_trace_id t, tc_span_id t, flags]"
    with that show "split_on CHR ''-'' s = [''00'', tc_trace_id t, tc_span_id t, flags]"
      by (simp add: hex_has_no_dash split_on_append split_on_absent)
  qed
  show ?thesis unfolding parse_traceparent_ok valid using print by blast
qed

text \<open>A child context keeps the trace and names its parent.\<close>

lemma child_context_ok:
  "child_context p s = Inr c \<Longrightarrow>
     tc_trace_id c = tc_trace_id p \<and> tc_parent_span_id c = Some (tc_span_id p) \<and>
     tc_span_id c \<noteq> tc_span_id p \<and> validate_trace c = Inr ()"
  by (auto simp: child_context_def and_then_ok Let_def validate_trace_def)

lemma inbound_needs_trust:
  "accept_inbound_traceparent policy c s = Inr t \<Longrightarrow> permits policy c \<and> parse_traceparent s = Inr t"
  by (auto simp: accept_inbound_traceparent_def and_then_ok split: if_splits)

end
