(* ===== verification/Correlation_Store.thy ===== *)
theory Correlation_Store
  imports Store_Base Causal_Links
begin

text \<open>
  The correlation repository (\<^verbatim>\<open>harness-store/src/operator_control/correlation.rs\<close>): links are inserted
  only after the causal graph of their trace has been checked with the new link in it, and are
  never changed. The theorem: whatever sequence of links is offered, the graph of everything stored
  is acyclic.
\<close>

section \<open>The table\<close>

record link_row =
  lr_id :: string
  lr_trace_id :: string
  lr_from :: "string \<times> string"
  lr_to :: "string \<times> string"
  lr_relation :: string
  lr_created_at :: i64
  lr_raw :: string
  lr_sha :: string

fun correlation_error_to_string :: "CorrelationError \<Rightarrow> string" where
  "correlation_error_to_string (InvalidTraceparent s) = ''invalid W3C traceparent: '' @ s"
| "correlation_error_to_string (UntrustedBoundary s) = ''untrusted correlation boundary: '' @ s"
| "correlation_error_to_string (InvalidComponent s) = ''invalid correlation component: '' @ s"
| "correlation_error_to_string (InvalidLink e) = control_error_to_string e"
| "correlation_error_to_string (CausalCycle s) = ''correlation causal graph contains a cycle at '' @ s"
| "correlation_error_to_string LinkLimit = ''too many correlation links''"

definition safe_enum_name :: "string \<Rightarrow> string stored" where
  "safe_enum_name v =
    (if v = [] \<or> length v > 160 \<or> \<not> list_all (\<lambda>b. is_ascii_alphanumeric b \<or> b \<in> set ''._:-'') v
     then Inl (Validation ''correlation relation must be a bounded path-safe identifier'') else Inr v)"

definition link_to_row :: "CorrelationLink \<Rightarrow> string \<Rightarrow> string \<Rightarrow> link_row" where
  "link_to_row l raw d = \<lparr>lr_id = cl_link_id l, lr_trace_id = tc_trace_id (cl_trace l),
     lr_from = (cl_from_kind l, cl_from_id l), lr_to = (cl_to_kind l, cl_to_id l),
     lr_relation = cl_relation l, lr_created_at = cl_created_at_ms l, lr_raw = raw, lr_sha = d\<rparr>"

text \<open>The columns of the unique index, and \<open>INSERT INTO correlation_links\<close>.\<close>

definition row_key :: "link_row \<Rightarrow> string \<times> (string \<times> string) \<times> (string \<times> string) \<times> string" where
  "row_key r = (lr_trace_id r, lr_from r, lr_to r, lr_relation r)"

definition insert_link_row :: "link_row \<Rightarrow> link_row list \<Rightarrow> link_row list stored" where
  "insert_link_row r rows = and_then (check_payload_sha (lr_sha r))
     (\<lambda>_. if \<exists>q \<in> set rows. lr_id q = lr_id r \<or> row_key q = row_key r
          then Inl (Sqlite ''UNIQUE constraint failed'') else Inr (rows @ [r]))"

section \<open>Operations\<close>

definition checked_link_row ::
  "CorrelationLink codec \<Rightarrow> (string \<Rightarrow> string) \<Rightarrow> link_row \<Rightarrow> CorrelationLink stored" where
  "checked_link_row c sha r = checked_row c sha validate_link (lr_raw r) (lr_sha r)"

fun collect_rows :: "('r \<Rightarrow> 'a stored) \<Rightarrow> 'r list \<Rightarrow> 'a list stored" where
  "collect_rows f [] = Inr []"
| "collect_rows f (r # rs) = and_then (f r) (\<lambda>x. and_then (collect_rows f rs) (\<lambda>xs. Inr (x # xs)))"

definition trace_rows :: "string \<Rightarrow> nat \<Rightarrow> link_row list \<Rightarrow> link_row list" where
  "trace_rows trace limit rows =
     take limit (sort_key lr_created_at (sort_key lr_id (filter (\<lambda>r. lr_trace_id r = trace) rows)))"

definition record_correlation_link_in_transaction ::
  "CorrelationLink codec \<Rightarrow> (string \<Rightarrow> string) \<Rightarrow> CorrelationLink \<Rightarrow> link_row list \<Rightarrow>
     (CorrelationLink \<times> link_row list) stored" where
  "record_correlation_link_in_transaction c sha l rows =
     and_then (validated (validate_link l))
    (\<lambda>_. and_then (to_json c l)
    (\<lambda>raw. case lookup_row (\<lambda>r. lr_id r = cl_link_id l) rows of
       Some existing \<Rightarrow>
         (if lr_raw existing = raw then Inr (l, rows)
          else Inl (Conflict ''correlation link id already has a different immutable payload''))
     | None \<Rightarrow>
         and_then (collect_rows (checked_link_row c sha) (trace_rows (tc_trace_id (cl_trace l)) 8192 rows))
        (\<lambda>links. and_then (map_err (Validation \<circ> correlation_error_to_string)
             (validate_causal_links (links @ [l])))
        (\<lambda>_. and_then (safe_enum_name (cl_relation l))
        (\<lambda>_. and_then (insert_link_row (link_to_row l raw (sha raw)) rows)
        (\<lambda>rows'. Inr (l, rows')))))))"

definition require_correlation_link_in_transaction ::
  "CorrelationLink codec \<Rightarrow> (string \<Rightarrow> string) \<Rightarrow> CorrelationLink \<Rightarrow> link_row list \<Rightarrow>
     CorrelationLink stored" where
  "require_correlation_link_in_transaction c sha l rows =
     and_then (validated (validate_link l))
    (\<lambda>_. and_then (to_json c l)
    (\<lambda>raw. case lookup_row (\<lambda>r. lr_id r = cl_link_id l) rows of
       None \<Rightarrow> Inl (Conflict ''existing immutable record is missing its causal correlation link'')
     | Some row \<Rightarrow> and_then (checked_link_row c sha row)
        (\<lambda>existing. and_then (to_json c existing)
        (\<lambda>existing_raw. if existing_raw = raw then Inr existing
           else Inl (Conflict ''existing immutable record has a different causal correlation link'')))))"

definition record_correlation_link ::
  "CorrelationLink codec \<Rightarrow> (string \<Rightarrow> string) \<Rightarrow> CorrelationLink \<Rightarrow> link_row list \<Rightarrow>
     (CorrelationLink \<times> link_row list) stored" where
  "record_correlation_link c sha l rows =
     and_then (validated (validate_link l)) (\<lambda>_. record_correlation_link_in_transaction c sha l rows)"

definition is_trace_id :: "string \<Rightarrow> bool" where
  "is_trace_id v \<longleftrightarrow> trace_is_lower_hex v 32"

definition correlation_links ::
  "CorrelationLink codec \<Rightarrow> (string \<Rightarrow> string) \<Rightarrow> string \<Rightarrow> u32 \<Rightarrow> link_row list \<Rightarrow>
     CorrelationLink list stored" where
  "correlation_links c sha trace limit rows =
    (if \<not> is_trace_id trace \<or> limit = 0 \<or> limit > 8192
     then Inl (Validation ''correlation trace id or page limit is invalid'')
     else and_then (collect_rows (checked_link_row c sha) (trace_rows trace (unat limit) rows))
       (\<lambda>links. and_then (map_err (Validation \<circ> correlation_error_to_string) (validate_causal_links links))
       (\<lambda>_. Inr links)))"

text \<open>Any sequence of recordings; a failed one leaves the table as it is.\<close>

fun record_links ::
  "CorrelationLink codec \<Rightarrow> (string \<Rightarrow> string) \<Rightarrow> CorrelationLink list \<Rightarrow> link_row list \<Rightarrow> link_row list" where
  "record_links c sha [] rows = rows"
| "record_links c sha (l # ls) rows =
    record_links c sha ls
      (case record_correlation_link c sha l rows of Inl _ \<Rightarrow> rows | Inr (_, rows') \<Rightarrow> rows')"

section \<open>Invariant\<close>

text \<open>The link a row holds, and what every table produced by the operations satisfies.\<close>

definition row_holds :: "CorrelationLink codec \<Rightarrow> (string \<Rightarrow> string) \<Rightarrow> link_row \<Rightarrow> CorrelationLink \<Rightarrow> bool" where
  "row_holds c sha r l \<longleftrightarrow>
     validate_link l = Inr () \<and> enc c l = Some (lr_raw r) \<and> link_to_row l (lr_raw r) (sha (lr_raw r)) = r"

definition trace_links :: "CorrelationLink list \<Rightarrow> string \<Rightarrow> CorrelationLink list" where
  "trace_links ls t = filter (\<lambda>l. tc_trace_id (cl_trace l) = t) ls"

definition table_ok :: "CorrelationLink codec \<Rightarrow> (string \<Rightarrow> string) \<Rightarrow> link_row list \<Rightarrow> CorrelationLink list \<Rightarrow> bool" where
  "table_ok c sha rows ls \<longleftrightarrow>
     list_all2 (row_holds c sha) rows ls \<and>
     (\<forall>t. length (trace_links ls t) \<le> 8192 \<and> acyclic (link_edges (trace_links ls t)))"

definition stored_links :: "CorrelationLink codec \<Rightarrow> link_row list \<Rightarrow> CorrelationLink list" where
  "stored_links c rows = map (\<lambda>r. the (dec c (lr_raw r))) rows"

lemma collect_rows_ok: "collect_rows f rs = Inr xs \<longleftrightarrow> list_all2 (\<lambda>r x. f r = Inr x) rs xs"
  by (induction rs arbitrary: xs) (auto simp: and_then_ok list_all2_Cons1)

lemma row_holds_columns:
  "row_holds c sha r l \<Longrightarrow>
     lr_id r = cl_link_id l \<and> lr_trace_id r = tc_trace_id (cl_trace l) \<and> lr_sha r = sha (lr_raw r)"
  unfolding row_holds_def link_to_row_def by (metis link_row.select_convs(1,2,8))

lemma row_holds_checked:
  "codec_ok c \<Longrightarrow> row_holds c sha r l \<Longrightarrow> checked_link_row c sha r = Inr l"
  using row_holds_columns [of c sha r l] by (simp add: row_holds_def checked_link_row_def codec_okD)

lemma table_stored:
  assumes "codec_ok c" and "list_all2 (row_holds c sha) rows ls"
  shows "stored_links c rows = ls"
  using assms(2)
  by (induction rule: list_all2_induct)
    (auto simp: stored_links_def row_holds_def dest: codec_okD [OF assms(1)])

lemma trace_filter:
  assumes "list_all2 (row_holds c sha) rows ls"
  shows "list_all2 (row_holds c sha) (filter (\<lambda>r. lr_trace_id r = t) rows) (trace_links ls t)"
  using assms by (induction rule: list_all2_induct) (auto simp: trace_links_def dest: row_holds_columns)

text \<open>The rows the check reads are exactly the stored links of the trace.\<close>

lemma trace_rows_links:
  assumes codec: "codec_ok c" and ok: "table_ok c sha rows ls"
    and read: "collect_rows (checked_link_row c sha) (trace_rows t 8192 rows) = Inr links"
  shows "set links = set (trace_links ls t) \<and> length links = length (trace_links ls t)"
proof -
  let ?R = "filter (\<lambda>r. lr_trace_id r = t) rows"
  let ?S = "sort_key lr_created_at (sort_key lr_id ?R)"
  have all: "list_all2 (row_holds c sha) ?R (trace_links ls t)"
    using ok trace_filter by (auto simp: table_ok_def)
  have len: "length ?R = length (trace_links ls t)" using all by (rule list_all2_lengthD)
  then have "trace_rows t 8192 rows = ?S" using ok by (simp add: table_ok_def trace_rows_def)
  with read have links: "list_all2 (\<lambda>r x. checked_link_row c sha r = Inr x) ?S links"
    by (simp add: collect_rows_ok)
  have "set links = (\<lambda>r. projr (checked_link_row c sha r)) ` set ?S"
    using links by (induction rule: list_all2_induct) auto
  also have "\<dots> = (\<lambda>r. projr (checked_link_row c sha r)) ` set ?R" by simp
  also have "\<dots> = set (trace_links ls t)"
    using all by (induction rule: list_all2_induct) (auto simp: row_holds_checked [OF codec])
  finally show ?thesis using list_all2_lengthD [OF links] len by simp
qed

lemma trace_links_append [simp]:
  "trace_links (ls @ [l]) t = trace_links ls t @ (if tc_trace_id (cl_trace l) = t then [l] else [])"
  by (simp add: trace_links_def)

lemma record_link_keeps:
  assumes codec: "codec_ok c" and ok: "table_ok c sha rows ls"
    and rec: "record_correlation_link_in_transaction c sha l rows = Inr (l', rows')"
  shows "l' = l \<and> (rows' = rows \<or> (table_ok c sha rows' (ls @ [l]) \<and> rows' = rows @ [last rows']))"
proof (cases "lookup_row (\<lambda>r. lr_id r = cl_link_id l) rows")
  case (Some r)
  with rec show ?thesis
    by (auto simp: record_correlation_link_in_transaction_def and_then_ok split: if_splits)
next
  case None
  with rec obtain raw links where raw: "enc c l = Some raw" "validate_link l = Inr ()"
    and read: "collect_rows (checked_link_row c sha)
        (trace_rows (tc_trace_id (cl_trace l)) 8192 rows) = Inr links"
    and check: "validate_causal_links (links @ [l]) = Inr ()"
    and ins: "insert_link_row (link_to_row l raw (sha raw)) rows = Inr rows'" and l': "l' = l"
    by (auto simp: record_correlation_link_in_transaction_def and_then_ok)
  have rows': "rows' = rows @ [link_to_row l raw (sha raw)]"
    using ins by (auto simp: insert_link_row_def and_then_ok split: if_splits)
  have "row_holds c sha (link_to_row l raw (sha raw)) l"
    using raw by (simp add: row_holds_def link_to_row_def)
  moreover have "length (links @ [l]) \<le> 8192" "acyclic (link_edges (links @ [l]))"
    using check unfolding causal_links_iff by blast+
  moreover have "link_edges (links @ [l]) = link_edges (trace_links ls (tc_trace_id (cl_trace l)) @ [l])"
    using trace_rows_links [OF codec ok read] by (simp add: link_edges_def)
  ultimately have "table_ok c sha rows' (ls @ [l])"
    using ok trace_rows_links [OF codec ok read]
    by (auto simp: table_ok_def rows' list_all2_appendI)
  then show ?thesis using rows' l' by simp
qed

lemma record_links_ok:
  assumes codec: "codec_ok c" and "table_ok c sha rows ls"
  shows "\<exists>ls'. table_ok c sha (record_links c sha new rows) ls'"
  using assms(2)
proof (induction new arbitrary: rows ls)
  case Nil
  then show ?case by auto
next
  case (Cons l new)
  show ?case
  proof (cases "record_correlation_link c sha l rows")
    case (Inl e)
    with Cons show ?thesis by simp
  next
    case (Inr p)
    obtain l' rows' where p: "p = (l', rows')" by (cases p)
    with Inr have "record_correlation_link_in_transaction c sha l rows = Inr (l', rows')"
      by (simp add: record_correlation_link_def and_then_ok)
    from record_link_keeps [OF codec Cons.prems this] Cons show ?thesis
      using Inr p by auto
  qed
qed

section \<open>The stored graph\<close>

lemma link_edge_trace:
  assumes "validate_link l = Inr ()"
  shows "take 32 (link_from l) = tc_trace_id (cl_trace l) \<and> take 32 (link_to l) = tc_trace_id (cl_trace l)"
  using assms
  by (simp add: validate_link_def validate_trace_def is_lower_hex_def limit_defs link_from_def link_to_def
      node_key_def)

text \<open>Node keys start with the trace, so a cycle would stay inside one trace.\<close>

lemma acyclic_by_trace:
  assumes valid: "\<forall>l \<in> set ls. validate_link l = Inr ()"
    and each: "\<forall>t. acyclic (link_edges (trace_links ls t))"
  shows "acyclic (link_edges ls)"
proof -
  have stays: "take 32 y = take 32 x \<and> (x, y) \<in> (link_edges (trace_links ls (take 32 x)))\<^sup>+"
    if "(x, y) \<in> (link_edges ls)\<^sup>+" for x y
    using that
  proof (induction rule: trancl_induct)
    case (base y)
    then obtain l where "l \<in> set ls" "x = link_from l" "y = link_to l" by (auto simp: link_edges_def)
    then show ?case using valid link_edge_trace [of l]
      by (auto simp: link_edges_def trace_links_def)
  next
    case (step y z)
    then obtain l where "l \<in> set ls" "y = link_from l" "z = link_to l" by (auto simp: link_edges_def)
    then have "take 32 z = take 32 x" "(y, z) \<in> link_edges (trace_links ls (take 32 x))"
      using valid link_edge_trace [of l] step.IH by (auto simp: link_edges_def trace_links_def)
    with step.IH show ?case by (meson trancl.trancl_into_trancl)
  qed
  then show ?thesis using each unfolding acyclic_def by blast
qed

text \<open>
  C2. Stored causality is acyclic: whatever links are offered to the repository in whatever order,
  the graph of all links it holds, over all traces, has no cycle.
\<close>

theorem stored_causality_is_acyclic:
  assumes "codec_ok c"
  shows "acyclic (link_edges (stored_links c (record_links c sha offered [])))"
proof -
  have "table_ok c sha [] []"
    by (simp add: table_ok_def trace_links_def link_edges_def acyclic_def)
  from record_links_ok [OF assms this] obtain ls where
    ok: "table_ok c sha (record_links c sha offered []) ls" by blast
  then have holds: "list_all2 (row_holds c sha) (record_links c sha offered []) ls"
    by (simp add: table_ok_def)
  then have "\<forall>l \<in> set ls. validate_link l = Inr ()"
    by (induction rule: list_all2_induct) (auto simp: row_holds_def)
  moreover have "\<forall>t. acyclic (link_edges (trace_links ls t))" using ok by (simp add: table_ok_def)
  ultimately show ?thesis using table_stored [OF assms holds] acyclic_by_trace by simp
qed

definition sample_link_codec :: "CorrelationLink codec" where
  "sample_link_codec = list_codec [(sample_link ''x'' ''y'', ''1''), (sample_link ''y'' ''x'', ''2'')]"

lemma sample_links_recorded:
  "record_links sample_link_codec (\<lambda>_. zeros 64) [sample_link ''x'' ''y'', sample_link ''y'' ''x''] [] =
     [link_to_row (sample_link ''x'' ''y'') ''1'' (zeros 64)]"
proof -
  have v: "validate_causal_links [sample_link ''x'' ''y''] = Inr ()"
    "validate_causal_links [sample_link ''x'' ''y'', sample_link ''y'' ''x''] =
      Inl (CausalCycle (link_from (sample_link ''x'' ''y'')))"
    "validate_link (sample_link ''x'' ''y'') = Inr ()" "validate_link (sample_link ''y'' ''x'') = Inr ()"
    by code_simp+
  have ne: "sample_link ''y'' ''x'' \<noteq> sample_link ''x'' ''y''" by (simp add: sample_link_def)
  have cols: "cl_link_id (sample_link a b) = a" "cl_relation (sample_link a b) = ''derived_from''"
    "tc_trace_id (cl_trace (sample_link a b)) = replicate 32 (CHR ''a'')" for a b
    by (simp_all add: sample_link_def)
  have en: "enc sample_link_codec (sample_link ''x'' ''y'') = Some ''1''"
    "enc sample_link_codec (sample_link ''y'' ''x'') = Some ''2''"
    "dec sample_link_codec ''1'' = Some (sample_link ''x'' ''y'')"
    using ne by (simp_all add: sample_link_codec_def list_codec_def)
  have rel: "safe_enum_name ''derived_from'' = Inr ''derived_from''"
    by (simp add: safe_enum_name_def ascii_defs)
  show ?thesis
    by (simp add: record_correlation_link_def record_correlation_link_in_transaction_def v en cols rel
        validated_def to_json_def lookup_row_def trace_rows_def insert_link_row_def check_payload_sha_def
        link_to_row_def checked_link_row_def checked_row_def)
qed

theorem stored_causality_is_acyclic_witness:
  "stored_links sample_link_codec (record_links sample_link_codec (\<lambda>_. zeros 64)
     [sample_link ''x'' ''y'', sample_link ''y'' ''x''] []) = [sample_link ''x'' ''y''] \<and>
   acyclic (link_edges (stored_links sample_link_codec (record_links sample_link_codec (\<lambda>_. zeros 64)
     [sample_link ''x'' ''y'', sample_link ''y'' ''x''] [])))"
proof -
  have codec: "codec_ok sample_link_codec"
    unfolding sample_link_codec_def by (rule list_codec_ok) simp
  have "stored_links sample_link_codec [link_to_row (sample_link ''x'' ''y'') ''1'' (zeros 64)] =
      [sample_link ''x'' ''y'']"
    by (simp add: stored_links_def link_to_row_def sample_link_codec_def list_codec_def)
  with stored_causality_is_acyclic [OF codec, of "\<lambda>_. zeros 64"
      "[sample_link ''x'' ''y'', sample_link ''y'' ''x'']"]
  show ?thesis by (simp only: sample_links_recorded)
qed

section \<open>Recording into an empty table\<close>

text \<open>A fixed digest, for concrete runs of the repositories.\<close>

definition the_sha :: string where
  "the_sha = replicate 64 (CHR ''a'')"

lemma the_sha_shape [simp]:
  "is_lower_hex the_sha 64" "is_lower_hex (take 32 the_sha) 32" "is_lower_hex (take 16 the_sha) 16"
  "\<not> all_zero (take 32 the_sha)" "\<not> all_zero (take 16 the_sha)"
  "the_sha \<noteq> []" "[] \<noteq> the_sha" "length the_sha = 64"
  by (simp_all add: the_sha_def is_lower_hex_def all_zero_def ascii_defs list_all_iff)

lemma first_link_recorded:
  assumes valid: "validate_link l = Inr ()" and ends: "link_from l \<noteq> link_to l" and raw: "enc c l = Some raw"
    and relation: "safe_enum_name (cl_relation l) = Inr (cl_relation l)" and hex: "is_lower_hex (sha raw) 64"
  shows "record_correlation_link_in_transaction c sha l [] = Inr (l, [link_to_row l raw (sha raw)])"
proof -
  have "link_edges [l] = {(link_from l, link_to l)}" by (simp add: link_edges_def)
  then have "validate_causal_links [l] = Inr ()"
    unfolding causal_links_iff using valid ends by (auto simp: acyclic_def trancl_insert)
  then show ?thesis
    using assms
    by (simp add: record_correlation_link_in_transaction_def validated_def to_json_def lookup_row_def
        trace_rows_def insert_link_row_def check_payload_sha_def link_to_row_def)
qed

end
