(* ===== verification/Condition_Store.thy ===== *)
theory Condition_Store
  imports Condition_Contract Correlation_Store
begin

text \<open>
  The external condition registry (\<^verbatim>\<open>harness-store/src/operator_control/external_conditions.rs\<close>):
  registration, recording of observations with optimistic concurrency, and the material event that
  is committed with an observation. The theorems are about any sequence of calls on an empty
  registry: a terminal condition is never changed again, and the sequence number of a condition
  counts exactly the observations stored for it.
\<close>

section \<open>Tables\<close>

record cond_row =
  cr_id :: string
  cr_adapter :: ExternalConditionAdapter
  cr_source_id :: string
  cr_state :: ExternalConditionState
  cr_version :: i64
  cr_opened_at :: i64
  cr_updated_at :: i64
  cr_raw :: string
  cr_sha :: string

record cobs_row =
  or_id :: string
  or_condition_id :: string
  or_source_event_id :: string
  or_observed_at :: i64
  or_raw :: string
  or_sha :: string

text \<open>
  A row of \<open>domain_events\<close> for an external condition. The payload is the caller's JSON object with the
  five controller-owned keys overwritten; those keys are kept as columns here.
\<close>

record 'v event_row =
  ev_run_id :: string
  ev_condition_id :: string
  ev_event_type :: string
  ev_occurred_at :: i64
  ev_payload :: 'v
  ev_source_event_id :: string
  ev_condition_version :: u64
  ev_condition_sha256 :: string
  ev_observation_id :: string

record 'v condition_db =
  conds :: "cond_row list"
  cobs :: "cobs_row list"
  clinks :: "link_row list"
  events :: "'v event_row list"
  run_ids :: "string list"
  task_runs :: "(string \<times> string) list"
  attempt_tasks :: "(string \<times> string) list"

record 'v condition_env =
  env_value_to_vec :: "'v \<Rightarrow> string option"
  env_spec_from_value :: "'v \<Rightarrow> LocalCapacitySpec option"
  env_is_object :: "'v \<Rightarrow> bool"
  env_cond :: "'v ExternalCondition codec"
  env_obs :: "'v ConditionObservation codec"
  env_link :: "CorrelationLink codec"
  env_sha :: "string \<Rightarrow> string"

definition env_libs :: "'v condition_env \<Rightarrow> 'v condition_libs" where
  "env_libs E = \<lparr>cl_value_to_vec = env_value_to_vec E, cl_observation_to_vec = enc (env_obs E),
     cl_condition_to_vec = enc (env_cond E), cl_spec_from_value = env_spec_from_value E,
     cl_sha = env_sha E\<rparr>"

record 'v ConditionMaterialEvent =
  me_run_id :: string
  me_event_type :: string
  me_payload :: 'v

section \<open>Helpers\<close>

definition checked_condition_row ::
  "'v condition_env \<Rightarrow> cond_row \<Rightarrow> 'v ExternalCondition stored" where
  "checked_condition_row E r =
     checked_row (env_cond E) (env_sha E) (validate_condition (env_libs E)) (cr_raw r) (cr_sha r)"

definition checked_observation_row ::
  "'v condition_env \<Rightarrow> cobs_row \<Rightarrow> 'v ConditionObservation stored" where
  "checked_observation_row E r =
     checked_row (env_obs E) (env_sha E) (validate_cond_observation (env_libs E)) (or_raw r) (or_sha r)"

definition same_registered_source_identity ::
  "'v ExternalCondition \<Rightarrow> 'v ExternalCondition \<Rightarrow> bool" where
  "same_registered_source_identity a b \<longleftrightarrow>
     ec_owner_type a = ec_owner_type b \<and> ec_owner_id a = ec_owner_id b \<and>
     ec_adapter a = ec_adapter b \<and> ec_source_id a = ec_source_id b \<and>
     ec_source_identity_digest a = ec_source_identity_digest b \<and>
     ec_spec a = ec_spec b \<and> ec_poll_policy a = ec_poll_policy b"

definition validate_domain_event_type :: "string \<Rightarrow> unit stored" where
  "validate_domain_event_type v =
    (if v = [] \<or> length v > 160 \<or> \<not> list_all (\<lambda>b. is_ascii_alphanumeric b \<or> b \<in> set ''._-'') v
     then Inl (Validation ''external condition event type must be a bounded controller identifier'')
     else Inr ())"

definition condition_observation_correlation_link ::
  "(string \<Rightarrow> string) \<Rightarrow> 'v ConditionObservation \<Rightarrow> CorrelationLink stored" where
  "condition_observation_correlation_link sha ob =
    (let trace_id = sha (''harness.condition-observation.trace.v1:'' @ co_observation_id ob);
         span_id = sha (''harness.condition-observation.span.v1:'' @ co_observation_id ob);
         link_id = ''correlation-'' @
           take 48 (sha (''harness.condition-observation.link.v1:'' @ co_observation_id ob))
     in and_then (validated (parse_id ''CorrelationLinkId'' link_id))
       (\<lambda>link_id. Inr \<lparr>cl_schema = ''harness.correlation-link.v1'', cl_link_id = link_id,
          cl_trace = \<lparr>tc_trace_id = take 32 trace_id, tc_span_id = take 16 span_id, tc_parent_span_id = None\<rparr>,
          cl_from_kind = ''external_condition'', cl_from_id = co_condition_id ob,
          cl_to_kind = ''condition_observation'', cl_to_id = co_observation_id ob,
          cl_relation = ''observed_as'', cl_created_at_ms = co_observed_at_ms ob\<rparr>))"

definition condition_owner_run_id :: "'v condition_db \<Rightarrow> 'v ExternalCondition \<Rightarrow> string stored" where
  "condition_owner_run_id db c =
     ok_or (NotFound (''external condition owner '' @ ec_owner_id c @ '' is not present''))
       (case ec_owner_type c of
          OwnerRun \<Rightarrow> if ec_owner_id c \<in> set (run_ids db) then Some (ec_owner_id c) else None
        | OwnerTask \<Rightarrow> map_of (task_runs db) (ec_owner_id c)
        | OwnerAttempt \<Rightarrow> Option.bind (map_of (attempt_tasks db) (ec_owner_id c)) (map_of (task_runs db)))"

definition ensure_material_event_binding ::
  "'v condition_db \<Rightarrow> 'v ExternalCondition \<Rightarrow> 'v ConditionObservation \<Rightarrow> 'v ConditionMaterialEvent \<Rightarrow>
     unit stored" where
  "ensure_material_event_binding db c ob ev =
    (if co_condition_id ob \<noteq> ec_condition_id c
     then Inl (Validation ''external condition event observation must bind the current condition'')
     else and_then (condition_owner_run_id db c)
       (\<lambda>owner. ensure (owner = me_run_id ev)
          (Conflict ''external condition event run does not match the condition owner'')))"

definition cond_to_row :: "'v ExternalCondition \<Rightarrow> string \<Rightarrow> string \<Rightarrow> cond_row" where
  "cond_to_row c raw d = \<lparr>cr_id = ec_condition_id c, cr_adapter = ec_adapter c,
     cr_source_id = ec_source_id c, cr_state = ec_state c, cr_version = int (unat (ec_version c)),
     cr_opened_at = ec_opened_at_ms c, cr_updated_at = ec_updated_at_ms c, cr_raw = raw, cr_sha = d\<rparr>"

section \<open>Registration\<close>

definition insert_condition_row ::
  "'v condition_env \<Rightarrow> 'v ExternalCondition \<Rightarrow> string \<Rightarrow> 'v condition_db \<Rightarrow> 'v condition_db stored" where
  "insert_condition_row E c raw db =
     and_then (to_i64 (ec_version c) ''external condition version'')
    (\<lambda>_. and_then (check_payload_sha (env_sha E raw))
    (\<lambda>_. if \<exists>r \<in> set (conds db). cr_id r = ec_condition_id c \<or>
            (cr_adapter r = ec_adapter c \<and> cr_source_id r = ec_source_id c)
         then Inl (Sqlite ''UNIQUE constraint failed'')
         else Inr (db\<lparr>conds := conds db @ [cond_to_row c raw (env_sha E raw)]\<rparr>)))"

definition new_condition :: "'v ExternalCondition \<Rightarrow> bool" where
  "new_condition c \<longleftrightarrow> \<not> (ec_state c \<noteq> CondOpen \<or> ec_sequence c \<noteq> 0 \<or> ec_version c \<noteq> 1 \<or>
     ec_last_observation c \<noteq> None)"

text \<open>
  The two registration calls differ only in what they accept as a replay: identical bytes, or the
  same immutable source identity.
\<close>

definition register_with ::
  "('v ExternalCondition \<Rightarrow> 'v ExternalCondition \<Rightarrow> bool) \<Rightarrow> string \<Rightarrow> 'v condition_env \<Rightarrow>
     'v ExternalCondition \<Rightarrow> 'v condition_db \<Rightarrow> ('v ExternalCondition \<times> 'v condition_db) stored" where
  "register_with replay conflict E c db =
     and_then (validated (validate_condition (env_libs E) c))
    (\<lambda>_. if \<not> new_condition c
       then Inl (Validation ''a new external condition must be open at sequence zero, version one, without an observation'')
       else and_then (to_json (env_cond E) c)
    (\<lambda>raw. case lookup_row (\<lambda>r. cr_adapter r = ec_adapter c \<and> cr_source_id r = ec_source_id c) (conds db) of
       Some row \<Rightarrow> and_then (checked_condition_row E row)
         (\<lambda>existing. if replay existing c then Inr (existing, db) else Inl (Conflict conflict))
     | None \<Rightarrow> and_then (insert_condition_row E c raw db) (\<lambda>db'. Inr (c, db'))))"

definition register_external_condition ::
  "'v condition_env \<Rightarrow> 'v ExternalCondition \<Rightarrow> 'v condition_db \<Rightarrow>
     ('v ExternalCondition \<times> 'v condition_db) stored" where
  "register_external_condition = register_with (=) ''source already has different current content''"

definition register_or_read_external_condition_by_source_identity ::
  "'v condition_env \<Rightarrow> 'v ExternalCondition \<Rightarrow> 'v condition_db \<Rightarrow>
     ('v ExternalCondition \<times> 'v condition_db) stored" where
  "register_or_read_external_condition_by_source_identity =
     register_with same_registered_source_identity ''source already has a different immutable identity''"

section \<open>Observations\<close>

text \<open>The replay branch: the observation is stored already.\<close>

definition replay_observation ::
  "'v condition_env \<Rightarrow> 'v ConditionObservation \<Rightarrow> 'v ConditionMaterialEvent option \<Rightarrow> CorrelationLink \<Rightarrow>
     cobs_row \<Rightarrow> 'v condition_db \<Rightarrow> 'v ExternalCondition stored" where
  "replay_observation E ob me link row db =
     and_then (checked_observation_row E row)
    (\<lambda>existing. if existing \<noteq> ob
       then Inl (Conflict ''external condition observation source event already has different content'')
       else and_then (ok_or (Sqlite ''Query returned no rows'')
          (lookup_row (\<lambda>r. cr_id r = co_condition_id ob) (conds db)))
    (\<lambda>crow. and_then (checked_condition_row E crow)
    (\<lambda>current. and_then
       (case me of None \<Rightarrow> Inr ()
        | Some ev \<Rightarrow> and_then (ensure_material_event_binding db current ob ev)
            (\<lambda>_. ensure (length (filter (\<lambda>x. ev_run_id x = me_run_id ev \<and>
                ev_condition_id x = co_condition_id ob \<and> ev_event_type x = me_event_type ev \<and>
                ev_source_event_id x = co_source_event_id ob) (events db)) = 1)
              (Conflict ''an existing external-condition observation is missing its material event'')))
    (\<lambda>_. and_then (require_correlation_link_in_transaction (env_link E) (env_sha E) link (clinks db))
    (\<lambda>_. Inr current)))))"

text \<open>The reduction of a condition by its next observation.\<close>

definition advance_condition ::
  "'v condition_env \<Rightarrow> 'v ExternalCondition \<Rightarrow> 'v ConditionObservation \<Rightarrow> 'v ExternalCondition stored" where
  "advance_condition E c ob =
     and_then (ok_or (Validation ''external condition sequence overflow'') (checked_add (ec_sequence c) 1))
    (\<lambda>expected. if co_sequence ob \<noteq> expected
       then Inl (Conflict ''external condition observation sequence does not follow current sequence'')
       else and_then (ok_or (Validation ''external condition version overflow'') (checked_add (ec_version c) 1))
    (\<lambda>v. let c' = c\<lparr>ec_sequence := co_sequence ob, ec_state := co_state ob,
            ec_last_observation := Some ob, ec_version := v, ec_updated_at_ms := co_observed_at_ms ob\<rparr>
     in and_then (validated (condition_digest (enc (env_cond E)) (env_sha E) c'))
    (\<lambda>d. let sealed = c'\<lparr>ec_sha256 := d\<rparr>
     in and_then (validated (validate_condition (env_libs E) sealed)) (\<lambda>_. Inr sealed))))"

definition update_condition_row ::
  "'v condition_env \<Rightarrow> 'v ExternalCondition \<Rightarrow> string \<Rightarrow> i64 \<Rightarrow> cond_row list \<Rightarrow> cond_row list stored" where
  "update_condition_row E c raw expected rows =
     and_then (to_i64 (ec_version c) ''external condition version'')
    (\<lambda>v. and_then (check_payload_sha (env_sha E raw))
    (\<lambda>_. if length (filter (\<lambda>r. cr_id r = ec_condition_id c \<and> cr_version r = expected) rows) \<noteq> 1
         then Inl (Conflict ''external condition changed while recording its observation'')
         else Inr (map (\<lambda>r. if cr_id r = ec_condition_id c \<and> cr_version r = expected
            then r\<lparr>cr_state := ec_state c, cr_version := v, cr_raw := raw, cr_sha := env_sha E raw,
                   cr_updated_at := ec_updated_at_ms c\<rparr>
            else r) rows)))"

definition insert_observation_row ::
  "'v condition_env \<Rightarrow> 'v ConditionObservation \<Rightarrow> string \<Rightarrow> cobs_row list \<Rightarrow> cobs_row list stored" where
  "insert_observation_row E ob raw rows =
     and_then (check_payload_sha (env_sha E raw))
    (\<lambda>_. if \<exists>r \<in> set rows. or_id r = co_observation_id ob \<or>
            (or_condition_id r = co_condition_id ob \<and> or_source_event_id r = co_source_event_id ob)
         then Inl (Sqlite ''UNIQUE constraint failed'')
         else Inr (rows @ [\<lparr>or_id = co_observation_id ob, or_condition_id = co_condition_id ob,
            or_source_event_id = co_source_event_id ob, or_observed_at = co_observed_at_ms ob,
            or_raw = raw, or_sha = env_sha E raw\<rparr>]))"

definition insert_material_event ::
  "'v condition_env \<Rightarrow> i64 \<Rightarrow> 'v ExternalCondition \<Rightarrow> 'v ConditionObservation \<Rightarrow>
     'v ConditionMaterialEvent option \<Rightarrow> 'v event_row list \<Rightarrow> 'v event_row list stored" where
  "insert_material_event E now c ob me rows =
    (case me of None \<Rightarrow> Inr rows
     | Some ev \<Rightarrow> if \<not> env_is_object E (me_payload ev)
         then Inl (Validation ''external condition event payload must be an object'')
         else Inr (rows @ [\<lparr>ev_run_id = me_run_id ev, ev_condition_id = ec_condition_id c,
            ev_event_type = me_event_type ev, ev_occurred_at = now, ev_payload = me_payload ev,
            ev_source_event_id = co_source_event_id ob, ev_condition_version = ec_version c,
            ev_condition_sha256 = ec_sha256 c, ev_observation_id = co_observation_id ob\<rparr>]))"

text \<open>The first recording of an observation.\<close>

definition append_observation ::
  "'v condition_env \<Rightarrow> i64 \<Rightarrow> string \<Rightarrow> i64 \<Rightarrow> 'v ConditionObservation \<Rightarrow> string \<Rightarrow>
     'v ConditionMaterialEvent option \<Rightarrow> CorrelationLink \<Rightarrow> 'v condition_db \<Rightarrow>
     ('v ExternalCondition \<times> 'v condition_db) stored" where
  "append_observation E now condition_id expected ob ob_raw me link db =
     and_then (ok_or (NotFound (''external condition '' @ condition_id))
       (lookup_row (\<lambda>r. cr_id r = condition_id) (conds db)))
    (\<lambda>row. and_then (ok_or Json (dec (env_cond E) (cr_raw row)))
    (\<lambda>c. and_then (validated (validate_condition (env_libs E) c))
    (\<lambda>_. and_then (case me of None \<Rightarrow> Inr () | Some ev \<Rightarrow> ensure_material_event_binding db c ob ev)
    (\<lambda>_. and_then (to_i64 (ec_version c) ''external condition version'')
    (\<lambda>v. if v \<noteq> expected
       then Inl (Conflict (''external condition '' @ condition_id @ '' has another version''))
       else if condition_is_terminal (ec_state c)
       then Inl (Conflict ''a terminal external condition cannot accept another observation'')
       else and_then (advance_condition E c ob)
    (\<lambda>c'. and_then (to_json (env_cond E) c')
    (\<lambda>raw'. and_then (update_condition_row E c' raw' expected (conds db))
    (\<lambda>conds'. and_then (insert_observation_row E ob ob_raw (cobs db))
    (\<lambda>cobs'. and_then (insert_material_event E now c' ob me (events db))
    (\<lambda>events'. and_then (record_correlation_link_in_transaction (env_link E) (env_sha E) link (clinks db))
    (\<lambda>(_, links'). Inr (c', db\<lparr>conds := conds', cobs := cobs', events := events', clinks := links'\<rparr>)
    )))))))))))"

definition record_external_condition_observation_inner ::
  "'v condition_env \<Rightarrow> i64 \<Rightarrow> string \<Rightarrow> u64 \<Rightarrow> 'v ConditionObservation \<Rightarrow>
     'v ConditionMaterialEvent option \<Rightarrow> 'v condition_db \<Rightarrow>
     ('v ExternalCondition \<times> 'v condition_db) stored" where
  "record_external_condition_observation_inner E now condition_id expected_version ob me db =
     and_then (validated (validate_cond_observation (env_libs E) ob))
    (\<lambda>_. if co_condition_id ob \<noteq> condition_id
       then Inl (Validation ''condition observation must bind the requested condition'')
       else and_then (condition_observation_correlation_link (env_sha E) ob)
    (\<lambda>link. and_then (to_json (env_obs E) ob)
    (\<lambda>ob_raw. and_then (to_i64 expected_version ''external condition expected version'')
    (\<lambda>expected. case lookup_row (\<lambda>r. or_condition_id r = condition_id \<and>
          or_source_event_id r = co_source_event_id ob) (cobs db) of
       Some row \<Rightarrow> and_then (replay_observation E ob me link row db) (\<lambda>current. Inr (current, db))
     | None \<Rightarrow> append_observation E now condition_id expected ob ob_raw me link db))))"

definition record_external_condition_observation ::
  "'v condition_env \<Rightarrow> i64 \<Rightarrow> string \<Rightarrow> u64 \<Rightarrow> 'v ConditionObservation \<Rightarrow> 'v condition_db \<Rightarrow>
     ('v ExternalCondition \<times> 'v condition_db) stored" where
  "record_external_condition_observation E now condition_id expected_version ob db =
     record_external_condition_observation_inner E now condition_id expected_version ob None db"

definition record_external_condition_observation_and_emit ::
  "'v condition_env \<Rightarrow> i64 \<Rightarrow> string \<Rightarrow> u64 \<Rightarrow> 'v ConditionObservation \<Rightarrow> string \<Rightarrow> string \<Rightarrow> 'v \<Rightarrow>
     'v condition_db \<Rightarrow> ('v ExternalCondition \<times> 'v condition_db) stored" where
  "record_external_condition_observation_and_emit E now condition_id expected_version ob run_id
     event_type payload db =
     and_then (validate_domain_event_type event_type)
    (\<lambda>_. if \<not> env_is_object E payload
       then Inl (Validation ''external condition event payload must be an object'')
       else record_external_condition_observation_inner E now condition_id expected_version ob
         (Some \<lparr>me_run_id = run_id, me_event_type = event_type, me_payload = payload\<rparr>) db)"

section \<open>Reads\<close>

definition external_condition ::
  "'v condition_env \<Rightarrow> string \<Rightarrow> 'v condition_db \<Rightarrow> 'v ExternalCondition option stored" where
  "external_condition E condition_id db =
    (case lookup_row (\<lambda>r. cr_id r = condition_id) (conds db) of
       None \<Rightarrow> Inr None
     | Some row \<Rightarrow> and_then (checked_condition_row E row) (\<lambda>c. Inr (Some c)))"

definition list_external_conditions ::
  "'v condition_env \<Rightarrow> bool \<Rightarrow> u32 \<Rightarrow> 'v condition_db \<Rightarrow> 'v ExternalCondition list stored" where
  "list_external_conditions E include_terminal limit db =
    (if limit = 0 \<or> limit > 200
     then Inl (Validation ''external condition page limit must be 1..=200'')
     else collect_rows (checked_condition_row E)
       (take (unat limit) (rev (sort_key cr_updated_at (sort_key cr_id
          (filter (\<lambda>r. include_terminal \<or> cr_state r \<in> set [CondOpen, CondUnknown]) (conds db)))))))"

definition list_external_condition_summaries ::
  "'v condition_env \<Rightarrow> bool \<Rightarrow> u32 \<Rightarrow> 'v condition_db \<Rightarrow> ExternalConditionSummary list stored" where
  "list_external_condition_summaries E include_terminal limit db =
     and_then (list_external_conditions E include_terminal limit db)
       (\<lambda>cs. Inr (map condition_summary cs))"

definition list_condition_observations ::
  "'v condition_env \<Rightarrow> string \<Rightarrow> u32 \<Rightarrow> 'v condition_db \<Rightarrow> 'v ConditionObservation list stored" where
  "list_condition_observations E condition_id limit db =
    (if limit = 0 \<or> limit > 200
     then Inl (Validation ''condition observation page limit must be 1..=200'')
     else collect_rows (checked_observation_row E)
       (take (unat limit) (rev (sort_key or_observed_at (sort_key or_id
          (filter (\<lambda>r. or_condition_id r = condition_id) (cobs db)))))))"

section \<open>Sequences of calls\<close>

datatype 'v registry_call =
    Register "'v ExternalCondition"
  | RegisterByIdentity "'v ExternalCondition"
  | Observe i64 string u64 "'v ConditionObservation"
  | ObserveAndEmit i64 string u64 "'v ConditionObservation" string string 'v

fun condition_call ::
  "'v condition_env \<Rightarrow> 'v registry_call \<Rightarrow> 'v condition_db \<Rightarrow>
     ('v ExternalCondition \<times> 'v condition_db) stored" where
  "condition_call E (Register c) db = register_external_condition E c db"
| "condition_call E (RegisterByIdentity c) db =
     register_or_read_external_condition_by_source_identity E c db"
| "condition_call E (Observe now i v ob) db = record_external_condition_observation E now i v ob db"
| "condition_call E (ObserveAndEmit now i v ob run ty pl) db =
     record_external_condition_observation_and_emit E now i v ob run ty pl db"

text \<open>A failed call rolls back.\<close>

fun condition_calls ::
  "'v condition_env \<Rightarrow> 'v registry_call list \<Rightarrow> 'v condition_db \<Rightarrow> 'v condition_db" where
  "condition_calls E [] db = db"
| "condition_calls E (x # xs) db =
     condition_calls E xs (case condition_call E x db of Inl _ \<Rightarrow> db | Inr (_, db') \<Rightarrow> db')"

section \<open>Invariant\<close>

definition cond_row_holds :: "'v condition_env \<Rightarrow> cobs_row list \<Rightarrow> cond_row \<Rightarrow> 'v ExternalCondition \<Rightarrow> bool" where
  "cond_row_holds E obs row c \<longleftrightarrow>
     enc (env_cond E) c = Some (cr_raw row) \<and>
     cond_to_row c (cr_raw row) (env_sha E (cr_raw row)) = row \<and>
     validate_condition (env_libs E) c = Inr () \<and> unat (ec_version c) = unat (ec_sequence c) + 1 \<and>
     length (filter (\<lambda>x. or_condition_id x = ec_condition_id c) obs) = unat (ec_sequence c)"

definition registry_ok :: "'v condition_env \<Rightarrow> 'v condition_db \<Rightarrow> bool" where
  "registry_ok E db \<longleftrightarrow>
     (\<forall>row \<in> set (conds db). \<exists>c. cond_row_holds E (cobs db) row c) \<and> distinct (map cr_id (conds db)) \<and>
     (\<forall>x \<in> set (cobs db). or_condition_id x \<in> cr_id ` set (conds db))"

lemma cond_row_columns:
  "cond_row_holds E obs row c \<Longrightarrow>
     cr_id row = ec_condition_id c \<and> cr_version row = int (unat (ec_version c)) \<and>
     cr_sha row = env_sha E (cr_raw row)"
  unfolding cond_row_holds_def cond_to_row_def by (metis cond_row.select_convs(1,5,9))

lemma cond_row_checked:
  assumes "codec_ok (env_cond E)" and "cond_row_holds E obs row c"
  shows "checked_condition_row E row = Inr c \<and> dec (env_cond E) (cr_raw row) = Some c"
  using assms cond_row_columns [OF assms(2)]
  by (simp add: cond_row_holds_def checked_condition_row_def codec_okD)

lemma advance_condition_ok:
  assumes "advance_condition E c ob = Inr c'"
  shows "validate_condition (env_libs E) c' = Inr () \<and> unat (ec_sequence c') = unat (ec_sequence c) + 1 \<and>
    unat (ec_version c') = unat (ec_version c) + 1 \<and> ec_state c' = co_state ob \<and>
    ec_last_observation c' = Some ob \<and> ec_condition_id c' = ec_condition_id c \<and>
    ec_adapter c' = ec_adapter c \<and> ec_source_id c' = ec_source_id c \<and>
    ec_opened_at_ms c' = ec_opened_at_ms c"
  using assms
  by (auto simp: advance_condition_def and_then_ok Let_def checked_add_Some split: if_splits)

text \<open>One condition of the registry is advanced by one observation.\<close>

definition advances ::
  "'v condition_env \<Rightarrow> 'v ConditionObservation \<Rightarrow> 'v ExternalCondition \<Rightarrow> 'v condition_db \<Rightarrow>
     'v condition_db \<Rightarrow> bool" where
  "advances E ob c' db db' \<longleftrightarrow>
    (\<exists>row c raw' ob_raw. lookup_row (\<lambda>r. cr_id r = co_condition_id ob) (conds db) = Some row \<and>
       dec (env_cond E) (cr_raw row) = Some c \<and> \<not> condition_is_terminal (ec_state c) \<and>
       advance_condition E c ob = Inr c' \<and> enc (env_cond E) c' = Some raw' \<and>
       update_condition_row E c' raw' (int (unat (ec_version c))) (conds db) = Inr (conds db') \<and>
       insert_observation_row E ob ob_raw (cobs db) = Inr (cobs db'))"

lemma observation_recorded:
  assumes "record_external_condition_observation_inner E now i v ob me db = Inr (c', db')"
  shows "db' = db \<or> advances E ob c' db db'"
proof -
  from assms obtain link ob_raw expected where bind: "co_condition_id ob = i"
    and cases: "(case lookup_row (\<lambda>r. or_condition_id r = i \<and> or_source_event_id r = co_source_event_id ob)
        (cobs db) of
       Some row \<Rightarrow> and_then (replay_observation E ob me link row db) (\<lambda>current. Inr (current, db))
     | None \<Rightarrow> append_observation E now i expected ob ob_raw me link db) = Inr (c', db')"
    by (auto simp: record_external_condition_observation_inner_def and_then_ok split: if_splits)
  show ?thesis
  proof (cases "lookup_row (\<lambda>r. or_condition_id r = i \<and> or_source_event_id r = co_source_event_id ob) (cobs db)")
    case (Some row)
    with cases show ?thesis by (auto simp: and_then_ok)
  next
    case None
    with cases have "append_observation E now i expected ob ob_raw me link db = Inr (c', db')" by simp
    then have "advances E ob c' db db'"
      unfolding advances_def bind
      by (auto simp: append_observation_def and_then_ok split: if_splits)
    then show ?thesis ..
  qed
qed

lemma registered:
  assumes "register_with replay msg E c db = Inr (c', db')"
  shows "db' = db \<or> (\<exists>raw. new_condition c \<and> validate_condition (env_libs E) c = Inr () \<and>
    enc (env_cond E) c = Some raw \<and> conds db' = conds db @ [cond_to_row c raw (env_sha E raw)] \<and>
    cobs db' = cobs db \<and> (\<forall>r \<in> set (conds db). cr_id r \<noteq> ec_condition_id c))"
proof (cases "lookup_row (\<lambda>r. cr_adapter r = ec_adapter c \<and> cr_source_id r = ec_source_id c) (conds db)")
  case (Some row)
  with assms show ?thesis by (auto simp: register_with_def and_then_ok split: if_splits)
next
  case None
  with assms obtain raw where "new_condition c" "validate_condition (env_libs E) c = Inr ()"
    "enc (env_cond E) c = Some raw" "insert_condition_row E c raw db = Inr db'"
    by (auto simp: register_with_def and_then_ok split: if_splits)
  then show ?thesis
    by (intro disjI2 exI [of _ raw]) (auto simp: insert_condition_row_def and_then_ok split: if_splits)
qed

text \<open>
  Every successful call changes nothing, appends a new condition, or replaces one row by the
  condition advanced by one observation.
\<close>

lemma condition_call_effect:
  assumes "condition_call E x db = Inr (c', db')"
  obtains (same) "db' = db"
  | (new) c raw where "new_condition c" "validate_condition (env_libs E) c = Inr ()"
      "enc (env_cond E) c = Some raw" "conds db' = conds db @ [cond_to_row c raw (env_sha E raw)]"
      "cobs db' = cobs db" "\<forall>r \<in> set (conds db). cr_id r \<noteq> ec_condition_id c"
  | (advanced) ob where "advances E ob c' db db'"
proof (cases x)
  case (Register c)
  with assms have "register_with (=) ''source already has different current content'' E c db = Inr (c', db')"
    by (simp add: register_external_condition_def)
  from registered [OF this] show thesis using same new by blast
next
  case (RegisterByIdentity c)
  with assms have "register_with same_registered_source_identity
      ''source already has a different immutable identity'' E c db = Inr (c', db')"
    by (simp add: register_or_read_external_condition_by_source_identity_def)
  from registered [OF this] show thesis using same new by blast
next
  case (Observe now i v ob)
  with assms have "record_external_condition_observation_inner E now i v ob None db = Inr (c', db')"
    by (simp add: record_external_condition_observation_def)
  from observation_recorded [OF this] show thesis using same advanced by blast
next
  case (ObserveAndEmit now i v ob run ty pl)
  with assms obtain me where "record_external_condition_observation_inner E now i v ob me db = Inr (c', db')"
    by (auto simp: record_external_condition_observation_and_emit_def and_then_ok split: if_splits)
  from observation_recorded [OF this] show thesis using same advanced by blast
qed

text \<open>The row that is replaced, and what the new one holds.\<close>

lemma advances_row:
  assumes ok: "registry_ok E db" and codec: "codec_ok (env_cond E)" and adv: "advances E ob c' db db'"
  obtains row r' c where "row \<in> set (conds db)" "cr_id row = co_condition_id ob"
    "cond_row_holds E (cobs db) row c" "\<not> condition_is_terminal (ec_state c)"
    "conds db' = map (\<lambda>r. if r = row then r' else r) (conds db)" "cr_id r' = cr_id row"
    "cond_row_holds E (cobs db') r' c'"
    "\<exists>x. cobs db' = cobs db @ [x] \<and> or_condition_id x = co_condition_id ob"
proof -
  from adv obtain row c raw' ob_raw where
    look: "lookup_row (\<lambda>r. cr_id r = co_condition_id ob) (conds db) = Some row"
    and c: "dec (env_cond E) (cr_raw row) = Some c" and live: "\<not> condition_is_terminal (ec_state c)"
    and step: "advance_condition E c ob = Inr c'" and raw': "enc (env_cond E) c' = Some raw'"
    and upd: "update_condition_row E c' raw' (int (unat (ec_version c))) (conds db) = Inr (conds db')"
    and ins: "insert_observation_row E ob ob_raw (cobs db) = Inr (cobs db')"
    unfolding advances_def by blast
  from lookup_row_Some [OF look] have row: "row \<in> set (conds db)" "cr_id row = co_condition_id ob"
    by simp_all
  with ok obtain c0 where c0: "cond_row_holds E (cobs db) row c0" by (auto simp: registry_ok_def)
  with c cond_row_checked [OF codec c0] have holds: "cond_row_holds E (cobs db) row c" by simp
  note cols = cond_row_columns [OF holds] and a = advance_condition_ok [OF step]
  define r' where "r' = row\<lparr>cr_state := ec_state c', cr_version := int (unat (ec_version c')),
      cr_raw := raw', cr_sha := env_sha E raw', cr_updated_at := ec_updated_at_ms c'\<rparr>"
  have inj: "r = row" if "r \<in> set (conds db)" "cr_id r = cr_id row" for r
    using that row ok by (auto simp: registry_ok_def distinct_map inj_on_def)
  have "conds db' = map (\<lambda>r. if cr_id r = ec_condition_id c' \<and> cr_version r = int (unat (ec_version c))
      then r\<lparr>cr_state := ec_state c', cr_version := int (unat (ec_version c')), cr_raw := raw',
        cr_sha := env_sha E raw', cr_updated_at := ec_updated_at_ms c'\<rparr> else r) (conds db)"
    using upd by (auto simp: update_condition_row_def and_then_ok simp del: of_nat_unat split: if_splits)
  also have "\<dots> = map (\<lambda>r. if r = row then r' else r) (conds db)"
  proof (rule map_cong [OF refl])
    fix r assume "r \<in> set (conds db)"
    then have "cr_id r = ec_condition_id c' \<and> cr_version r = int (unat (ec_version c)) \<longleftrightarrow> r = row"
      using inj [of r] cols a by auto
    then show "(if cr_id r = ec_condition_id c' \<and> cr_version r = int (unat (ec_version c))
      then r\<lparr>cr_state := ec_state c', cr_version := int (unat (ec_version c')), cr_raw := raw',
        cr_sha := env_sha E raw', cr_updated_at := ec_updated_at_ms c'\<rparr> else r) = (if r = row then r' else r)"
      unfolding r'_def by (simp only: split: if_split) simp
  qed
  finally have conds': "conds db' = map (\<lambda>r. if r = row then r' else r) (conds db)" .
  have obs': "\<exists>x. cobs db' = cobs db @ [x] \<and> or_condition_id x = co_condition_id ob"
  proof -
    from ins have "cobs db' = cobs db @ [\<lparr>or_id = co_observation_id ob, or_condition_id = co_condition_id ob,
        or_source_event_id = co_source_event_id ob, or_observed_at = co_observed_at_ms ob,
        or_raw = ob_raw, or_sha = env_sha E ob_raw\<rparr>]"
      by (simp add: insert_observation_row_def and_then_ok split: if_splits)
    then show ?thesis by simp
  qed
  have "length (filter (\<lambda>x. or_condition_id x = ec_condition_id c) (cobs db)) = unat (ec_sequence c)"
    using holds by (simp add: cond_row_holds_def)
  with obs' a row cols
  have count: "length (filter (\<lambda>x. or_condition_id x = ec_condition_id c') (cobs db')) = unat (ec_sequence c')"
    by auto
  have "cond_to_row c (cr_raw row) (env_sha E (cr_raw row)) = row"
    using holds by (simp add: cond_row_holds_def)
  then have to_row: "cond_to_row c' raw' (env_sha E raw') = r'"
    using a unfolding r'_def by (cases row) (simp add: cond_to_row_def)
  have "unat (ec_version c) = unat (ec_sequence c) + 1" using holds by (simp add: cond_row_holds_def)
  moreover have "cr_raw r' = raw'" by (simp add: r'_def)
  ultimately have "cond_row_holds E (cobs db') r' c'"
    unfolding cond_row_holds_def using a raw' to_row count by simp
  moreover have "cr_id r' = cr_id row" by (simp add: r'_def)
  ultimately show thesis using that row holds live conds' obs' by blast
qed

lemma call_keeps_registry:
  assumes codec: "codec_ok (env_cond E)" and ok: "registry_ok E db"
    and call: "condition_call E x db = Inr (c', db')"
  shows "registry_ok E db' \<and>
    (\<forall>row c. row \<in> set (conds db) \<longrightarrow> cond_row_holds E (cobs db) row c \<longrightarrow>
       condition_is_terminal (ec_state c) \<longrightarrow> row \<in> set (conds db'))"
  using call
proof (cases rule: condition_call_effect)
  case same
  with ok show ?thesis by simp
next
  case (new c raw)
  have "cond_row_holds E (cobs db') (cond_to_row c raw (env_sha E raw)) c"
    using new ok by (auto simp: cond_row_holds_def cond_to_row_def new_condition_def registry_ok_def
        filter_empty_conv)
  with new ok show ?thesis by (auto simp: registry_ok_def cond_to_row_def)
next
  case (advanced ob)
  obtain row r' c where row: "row \<in> set (conds db)" "cr_id row = co_condition_id ob"
    and c: "cond_row_holds E (cobs db) row c" "\<not> condition_is_terminal (ec_state c)"
    and conds': "conds db' = map (\<lambda>r. if r = row then r' else r) (conds db)" and r': "cr_id r' = cr_id row"
    and holds': "cond_row_holds E (cobs db') r' c'"
    and obs': "\<exists>x. cobs db' = cobs db @ [x] \<and> or_condition_id x = co_condition_id ob"
    using advances_row [OF ok codec advanced] .
  have ids: "map cr_id (conds db') = map cr_id (conds db)"
    using r' by (simp add: conds')
  have other: "cond_row_holds E (cobs db') r d"
    if "r \<in> set (conds db)" "r \<noteq> row" "cond_row_holds E (cobs db) r d" for r d
  proof -
    have "cr_id r \<noteq> cr_id row" using that row ok by (auto simp: registry_ok_def distinct_map inj_on_def)
    then show ?thesis using that obs' row cond_row_columns [OF that(3)] by (auto simp: cond_row_holds_def)
  qed
  have rows': "\<forall>r \<in> set (conds db'). \<exists>d. cond_row_holds E (cobs db') r d"
    using ok holds' other by (auto simp: conds' registry_ok_def) blast
  have "\<forall>x \<in> set (cobs db'). or_condition_id x \<in> cr_id ` set (conds db')"
    unfolding list.set_map [symmetric] ids using ok obs' imageI [OF row(1), of cr_id] row(2) by (auto simp: registry_ok_def)
  moreover have "distinct (map cr_id (conds db'))" unfolding ids using ok by (simp add: registry_ok_def)
  ultimately have "registry_ok E db'" using rows' by (simp add: registry_ok_def)
  moreover have "r \<in> set (conds db')"
    if "r \<in> set (conds db)" "cond_row_holds E (cobs db) r d" "condition_is_terminal (ec_state d)" for r d
  proof -
    have "r \<noteq> row"
      using that c cond_row_checked [OF codec] by (metis option.inject)
    with that show ?thesis by (auto simp: conds')
  qed
  ultimately show ?thesis by blast
qed

lemma calls_keep_registry:
  assumes codec: "codec_ok (env_cond E)" and ok: "registry_ok E db"
  shows "registry_ok E (condition_calls E xs db) \<and>
    (\<forall>row c. row \<in> set (conds db) \<longrightarrow> cond_row_holds E (cobs db) row c \<longrightarrow>
       condition_is_terminal (ec_state c) \<longrightarrow> row \<in> set (conds (condition_calls E xs db)))"
  using ok
proof (induction xs arbitrary: db)
  case Nil
  then show ?case by simp
next
  case (Cons x xs)
  show ?case
  proof (cases "condition_call E x db")
    case (Inl e)
    with Cons show ?thesis by simp
  next
    case (Inr p)
    obtain c' db' where p: "p = (c', db')" by (cases p)
    from Inr have call: "condition_call E x db = Inr (c', db')" by (simp add: p)
    from call_keeps_registry [OF codec Cons.prems call] have ok': "registry_ok E db'"
      and keep: "\<And>row c. row \<in> set (conds db) \<Longrightarrow> cond_row_holds E (cobs db) row c \<Longrightarrow>
        condition_is_terminal (ec_state c) \<Longrightarrow> row \<in> set (conds db')" by blast+
    have "row \<in> set (conds (condition_calls E xs db'))"
      if "row \<in> set (conds db)" "cond_row_holds E (cobs db) row c" "condition_is_terminal (ec_state c)" for row c
    proof -
      have in': "row \<in> set (conds db')" using keep [OF that] .
      then obtain d where d: "cond_row_holds E (cobs db') row d" using ok' by (auto simp: registry_ok_def)
      have "d = c" using cond_row_checked [OF codec d] cond_row_checked [OF codec that(2)] by simp
      with Cons.IH [OF ok'] in' d that show ?thesis by blast
    qed
    with Cons.IH [OF ok'] call show ?thesis by simp
  qed
qed

section \<open>Properties\<close>

lemma empty_registry: "conds db = [] \<Longrightarrow> cobs db = [] \<Longrightarrow> registry_ok E db"
  by (simp add: registry_ok_def)

lemma read_condition:
  assumes codec: "codec_ok (env_cond E)" and ok: "registry_ok E db"
  shows "external_condition E i db = Inr (Some c) \<longleftrightarrow>
    (\<exists>row \<in> set (conds db). cr_id row = i \<and> cond_row_holds E (cobs db) row c)"
proof
  assume "external_condition E i db = Inr (Some c)"
  then obtain row where look: "lookup_row (\<lambda>r. cr_id r = i) (conds db) = Some row"
    and chk: "checked_condition_row E row = Inr c"
    by (auto simp: external_condition_def and_then_ok split: option.splits)
  note row = lookup_row_Some [OF look]
  then obtain d where "cond_row_holds E (cobs db) row d" using ok by (auto simp: registry_ok_def)
  with row chk cond_row_checked [OF codec this] show "\<exists>row \<in> set (conds db). cr_id row = i \<and>
      cond_row_holds E (cobs db) row c" by auto
next
  assume "\<exists>row \<in> set (conds db). cr_id row = i \<and> cond_row_holds E (cobs db) row c"
  then obtain row where row: "row \<in> set (conds db)" "cr_id row = i" "cond_row_holds E (cobs db) row c" by blast
  show "external_condition E i db = Inr (Some c)"
  proof (cases "lookup_row (\<lambda>r. cr_id r = i) (conds db)")
    case None
    with row show ?thesis by (auto simp: lookup_row_None)
  next
    case (Some r)
    with lookup_row_Some [OF Some] row ok have "r = row"
      by (auto simp: registry_ok_def distinct_map inj_on_def)
    with Some cond_row_checked [OF codec row(3)] show ?thesis by (simp add: external_condition_def)
  qed
qed

text \<open>
  C29. A settled condition never changes: once reading a condition of a registry that was built from
  nothing by any calls returns a satisfied, unsatisfied or cancelled condition, reading it returns
  that same condition after any further calls, whatever is registered or observed.
\<close>

theorem terminal_condition_is_final:
  assumes codec: "codec_ok (env_cond E)" and start: "conds db = []" "cobs db = []"
    and read: "external_condition E i (condition_calls E before db) = Inr (Some c)"
    and terminal: "condition_is_terminal (ec_state c)"
  shows "external_condition E i (condition_calls E after (condition_calls E before db)) = Inr (Some c)"
proof -
  let ?db1 = "condition_calls E before db" and ?db2 = "condition_calls E after (condition_calls E before db)"
  have ok1: "registry_ok E ?db1" using calls_keep_registry [OF codec empty_registry [OF start]] by blast
  note keep = calls_keep_registry [OF codec ok1, of after]
  from read obtain row where row: "row \<in> set (conds ?db1)" "cr_id row = i"
    "cond_row_holds E (cobs ?db1) row c" using read_condition [OF codec ok1] by blast
  with keep terminal have row2: "row \<in> set (conds ?db2)" by blast
  then obtain d where d: "cond_row_holds E (cobs ?db2) row d" using keep by (auto simp: registry_ok_def)
  have "d = c" using cond_row_checked [OF codec d] cond_row_checked [OF codec row(3)] by simp
  with d row2 row(2) read_condition [OF codec, of ?db2] keep show ?thesis by blast
qed

text \<open>
  C30. A condition's sequence counts its observations: in a registry built from nothing by any calls,
  a condition that is read has exactly as many stored observations as its sequence number says, its
  version is one more, and its last observation is present exactly when there is one, carries that
  sequence number and state.
\<close>

theorem sequence_counts_observations:
  assumes codec: "codec_ok (env_cond E)" and start: "conds db = []" "cobs db = []"
    and read: "external_condition E i (condition_calls E calls db) = Inr (Some c)"
  shows "length (filter (\<lambda>x. or_condition_id x = i) (cobs (condition_calls E calls db))) = unat (ec_sequence c) \<and>
    unat (ec_version c) = unat (ec_sequence c) + 1 \<and>
    (case ec_last_observation c of
       None \<Rightarrow> ec_sequence c = 0
     | Some ob \<Rightarrow> co_sequence ob = ec_sequence c \<and> co_state ob = ec_state c \<and> co_condition_id ob = i)"
proof -
  let ?db = "condition_calls E calls db"
  have ok: "registry_ok E ?db" using calls_keep_registry [OF codec empty_registry [OF start]] by blast
  from read obtain row where row: "row \<in> set (conds ?db)" "cr_id row = i"
    "cond_row_holds E (cobs ?db) row c" using read_condition [OF codec ok] by blast
  then have valid: "validate_condition (env_libs E) c = Inr ()" and ident: "ec_condition_id c = i"
    using cond_row_columns [OF row(3)] by (simp_all add: cond_row_holds_def)
  with row condition_observation_bound [OF valid] show ?thesis
    by (auto simp: cond_row_holds_def split: option.splits)
qed

section \<open>A concrete run\<close>

text \<open>One condition, registered and then observed as satisfied; every digest is the same constant.\<close>

definition sample_obs :: "string ConditionObservation" where
  "sample_obs = \<lparr>co_schema = ''harness.condition-observation.v1'', co_observation_id = ''obs_1'',
     co_condition_id = ''cond_1'', co_source_event_id = ''event_1'', co_sequence = 1,
     co_observed_at_ms = 20, co_state = Satisfied, co_payload = ''{}'', co_sha256 = the_sha\<rparr>"

definition sample_cond :: "string ExternalCondition" where
  "sample_cond = \<lparr>ec_schema = ''harness.external-condition.v1'', ec_condition_id = ''cond_1'',
     ec_owner_type = OwnerTask, ec_owner_id = ''task_1'', ec_adapter = CiCheck, ec_source_id = ''check_1'',
     ec_spec = ''{}'', ec_state = CondOpen, ec_sequence = 0,
     ec_poll_policy = \<lparr>pp_initial_ms = 1, pp_maximum_ms = 2, pp_deadline_ms = None\<rparr>,
     ec_source_identity_digest = the_sha, ec_last_observation = None, ec_version = 1,
     ec_opened_at_ms = 10, ec_updated_at_ms = 10, ec_sha256 = the_sha\<rparr>"

definition sample_done :: "string ExternalCondition" where
  "sample_done = sample_cond\<lparr>ec_sequence := 1, ec_state := Satisfied,
     ec_last_observation := Some sample_obs, ec_version := 2, ec_updated_at_ms := 20\<rparr>"

definition sample_obs_link :: CorrelationLink where
  "sample_obs_link = \<lparr>cl_schema = ''harness.correlation-link.v1'',
     cl_link_id = ''correlation-'' @ take 48 the_sha,
     cl_trace = \<lparr>tc_trace_id = take 32 the_sha, tc_span_id = take 16 the_sha, tc_parent_span_id = None\<rparr>,
     cl_from_kind = ''external_condition'', cl_from_id = ''cond_1'',
     cl_to_kind = ''condition_observation'', cl_to_id = ''obs_1'',
     cl_relation = ''observed_as'', cl_created_at_ms = 20\<rparr>"

definition sample_env :: "string condition_env" where
  "sample_env = \<lparr>env_value_to_vec = Some, env_spec_from_value = (\<lambda>_. None), env_is_object = (\<lambda>_. True),
     env_cond = list_codec [(sample_cond, ''a''), (sample_cond\<lparr>ec_sha256 := []\<rparr>, ''b''),
       (sample_done, ''c''), (sample_done\<lparr>ec_sha256 := []\<rparr>, ''d'')],
     env_obs = list_codec [(sample_obs, ''a''), (sample_obs\<lparr>co_sha256 := []\<rparr>, ''b'')],
     env_link = list_codec [(sample_obs_link, ''a'')], env_sha = (\<lambda>_. the_sha)\<rparr>"

definition sample_db :: "string condition_db" where
  "sample_db = \<lparr>conds = [], cobs = [], clinks = [], events = [], run_ids = [], task_runs = [],
     attempt_tasks = []\<rparr>"

lemma sample_enc [simp]:
  "enc (env_cond sample_env) sample_cond = Some ''a''"
  "enc (env_cond sample_env) (sample_cond\<lparr>ec_sha256 := []\<rparr>) = Some ''b''"
  "enc (env_cond sample_env) sample_done = Some ''c''"
  "enc (env_cond sample_env) (sample_done\<lparr>ec_sha256 := []\<rparr>) = Some ''d''"
  "dec (env_cond sample_env) ''a'' = Some sample_cond"
  "enc (env_obs sample_env) sample_obs = Some ''a''"
  "enc (env_obs sample_env) (sample_obs\<lparr>co_sha256 := []\<rparr>) = Some ''b''"
  "enc (env_link sample_env) sample_obs_link = Some ''a''"
  "env_sha sample_env = (\<lambda>_. the_sha)" "env_value_to_vec sample_env = Some"
  by (simp_all add: sample_env_def list_codec_def sample_done_def sample_cond_def sample_obs_def)

lemma sample_obs_valid: "validate_cond_observation (env_libs sample_env) sample_obs = Inr ()"
  by (simp add: validate_cond_observation_def env_libs_def cond_observation_digest_def digest_json_def)
    (simp add: sample_obs_def safe_eval)

lemma sample_cond_fields:
  "ec_schema sample_cond = ''harness.external-condition.v1''" "ec_condition_id sample_cond = ''cond_1''"
  "ec_owner_id sample_cond = ''task_1''" "ec_adapter sample_cond = CiCheck"
  "ec_source_id sample_cond = ''check_1''" "ec_spec sample_cond = ''{}''" "ec_state sample_cond = CondOpen"
  "ec_sequence sample_cond = 0" "ec_source_identity_digest sample_cond = the_sha"
  "ec_poll_policy sample_cond = \<lparr>pp_initial_ms = 1, pp_maximum_ms = 2, pp_deadline_ms = None\<rparr>"
  "ec_last_observation sample_cond = None" "ec_version sample_cond = 1" "ec_opened_at_ms sample_cond = 10"
  "ec_updated_at_ms sample_cond = 10" "ec_sha256 sample_cond = the_sha"
  by (simp_all add: sample_cond_def)

lemma sample_done_fields:
  "ec_schema sample_done = ''harness.external-condition.v1''" "ec_condition_id sample_done = ''cond_1''"
  "ec_owner_id sample_done = ''task_1''" "ec_adapter sample_done = CiCheck"
  "ec_source_id sample_done = ''check_1''" "ec_spec sample_done = ''{}''" "ec_state sample_done = Satisfied"
  "ec_sequence sample_done = 1" "ec_source_identity_digest sample_done = the_sha"
  "ec_poll_policy sample_done = \<lparr>pp_initial_ms = 1, pp_maximum_ms = 2, pp_deadline_ms = None\<rparr>"
  "ec_last_observation sample_done = Some sample_obs" "ec_version sample_done = 2"
  "ec_opened_at_ms sample_done = 10" "ec_updated_at_ms sample_done = 20" "ec_sha256 sample_done = the_sha"
  by (simp_all add: sample_done_def sample_cond_fields)

lemma sample_obs_fields:
  "co_observation_id sample_obs = ''obs_1''" "co_condition_id sample_obs = ''cond_1''"
  "co_source_event_id sample_obs = ''event_1''" "co_sequence sample_obs = 1"
  "co_observed_at_ms sample_obs = 20" "co_state sample_obs = Satisfied"
  by (simp_all add: sample_obs_def)

lemmas sample_fields = sample_cond_fields sample_done_fields sample_obs_fields

lemma sample_cond_valid:
  "validate_condition (env_libs sample_env) sample_cond = Inr ()"
  "validate_condition (env_libs sample_env) sample_done = Inr ()"
proof -
  have libs: "cl_value_to_vec (env_libs sample_env) = Some" "cl_sha (env_libs sample_env) = (\<lambda>_. the_sha)"
    "cl_condition_to_vec (env_libs sample_env) = enc (env_cond sample_env)"
    by (simp_all add: env_libs_def)
  show "validate_condition (env_libs sample_env) sample_cond = Inr ()"
    "validate_condition (env_libs sample_env) sample_done = Inr ()"
    by (simp_all add: validate_condition_def observation_binding_def condition_digest_def digest_json_def
        libs sample_obs_valid sample_fields safe_eval validate_poll_policy_def)
qed

lemma sample_link_ok:
  "condition_observation_correlation_link (env_sha sample_env) sample_obs = Inr sample_obs_link"
  "record_correlation_link_in_transaction (env_link sample_env) (\<lambda>_. the_sha) sample_obs_link [] =
     Inr (sample_obs_link, [link_to_row sample_obs_link ''a'' the_sha])"
proof -
  have id_ok: "is_safe_operator_control_identifier (''correlation-'' @ take 48 the_sha)"
    by (simp add: safe_eval the_sha_def list_all_iff)
  show "condition_observation_correlation_link (env_sha sample_env) sample_obs = Inr sample_obs_link"
    using id_ok
    by (simp add: condition_observation_correlation_link_def sample_obs_link_def sample_obs_fields Let_def
        parse_id_def validated_def validate_identifier_def)
  have "validate_link sample_obs_link = Inr ()"
    using id_ok by (simp add: validate_link_def validate_trace_def sample_obs_link_def safe_eval)
  moreover have "link_from sample_obs_link \<noteq> link_to sample_obs_link"
    and "safe_enum_name (cl_relation sample_obs_link) = Inr (cl_relation sample_obs_link)"
    by (simp_all add: link_from_def link_to_def node_key_def sample_obs_link_def safe_enum_name_def ascii_defs)
  ultimately show "record_correlation_link_in_transaction (env_link sample_env) (\<lambda>_. the_sha) sample_obs_link [] =
     Inr (sample_obs_link, [link_to_row sample_obs_link ''a'' the_sha])"
    by (intro first_link_recorded) simp_all
qed

definition sample_calls :: "string registry_call list" where
  "sample_calls = [Register sample_cond, Observe 0 ''cond_1'' 1 sample_obs]"

lemma sample_registered:
  "register_external_condition sample_env sample_cond sample_db =
     Inr (sample_cond, sample_db\<lparr>conds := [cond_to_row sample_cond ''a'' the_sha]\<rparr>)"
  by (simp add: register_external_condition_def register_with_def validated_def sample_cond_valid
      new_condition_def sample_fields to_json_def sample_db_def lookup_row_def insert_condition_row_def
      to_i64_def check_payload_sha_def)

lemma sample_advance: "advance_condition sample_env sample_cond sample_obs = Inr sample_done"
proof -
  have "checked_add (0::u64) 1 = Some 1" "checked_add (1::u64) 1 = Some 2"
    by (simp_all add: checked_add_def)
  moreover have "sample_cond\<lparr>ec_sequence := 1, ec_state := Satisfied, ec_last_observation := Some sample_obs,
      ec_version := 2, ec_updated_at_ms := 20\<rparr> = sample_done"
    by (simp add: sample_done_def)
  moreover have same: "sample_done\<lparr>ec_sha256 := the_sha\<rparr> = sample_done"
    by (simp add: sample_done_def sample_cond_def)
  ultimately show ?thesis
    by (simp add: same advance_condition_def sample_fields Let_def condition_digest_def digest_json_def
        validated_def sample_cond_valid)
qed

lemma sample_observed:
  "\<exists>db. condition_calls sample_env sample_calls sample_db = db \<and>
     conds db = [cond_to_row sample_done ''c'' the_sha] \<and> length (cobs db) = 1"
proof -
  let ?db = "sample_db\<lparr>conds := [cond_to_row sample_cond ''a'' the_sha]\<rparr>"
  have "append_observation sample_env 0 ''cond_1'' 1 sample_obs ''a'' None sample_obs_link ?db =
      Inr (sample_done, ?db\<lparr>conds := [cond_to_row sample_done ''c'' the_sha],
        cobs := [\<lparr>or_id = ''obs_1'', or_condition_id = ''cond_1'', or_source_event_id = ''event_1'',
          or_observed_at = 20, or_raw = ''a'', or_sha = the_sha\<rparr>],
        clinks := [link_to_row sample_obs_link ''a'' the_sha]\<rparr>)"
    by (simp add: append_observation_def lookup_row_def cond_to_row_def sample_fields validated_def
        sample_cond_valid to_i64_def condition_is_terminal_def sample_advance to_json_def
        update_condition_row_def check_payload_sha_def insert_observation_row_def insert_material_event_def
        sample_db_def sample_link_ok)
  moreover have "cobs ?db = []" by (simp add: sample_db_def)
  ultimately show ?thesis
    by (simp add: sample_calls_def sample_registered record_external_condition_observation_def
        record_external_condition_observation_inner_def validated_def sample_obs_valid sample_fields
        sample_link_ok(1) [simplified] to_json_def to_i64_def lookup_row_def)
qed

lemma sample_read:
  "external_condition sample_env ''cond_1'' (condition_calls sample_env sample_calls sample_db) =
     Inr (Some sample_done)"
proof -
  have "checked_condition_row sample_env (cond_to_row sample_done ''c'' the_sha) = Inr sample_done"
    using sample_cond_valid
    by (simp add: checked_condition_row_def checked_row_def cond_to_row_def sample_env_def list_codec_def)
  then show ?thesis using sample_observed
    by (auto simp: external_condition_def lookup_row_def cond_to_row_def sample_fields)
qed

lemma sample_codec: "codec_ok (env_cond sample_env)"
  unfolding sample_env_def by (simp add: list_codec_ok)

theorem terminal_condition_is_final_witness:
  "external_condition sample_env ''cond_1''
     (condition_calls sample_env [Observe 1 ''cond_1'' 2 sample_obs, Register sample_cond]
       (condition_calls sample_env sample_calls sample_db)) = Inr (Some sample_done)"
  by (rule terminal_condition_is_final [OF sample_codec _ _ sample_read])
    (simp_all add: sample_db_def condition_is_terminal_def sample_fields)

theorem sequence_counts_observations_witness:
  "length (filter (\<lambda>x. or_condition_id x = ''cond_1'')
     (cobs (condition_calls sample_env sample_calls sample_db))) = 1 \<and>
   co_state sample_obs = Satisfied"
  using sequence_counts_observations [OF sample_codec _ _ sample_read]
  by (simp add: sample_db_def sample_fields)

end
