(* ===== verification/Liveness_Store.thy ===== *)
theory Liveness_Store
  imports Liveness_Contract Correlation_Store
begin

text \<open>
  The liveness repository (\<^verbatim>\<open>harness-store/src/operator_control/liveness.rs\<close>): episodes of an attempt,
  the reduction of an episode by observations, intervention receipts and the two interventions the
  controller executes itself, waiting and pausing the scheduler of a run.

  The theorems are about any sequence of calls: the version of an episode counts the observations
  and receipts stored for it, an attempt has at most one episode, only material progress brings an
  episode back to an active state, and a run is paused only for a stalled episode bound to it.
\<close>

section \<open>Tables\<close>

record ep_row =
  er_id :: string
  er_run_id :: "string option"
  er_task_id :: "string option"
  er_attempt_id :: "string option"
  er_state :: LivenessState
  er_version :: i64
  er_opened_at :: i64
  er_updated_at :: i64
  er_raw :: string
  er_sha :: string

record lobs_row =
  xo_id :: string
  xo_episode_id :: string
  xo_kind :: LivenessObservationKind
  xo_source_event_id :: string
  xo_observed_at :: i64
  xo_raw :: string
  xo_sha :: string

record iv_row =
  ir_id :: string
  ir_episode_id :: string
  ir_kind :: InterventionKind
  ir_source_event_id :: string
  ir_created_at :: i64
  ir_raw :: string
  ir_sha :: string

text \<open>The columns of \<open>runs\<close> the repository reads and writes.\<close>

record run_row =
  rn_id :: string
  rn_scheduler_paused :: bool
  rn_updated_at :: i64
  rn_version :: i64

text \<open>
  A row of \<open>human_actions\<close>; the keys of its JSON payload are kept as columns.
\<close>

record human_action =
  ha_run_id :: string
  ha_actor :: string
  ha_target_id :: string
  ha_occurred_at :: i64
  ha_episode_sha256 :: string
  ha_target_version :: u64
  ha_intervention_id :: string
  ha_intervention_sha256 :: string
  ha_scheduler_was_paused :: bool

record liveness_db =
  episodes :: "ep_row list"
  lobs :: "lobs_row list"
  receipts :: "iv_row list"
  llinks :: "link_row list"
  runs :: "run_row list"
  human_actions :: "human_action list"

record 'v liveness_env =
  len_json :: "'v json_ops"
  len_episode :: "LivenessEpisode codec"
  len_obs :: "'v LivenessObservation codec"
  len_receipt :: "InterventionReceipt codec"
  len_link :: "CorrelationLink codec"
  len_sha :: "string \<Rightarrow> string"

definition MAX_LIVENESS_PAGE_SIZE :: u32 where "MAX_LIVENESS_PAGE_SIZE = 200"
definition OBSERVE_REVIEW_DELAY_MS :: i64 where "OBSERVE_REVIEW_DELAY_MS = 5 * 60 * 1000"
definition WAIT_INTERVENTION_POLICY_VERSION :: string where
  "WAIT_INTERVENTION_POLICY_VERSION = ''operator_control_wait_v1''"
definition PAUSE_FOR_OPERATOR_INTERVENTION_POLICY_VERSION :: string where
  "PAUSE_FOR_OPERATOR_INTERVENTION_POLICY_VERSION = ''operator_control_pause_for_operator_v1''"

section \<open>Helpers\<close>

definition episode_valid :: "'v liveness_env \<Rightarrow> LivenessEpisode \<Rightarrow> check" where
  "episode_valid E = validate_episode (enc (len_episode E)) (len_sha E)"

definition observation_valid :: "'v liveness_env \<Rightarrow> 'v LivenessObservation \<Rightarrow> check" where
  "observation_valid E = validate_observation (len_json E) (enc (len_obs E)) (len_sha E)"

definition receipt_valid :: "'v liveness_env \<Rightarrow> InterventionReceipt \<Rightarrow> check" where
  "receipt_valid E = validate_intervention (enc (len_receipt E)) (len_sha E)"

definition checked_episode_row :: "'v liveness_env \<Rightarrow> ep_row \<Rightarrow> LivenessEpisode stored" where
  "checked_episode_row E r = checked_row (len_episode E) (len_sha E) (episode_valid E) (er_raw r) (er_sha r)"

definition checked_observation_row :: "'v liveness_env \<Rightarrow> lobs_row \<Rightarrow> 'v LivenessObservation stored" where
  "checked_observation_row E r = checked_row (len_obs E) (len_sha E) (observation_valid E) (xo_raw r) (xo_sha r)"

definition checked_intervention_receipt :: "'v liveness_env \<Rightarrow> iv_row \<Rightarrow> InterventionReceipt stored" where
  "checked_intervention_receipt E r = checked_row (len_receipt E) (len_sha E) (receipt_valid E) (ir_raw r) (ir_sha r)"

definition derived_link ::
  "(string \<Rightarrow> string) \<Rightarrow> string \<Rightarrow> string \<Rightarrow> string \<Rightarrow> string \<Rightarrow> string \<Rightarrow> string \<Rightarrow> string \<Rightarrow> i64 \<Rightarrow> CorrelationLink stored" where
  "derived_link sha trace span link episode_id to_kind to_id relation created =
     and_then (validated (parse_id ''CorrelationLinkId'' (''correlation-'' @ take 48 (sha link))))
       (\<lambda>link_id. Inr \<lparr>cl_schema = ''harness.correlation-link.v1'', cl_link_id = link_id,
          cl_trace = \<lparr>tc_trace_id = take 32 (sha trace), tc_span_id = take 16 (sha span), tc_parent_span_id = None\<rparr>,
          cl_from_kind = ''liveness_episode'', cl_from_id = episode_id,
          cl_to_kind = to_kind, cl_to_id = to_id, cl_relation = relation, cl_created_at_ms = created\<rparr>)"

definition liveness_observation_correlation_link ::
  "(string \<Rightarrow> string) \<Rightarrow> 'v LivenessObservation \<Rightarrow> CorrelationLink stored" where
  "liveness_observation_correlation_link sha ob =
     derived_link sha (''harness.liveness-observation.trace.v1:'' @ lo_episode_id ob)
       (''harness.liveness-observation.span.v1:'' @ lo_observation_id ob)
       (''harness.liveness-observation.link.v1:'' @ lo_observation_id ob)
       (lo_episode_id ob) ''liveness_observation'' (lo_observation_id ob) ''has_observation'' (lo_observed_at_ms ob)"

definition intervention_correlation_link ::
  "(string \<Rightarrow> string) \<Rightarrow> InterventionReceipt \<Rightarrow> CorrelationLink stored" where
  "intervention_correlation_link sha r =
     derived_link sha (''harness.intervention.trace.v1:'' @ iv_intervention_id r)
       (''harness.intervention.span.v1:'' @ iv_intervention_id r)
       (''harness.intervention.link.v1:'' @ iv_intervention_id r)
       (iv_episode_id r) ''intervention_receipt'' (iv_intervention_id r) ''has_intervention'' (iv_created_at_ms r)"

definition ep_to_row :: "LivenessEpisode \<Rightarrow> string \<Rightarrow> string \<Rightarrow> ep_row" where
  "ep_to_row e raw d = \<lparr>er_id = le_episode_id e, er_run_id = le_run_id e, er_task_id = le_task_id e,
     er_attempt_id = le_attempt_id e, er_state = le_state e, er_version = int (unat (le_version e)),
     er_opened_at = le_opened_at_ms e, er_updated_at = le_updated_at_ms e, er_raw = raw, er_sha = d\<rparr>"

section \<open>The reducer\<close>

definition value_flag :: "'v json_ops \<Rightarrow> 'v \<Rightarrow> string \<Rightarrow> bool" where
  "value_flag js v k = (case Option.bind (get_key js v k) (as_bool js) of None \<Rightarrow> False | Some b \<Rightarrow> b)"

definition reduce_episode :: "'v json_ops \<Rightarrow> LivenessEpisode \<Rightarrow> 'v LivenessObservation \<Rightarrow> LivenessEpisode" where
  "reduce_episode js e ob =
    (let v = lo_value ob;
         active_external_wait = value_flag js v ''active_external_wait'';
         ownership_uncertain =
           is_some_and (\<lambda>s. s = ''uncertain'') (Option.bind (get_key js v ''ownership'') (as_str js));
         no_progress_boundary = value_flag js v ''no_material_progress_boundary'';
         repeated_failures =
           (case Option.bind (get_key js v ''repeated_semantic_failures'') (as_u64 js) of None \<Rightarrow> 0 | Some n \<Rightarrow> n);
         fresh_inspection = value_flag js v ''fresh_inspection'';
         kind = lo_observation_kind ob;
         review = Some (wrap_i64 (lo_observed_at_ms ob + OBSERVE_REVIEW_DELAY_MS));
         e = (if kind = MaterialProgress
              then e\<lparr>le_last_material_progress_at_ms := Some (lo_observed_at_ms ob)\<rparr> else e);
         (state, reasons, next_review) =
           (if kind = MaterialProgress then (Healthy, [''material_progress''], None)
            else if kind = OwnershipEvidence \<and> ownership_uncertain
            then (OwnershipUncertain, [''ownership_uncertain''], review)
            else if kind = ExternalWait \<and> active_external_wait
            then (WaitingExternal, [''active_external_wait''], review)
            else if no_progress_boundary \<and> \<not> active_external_wait \<and> \<not> ownership_uncertain
            then (if repeated_failures \<ge> 2 \<and> fresh_inspection
                  then (ConfirmedStall,
                    [''no_material_progress'', ''repeated_semantic_failure'', ''fresh_inspection''], review)
                  else (SuspectedStall, [''no_material_progress_boundary''], review))
            else if (kind = RuntimeHeartbeat \<or> kind = CommandActivity) \<and>
                    (le_state e = Healthy \<or> le_state e = QuietActive)
            then (QuietActive, [''activity_without_material_progress''], review)
            else (le_state e, le_state_reason_codes e, le_next_review_at_ms e))
     in e\<lparr>le_state := state, le_state_reason_codes := reasons, le_next_review_at_ms := next_review\<rparr>)"

section \<open>Opening an episode\<close>

text \<open>\<open>ORDER BY updated_at DESC, id DESC\<close>.\<close>

definition newest_first :: "ep_row list \<Rightarrow> ep_row list" where
  "newest_first rows = rev (sort_key er_updated_at (sort_key er_id rows))"

definition open_liveness_episode ::
  "'v liveness_env \<Rightarrow> LivenessEpisode \<Rightarrow> liveness_db \<Rightarrow> (LivenessEpisode \<times> liveness_db) stored" where
  "open_liveness_episode E e db =
     and_then (validated (episode_valid E e))
    (\<lambda>_. if le_run_id e = None \<or> le_task_id e = None \<or> le_attempt_id e = None
       then Inl (Validation ''a liveness episode requires exact run, task, and attempt identity'')
       else if le_version e \<noteq> 1 \<or> le_state e = Terminal
       then Inl (Validation ''a new liveness episode must start at version one in a nonterminal state'')
       else and_then (to_json (len_episode E) e)
    (\<lambda>raw. case lookup_row (\<lambda>r. er_id r = le_episode_id e) (episodes db) of
       Some row \<Rightarrow> and_then (checked_episode_row E row)
         (\<lambda>existing. if existing = e then Inr (existing, db)
            else Inl (Conflict (''liveness episode '' @ le_episode_id e @ '' already has different content'')))
     | None \<Rightarrow>
        (case newest_first (filter (\<lambda>r. er_attempt_id r = le_attempt_id e \<and> er_state r \<noteq> Terminal) (episodes db)) of
           row # _ \<Rightarrow> and_then (checked_episode_row E row)
             (\<lambda>existing. Inl (Conflict (''attempt already has active liveness episode '' @ le_episode_id existing)))
         | [] \<Rightarrow> and_then (to_i64 (le_version e) ''liveness episode version'')
             (\<lambda>_. and_then (check_payload_sha (len_sha E raw))
             (\<lambda>_. Inr (e, db\<lparr>episodes := episodes db @ [ep_to_row e raw (len_sha E raw)]\<rparr>))))))"

section \<open>Recording observations\<close>

text \<open>
  \<open>UPDATE liveness_episodes .. WHERE id=.. AND version=..\<close>, which must change exactly one row. Only
  observations write the state column.
\<close>

definition update_episode_row ::
  "'v liveness_env \<Rightarrow> bool \<Rightarrow> string \<Rightarrow> string \<Rightarrow> LivenessEpisode \<Rightarrow> string \<Rightarrow> i64 \<Rightarrow> ep_row list \<Rightarrow>
     ep_row list stored" where
  "update_episode_row E with_state message episode_id e raw expected rows =
     and_then (to_i64 (le_version e) ''liveness episode version'')
    (\<lambda>v. and_then (check_payload_sha (len_sha E raw))
    (\<lambda>_. if length (filter (\<lambda>r. er_id r = episode_id \<and> er_version r = expected) rows) \<noteq> 1
         then Inl (Conflict message)
         else Inr (map (\<lambda>r. if er_id r = episode_id \<and> er_version r = expected
            then r\<lparr>er_state := (if with_state then le_state e else er_state r), er_version := v,
                   er_updated_at := le_updated_at_ms e, er_raw := raw, er_sha := len_sha E raw\<rparr>
            else r) rows)))"

definition insert_lobs_row ::
  "'v liveness_env \<Rightarrow> 'v LivenessObservation \<Rightarrow> string \<Rightarrow> lobs_row list \<Rightarrow> lobs_row list stored" where
  "insert_lobs_row E ob raw rows =
     and_then (check_payload_sha (len_sha E raw))
    (\<lambda>_. if \<exists>r \<in> set rows. xo_id r = lo_observation_id ob \<or>
            (xo_episode_id r = lo_episode_id ob \<and> xo_kind r = lo_observation_kind ob \<and>
             xo_source_event_id r = lo_source_event_id ob)
         then Inl (Sqlite ''UNIQUE constraint failed'')
         else Inr (rows @ [\<lparr>xo_id = lo_observation_id ob, xo_episode_id = lo_episode_id ob,
            xo_kind = lo_observation_kind ob, xo_source_event_id = lo_source_event_id ob,
            xo_observed_at = lo_observed_at_ms ob, xo_raw = raw, xo_sha = len_sha E raw\<rparr>]))"

text \<open>The episode after an observation: reduced, with the next version, sealed and validated.\<close>

definition seal_episode :: "'v liveness_env \<Rightarrow> LivenessEpisode \<Rightarrow> LivenessEpisode stored" where
  "seal_episode E e =
     and_then (validated (episode_digest (enc (len_episode E)) (len_sha E) e))
    (\<lambda>d. let sealed = e\<lparr>le_sha256 := d\<rparr>
         in and_then (validated (episode_valid E sealed)) (\<lambda>_. Inr sealed))"

definition observe_episode ::
  "'v liveness_env \<Rightarrow> LivenessEpisode \<Rightarrow> 'v LivenessObservation \<Rightarrow> LivenessEpisode stored" where
  "observe_episode E e ob =
    (let e = reduce_episode (len_json E) e ob in
     and_then (ok_or (Validation ''liveness episode version overflow'') (checked_add (le_version e) 1))
    (\<lambda>v. seal_episode E
       (e\<lparr>le_version := v, le_updated_at_ms := max (lo_observed_at_ms ob) (le_updated_at_ms e)\<rparr>)))"

definition record_liveness_observation ::
  "'v liveness_env \<Rightarrow> string \<Rightarrow> u64 \<Rightarrow> 'v LivenessObservation \<Rightarrow> liveness_db \<Rightarrow>
     (LivenessEpisode \<times> liveness_db) stored" where
  "record_liveness_observation E episode_id expected_version ob db =
     and_then (validated (observation_valid E ob))
    (\<lambda>_. if lo_episode_id ob \<noteq> episode_id
       then Inl (Validation ''liveness observation must bind the requested episode'')
       else and_then (to_json (len_obs E) ob)
    (\<lambda>ob_raw. and_then (liveness_observation_correlation_link (len_sha E) ob)
    (\<lambda>link. and_then (to_i64 expected_version ''liveness expected version'')
    (\<lambda>expected. case lookup_row (\<lambda>r. xo_episode_id r = episode_id \<and> xo_kind r = lo_observation_kind ob \<and>
          xo_source_event_id r = lo_source_event_id ob) (lobs db) of
       Some row \<Rightarrow> and_then (checked_observation_row E row)
        (\<lambda>existing. if existing \<noteq> ob
           then Inl (Conflict ''liveness observation source event already has different content'')
           else and_then (ok_or (Sqlite ''Query returned no rows'')
              (lookup_row (\<lambda>r. er_id r = episode_id) (episodes db)))
        (\<lambda>erow. and_then (checked_episode_row E erow)
        (\<lambda>e. and_then (record_correlation_link_in_transaction (len_link E) (len_sha E) link (llinks db))
        (\<lambda>(_, links'). Inr (e, db\<lparr>llinks := links'\<rparr>)))))
     | None \<Rightarrow> and_then (ok_or (NotFound (''liveness episode '' @ episode_id))
          (lookup_row (\<lambda>r. er_id r = episode_id) (episodes db)))
        (\<lambda>erow. and_then (checked_episode_row E erow)
        (\<lambda>e. and_then (to_i64 (le_version e) ''liveness episode version'')
        (\<lambda>current. if current \<noteq> expected
           then Inl (Conflict (''liveness episode '' @ episode_id @ '' has another version''))
           else if le_state e = Terminal
           then Inl (Conflict ''a terminal liveness episode cannot accept another observation'')
           else if lo_observed_at_ms ob < le_opened_at_ms e
           then Inl (Validation ''liveness observation predates the episode'')
           else and_then (observe_episode E e ob)
        (\<lambda>e'. and_then (to_json (len_episode E) e')
        (\<lambda>raw'. and_then (update_episode_row E True
             (''liveness episode '' @ episode_id @ '' changed during observation reduction'') episode_id e' raw' expected (episodes db))
        (\<lambda>episodes'. and_then (insert_lobs_row E ob ob_raw (lobs db))
        (\<lambda>lobs'. and_then (record_correlation_link_in_transaction (len_link E) (len_sha E) link (llinks db))
        (\<lambda>(_, links'). Inr (e', db\<lparr>episodes := episodes', lobs := lobs', llinks := links'\<rparr>)
        ))))))))))))"

section \<open>Interventions\<close>

definition insert_receipt_row ::
  "'v liveness_env \<Rightarrow> InterventionReceipt \<Rightarrow> string \<Rightarrow> iv_row list \<Rightarrow> iv_row list stored" where
  "insert_receipt_row E r raw rows =
     and_then (check_payload_sha (len_sha E raw))
    (\<lambda>_. if \<exists>q \<in> set rows. ir_id q = iv_intervention_id r \<or>
            (ir_episode_id q = iv_episode_id r \<and> ir_kind q = iv_kind r \<and>
             ir_source_event_id q = iv_source_event_id r)
         then Inl (Sqlite ''UNIQUE constraint failed'')
         else Inr (rows @ [\<lparr>ir_id = iv_intervention_id r, ir_episode_id = iv_episode_id r,
            ir_kind = iv_kind r, ir_source_event_id = iv_source_event_id r,
            ir_created_at = iv_created_at_ms r, ir_raw = raw, ir_sha = len_sha E raw\<rparr>]))"

text \<open>A receipt that is stored already, found by its id or by its source event.\<close>

definition replay_receipt ::
  "'v liveness_env \<Rightarrow> InterventionReceipt \<Rightarrow> CorrelationLink \<Rightarrow> string \<Rightarrow> iv_row \<Rightarrow> liveness_db \<Rightarrow>
     (LivenessEpisode \<times> liveness_db) stored" where
  "replay_receipt E r link message row db =
     and_then (checked_intervention_receipt E row)
    (\<lambda>existing. if existing \<noteq> r then Inl (Conflict message)
       else and_then (ok_or (NotFound (''liveness episode '' @ iv_episode_id r))
          (lookup_row (\<lambda>q. er_id q = iv_episode_id r) (episodes db)))
    (\<lambda>erow. and_then (checked_episode_row E erow)
    (\<lambda>e. and_then (record_correlation_link_in_transaction (len_link E) (len_sha E) link (llinks db))
    (\<lambda>(_, links'). Inr (e, db\<lparr>llinks := links'\<rparr>)))))"

text \<open>The episode after a receipt; a review that is due becomes immediately eligible.\<close>

definition intervene_episode ::
  "'v liveness_env \<Rightarrow> LivenessEpisode \<Rightarrow> InterventionReceipt \<Rightarrow> LivenessEpisode stored" where
  "intervene_episode E e r =
     and_then (ok_or (Validation ''liveness intervention count overflow'') (checked_add (le_intervention_count e) 1))
    (\<lambda>count. and_then (ok_or (Validation ''liveness episode version overflow'') (checked_add (le_version e) 1))
    (\<lambda>v. let updated = max (le_updated_at_ms e) (iv_created_at_ms r)
         in seal_episode E
           (e\<lparr>le_intervention_count := count, le_version := v, le_updated_at_ms := updated,
              le_next_review_at_ms :=
                (if is_some_and (\<lambda>t. t < updated) (le_next_review_at_ms e) then Some updated
                 else le_next_review_at_ms e)\<rparr>)))"

definition record_intervention_receipt ::
  "'v liveness_env \<Rightarrow> InterventionReceipt \<Rightarrow> liveness_db \<Rightarrow> (LivenessEpisode \<times> liveness_db) stored" where
  "record_intervention_receipt E r db =
     and_then (validated (receipt_valid E r))
    (\<lambda>_. and_then (intervention_correlation_link (len_sha E) r)
    (\<lambda>link. and_then (to_json (len_receipt E) r)
    (\<lambda>r_raw. case lookup_row (\<lambda>q. ir_id q = iv_intervention_id r) (receipts db) of
       Some row \<Rightarrow> replay_receipt E r link ''intervention receipt id already has different content'' row db
     | None \<Rightarrow>
    (case lookup_row (\<lambda>q. ir_episode_id q = iv_episode_id r \<and> ir_kind q = iv_kind r \<and>
          ir_source_event_id q = iv_source_event_id r) (receipts db) of
       Some row \<Rightarrow> replay_receipt E r link ''intervention source event already has different content'' row db
     | None \<Rightarrow> and_then (ok_or (NotFound (''liveness episode '' @ iv_episode_id r))
          (lookup_row (\<lambda>q. er_id q = iv_episode_id r) (episodes db)))
        (\<lambda>erow. and_then (checked_episode_row E erow)
        (\<lambda>e. if le_version e \<noteq> iv_target_version r
           then Inl (Conflict (''liveness episode '' @ iv_episode_id r @ '' has another version''))
           else if le_state e = Terminal
           then Inl (Conflict ''a terminal liveness episode cannot accept an intervention receipt'')
           else if iv_created_at_ms r < le_opened_at_ms e
           then Inl (Validation ''intervention receipt predates the liveness episode'')
           else and_then (intervene_episode E e r)
        (\<lambda>e'. and_then (to_json (len_episode E) e')
        (\<lambda>raw'. and_then (to_i64 (le_version e') ''liveness episode version'')
        (\<lambda>_. and_then (to_i64 (iv_target_version r) ''intervention target version'')
        (\<lambda>expected. and_then (update_episode_row E False
             (''liveness episode '' @ iv_episode_id r @ '' changed during intervention recording'')
             (iv_episode_id r) e' raw' expected (episodes db))
        (\<lambda>episodes'. and_then (insert_receipt_row E r r_raw (receipts db))
        (\<lambda>receipts'. and_then (record_correlation_link_in_transaction (len_link E) (len_sha E) link (llinks db))
        (\<lambda>(_, links'). Inr (e', db\<lparr>episodes := episodes', receipts := receipts', llinks := links'\<rparr>)
        )))))))))))))"

text \<open>The receipt an execution creates, sealed.\<close>

definition execution_receipt ::
  "'v liveness_env \<Rightarrow> string \<Rightarrow> string \<Rightarrow> InterventionKind \<Rightarrow> string \<Rightarrow> u64 \<Rightarrow> string \<Rightarrow> string \<Rightarrow> i64 \<Rightarrow>
     InterventionReceipt stored" where
  "execution_receipt E intervention_id episode_id kind source_event_id version policy requested_by created =
     and_then (validated (parse_id ''InterventionId'' intervention_id))
    (\<lambda>i. let r = \<lparr>iv_schema = ''harness.intervention-receipt.v1'', iv_intervention_id = i,
            iv_episode_id = episode_id, iv_kind = kind, iv_source_event_id = source_event_id,
            iv_target_version = version, iv_policy_version = policy, iv_requested_by = requested_by,
            iv_created_at_ms = created, iv_sha256 = []\<rparr>
         in and_then (validated (intervention_digest (enc (len_receipt E)) (len_sha E) r))
           (\<lambda>d. Inr (r\<lparr>iv_sha256 := d\<rparr>)))"

definition same_execution ::
  "InterventionReceipt \<Rightarrow> string \<Rightarrow> InterventionKind \<Rightarrow> string \<Rightarrow> u64 \<Rightarrow> string \<Rightarrow> string \<Rightarrow> bool" where
  "same_execution r episode_id kind source_event_id version policy requested_by \<longleftrightarrow>
     \<not> (iv_episode_id r \<noteq> episode_id \<or> iv_kind r \<noteq> kind \<or> iv_source_event_id r \<noteq> source_event_id \<or>
        iv_target_version r \<noteq> version \<or> iv_policy_version r \<noteq> policy \<or> iv_requested_by r \<noteq> requested_by)"

definition liveness_episode ::
  "'v liveness_env \<Rightarrow> string \<Rightarrow> liveness_db \<Rightarrow> LivenessEpisode option stored" where
  "liveness_episode E episode_id db =
    (case lookup_row (\<lambda>r. er_id r = episode_id) (episodes db) of
       None \<Rightarrow> Inr None
     | Some row \<Rightarrow> and_then (checked_episode_row E row) (\<lambda>e. Inr (Some e)))"

text \<open>\<open>format!("{tag}\0{episode_id}\0{expected_version}\0{requested_by}")\<close>.\<close>

definition execution_key :: "string \<Rightarrow> string \<Rightarrow> u64 \<Rightarrow> string \<Rightarrow> string" where
  "execution_key tag episode_id version requested_by =
     tag @ [CHR 0x00] @ episode_id @ [CHR 0x00] @ digits (unat version) @ [CHR 0x00] @ requested_by"

definition execute_wait_intervention ::
  "'v liveness_env \<Rightarrow> i64 \<Rightarrow> string \<Rightarrow> u64 \<Rightarrow> string \<Rightarrow> liveness_db \<Rightarrow> (LivenessEpisode \<times> liveness_db) stored" where
  "execute_wait_intervention E now episode_id expected_version requested_by db =
    (let identity = len_sha E (execution_key ''harness.liveness-wait.v1'' episode_id expected_version requested_by);
         intervention_id = ''intervention-wait-'' @ take 32 identity;
         source_event_id = ''liveness-wait-'' @ take 32 identity
     in case lookup_row (\<lambda>q. ir_id q = intervention_id) (receipts db) of
       Some row \<Rightarrow> and_then (checked_intervention_receipt E row)
        (\<lambda>r. if \<not> same_execution r episode_id Wait source_event_id expected_version
               WAIT_INTERVENTION_POLICY_VERSION requested_by
           then Inl (Conflict ''wait intervention identity already has different content'')
           else record_intervention_receipt E r db)
     | None \<Rightarrow> and_then (liveness_episode E episode_id db)
        (\<lambda>found. and_then (ok_or (NotFound (''liveness episode '' @ episode_id)) found)
        (\<lambda>e. if le_version e \<noteq> expected_version
           then Inl (Conflict (''liveness episode '' @ episode_id @ '' has another version, wait requires the expected one''))
           else and_then (execution_receipt E intervention_id episode_id Wait source_event_id expected_version
                 WAIT_INTERVENTION_POLICY_VERSION requested_by (max now (le_updated_at_ms e)))
        (\<lambda>r. record_intervention_receipt E r db))))"

text \<open>
  \<open>UPDATE runs SET scheduler_paused=1,.. WHERE id=.. AND scheduler_paused=0\<close>, skipped when the run is
  paused already.
\<close>

definition pause_run :: "string \<Rightarrow> bool \<Rightarrow> i64 \<Rightarrow> run_row list \<Rightarrow> run_row list stored" where
  "pause_run run_id was_paused at rows =
    (if was_paused then Inr rows
     else if length (filter (\<lambda>r. rn_id r = run_id \<and> \<not> rn_scheduler_paused r) rows) \<noteq> 1
     then Inl (Conflict (''run '' @ run_id @ '' changed while recording a liveness pause intervention''))
     else Inr (map (\<lambda>r. if rn_id r = run_id \<and> \<not> rn_scheduler_paused r
        then r\<lparr>rn_scheduler_paused := True, rn_updated_at := at, rn_version := rn_version r + 1\<rparr> else r) rows))"

definition execute_pause_for_operator_intervention ::
  "'v liveness_env \<Rightarrow> i64 \<Rightarrow> string \<Rightarrow> u64 \<Rightarrow> string \<Rightarrow> liveness_db \<Rightarrow> (LivenessEpisode \<times> liveness_db) stored" where
  "execute_pause_for_operator_intervention E now episode_id expected_version requested_by db =
    (let identity = len_sha E
           (execution_key ''harness.liveness-pause-for-operator.v1'' episode_id expected_version requested_by);
         intervention_id = ''intervention-pause-'' @ take 32 identity;
         source_event_id = ''liveness-pause-'' @ take 32 identity
     in case lookup_row (\<lambda>q. ir_id q = intervention_id) (receipts db) of
       Some row \<Rightarrow> and_then (checked_intervention_receipt E row)
        (\<lambda>r. if \<not> same_execution r episode_id PauseForOperator source_event_id expected_version
               PAUSE_FOR_OPERATOR_INTERVENTION_POLICY_VERSION requested_by
           then Inl (Conflict ''pause-for-operator intervention identity already has different content'')
           else record_intervention_receipt E r db)
     | None \<Rightarrow> and_then (ok_or (NotFound (''liveness episode '' @ episode_id))
          (lookup_row (\<lambda>r. er_id r = episode_id) (episodes db)))
        (\<lambda>erow. and_then (checked_episode_row E erow)
        (\<lambda>e. if le_version e \<noteq> expected_version
           then Inl (Conflict (''liveness episode '' @ episode_id @ '' has another version, pause requires the expected one''))
           else if \<not> (le_state e = ConfirmedStall \<or> le_state e = RecoveryRequired)
           then Inl (Conflict ''pause-for-operator requires a confirmed-stall or recovery-required liveness episode'')
           else and_then (ok_or (Validation ''pause-for-operator requires a liveness episode with an exact run identity'')
                 (le_run_id e))
        (\<lambda>run_id. and_then (ok_or (NotFound (''run '' @ run_id))
             (map_option rn_scheduler_paused (lookup_row (\<lambda>r. rn_id r = run_id) (runs db))))
        (\<lambda>was_paused. and_then (execution_receipt E intervention_id episode_id PauseForOperator source_event_id
             expected_version PAUSE_FOR_OPERATOR_INTERVENTION_POLICY_VERSION requested_by
             (max now (le_updated_at_ms e)))
        (\<lambda>r. and_then (pause_run run_id was_paused (iv_created_at_ms r) (runs db))
        (\<lambda>runs'. record_intervention_receipt E r
           (db\<lparr>runs := runs', human_actions := human_actions db @
              [\<lparr>ha_run_id = run_id, ha_actor = requested_by, ha_target_id = episode_id,
                ha_occurred_at = iv_created_at_ms r, ha_episode_sha256 = le_sha256 e,
                ha_target_version = expected_version, ha_intervention_id = iv_intervention_id r,
                ha_intervention_sha256 = iv_sha256 r, ha_scheduler_was_paused = was_paused\<rparr>]\<rparr>))))))))"

section \<open>Reads\<close>

definition list_liveness_episodes ::
  "'v liveness_env \<Rightarrow> string option \<Rightarrow> u32 \<Rightarrow> liveness_db \<Rightarrow> LivenessEpisode list stored" where
  "list_liveness_episodes E run_id limit db =
    (if limit = 0 \<or> limit > MAX_LIVENESS_PAGE_SIZE
     then Inl (Validation ''liveness page limit must be 1..=200'')
     else collect_rows (checked_episode_row E)
       (take (unat limit) (newest_first
         (filter (\<lambda>r. run_id = None \<or> er_run_id r = run_id) (episodes db)))))"

definition list_intervention_receipts ::
  "'v liveness_env \<Rightarrow> string \<Rightarrow> u32 \<Rightarrow> liveness_db \<Rightarrow> InterventionReceipt list stored" where
  "list_intervention_receipts E episode_id limit db =
    (if limit = 0 \<or> limit > MAX_LIVENESS_PAGE_SIZE
     then Inl (Validation ''intervention receipt page limit must be 1..=200'')
     else if lookup_row (\<lambda>r. er_id r = episode_id) (episodes db) = None
     then Inl (NotFound (''liveness episode '' @ episode_id))
     else collect_rows (checked_intervention_receipt E)
       (take (unat limit) (rev (sort_key ir_created_at (sort_key ir_id
         (filter (\<lambda>r. ir_episode_id r = episode_id) (receipts db)))))))"

section \<open>Sequences of calls\<close>

datatype 'v liveness_request =
    OpenEpisode LivenessEpisode
  | ObserveEpisode string u64 "'v LivenessObservation"
  | RecordReceipt InterventionReceipt
  | ExecuteWait i64 string u64 string
  | ExecutePause i64 string u64 string

fun liveness_call ::
  "'v liveness_env \<Rightarrow> 'v liveness_request \<Rightarrow> liveness_db \<Rightarrow> (LivenessEpisode \<times> liveness_db) stored" where
  "liveness_call E (OpenEpisode e) db = open_liveness_episode E e db"
| "liveness_call E (ObserveEpisode i v ob) db = record_liveness_observation E i v ob db"
| "liveness_call E (RecordReceipt r) db = record_intervention_receipt E r db"
| "liveness_call E (ExecuteWait now i v by) db = execute_wait_intervention E now i v by db"
| "liveness_call E (ExecutePause now i v by) db = execute_pause_for_operator_intervention E now i v by db"

text \<open>A failed call rolls back.\<close>

definition after_call :: "'v liveness_env \<Rightarrow> liveness_db \<Rightarrow> 'v liveness_request \<Rightarrow> liveness_db" where
  "after_call E db x = (case liveness_call E x db of Inl _ \<Rightarrow> db | Inr (_, db') \<Rightarrow> db')"

definition liveness_calls :: "'v liveness_env \<Rightarrow> 'v liveness_request list \<Rightarrow> liveness_db \<Rightarrow> liveness_db" where
  "liveness_calls E xs db = foldl (after_call E) db xs"

section \<open>One revision of an episode\<close>

definition next_revision :: "'v liveness_env \<Rightarrow> LivenessEpisode \<Rightarrow> LivenessEpisode \<Rightarrow> bool" where
  "next_revision E e e' \<longleftrightarrow>
     episode_valid E e' = Inr () \<and> unat (le_version e') = unat (le_version e) + 1 \<and>
     le_episode_id e' = le_episode_id e \<and> le_run_id e' = le_run_id e \<and> le_task_id e' = le_task_id e \<and>
     le_attempt_id e' = le_attempt_id e \<and> le_opened_at_ms e' = le_opened_at_ms e \<and>
     (le_state e \<noteq> Terminal \<longrightarrow> le_state e' \<noteq> Terminal)"

lemma reduce_episode_keeps [simp]:
  "le_episode_id (reduce_episode js e ob) = le_episode_id e"
  "le_run_id (reduce_episode js e ob) = le_run_id e"
  "le_task_id (reduce_episode js e ob) = le_task_id e"
  "le_attempt_id (reduce_episode js e ob) = le_attempt_id e"
  "le_opened_at_ms (reduce_episode js e ob) = le_opened_at_ms e"
  "le_updated_at_ms (reduce_episode js e ob) = le_updated_at_ms e"
  "le_version (reduce_episode js e ob) = le_version e"
  "le_intervention_count (reduce_episode js e ob) = le_intervention_count e"
  by (simp_all add: reduce_episode_def Let_def split: prod.split)

lemma reduce_episode_terminal:
  "le_state (reduce_episode js e ob) = Terminal \<Longrightarrow> le_state e = Terminal"
  by (auto simp: reduce_episode_def Let_def split: if_splits)

text \<open>An episode that is not active becomes active again only by material progress.\<close>

lemma reduce_episode_recovers:
  assumes "le_state (reduce_episode js e ob) \<in> {Healthy, QuietActive}" and "le_state e \<notin> {Healthy, QuietActive}"
  shows "lo_observation_kind ob = MaterialProgress \<and> le_state (reduce_episode js e ob) = Healthy \<and>
    le_last_material_progress_at_ms (reduce_episode js e ob) = Some (lo_observed_at_ms ob)"
  using assms by (auto simp: reduce_episode_def Let_def split: if_splits)

lemma seal_episode_ok:
  "seal_episode E e = Inr e' \<Longrightarrow> (\<exists>d. e' = e\<lparr>le_sha256 := d\<rparr>) \<and> episode_valid E e' = Inr ()"
  by (auto simp: seal_episode_def and_then_ok Let_def)

lemma observe_episode_ok:
  assumes "observe_episode E e ob = Inr e'"
  shows "next_revision E e e' \<and> le_state e' = le_state (reduce_episode (len_json E) e ob) \<and>
    le_last_material_progress_at_ms e' = le_last_material_progress_at_ms (reduce_episode (len_json E) e ob)"
proof -
  from assms obtain v where v: "unat v = unat (le_version e) + 1"
    and sealed: "seal_episode E ((reduce_episode (len_json E) e ob)\<lparr>le_version := v,
      le_updated_at_ms := max (lo_observed_at_ms ob) (le_updated_at_ms e)\<rparr>) = Inr e'"
    by (auto simp: observe_episode_def and_then_ok Let_def checked_add_Some)
  from seal_episode_ok [OF sealed] v show ?thesis
    by (auto simp: next_revision_def dest: reduce_episode_terminal)
qed

lemma intervene_episode_ok:
  assumes "intervene_episode E e r = Inr e'"
  shows "next_revision E e e' \<and> le_state e' = le_state e"
proof -
  from assms obtain v c t n where v: "unat v = unat (le_version e) + 1"
    and sealed: "seal_episode E (e\<lparr>le_intervention_count := c, le_version := v, le_updated_at_ms := t,
      le_next_review_at_ms := n\<rparr>) = Inr e'"
    by (auto simp: intervene_episode_def and_then_ok Let_def checked_add_Some)
  from seal_episode_ok [OF sealed] v show ?thesis by (auto simp: next_revision_def)
qed

section \<open>Invariant\<close>

text \<open>The number of observations and receipts stored for an episode.\<close>

definition records :: "liveness_db \<Rightarrow> string \<Rightarrow> nat" where
  "records db i = length (filter (\<lambda>x. xo_episode_id x = i) (lobs db)) +
     length (filter (\<lambda>x. ir_episode_id x = i) (receipts db))"

definition ep_row_holds :: "'v liveness_env \<Rightarrow> liveness_db \<Rightarrow> ep_row \<Rightarrow> LivenessEpisode \<Rightarrow> bool" where
  "ep_row_holds E db row e \<longleftrightarrow>
     enc (len_episode E) e = Some (er_raw row) \<and> ep_to_row e (er_raw row) (len_sha E (er_raw row)) = row \<and>
     episode_valid E e = Inr () \<and> le_state e \<noteq> Terminal \<and>
     unat (le_version e) = records db (le_episode_id e) + 1"

definition liveness_ok :: "'v liveness_env \<Rightarrow> liveness_db \<Rightarrow> bool" where
  "liveness_ok E db \<longleftrightarrow>
     (\<forall>row \<in> set (episodes db). \<exists>e. ep_row_holds E db row e) \<and>
     distinct (map er_id (episodes db)) \<and> distinct (map er_attempt_id (episodes db)) \<and>
     (\<forall>i. i \<notin> er_id ` set (episodes db) \<longrightarrow> records db i = 0)"

lemma ep_row_columns:
  "ep_row_holds E db row e \<Longrightarrow>
     er_id row = le_episode_id e \<and> er_attempt_id row = le_attempt_id e \<and> er_state row = le_state e \<and>
     er_version row = int (unat (le_version e)) \<and> er_sha row = len_sha E (er_raw row)"
  unfolding ep_row_holds_def ep_to_row_def by (metis ep_row.select_convs(1,4,5,6,10))

lemma ep_row_checked:
  assumes "codec_ok (len_episode E)" and "ep_row_holds E db row e"
  shows "checked_episode_row E row = Inr e"
  using assms ep_row_columns [OF assms(2)] by (simp add: ep_row_holds_def checked_episode_row_def codec_okD)

lemma liveness_ok_lookup:
  assumes "liveness_ok E db" and "codec_ok (len_episode E)"
    and "lookup_row (\<lambda>r. er_id r = i) (episodes db) = Some row" and "checked_episode_row E row = Inr e"
  shows "row \<in> set (episodes db) \<and> er_id row = i \<and> le_episode_id e = i \<and> ep_row_holds E db row e"
proof -
  from lookup_row_Some [OF assms(3)] have row: "row \<in> set (episodes db)" "er_id row = i" by simp_all
  with assms(1) obtain f where f: "ep_row_holds E db row f" by (auto simp: liveness_ok_def)
  with ep_row_checked [OF assms(2) f] assms(4) have "ep_row_holds E db row e" by simp
  with row ep_row_columns show ?thesis by metis
qed

text \<open>The update replaces the row of one episode and no other.\<close>

lemma update_episode_row_ok:
  assumes ok: "liveness_ok E db" and row: "row \<in> set (episodes db)" "er_id row = i" "ep_row_holds E db row e"
    and rev: "next_revision E e e'" and ws: "ws \<or> le_state e' = le_state e"
    and upd: "update_episode_row E ws m i e' raw' (int (unat (le_version e))) (episodes db) = Inr rows'"
  shows "rows' = map (\<lambda>r. if er_id r = i then ep_to_row e' raw' (len_sha E raw') else r) (episodes db)"
proof -
  have uniq: "r = row" if "r \<in> set (episodes db)" "er_id r = i" for r
    using that row ok by (auto simp: liveness_ok_def distinct_map inj_on_def)
  let ?new = "\<lambda>r. r\<lparr>er_state := (if ws then le_state e' else er_state r), er_version := int (unat (le_version e')),
      er_updated_at := le_updated_at_ms e', er_raw := raw', er_sha := len_sha E raw'\<rparr>"
  have "ep_to_row e (er_raw row) (len_sha E (er_raw row)) = row" using row(3) by (simp add: ep_row_holds_def)
  then have new: "?new row = ep_to_row e' raw' (len_sha E raw')"
    using rev ws by (cases row) (auto simp: ep_to_row_def next_revision_def)
  have "rows' = map (\<lambda>r. if er_id r = i \<and> er_version r = int (unat (le_version e)) then ?new r else r) (episodes db)"
    using upd by (auto simp: update_episode_row_def and_then_ok simp del: of_nat_unat split: if_splits)
  also have "\<dots> = map (\<lambda>r. if er_id r = i then ep_to_row e' raw' (len_sha E raw') else r) (episodes db)"
  proof (rule map_cong [OF refl])
    fix r assume r: "r \<in> set (episodes db)"
    show "(if er_id r = i \<and> er_version r = int (unat (le_version e)) then ?new r else r) =
        (if er_id r = i then ep_to_row e' raw' (len_sha E raw') else r)"
    proof (cases "er_id r = i")
      case True
      with uniq [OF r] have r: "r = row" by simp
      have "er_id row = i \<and> er_version row = int (unat (le_version e))"
        using row(2) ep_row_columns [OF row(3)] by blast
      then show ?thesis unfolding r using new by (simp only: simp_thms if_True)
    qed simp
  qed
  finally show ?thesis .
qed

section \<open>Effect of a call\<close>

text \<open>
  A call leaves episodes, observations and receipts alone, adds one episode, or makes one revision
  of one episode and stores one observation or receipt for it.
\<close>

definition untouched :: "liveness_db \<Rightarrow> liveness_db \<Rightarrow> bool" where
  "untouched db db' \<longleftrightarrow> episodes db' = episodes db \<and> lobs db' = lobs db \<and> receipts db' = receipts db"

definition opened :: "'v liveness_env \<Rightarrow> LivenessEpisode \<Rightarrow> liveness_db \<Rightarrow> liveness_db \<Rightarrow> bool" where
  "opened E e db db' \<longleftrightarrow>
    (\<exists>raw. episode_valid E e = Inr () \<and> le_version e = 1 \<and> le_state e \<noteq> Terminal \<and>
       enc (len_episode E) e = Some raw \<and> episodes db' = episodes db @ [ep_to_row e raw (len_sha E raw)] \<and>
       lobs db' = lobs db \<and> receipts db' = receipts db \<and> le_episode_id e \<notin> er_id ` set (episodes db) \<and>
       (\<forall>r \<in> set (episodes db). er_attempt_id r = le_attempt_id e \<longrightarrow> er_state r = Terminal))"

definition revised ::
  "'v liveness_env \<Rightarrow> LivenessEpisode \<Rightarrow> LivenessEpisode \<Rightarrow> liveness_db \<Rightarrow> liveness_db \<Rightarrow> bool" where
  "revised E e e' db db' \<longleftrightarrow>
    (\<exists>row raw'. row \<in> set (episodes db) \<and> ep_row_holds E db row e \<and> next_revision E e e' \<and>
       enc (len_episode E) e' = Some raw' \<and>
       episodes db' = map (\<lambda>r. if er_id r = le_episode_id e then ep_to_row e' raw' (len_sha E raw') else r) (episodes db) \<and>
       (\<forall>j. records db' j = records db j + (if j = le_episode_id e then 1 else 0)))"

lemma open_effect:
  assumes "open_liveness_episode E e db = Inr (e', db')"
  shows "untouched db db' \<or> opened E e db db'"
proof (cases "lookup_row (\<lambda>r. er_id r = le_episode_id e) (episodes db)")
  case (Some row)
  with assms show ?thesis by (auto simp: open_liveness_episode_def and_then_ok untouched_def split: if_splits)
next
  case None
  have sorted: "set (newest_first rows) = set rows" for rows by (simp add: newest_first_def)
  from None assms have none: "newest_first (filter (\<lambda>r. er_attempt_id r = le_attempt_id e \<and> er_state r \<noteq> Terminal)
      (episodes db)) = []" (is "?active = []")
    by (cases ?active) (auto simp: open_liveness_episode_def and_then_ok split: if_splits)
  then have "\<forall>r \<in> set (episodes db). er_attempt_id r = le_attempt_id e \<longrightarrow> er_state r = Terminal"
    using arg_cong [OF none, of set] unfolding sorted by auto
  moreover have "le_episode_id e \<notin> er_id ` set (episodes db)" using None by (auto simp: lookup_row_None)
  ultimately show ?thesis
    using None assms none by (auto simp: open_liveness_episode_def and_then_ok opened_def split: if_splits)
qed

lemma observation_effect:
  assumes ok: "liveness_ok E db" and codec: "codec_ok (len_episode E)"
    and call: "record_liveness_observation E i v ob db = Inr (e', db')"
  shows "untouched db db' \<or> (\<exists>e. revised E e e' db db' \<and> observe_episode E e ob = Inr e' \<and> le_episode_id e = i)"
proof (cases "lookup_row (\<lambda>r. xo_episode_id r = i \<and> xo_kind r = lo_observation_kind ob \<and>
    xo_source_event_id r = lo_source_event_id ob) (lobs db)")
  case (Some row)
  with call show ?thesis
    by (auto simp: record_liveness_observation_def and_then_ok untouched_def split: if_splits)
next
  case None
  with call obtain ob_raw row e raw' rows' obs' m where bind: "lo_episode_id ob = i"
    and look: "lookup_row (\<lambda>r. er_id r = i) (episodes db) = Some row"
    and e: "checked_episode_row E row = Inr e" and obs: "observe_episode E e ob = Inr e'"
    and raw': "enc (len_episode E) e' = Some raw'"
    and upd: "update_episode_row E True m i e' raw' (int (unat (le_version e))) (episodes db) = Inr rows'"
    and ins: "insert_lobs_row E ob ob_raw (lobs db) = Inr obs'"
    and db': "episodes db' = rows'" "lobs db' = obs'" "receipts db' = receipts db"
    by (fastforce simp: record_liveness_observation_def and_then_ok simp del: of_nat_unat split: if_splits)
  note row = liveness_ok_lookup [OF ok codec look e]
  have rev: "next_revision E e e'" using observe_episode_ok [OF obs] by blast
  have "rows' = map (\<lambda>r. if er_id r = i then ep_to_row e' raw' (len_sha E raw') else r) (episodes db)"
    using update_episode_row_ok [OF ok _ _ _ rev _ upd] row by blast
  moreover have "\<exists>x. obs' = lobs db @ [x] \<and> xo_episode_id x = i"
    using ins bind by (auto simp: insert_lobs_row_def and_then_ok split: if_splits)
  ultimately have "revised E e e' db db'"
    using row rev raw' db' by (auto simp: revised_def records_def)
  with obs row show ?thesis by blast
qed

lemma receipt_effect:
  assumes ok: "liveness_ok E db" and codec: "codec_ok (len_episode E)"
    and call: "record_intervention_receipt E r db = Inr (e', db')"
  shows "(untouched db db' \<or> (\<exists>e. revised E e e' db db' \<and> le_state e' = le_state e)) \<and>
    runs db' = runs db \<and> human_actions db' = human_actions db"
proof (cases "lookup_row (\<lambda>q. ir_id q = iv_intervention_id r) (receipts db) = None \<and>
    lookup_row (\<lambda>q. ir_episode_id q = iv_episode_id r \<and> ir_kind q = iv_kind r \<and>
          ir_source_event_id q = iv_source_event_id r) (receipts db) = None")
  case False
  with call show ?thesis
    by (auto simp: record_intervention_receipt_def replay_receipt_def and_then_ok untouched_def
        split: if_splits option.splits)
next
  case True
  with call obtain r_raw row e raw' rows' rec' m where
    look: "lookup_row (\<lambda>q. er_id q = iv_episode_id r) (episodes db) = Some row"
    and e: "checked_episode_row E row = Inr e" and ver: "le_version e = iv_target_version r"
    and iv: "intervene_episode E e r = Inr e'"
    and raw': "enc (len_episode E) e' = Some raw'"
    and upd: "update_episode_row E False m (iv_episode_id r) e' raw' (int (unat (iv_target_version r))) (episodes db) = Inr rows'"
    and ins: "insert_receipt_row E r r_raw (receipts db) = Inr rec'"
    and db': "episodes db' = rows'" "lobs db' = lobs db" "receipts db' = rec'"
    and rest: "runs db' = runs db" "human_actions db' = human_actions db"
    by (fastforce simp: record_intervention_receipt_def and_then_ok simp del: of_nat_unat split: if_splits)
  note row = liveness_ok_lookup [OF ok codec look e]
  have rev: "next_revision E e e'" and st: "le_state e' = le_state e"
    using intervene_episode_ok [OF iv] by blast+
  have "rows' = map (\<lambda>q. if er_id q = iv_episode_id r then ep_to_row e' raw' (len_sha E raw') else q) (episodes db)"
    using update_episode_row_ok [OF ok _ _ _ rev _ upd [folded ver]] row st by blast
  moreover have "\<exists>x. rec' = receipts db @ [x] \<and> ir_episode_id x = iv_episode_id r"
    using ins by (auto simp: insert_receipt_row_def and_then_ok split: if_splits)
  ultimately have "revised E e e' db db'"
    using row rev raw' db' by (auto simp: revised_def records_def)
  with st rest show ?thesis by blast
qed

text \<open>The scheduler of a run is paused only by a pause on a stalled episode of that run.\<close>

definition paused_for :: "'v liveness_env \<Rightarrow> string \<Rightarrow> liveness_db \<Rightarrow> liveness_db \<Rightarrow> bool" where
  "paused_for E i db db' \<longleftrightarrow>
    (\<exists>row e run_id at. lookup_row (\<lambda>r. er_id r = i) (episodes db) = Some row \<and>
       checked_episode_row E row = Inr e \<and> le_state e \<in> {ConfirmedStall, RecoveryRequired} \<and>
       le_run_id e = Some run_id \<and>
       runs db' = map (\<lambda>r. if rn_id r = run_id \<and> \<not> rn_scheduler_paused r
         then r\<lparr>rn_scheduler_paused := True, rn_updated_at := at, rn_version := rn_version r + 1\<rparr> else r) (runs db))"

lemma wait_records:
  assumes "execute_wait_intervention E now i v who db = Inr (e', db')"
  shows "\<exists>r. record_intervention_receipt E r db = Inr (e', db')"
  using assms by (auto simp: execute_wait_intervention_def Let_def and_then_ok split: if_splits option.splits)

lemma pause_run_ok:
  "pause_run run_id was at rows = Inr rows' \<Longrightarrow>
    rows' = rows \<or> rows' = map (\<lambda>r. if rn_id r = run_id \<and> \<not> rn_scheduler_paused r
        then r\<lparr>rn_scheduler_paused := True, rn_updated_at := at, rn_version := rn_version r + 1\<rparr> else r) rows"
  by (auto simp: pause_run_def split: if_splits)

lemma pause_records:
  assumes "execute_pause_for_operator_intervention E now i v who db = Inr (e', db')"
  obtains (plain) r where "record_intervention_receipt E r db = Inr (e', db')"
  | (paused) r e row run_id was runs' acts where
      "lookup_row (\<lambda>r. er_id r = i) (episodes db) = Some row" "checked_episode_row E row = Inr e"
      "le_state e \<in> {ConfirmedStall, RecoveryRequired}" "le_run_id e = Some run_id"
      "pause_run run_id was (iv_created_at_ms r) (runs db) = Inr runs'"
      "record_intervention_receipt E r (db\<lparr>runs := runs', human_actions := acts\<rparr>) = Inr (e', db')"
proof (cases "lookup_row (\<lambda>q. ir_id q = ''intervention-pause-'' @ take 32 (len_sha E
    (execution_key ''harness.liveness-pause-for-operator.v1'' i v who))) (receipts db)")
  case (Some row)
  with assms show thesis
    by (auto simp: execute_pause_for_operator_intervention_def Let_def and_then_ok intro: plain split: if_splits)
next
  case None
  with assms show thesis
    by (auto simp: execute_pause_for_operator_intervention_def Let_def and_then_ok intro: paused split: if_splits)
qed

lemma liveness_ok_runs [simp]: "liveness_ok E (db\<lparr>runs := rs, human_actions := hs\<rparr>) = liveness_ok E db"
  by (simp add: liveness_ok_def ep_row_holds_def records_def)

lemma revised_runs [simp]: "revised E e e' (db\<lparr>runs := rs, human_actions := hs\<rparr>) db' = revised E e e' db db'"
  by (simp add: revised_def ep_row_holds_def records_def)

lemma pause_effect:
  assumes ok: "liveness_ok E db" and codec: "codec_ok (len_episode E)"
    and call: "execute_pause_for_operator_intervention E now i v who db = Inr (e', db')"
  shows "(untouched db db' \<or> (\<exists>e. revised E e e' db db' \<and> le_state e' = le_state e)) \<and>
    (runs db' = runs db \<or> paused_for E i db db')"
  using call
proof (cases rule: pause_records)
  case (plain r)
  from receipt_effect [OF ok codec plain] show ?thesis by blast
next
  case (paused r e row run_id was runs' acts)
  have "liveness_ok E (db\<lparr>runs := runs', human_actions := acts\<rparr>)" using ok by simp
  from receipt_effect [OF this codec paused(6)]
  have "(untouched db db' \<or> (\<exists>e. revised E e e' db db' \<and> le_state e' = le_state e))" and rs: "runs db' = runs'"
    by (simp_all add: untouched_def)
  moreover have "runs db' = runs db \<or> paused_for E i db db'"
    using pause_run_ok [OF paused(5)]
  proof
    assume "runs' = map (\<lambda>q. if rn_id q = run_id \<and> \<not> rn_scheduler_paused q
        then q\<lparr>rn_scheduler_paused := True, rn_updated_at := iv_created_at_ms r, rn_version := rn_version q + 1\<rparr>
        else q) (runs db)"
    with rs paused(1-4) have "paused_for E i db db'" unfolding paused_for_def by blast
    then show ?thesis ..
  qed (use rs in simp)
  ultimately show ?thesis by blast
qed

lemma call_effect:
  assumes ok: "liveness_ok E db" and codec: "codec_ok (len_episode E)"
    and call: "liveness_call E x db = Inr (e', db')"
  obtains (untouched) "untouched db db'"
  | (opened) e where "x = OpenEpisode e" "opened E e db db'"
  | (observed) i v ob e where "x = ObserveEpisode i v ob" "revised E e e' db db'" "observe_episode E e ob = Inr e'"
      "le_episode_id e = i"
  | (intervened) e where "revised E e e' db db'" "le_state e' = le_state e"
proof (cases x)
  case (OpenEpisode e)
  with call open_effect show thesis using untouched opened by (metis liveness_call.simps(1))
next
  case (ObserveEpisode i v ob)
  with call observation_effect [OF ok codec] show thesis using untouched observed by (metis liveness_call.simps(2))
next
  case (RecordReceipt r)
  with call receipt_effect [OF ok codec] show thesis using untouched intervened by (metis liveness_call.simps(3))
next
  case (ExecuteWait now i v who)
  with call obtain r where "record_intervention_receipt E r db = Inr (e', db')"
    using wait_records by (metis liveness_call.simps(4))
  from receipt_effect [OF ok codec this] show thesis using untouched intervened by blast
next
  case (ExecutePause now i v who)
  with call pause_effect [OF ok codec] show thesis using untouched intervened by (metis liveness_call.simps(5))
qed

section \<open>The invariant holds after any calls\<close>

lemma untouched_keeps: "liveness_ok E db \<Longrightarrow> untouched db db' \<Longrightarrow> liveness_ok E db'"
  by (simp add: liveness_ok_def ep_row_holds_def records_def untouched_def)

lemma opened_keeps:
  assumes ok: "liveness_ok E db" and new: "opened E e db db'"
  shows "liveness_ok E db'"
proof -
  from new obtain raw where e: "episode_valid E e = Inr ()" "le_version e = 1" "le_state e \<noteq> Terminal"
      "enc (len_episode E) e = Some raw"
    and eps: "episodes db' = episodes db @ [ep_to_row e raw (len_sha E raw)]"
    and same: "lobs db' = lobs db" "receipts db' = receipts db"
    and fresh: "le_episode_id e \<notin> er_id ` set (episodes db)"
    and free: "\<forall>r \<in> set (episodes db). er_attempt_id r = le_attempt_id e \<longrightarrow> er_state r = Terminal"
    unfolding opened_def by blast
  have recs: "records db' = records db" using same by (simp add: records_def fun_eq_iff)
  have live: "er_state r \<noteq> Terminal" if "r \<in> set (episodes db)" for r
  proof -
    from ok that obtain d where d: "ep_row_holds E db r d" by (auto simp: liveness_ok_def)
    then have "le_state d \<noteq> Terminal" by (simp add: ep_row_holds_def)
    with ep_row_columns [OF d] show ?thesis by simp
  qed
  have "ep_row_holds E db' (ep_to_row e raw (len_sha E raw)) e"
    using e fresh ok by (simp add: ep_row_holds_def recs liveness_ok_def ep_to_row_def)
  moreover have "ep_row_holds E db' = ep_row_holds E db"
    by (simp add: ep_row_holds_def recs fun_eq_iff)
  moreover have "le_attempt_id e \<notin> er_attempt_id ` set (episodes db)"
    using free live by fastforce
  ultimately show ?thesis
    using ok fresh by (auto simp: liveness_ok_def eps recs ep_to_row_def)
qed

lemma revised_row:
  assumes "revised E e e' db db'"
  obtains row raw' where "row \<in> set (episodes db)" "ep_row_holds E db row e" "er_id row = le_episode_id e"
    "next_revision E e e'" "ep_row_holds E db' (ep_to_row e' raw' (len_sha E raw')) e'"
    "episodes db' = map (\<lambda>r. if er_id r = le_episode_id e then ep_to_row e' raw' (len_sha E raw') else r) (episodes db)"
proof -
  from assms obtain row raw' where row: "row \<in> set (episodes db)" "ep_row_holds E db row e"
    and rev: "next_revision E e e'" and raw': "enc (len_episode E) e' = Some raw'"
    and eps: "episodes db' = map (\<lambda>r. if er_id r = le_episode_id e then ep_to_row e' raw' (len_sha E raw') else r) (episodes db)"
    and recs: "\<forall>j. records db' j = records db j + (if j = le_episode_id e then 1 else 0)"
    unfolding revised_def by blast
  have "ep_row_holds E db' (ep_to_row e' raw' (len_sha E raw')) e'"
    using row(2) rev raw' recs by (simp add: ep_row_holds_def next_revision_def ep_to_row_def)
  with that row rev eps ep_row_columns [OF row(2)] show thesis by blast
qed

lemma revised_keeps:
  assumes ok: "liveness_ok E db" and rev: "revised E e e' db db'"
  shows "liveness_ok E db'"
proof -
  obtain row raw' where row: "row \<in> set (episodes db)" "ep_row_holds E db row e" "er_id row = le_episode_id e"
    and nxt: "next_revision E e e'" and holds': "ep_row_holds E db' (ep_to_row e' raw' (len_sha E raw')) e'"
    and eps: "episodes db' = map (\<lambda>r. if er_id r = le_episode_id e then ep_to_row e' raw' (len_sha E raw') else r) (episodes db)"
    by (rule revised_row [OF rev])
  have recs: "records db' j = records db j + (if j = le_episode_id e then 1 else 0)" for j
    using rev by (auto simp: revised_def)
  have uniq: "r = row" if "r \<in> set (episodes db)" "er_id r = le_episode_id e" for r
    using that row ok by (auto simp: liveness_ok_def distinct_map inj_on_def)
  have cols: "er_id (ep_to_row e' raw' d) = er_id row" "er_attempt_id (ep_to_row e' raw' d) = er_attempt_id row" for d
    using nxt ep_row_columns [OF row(2)] by (simp_all add: ep_to_row_def next_revision_def)
  have "er_id (if er_id r = le_episode_id e then ep_to_row e' raw' (len_sha E raw') else r) = er_id r \<and>
      er_attempt_id (if er_id r = le_episode_id e then ep_to_row e' raw' (len_sha E raw') else r) = er_attempt_id r"
    if "r \<in> set (episodes db)" for r
    using uniq [OF that] cols by auto
  then have keys: "map er_id (episodes db') = map er_id (episodes db)"
      "map er_attempt_id (episodes db') = map er_attempt_id (episodes db)"
    by (simp_all add: eps)
  have other: "ep_row_holds E db' r d" if "r \<in> set (episodes db)" "er_id r \<noteq> le_episode_id e" "ep_row_holds E db r d" for r d
    using that ep_row_columns [OF that(3)] by (simp add: ep_row_holds_def recs)
  have "\<forall>r \<in> set (episodes db'). \<exists>d. ep_row_holds E db' r d"
    using ok holds' other by (auto simp: eps liveness_ok_def) blast
  moreover have "records db' j = 0" if "j \<notin> er_id ` set (episodes db')" for j
  proof -
    have j: "j \<notin> er_id ` set (episodes db)" using that unfolding list.set_map [symmetric] keys .
    then have "records db j = 0" using ok by (simp add: liveness_ok_def)
    moreover have "j \<noteq> le_episode_id e" using j row by force
    ultimately show ?thesis by (simp add: recs)
  qed
  ultimately show ?thesis
    using ok unfolding liveness_ok_def keys by blast
qed

lemma after_call_keeps:
  assumes codec: "codec_ok (len_episode E)" and ok: "liveness_ok E db"
  shows "liveness_ok E (after_call E db x)"
proof (cases "liveness_call E x db")
  case (Inr p)
  obtain e' db' where p: "p = (e', db')" by (cases p)
  from Inr have call: "liveness_call E x db = Inr (e', db')" by (simp add: p)
  from ok codec call have "liveness_ok E db'"
    by (cases rule: call_effect) (use ok untouched_keeps opened_keeps revised_keeps in blast)+
  with call show ?thesis by (simp add: after_call_def)
qed (use ok in \<open>simp add: after_call_def\<close>)

lemma calls_keep:
  "codec_ok (len_episode E) \<Longrightarrow> liveness_ok E db \<Longrightarrow> liveness_ok E (liveness_calls E xs db)"
  unfolding liveness_calls_def by (induction xs arbitrary: db) (simp_all add: after_call_keeps)

lemma no_episodes_ok: "episodes db = [] \<Longrightarrow> lobs db = [] \<Longrightarrow> receipts db = [] \<Longrightarrow> liveness_ok E db"
  by (simp add: liveness_ok_def records_def)

lemma read_episode:
  assumes "codec_ok (len_episode E)" and "liveness_ok E db" and "liveness_episode E i db = Inr (Some e)"
  obtains row where "row \<in> set (episodes db)" "er_id row = i" "le_episode_id e = i" "ep_row_holds E db row e"
proof -
  from assms(3) obtain row where "lookup_row (\<lambda>r. er_id r = i) (episodes db) = Some row"
    and "checked_episode_row E row = Inr e"
    by (auto simp: liveness_episode_def and_then_ok split: option.splits)
  with liveness_ok_lookup [OF assms(2,1)] that show thesis by blast
qed

text \<open>
  The version of a liveness episode counts its history: after any sequence of calls on a
  repository that started without episodes, the version of every episode is one more than the number
  of observations and intervention receipts stored for it; no attempt has two episodes; and no
  episode is terminal, because no operation ends one.
\<close>

theorem episode_version_counts_records:
  assumes codec: "codec_ok (len_episode E)"
    and start: "episodes db = []" "lobs db = []" "receipts db = []"
    and read: "liveness_episode E i (liveness_calls E xs db) = Inr (Some e)"
  shows "unat (le_version e) = records (liveness_calls E xs db) i + 1 \<and> le_state e \<noteq> Terminal \<and>
    (\<forall>j f. liveness_episode E j (liveness_calls E xs db) = Inr (Some f) \<longrightarrow>
       le_attempt_id f = le_attempt_id e \<longrightarrow> j = i)"
proof -
  let ?db = "liveness_calls E xs db"
  have ok: "liveness_ok E ?db" using calls_keep [OF codec no_episodes_ok [OF start]] .
  obtain row where row: "row \<in> set (episodes ?db)" "er_id row = i" "le_episode_id e = i" "ep_row_holds E ?db row e"
    using read_episode [OF codec ok read] .
  have "j = i" if f: "liveness_episode E j ?db = Inr (Some f)" "le_attempt_id f = le_attempt_id e" for j f
  proof -
    obtain q where "q \<in> set (episodes ?db)" "er_id q = j" "ep_row_holds E ?db q f"
      using read_episode [OF codec ok f(1)] .
    moreover from this f(2) row have "er_attempt_id q = er_attempt_id row" using ep_row_columns by metis
    ultimately have "q = row" using ok row by (auto simp: liveness_ok_def distinct_map inj_on_def)
    with \<open>er_id q = j\<close> row show ?thesis by simp
  qed
  with row show ?thesis by (auto simp: ep_row_holds_def)
qed

section \<open>Recovery and pauses\<close>

text \<open>What one call does to the episode read under one id.\<close>

lemma revised_read:
  assumes codec: "codec_ok (len_episode E)" and ok: "liveness_ok E db" and rev: "revised E f f' db db'"
    and before: "liveness_episode E i db = Inr (Some e)" and after: "liveness_episode E i db' = Inr (Some e')"
  shows "e' = e \<or> e = f \<and> e' = f'"
proof -
  obtain row where row: "row \<in> set (episodes db)" "er_id row = i" "le_episode_id e = i" "ep_row_holds E db row e"
    using read_episode [OF codec ok before] .
  obtain row' where row': "row' \<in> set (episodes db')" "er_id row' = i" "ep_row_holds E db' row' e'"
    using read_episode [OF codec revised_keeps [OF ok rev] after] .
  obtain q raw' where q: "q \<in> set (episodes db)" "ep_row_holds E db q f" "er_id q = le_episode_id f"
    and holds': "ep_row_holds E db' (ep_to_row f' raw' (len_sha E raw')) f'"
    and nxt: "next_revision E f f'"
    and eps: "episodes db' = map (\<lambda>r. if er_id r = le_episode_id f then ep_to_row f' raw' (len_sha E raw') else r) (episodes db)"
    by (rule revised_row [OF rev])
  have uniq: "r = row" if "r \<in> set (episodes db)" "er_id r = i" for r
    using that row ok by (auto simp: liveness_ok_def distinct_map inj_on_def)
  have same: "a = b" if "ep_row_holds E d r a" "ep_row_holds E d' r b" for a b r d d'
    using ep_row_checked [OF codec that(1)] ep_row_checked [OF codec that(2)] by simp
  show ?thesis
  proof (cases "i = le_episode_id f")
    case True
    then have "e = f" using uniq [of q] q row same by blast
    moreover from row'(1) [unfolded eps list.set_map] obtain r where "r \<in> set (episodes db)"
      "row' = (if er_id r = le_episode_id f then ep_to_row f' raw' (len_sha E raw') else r)"
      by (rule imageE)
    with True row'(2) have "row' = ep_to_row f' raw' (len_sha E raw')" by (auto split: if_splits)
    then have "e' = f'" using same row'(3) holds' by blast
    ultimately show ?thesis by simp
  next
    case False
    from row'(1) [unfolded eps list.set_map] obtain r where r: "r \<in> set (episodes db)"
      "row' = (if er_id r = le_episode_id f then ep_to_row f' raw' (len_sha E raw') else r)"
      by (rule imageE)
    have "er_id (ep_to_row f' raw' (len_sha E raw')) = le_episode_id f"
      using nxt by (simp add: ep_to_row_def next_revision_def)
    with r row'(2) False have "row' = r" by (auto split: if_splits)
    then have "row' = row" using uniq [of row'] r(1) row'(2) by simp
    then show ?thesis using same [OF row(4)] row'(3) by simp
  qed
qed

lemma untouched_read: "untouched db db' \<Longrightarrow> liveness_episode E i db' = liveness_episode E i db"
  by (simp add: untouched_def liveness_episode_def)

lemma opened_read:
  "opened E f db db' \<Longrightarrow> liveness_episode E i db = Inr (Some e) \<Longrightarrow> liveness_episode E i db' = Inr (Some e)"
proof -
  have "lookup_row p (rows @ more) = Some r" if "lookup_row p rows = Some r"
    for p r and rows more :: "ep_row list"
    using that by (induction rows) (auto simp: lookup_row_def)
  then show "opened E f db db' \<Longrightarrow> liveness_episode E i db = Inr (Some e) \<Longrightarrow> liveness_episode E i db' = Inr (Some e)"
    by (auto simp: opened_def liveness_episode_def split: option.splits)
qed

text \<open>
  C31. Only material progress recovers an episode: whenever a call takes an episode that is waiting,
  degraded, stalled, uncertain or in need of recovery back to an active state, that call records a
  material progress observation for it, and the episode is then healthy with the time of that
  observation as its last progress. Heartbeats, command activity and interventions never do.
\<close>

theorem only_progress_recovers:
  assumes codec: "codec_ok (len_episode E)"
    and start: "episodes db0 = []" "lobs db0 = []" "receipts db0 = []"
    and db: "db = liveness_calls E xs db0"
    and before: "liveness_episode E i db = Inr (Some e)" "le_state e \<notin> {Healthy, QuietActive}"
    and after: "liveness_episode E i (after_call E db x) = Inr (Some e')" "le_state e' \<in> {Healthy, QuietActive}"
  shows "\<exists>v ob. x = ObserveEpisode i v ob \<and> lo_observation_kind ob = MaterialProgress \<and>
    le_state e' = Healthy \<and> le_last_material_progress_at_ms e' = Some (lo_observed_at_ms ob)"
proof (cases "liveness_call E x db")
  case (Inl err)
  with before after show ?thesis by (simp add: after_call_def)
next
  case (Inr p)
  obtain r db' where p: "p = (r, db')" by (cases p)
  from Inr have call: "liveness_call E x db = Inr (r, db')" by (simp add: p)
  have ok: "liveness_ok E db" unfolding db using calls_keep [OF codec no_episodes_ok [OF start]] .
  from call after(1) have after': "liveness_episode E i db' = Inr (Some e')" by (simp add: after_call_def)
  from ok codec call show ?thesis
  proof (cases rule: call_effect)
    case untouched
    from untouched_read [OF this, of E i] before(1) after' have "e' = e" by simp
    with before(2) after(2) show ?thesis by simp
  next
    case (opened f)
    from opened_read [OF opened(2) before(1)] after' have "e' = e" by simp
    with before(2) after(2) show ?thesis by simp
  next
    case (intervened f)
    from revised_read [OF codec ok intervened(1) before(1) after'] intervened(2) before(2) after(2)
    show ?thesis by auto
  next
    case (observed j v ob f)
    from revised_read [OF codec ok observed(2) before(1) after'] before(2) after(2)
    have e: "e = f" "e' = r" by auto
    have "j = i" using read_episode [OF codec ok before(1)] e observed(4) by metis
    then show ?thesis
      using observe_episode_ok [OF observed(3)] reduce_episode_recovers [of "len_json E" f ob] before(2) after(2) e observed(1)
      by auto
  qed
qed

text \<open>
  C32. The liveness repository touches a run only for its stalled episode: whenever one of its calls (opening an
  episode, an observation, a receipt, executing a wait or a pause) changes the row of a run, that call is the execution
  of a pause on an episode that was a confirmed stall or required recovery and names this run; the run is then paused, its
  version is one higher, and it was running before. No call of this repository resumes a run. Operators and
  the quarantine of native children pause and resume runs through other operations of the store, which are not part of
  this statement.
\<close>

theorem pause_needs_stalled_episode:
  assumes codec: "codec_ok (len_episode E)"
    and start: "episodes db0 = []" "lobs db0 = []" "receipts db0 = []"
    and db: "db = liveness_calls E xs db0"
    and k: "k < length (runs db)" and changed: "runs (after_call E db x) ! k \<noteq> runs db ! k"
  shows "\<exists>now i v who e. x = ExecutePause now i v who \<and> liveness_episode E i db = Inr (Some e) \<and>
    le_state e \<in> {ConfirmedStall, RecoveryRequired} \<and> le_run_id e = Some (rn_id (runs db ! k)) \<and>
    \<not> rn_scheduler_paused (runs db ! k) \<and> rn_scheduler_paused (runs (after_call E db x) ! k) \<and>
    rn_version (runs (after_call E db x) ! k) = rn_version (runs db ! k) + 1"
proof (cases "liveness_call E x db")
  case (Inl err)
  with changed show ?thesis by (simp add: after_call_def)
next
  case (Inr p)
  obtain r db' where p: "p = (r, db')" by (cases p)
  from Inr have call: "liveness_call E x db = Inr (r, db')" by (simp add: p)
  have ok: "liveness_ok E db" unfolding db using calls_keep [OF codec no_episodes_ok [OF start]] .
  have after: "after_call E db x = db'" using call by (simp add: after_call_def)
  show ?thesis
  proof (cases x)
    case (OpenEpisode e)
    with call have "runs db' = runs db"
      by (auto simp: open_liveness_episode_def and_then_ok split: if_splits option.splits list.splits)
    with changed after show ?thesis by simp
  next
    case (ObserveEpisode i v ob)
    with call have "runs db' = runs db"
      by (auto simp: record_liveness_observation_def and_then_ok split: if_splits option.splits)
    with changed after show ?thesis by simp
  next
    case (RecordReceipt q)
    with call have "record_intervention_receipt E q db = Inr (r, db')" by simp
    from receipt_effect [OF ok codec this] changed after show ?thesis by simp
  next
    case (ExecuteWait now i v who)
    with call obtain q where "record_intervention_receipt E q db = Inr (r, db')"
      using wait_records by (metis liveness_call.simps(4))
    from receipt_effect [OF ok codec this] changed after show ?thesis by simp
  next
    case (ExecutePause now i v who)
    with call have "execute_pause_for_operator_intervention E now i v who db = Inr (r, db')" by simp
    from pause_effect [OF ok codec this] changed after have "paused_for E i db db'" by auto
    then obtain row e run_id at where "lookup_row (\<lambda>r. er_id r = i) (episodes db) = Some row"
        "checked_episode_row E row = Inr e" and st: "le_state e \<in> {ConfirmedStall, RecoveryRequired}"
      and run: "le_run_id e = Some run_id"
      and rs: "runs db' = map (\<lambda>r. if rn_id r = run_id \<and> \<not> rn_scheduler_paused r
         then r\<lparr>rn_scheduler_paused := True, rn_updated_at := at, rn_version := rn_version r + 1\<rparr> else r) (runs db)"
      unfolding paused_for_def by blast
    then have "liveness_episode E i db = Inr (Some e)" by (simp add: liveness_episode_def)
    moreover have "rn_id (runs db ! k) = run_id \<and> \<not> rn_scheduler_paused (runs db ! k)"
      using changed k by (auto simp: after rs split: if_splits)
    ultimately show ?thesis
      using st run k ExecutePause unfolding after rs by auto
  qed
qed

text \<open>
  After a review is due, signs of activity are refused: a heartbeat or command observation on an
  episode that is neither healthy nor quietly active keeps the review time of the episode, so when it
  arrives after that time the reduced episode fails its own validation, and the observation is not
  stored. (Intervention receipts move the review time and do not have this effect.)
\<close>

theorem late_activity_is_refused:
  assumes kind: "lo_observation_kind ob = RuntimeHeartbeat \<or> lo_observation_kind ob = CommandActivity"
    and state: "le_state e \<notin> {Healthy, QuietActive}"
    and quiet: "\<not> value_flag (len_json E) (lo_value ob) ''no_material_progress_boundary''"
    and due: "le_next_review_at_ms e = Some t" "t < lo_observed_at_ms ob"
  shows "\<exists>err. observe_episode E e ob = Inl err"
proof (cases "observe_episode E e ob")
  case (Inr e')
  then obtain v where
    sealed: "seal_episode E ((reduce_episode (len_json E) e ob)\<lparr>le_version := v,
      le_updated_at_ms := max (lo_observed_at_ms ob) (le_updated_at_ms e)\<rparr>) = Inr e'"
    by (auto simp: observe_episode_def and_then_ok Let_def)
  have "le_next_review_at_ms (reduce_episode (len_json E) e ob) = Some t"
    using kind state quiet due by (auto simp: reduce_episode_def Let_def)
  with seal_episode_ok [OF sealed] have "le_next_review_at_ms e' = Some t" "lo_observed_at_ms ob \<le> le_updated_at_ms e'"
    and valid: "episode_valid E e' = Inr ()" by auto
  then have "le_updated_at_ms e' > t" using due by simp
  moreover have "all_ok (episode_checks e') = Inr ()"
    using valid by (simp add: episode_valid_def episode.validate_iff)
  ultimately show ?thesis using episode_times [of e'] \<open>le_next_review_at_ms e' = Some t\<close> by auto
qed simp

section \<open>A concrete run\<close>

text \<open>
  A stalled episode is opened; then either material progress is observed or the operator pauses its
  run. Every digest is the same constant.
\<close>

definition stalled :: LivenessEpisode where
  "stalled = \<lparr>le_schema = ''harness.liveness-episode.v1'', le_episode_id = ''ep_1'', le_run_id = Some ''run_1'',
     le_task_id = Some ''task_1'', le_attempt_id = Some ''att_1'', le_state = ConfirmedStall, le_version = 1,
     le_opened_at_ms = 10, le_updated_at_ms = 10, le_state_reason_codes = [],
     le_last_material_progress_at_ms = None, le_next_review_at_ms = Some 30, le_intervention_count = 0,
     le_outcome = None, le_sha256 = the_sha\<rparr>"

definition progress_obs :: "string LivenessObservation" where
  "progress_obs = \<lparr>lo_schema = ''harness.liveness-observation.v1'', lo_observation_id = ''obs_1'',
     lo_episode_id = ''ep_1'', lo_observation_kind = MaterialProgress, lo_source_event_id = ''event_1'',
     lo_observed_at_ms = 20, lo_value = ''{}'', lo_classifier_version = ''v1'', lo_sha256 = the_sha\<rparr>"

definition healed :: LivenessEpisode where
  "healed = stalled\<lparr>le_state := Healthy, le_state_reason_codes := [''material_progress''],
     le_last_material_progress_at_ms := Some 20, le_next_review_at_ms := None, le_version := 2,
     le_updated_at_ms := 20\<rparr>"

definition paused_ep :: LivenessEpisode where
  "paused_ep = stalled\<lparr>le_intervention_count := 1, le_version := 2, le_updated_at_ms := 15\<rparr>"

definition pause_receipt :: InterventionReceipt where
  "pause_receipt = \<lparr>iv_schema = ''harness.intervention-receipt.v1'',
     iv_intervention_id = ''intervention-pause-'' @ take 32 the_sha, iv_episode_id = ''ep_1'',
     iv_kind = PauseForOperator, iv_source_event_id = ''liveness-pause-'' @ take 32 the_sha,
     iv_target_version = 1, iv_policy_version = ''operator_control_pause_for_operator_v1'',
     iv_requested_by = ''op'', iv_created_at_ms = 15, iv_sha256 = the_sha\<rparr>"

definition ep_link :: "string \<Rightarrow> string \<Rightarrow> string \<Rightarrow> i64 \<Rightarrow> CorrelationLink" where
  "ep_link to_kind to_id relation at = \<lparr>cl_schema = ''harness.correlation-link.v1'',
     cl_link_id = ''correlation-'' @ take 48 the_sha,
     cl_trace = \<lparr>tc_trace_id = take 32 the_sha, tc_span_id = take 16 the_sha, tc_parent_span_id = None\<rparr>,
     cl_from_kind = ''liveness_episode'', cl_from_id = ''ep_1'', cl_to_kind = to_kind, cl_to_id = to_id,
     cl_relation = relation, cl_created_at_ms = at\<rparr>"

definition obs_link :: CorrelationLink where
  "obs_link = ep_link ''liveness_observation'' ''obs_1'' ''has_observation'' 20"

definition receipt_link :: CorrelationLink where
  "receipt_link = ep_link ''intervention_receipt'' (''intervention-pause-'' @ take 32 the_sha) ''has_intervention'' 15"

definition live_env :: "string liveness_env" where
  "live_env = \<lparr>len_json = \<lparr>to_vec = Some, is_object = (\<lambda>_. True), get_key = (\<lambda>_ _. None),
       as_bool = (\<lambda>_. None), as_str = Some, as_u64 = (\<lambda>_. None)\<rparr>,
     len_episode = list_codec [(stalled, ''a''), (stalled\<lparr>le_sha256 := []\<rparr>, ''b''), (healed, ''c''),
       (healed\<lparr>le_sha256 := []\<rparr>, ''d''), (paused_ep, ''e''), (paused_ep\<lparr>le_sha256 := []\<rparr>, ''f'')],
     len_obs = list_codec [(progress_obs, ''a''), (progress_obs\<lparr>lo_sha256 := []\<rparr>, ''b'')],
     len_receipt = list_codec [(pause_receipt, ''a''), (pause_receipt\<lparr>iv_sha256 := []\<rparr>, ''b'')],
     len_link = list_codec [(obs_link, ''a''), (receipt_link, ''b'')], len_sha = (\<lambda>_. the_sha)\<rparr>"

definition live_db :: liveness_db where
  "live_db = \<lparr>episodes = [], lobs = [], receipts = [], llinks = [],
     runs = [\<lparr>rn_id = ''run_1'', rn_scheduler_paused = False, rn_updated_at = 0, rn_version = 1\<rparr>],
     human_actions = []\<rparr>"

definition stalled_db :: liveness_db where
  "stalled_db = live_db\<lparr>episodes := [ep_to_row stalled ''a'' the_sha]\<rparr>"

lemma live_codecs [simp]:
  "enc (len_episode live_env) stalled = Some ''a''" "enc (len_episode live_env) (stalled\<lparr>le_sha256 := []\<rparr>) = Some ''b''"
  "enc (len_episode live_env) healed = Some ''c''" "enc (len_episode live_env) (healed\<lparr>le_sha256 := []\<rparr>) = Some ''d''"
  "enc (len_episode live_env) paused_ep = Some ''e''" "enc (len_episode live_env) (paused_ep\<lparr>le_sha256 := []\<rparr>) = Some ''f''"
  "dec (len_episode live_env) ''a'' = Some stalled" "dec (len_episode live_env) ''c'' = Some healed"
  "enc (len_obs live_env) progress_obs = Some ''a''" "enc (len_obs live_env) (progress_obs\<lparr>lo_sha256 := []\<rparr>) = Some ''b''"
  "enc (len_receipt live_env) pause_receipt = Some ''a''"
  "enc (len_receipt live_env) (pause_receipt\<lparr>iv_sha256 := []\<rparr>) = Some ''b''"
  "enc (len_link live_env) obs_link = Some ''a''" "enc (len_link live_env) receipt_link = Some ''b''"
  "len_sha live_env = (\<lambda>_. the_sha)"
  by (simp_all add: live_env_def list_codec_def stalled_def healed_def paused_ep_def progress_obs_def
      pause_receipt_def obs_link_def receipt_link_def ep_link_def)

lemma live_codec_ok: "codec_ok (len_episode live_env)"
  unfolding live_env_def by (simp add: list_codec_ok)

lemma live_episodes_valid [simp]:
  "episode_valid live_env stalled = Inr ()" "episode_valid live_env healed = Inr ()"
  "episode_valid live_env paused_ep = Inr ()"
  by (simp_all add: episode_valid_def episode.validate_iff episode_digest_def digest_json_def)
    (simp_all add: episode_checks_def stalled_def healed_def paused_ep_def safe_eval SHA256_HEX_LEN_def
      validate_bounded_texts_def validate_text_def text_eval)

lemma live_records_valid [simp]:
  "observation_valid live_env progress_obs = Inr ()" "receipt_valid live_env pause_receipt = Inr ()"
proof -
  have "is_safe_operator_control_identifier (''intervention-pause-'' @ take 32 the_sha)"
    "is_safe_operator_control_identifier (''liveness-pause-'' @ take 32 the_sha)"
    by (simp_all add: safe_eval the_sha_def list_all_iff)
  moreover have "to_vec (len_json live_env) = Some" by (simp add: live_env_def)
  ultimately show "observation_valid live_env progress_obs = Inr ()" "receipt_valid live_env pause_receipt = Inr ()"
    by (simp_all add: observation_valid_def observation.validate_iff observation_digest_def digest_json_def
        receipt_valid_def intervention.validate_iff intervention_digest_def SHA256_HEX_LEN_def)
      (simp_all add: observation_checks_def intervention_checks_def progress_obs_def pause_receipt_def safe_eval)
qed

lemma live_links [simp]:
  "liveness_observation_correlation_link (\<lambda>_. the_sha) progress_obs = Inr obs_link"
  "intervention_correlation_link (\<lambda>_. the_sha) pause_receipt = Inr receipt_link"
  "record_correlation_link_in_transaction (len_link live_env) (\<lambda>_. the_sha) obs_link [] =
     Inr (obs_link, [link_to_row obs_link ''a'' the_sha])"
  "record_correlation_link_in_transaction (len_link live_env) (\<lambda>_. the_sha) receipt_link [] =
     Inr (receipt_link, [link_to_row receipt_link ''b'' the_sha])"
proof -
  have ids: "is_safe_operator_control_identifier (''correlation-'' @ take 48 the_sha)"
    "is_safe_operator_control_identifier (''intervention-pause-'' @ take 32 the_sha)"
    by (simp_all add: safe_eval the_sha_def list_all_iff)
  show "liveness_observation_correlation_link (\<lambda>_. the_sha) progress_obs = Inr obs_link"
    "intervention_correlation_link (\<lambda>_. the_sha) pause_receipt = Inr receipt_link"
    using ids by (simp_all add: liveness_observation_correlation_link_def intervention_correlation_link_def
        derived_link_def progress_obs_def pause_receipt_def obs_link_def receipt_link_def ep_link_def
        parse_id_def validated_def validate_identifier_def)
  have "validate_link obs_link = Inr ()" "validate_link receipt_link = Inr ()"
    using ids by (simp_all add: validate_link_def validate_trace_def obs_link_def receipt_link_def ep_link_def safe_eval)
  moreover have "link_from obs_link \<noteq> link_to obs_link" "link_from receipt_link \<noteq> link_to receipt_link"
    "safe_enum_name (cl_relation obs_link) = Inr (cl_relation obs_link)"
    "safe_enum_name (cl_relation receipt_link) = Inr (cl_relation receipt_link)"
    by (simp_all add: link_from_def link_to_def node_key_def obs_link_def receipt_link_def ep_link_def
        safe_enum_name_def ascii_defs)
  ultimately show "record_correlation_link_in_transaction (len_link live_env) (\<lambda>_. the_sha) obs_link [] =
     Inr (obs_link, [link_to_row obs_link ''a'' the_sha])"
  "record_correlation_link_in_transaction (len_link live_env) (\<lambda>_. the_sha) receipt_link [] =
     Inr (receipt_link, [link_to_row receipt_link ''b'' the_sha])"
    by (auto intro: first_link_recorded)
qed

lemma stalled_fields [simp]:
  "le_episode_id stalled = ''ep_1''" "le_run_id stalled = Some ''run_1''" "le_task_id stalled = Some ''task_1''"
  "le_attempt_id stalled = Some ''att_1''" "le_state stalled = ConfirmedStall" "le_version stalled = 1"
  "le_opened_at_ms stalled = 10" "le_updated_at_ms stalled = 10" "le_intervention_count stalled = 0"
  "le_next_review_at_ms stalled = Some 30" "le_sha256 stalled = the_sha"
  by (simp_all add: stalled_def)

lemma live_opened: "liveness_calls live_env [OpenEpisode stalled] live_db = stalled_db"
  by (simp add: liveness_calls_def after_call_def open_liveness_episode_def validated_def to_json_def
      lookup_row_def newest_first_def live_db_def stalled_db_def to_i64_def check_payload_sha_def)

lemma stalled_lookup:
  "lookup_row (\<lambda>r. er_id r = ''ep_1'') (episodes stalled_db) = Some (ep_to_row stalled ''a'' the_sha)"
  "checked_episode_row live_env (ep_to_row stalled ''a'' the_sha) = Inr stalled"
  "liveness_episode live_env ''ep_1'' stalled_db = Inr (Some stalled)"
  by (simp_all add: liveness_episode_def lookup_row_def stalled_db_def ep_to_row_def checked_episode_row_def
      checked_row_def)

lemma live_healed: "observe_episode live_env stalled progress_obs = Inr healed"
proof -
  have "checked_add (1::u64) 1 = Some 2" by (simp add: checked_add_def)
  moreover have "(reduce_episode (len_json live_env) stalled progress_obs)\<lparr>le_version := 2, le_updated_at_ms := 20\<rparr> = healed"
    by (simp add: reduce_episode_def Let_def progress_obs_def healed_def stalled_def)
  moreover have "lo_observed_at_ms progress_obs = 20" by (simp add: progress_obs_def)
  moreover have "healed\<lparr>le_sha256 := the_sha\<rparr> = healed" by (simp add: healed_def stalled_def)
  ultimately show ?thesis
    by (simp add: observe_episode_def Let_def seal_episode_def episode_digest_def digest_json_def validated_def)
qed

theorem episode_version_counts_records_witness:
  "liveness_episode live_env ''ep_1'' (liveness_calls live_env [OpenEpisode stalled] live_db) = Inr (Some stalled) \<and>
   unat (le_version stalled) = records (liveness_calls live_env [OpenEpisode stalled] live_db) ''ep_1'' + 1"
proof -
  have r: "liveness_episode live_env ''ep_1'' (liveness_calls live_env [OpenEpisode stalled] live_db) = Inr (Some stalled)"
    by (simp add: live_opened stalled_lookup)
  moreover have "episodes live_db = []" "lobs live_db = []" "receipts live_db = []" by (simp_all add: live_db_def)
  ultimately show ?thesis using episode_version_counts_records [OF live_codec_ok] by blast
qed

lemma live_observed:
  "\<exists>db. liveness_call live_env (ObserveEpisode ''ep_1'' 1 progress_obs) stalled_db = Inr (healed, db) \<and>
     episodes db = [ep_to_row healed ''c'' the_sha]"
proof -
  have ob: "lo_episode_id progress_obs = ''ep_1''" "lo_observed_at_ms progress_obs = 20"
    by (simp_all add: progress_obs_def)
  have tables: "lobs stalled_db = []" "llinks stalled_db = []" "episodes stalled_db = [ep_to_row stalled ''a'' the_sha]"
    by (simp_all add: stalled_db_def live_db_def)
  have "update_episode_row live_env True m ''ep_1'' healed ''c'' 1 (episodes stalled_db) =
      Inr [ep_to_row healed ''c'' the_sha]" for m
    by (simp add: update_episode_row_def tables ep_to_row_def to_i64_def check_payload_sha_def healed_def)
  then show ?thesis
    by (simp add: record_liveness_observation_def validated_def to_json_def to_i64_def ob lookup_row_def tables
        stalled_lookup ep_to_row_def [of stalled] checked_episode_row_def checked_row_def live_healed
        insert_lobs_row_def check_payload_sha_def)
qed

theorem only_progress_recovers_witness:
  "\<exists>e v ob. liveness_episode live_env ''ep_1''
      (after_call live_env stalled_db (ObserveEpisode ''ep_1'' 1 progress_obs)) = Inr (Some e) \<and>
    ObserveEpisode ''ep_1'' 1 progress_obs = ObserveEpisode ''ep_1'' v ob \<and>
    lo_observation_kind ob = MaterialProgress \<and> le_state e = Healthy"
proof -
  obtain db where call: "liveness_call live_env (ObserveEpisode ''ep_1'' 1 progress_obs) stalled_db = Inr (healed, db)"
    and eps: "episodes db = [ep_to_row healed ''c'' the_sha]" using live_observed by blast
  have read: "liveness_episode live_env ''ep_1'' db = Inr (Some healed)"
    by (simp add: liveness_episode_def lookup_row_def eps ep_to_row_def checked_episode_row_def checked_row_def)
      (simp add: healed_def)
  have start: "episodes live_db = []" "lobs live_db = []" "receipts live_db = []" by (simp_all add: live_db_def)
  have after: "after_call live_env stalled_db (ObserveEpisode ''ep_1'' 1 progress_obs) = db"
    using call by (simp add: after_call_def)
  have "le_state healed = Healthy" by (simp add: healed_def)
  with only_progress_recovers [OF live_codec_ok start live_opened [symmetric] stalled_lookup(3) _
      read [folded after]] read
  show ?thesis by (auto simp: after)
qed

lemma live_intervened: "intervene_episode live_env stalled pause_receipt = Inr paused_ep"
proof -
  have "checked_add (1::u64) 1 = Some 2" "checked_add (0::u32) 1 = Some 1" by (simp_all add: checked_add_def)
  moreover have "iv_created_at_ms pause_receipt = 15" by (simp add: pause_receipt_def)
  moreover have "stalled\<lparr>le_intervention_count := 1, le_version := 2, le_updated_at_ms := 15,
      le_next_review_at_ms := Some 30\<rparr> = paused_ep" by (simp add: paused_ep_def stalled_def)
  moreover have "paused_ep\<lparr>le_sha256 := the_sha\<rparr> = paused_ep" by (simp add: paused_ep_def stalled_def)
  ultimately show ?thesis
    by (simp add: intervene_episode_def Let_def seal_episode_def episode_digest_def digest_json_def validated_def)
qed

lemma execution_receipt_ok:
  assumes "is_safe_operator_control_identifier i"
    and "enc (len_receipt E) \<lparr>iv_schema = ''harness.intervention-receipt.v1'', iv_intervention_id = i,
      iv_episode_id = e, iv_kind = k, iv_source_event_id = s, iv_target_version = v, iv_policy_version = p,
      iv_requested_by = who, iv_created_at_ms = t, iv_sha256 = []\<rparr> = Some raw"
  shows "execution_receipt E i e k s v p who t = Inr \<lparr>iv_schema = ''harness.intervention-receipt.v1'',
      iv_intervention_id = i, iv_episode_id = e, iv_kind = k, iv_source_event_id = s, iv_target_version = v,
      iv_policy_version = p, iv_requested_by = who, iv_created_at_ms = t, iv_sha256 = len_sha E raw\<rparr>"
  using assms by (simp add: execution_receipt_def Let_def validated_def parse_id_def validate_identifier_def
      intervention_digest_def digest_json_def)

lemma live_paused:
  "\<exists>db. liveness_call live_env (ExecutePause 15 ''ep_1'' 1 ''op'') stalled_db = Inr (paused_ep, db) \<and>
     runs db = [\<lparr>rn_id = ''run_1'', rn_scheduler_paused = True, rn_updated_at = 15, rn_version = 2\<rparr>]"
proof -
  have iv: "iv_episode_id pause_receipt = ''ep_1''" "iv_created_at_ms pause_receipt = 15"
    "iv_target_version pause_receipt = 1"
    by (simp_all add: pause_receipt_def)
  have tables: "receipts stalled_db = []" "llinks stalled_db = []"
    "episodes stalled_db = [ep_to_row stalled ''a'' the_sha]"
    "runs stalled_db = [\<lparr>rn_id = ''run_1'', rn_scheduler_paused = False, rn_updated_at = 0, rn_version = 1\<rparr>]"
    by (simp_all add: stalled_db_def live_db_def)
  have upd: "update_episode_row live_env False m ''ep_1'' paused_ep ''e'' 1 [ep_to_row stalled ''a'' the_sha] =
      Inr [ep_to_row paused_ep ''e'' the_sha]" for m
    by (simp add: update_episode_row_def ep_to_row_def to_i64_def check_payload_sha_def paused_ep_def)
  have "is_safe_operator_control_identifier (''intervention-pause-'' @ take 32 the_sha)"
    by (simp add: safe_eval the_sha_def list_all_iff)
  then have receipt: "execution_receipt live_env (''intervention-pause-'' @ take 32 the_sha) ''ep_1'' PauseForOperator
      (''liveness-pause-'' @ take 32 the_sha) 1 PAUSE_FOR_OPERATOR_INTERVENTION_POLICY_VERSION ''op'' 15 = Inr pause_receipt"
    by (subst execution_receipt_ok [where raw = "''b''"])
      (simp_all add: live_env_def list_codec_def pause_receipt_def PAUSE_FOR_OPERATOR_INTERVENTION_POLICY_VERSION_def)
  have paused_version: "le_version paused_ep = 2" by (simp add: paused_ep_def)
  have recorded: "\<exists>db'. record_intervention_receipt live_env pause_receipt db = Inr (paused_ep, db') \<and> runs db' = runs db"
    if "receipts db = []" "llinks db = []" "episodes db = [ep_to_row stalled ''a'' the_sha]" for db
    using that upd stalled_lookup(2) paused_version
    by (simp add: record_intervention_receipt_def lookup_row_def iv validated_def to_json_def live_intervened to_i64_def
        insert_receipt_row_def check_payload_sha_def ep_to_row_def [of stalled])
  have "\<exists>db'. record_intervention_receipt live_env pause_receipt (stalled_db\<lparr>runs := rs, human_actions := hs\<rparr>) =
      Inr (paused_ep, db') \<and> runs db' = rs" for rs hs
    using recorded [of "stalled_db\<lparr>runs := rs, human_actions := hs\<rparr>"] tables by simp
  then show ?thesis
    by (simp add: execute_pause_for_operator_intervention_def Let_def tables lookup_row_def
        stalled_lookup(2) ep_to_row_def [of stalled, THEN arg_cong, of er_id] receipt [simplified] pause_run_def iv)
qed

theorem pause_needs_stalled_episode_witness:
  "\<exists>e. liveness_episode live_env ''ep_1'' stalled_db = Inr (Some e) \<and>
    le_state e \<in> {ConfirmedStall, RecoveryRequired} \<and> le_run_id e = Some ''run_1'' \<and>
    rn_scheduler_paused (runs (after_call live_env stalled_db (ExecutePause 15 ''ep_1'' 1 ''op'')) ! 0)"
proof -
  obtain db where call: "liveness_call live_env (ExecutePause 15 ''ep_1'' 1 ''op'') stalled_db = Inr (paused_ep, db)"
    and rs: "runs db = [\<lparr>rn_id = ''run_1'', rn_scheduler_paused = True, rn_updated_at = 15, rn_version = 2\<rparr>]"
    using live_paused by blast
  have start: "episodes live_db = []" "lobs live_db = []" "receipts live_db = []" by (simp_all add: live_db_def)
  have run0: "runs stalled_db = [\<lparr>rn_id = ''run_1'', rn_scheduler_paused = False, rn_updated_at = 0, rn_version = 1\<rparr>]"
    by (simp add: stalled_db_def live_db_def)
  have "after_call live_env stalled_db (ExecutePause 15 ''ep_1'' 1 ''op'') = db"
    using call by (simp add: after_call_def)
  with pause_needs_stalled_episode [OF live_codec_ok start live_opened [symmetric], of 0
      "ExecutePause 15 ''ep_1'' 1 ''op''"]
  show ?thesis by (auto simp: rs run0)
qed

theorem late_activity_is_refused_witness:
  "\<exists>err. observe_episode live_env stalled
     (progress_obs\<lparr>lo_observation_kind := RuntimeHeartbeat, lo_observed_at_ms := 31\<rparr>) = Inl err"
  by (rule late_activity_is_refused [where t = 30]) (simp_all add: value_flag_def live_env_def)

end
