(* ===== verification/Usage_Cost.thy ===== *)
theory Usage_Cost
  imports Rust_Prelude
begin

text \<open>
  Token usage and API-equivalent cost (\<^verbatim>\<open>harness-usage/src/lib.rs\<close>, with the types of
  \<^verbatim>\<open>harness-domain/src/lib.rs\<close>). Prices are in micro-dollars per million tokens; intermediate values are
  128-bit words with the saturating operations of the code, results are narrowed to 64 bits.

  The theorems: no addition of an estimate can wrap, the bounds are ordered and coincide exactly when
  the cache-write count was reported; the range given when it was not reported contains the exact
  cost up to one micro-dollar of rounding, and that slack is needed; aggregation keeps the counters
  consistent.
\<close>

type_synonym u128 = "128 word"

section \<open>Data\<close>

datatype DomainError =
  UnknownState string | IllegalTransition string string | InvalidUsage string | DomainValidation string

datatype UsageError = Domain DomainError | ImpossibleCounters string | Overflow

record TokenUsage =
  tu_input_tokens :: u64
  tu_cached_input_tokens :: u64
  tu_cache_write_input_tokens :: "u64 option"
  tu_output_tokens :: u64
  tu_reasoning_output_tokens :: u64
  tu_total_tokens :: u64
  tu_model_context_window :: "u64 option"

record PricingSnapshot =
  ps_id :: string
  ps_model :: string
  ps_effective_at :: string
  ps_input_microusd_per_million :: u64
  ps_cached_input_microusd_per_million :: u64
  ps_output_microusd_per_million :: u64
  ps_cache_write_multiplier_numerator :: u64
  ps_cache_write_multiplier_denominator :: u64
  ps_long_context_threshold_tokens :: "u64 option"
  ps_long_context_input_multiplier_numerator :: "u64 option"
  ps_long_context_input_multiplier_denominator :: "u64 option"
  ps_long_context_output_multiplier_numerator :: "u64 option"
  ps_long_context_output_multiplier_denominator :: "u64 option"

datatype CostConfidence = Exact | Bounded | UnknownCost

record CostEstimate =
  ce_lower_microusd :: u64
  ce_upper_microusd :: u64
  ce_confidence :: CostConfidence
  ce_pricing_snapshot_ids :: "string list"
  ce_explanation :: string

text \<open>The totals of a \<open>UsageSummary\<close>; \<open>by_model\<close> is filled by the store and not touched here.\<close>

record UsageSummary =
  us_input_tokens :: u64
  us_cached_input_tokens :: u64
  us_cache_write_input_tokens :: "u64 option"
  us_output_tokens :: u64
  us_reasoning_output_tokens :: u64
  us_total_tokens :: u64
  us_cost :: CostEstimate

section \<open>Operations\<close>

definition validate_usage :: "TokenUsage \<Rightarrow> DomainError + unit" where
  "validate_usage u = all_ok
    [ensure (\<not> tu_cached_input_tokens u > tu_input_tokens u) (InvalidUsage ''cached input exceeds input''),
     ensure (\<not> (case tu_cache_write_input_tokens u of None \<Rightarrow> 0 | Some w \<Rightarrow> w) > tu_input_tokens u)
       (InvalidUsage ''cache-write input exceeds input''),
     ensure (\<not> tu_reasoning_output_tokens u > tu_output_tokens u)
       (InvalidUsage ''reasoning output exceeds output'')]"

definition TOKEN_DENOMINATOR :: u128 where
  "TOKEN_DENOMINATOR = 1000000"

definition ratio :: "u64 option \<Rightarrow> u64 option \<Rightarrow> u128 \<times> u128" where
  "ratio numerator denominator =
    (ucast (case numerator of None \<Rightarrow> 1 | Some n \<Rightarrow> n),
     ucast (max (case denominator of None \<Rightarrow> 1 | Some d \<Rightarrow> d) 1))"

definition apply_ratio :: "u128 \<Rightarrow> u128 \<times> u128 \<Rightarrow> u128" where
  "apply_ratio v r = sat_mul v (fst r) div max (snd r) 1"

definition token_cost :: "u128 \<Rightarrow> u128 \<Rightarrow> u128" where
  "token_cost tokens rate =
     sat_add (sat_mul tokens rate) (TOKEN_DENOMINATOR div 2) div TOKEN_DENOMINATOR"

definition to_u64 :: "u128 \<Rightarrow> UsageError + u64" where
  "to_u64 v = (if unat v < 2 ^ 64 then Inr (ucast v) else Inl Overflow)"

definition is_long_context :: "TokenUsage \<Rightarrow> PricingSnapshot \<Rightarrow> bool" where
  "is_long_context u p \<longleftrightarrow>
     is_some_and (\<lambda>threshold. tu_input_tokens u > threshold) (ps_long_context_threshold_tokens p)"

definition input_multiplier :: "TokenUsage \<Rightarrow> PricingSnapshot \<Rightarrow> u128 \<times> u128" where
  "input_multiplier u p =
    (if is_long_context u p
     then ratio (ps_long_context_input_multiplier_numerator p) (ps_long_context_input_multiplier_denominator p)
     else (1, 1))"

definition output_multiplier :: "TokenUsage \<Rightarrow> PricingSnapshot \<Rightarrow> u128 \<times> u128" where
  "output_multiplier u p =
    (if is_long_context u p
     then ratio (ps_long_context_output_multiplier_numerator p) (ps_long_context_output_multiplier_denominator p)
     else (1, 1))"

definition input_rate :: "TokenUsage \<Rightarrow> PricingSnapshot \<Rightarrow> u128" where
  "input_rate u p = apply_ratio (ucast (ps_input_microusd_per_million p)) (input_multiplier u p)"

definition output_rate :: "TokenUsage \<Rightarrow> PricingSnapshot \<Rightarrow> u128" where
  "output_rate u p = apply_ratio (ucast (ps_output_microusd_per_million p)) (output_multiplier u p)"

definition cache_write_rate :: "TokenUsage \<Rightarrow> PricingSnapshot \<Rightarrow> u128" where
  "cache_write_rate u p = apply_ratio (input_rate u p)
     (ucast (ps_cache_write_multiplier_numerator p),
      ucast (max (ps_cache_write_multiplier_denominator p) 1))"

definition cached_rate :: "TokenUsage \<Rightarrow> PricingSnapshot \<Rightarrow> u128" where
  "cached_rate u p = apply_ratio (ucast (ps_cached_input_microusd_per_million p)) (input_multiplier u p)"

definition fixed_cost :: "TokenUsage \<Rightarrow> PricingSnapshot \<Rightarrow> u128" where
  "fixed_cost u p =
     token_cost (ucast (tu_cached_input_tokens u)) (cached_rate u p) +
     token_cost (ucast (tu_output_tokens u)) (output_rate u p)"

definition non_cached :: "TokenUsage \<Rightarrow> u128" where
  "non_cached u = ucast (tu_input_tokens u - tu_cached_input_tokens u)"

definition cost_range ::
  "TokenUsage \<Rightarrow> PricingSnapshot \<Rightarrow> UsageError + (u128 \<times> u128 \<times> CostConfidence \<times> string)" where
  "cost_range u p =
    (case tu_cache_write_input_tokens u of
       Some w \<Rightarrow>
        (let cache_write = ucast w
         in if cache_write > non_cached u
            then Inl (ImpossibleCounters ''cached plus cache-write input exceeds total input'')
            else
              let normal = non_cached u - cache_write;
                  total = fixed_cost u p + token_cost normal (input_rate u p) +
                    token_cost cache_write (cache_write_rate u p)
              in Inr (total, total, Exact,
                ''Per-turn observed usage; reasoning output is included in output and not charged twice.''))
     | None \<Rightarrow>
        (let all_normal = fixed_cost u p + token_cost (non_cached u) (input_rate u p);
             all_cache_write = fixed_cost u p + token_cost (non_cached u) (cache_write_rate u p)
         in Inr (min all_normal all_cache_write, max all_normal all_cache_write, Bounded,
              ''Cache-write input was not reported; the range spans zero through all non-cached input. Reasoning output is not charged twice.'')))"

definition estimate :: "TokenUsage \<Rightarrow> PricingSnapshot \<Rightarrow> UsageError + CostEstimate" where
  "estimate u p =
     and_then (map_err Domain (validate_usage u))
    (\<lambda>_. and_then (cost_range u p)
    (\<lambda>(lower, upper, confidence, explanation). and_then (to_u64 lower)
    (\<lambda>lo. and_then (to_u64 upper)
    (\<lambda>hi. Inr \<lparr>ce_lower_microusd = lo, ce_upper_microusd = hi, ce_confidence = confidence,
             ce_pricing_snapshot_ids = [ps_id p], ce_explanation = explanation\<rparr>))))"

fun aggregate_confidence :: "CostConfidence \<Rightarrow> CostConfidence \<Rightarrow> CostConfidence" where
  "aggregate_confidence UnknownCost _ = UnknownCost"
| "aggregate_confidence _ UnknownCost = UnknownCost"
| "aggregate_confidence Bounded _ = Bounded"
| "aggregate_confidence _ Bounded = Bounded"
| "aggregate_confidence Exact Exact = Exact"

fun push_new :: "string list \<Rightarrow> string list \<Rightarrow> string list" where
  "push_new ids [] = ids"
| "push_new ids (x # xs) = push_new (if x \<in> set ids then ids else ids @ [x]) xs"

definition add_cost :: "bool \<Rightarrow> CostEstimate \<Rightarrow> CostEstimate \<Rightarrow> CostEstimate" where
  "add_cost was_empty s c = s\<lparr>
     ce_lower_microusd := sat_add (ce_lower_microusd s) (ce_lower_microusd c),
     ce_upper_microusd := sat_add (ce_upper_microusd s) (ce_upper_microusd c),
     ce_confidence := (if was_empty then ce_confidence c
       else aggregate_confidence (ce_confidence s) (ce_confidence c)),
     ce_pricing_snapshot_ids := push_new (ce_pricing_snapshot_ids s) (ce_pricing_snapshot_ids c)\<rparr>"

definition add_sample :: "UsageSummary \<Rightarrow> TokenUsage \<Rightarrow> CostEstimate \<Rightarrow> UsageError + UsageSummary" where
  "add_sample s u c =
     and_then (map_err Domain (validate_usage u))
    (\<lambda>_. let was_empty = (us_total_tokens s = 0 \<and> ce_lower_microusd (us_cost s) = 0 \<and>
              ce_upper_microusd (us_cost s) = 0 \<and> ce_pricing_snapshot_ids (us_cost s) = [])
     in Inr (s\<lparr>
          us_input_tokens := sat_add (us_input_tokens s) (tu_input_tokens u),
          us_cached_input_tokens := sat_add (us_cached_input_tokens s) (tu_cached_input_tokens u),
          us_cache_write_input_tokens :=
            (case (us_cache_write_input_tokens s, tu_cache_write_input_tokens u) of
               (Some l, Some r) \<Rightarrow> Some (sat_add l r)
             | (None, Some r) \<Rightarrow> (if us_total_tokens s = 0 then Some r else None)
             | _ \<Rightarrow> None),
          us_output_tokens := sat_add (us_output_tokens s) (tu_output_tokens u),
          us_reasoning_output_tokens := sat_add (us_reasoning_output_tokens s) (tu_reasoning_output_tokens u),
          us_total_tokens := sat_add (us_total_tokens s) (tu_total_tokens u),
          us_cost := add_cost was_empty (us_cost s) c\<rparr>))"

text \<open>\<open>{:02}\<close> pads with a zero on the left.\<close>

definition format_usd :: "u64 \<Rightarrow> string" where
  "format_usd microusd =
    (let dollars = microusd div 1000000; cents = (microusd mod 1000000) div 10000
     in ''$'' @ digits (unat dollars) @ ''.'' @
        (if unat cents < 10 then ''0'' else []) @ digits (unat cents))"

section \<open>Arithmetic of estimates\<close>

text \<open>The rounded cost of a component without bounds on its size.\<close>

definition exact_cost :: "nat \<Rightarrow> nat \<Rightarrow> nat" where
  "exact_cost n r = (n * r + 500000) div 1000000"

lemma exact_cost_mono: "r \<le> r' \<Longrightarrow> exact_cost n r \<le> exact_cost n r'"
  unfolding exact_cost_def by (intro div_le_mono) simp

lemma exact_cost_min_max: "exact_cost n (min r r') \<le> exact_cost n (max r r')"
  by (rule exact_cost_mono) simp

lemma unat_ucast_128 [simp]: "unat (ucast (x :: u64) :: u128) = unat x"
proof -
  have "unat x < 2 ^ 64" using unsigned_less [of x] by simp
  then have "unat x < 2 ^ 128" by (rule less_le_trans) simp
  then show ?thesis by (simp add: unsigned_ucast_eq take_bit_nat_eq_self)
qed

lemma unat_token_cost:
  "unat (token_cost t r) =
     min (min (unat t * unat r) (2 ^ 128 - 1) + 500000) (2 ^ 128 - 1) div 1000000"
proof -
  have "unat (TOKEN_DENOMINATOR div 2) = 500000" "unat TOKEN_DENOMINATOR = 1000000"
    by (simp_all add: TOKEN_DENOMINATOR_def unat_div)
  then show ?thesis by (simp add: token_cost_def unat_div unat_sat_add unat_sat_mul)
qed

lemma token_cost_small: "unat (token_cost t r) \<le> (2 ^ 128 - 1) div 1000000"
  unfolding unat_token_cost by (intro div_le_mono) simp

lemma token_cost_exact:
  assumes "unat (token_cost t r) < 2 ^ 64"
  shows "unat (token_cost t r) = exact_cost (unat t) (unat r)"
proof (cases "unat t * unat r + 500000 \<le> 2 ^ 128 - 1")
  case True
  then show ?thesis by (simp add: unat_token_cost exact_cost_def min_def)
next
  case False
  then have "unat (token_cost t r) = (2 ^ 128 - 1) div 1000000"
    by (simp add: unat_token_cost min_def)
  with assms show ?thesis by simp
qed

lemma plus_no_wrap:
  fixes a b :: u128
  assumes "unat a \<le> m" and "unat b \<le> n" and "m + n < 2 ^ 128"
  shows "unat (a + b) = unat a + unat b"
  using assms by (simp add: unat_word_ariths)

text \<open>None of the additions of an estimate can wrap.\<close>

lemma fixed_cost_unat:
  "unat (fixed_cost u p) =
     unat (token_cost (ucast (tu_cached_input_tokens u)) (cached_rate u p)) +
     unat (token_cost (ucast (tu_output_tokens u)) (output_rate u p))"
  unfolding fixed_cost_def by (rule plus_no_wrap [OF token_cost_small token_cost_small]) simp

lemma fixed_cost_small: "unat (fixed_cost u p) \<le> 2 * ((2 ^ 128 - 1) div 1000000)"
  unfolding fixed_cost_unat mult_2 by (rule add_mono [OF token_cost_small token_cost_small])

lemma one_more_cost: "unat (fixed_cost u p + token_cost t r) = unat (fixed_cost u p) + unat (token_cost t r)"
  by (rule plus_no_wrap [OF fixed_cost_small token_cost_small]) simp

lemma two_more_costs:
  "unat (fixed_cost u p + token_cost t r + token_cost t' r') =
     unat (fixed_cost u p) + unat (token_cost t r) + unat (token_cost t' r')"
proof -
  have "unat (fixed_cost u p + token_cost t r) \<le> 3 * ((2 ^ 128 - 1) div 1000000)"
    unfolding one_more_cost using fixed_cost_small [of u p] token_cost_small [of t r] by linarith
  from plus_no_wrap [OF this token_cost_small, of t' r'] show ?thesis
    by (simp add: one_more_cost)
qed

lemma to_u64_ok: "to_u64 v = Inr x \<Longrightarrow> unat v < 2 ^ 64 \<and> unat x = unat v"
  by (auto simp: to_u64_def unsigned_ucast_eq take_bit_nat_eq_self split: if_splits)

lemma validate_usage_ok [ok_iff]:
  "validate_usage u = Inr () \<longleftrightarrow>
     tu_cached_input_tokens u \<le> tu_input_tokens u \<and>
     (\<forall>w. tu_cache_write_input_tokens u = Some w \<longrightarrow> w \<le> tu_input_tokens u) \<and>
     tu_reasoning_output_tokens u \<le> tu_output_tokens u"
  by (cases "tu_cache_write_input_tokens u") (auto simp: validate_usage_def not_less)

text \<open>What a successful estimate returns, over the naturals.\<close>

lemma estimate_exact:
  assumes "estimate u p = Inr c" and w: "tu_cache_write_input_tokens u = Some w"
  shows "unat (ce_lower_microusd c) = unat (fixed_cost u p) +
      exact_cost (unat (non_cached u) - unat w) (unat (input_rate u p)) +
      exact_cost (unat w) (unat (cache_write_rate u p)) \<and>
    ce_upper_microusd c = ce_lower_microusd c \<and> ce_confidence c = Exact \<and> unat w \<le> unat (non_cached u)"
proof -
  let ?n = "non_cached u - ucast w"
  let ?t = "fixed_cost u p + token_cost ?n (input_rate u p) + token_cost (ucast w) (cache_write_rate u p)"
  from assms have le: "ucast w \<le> non_cached u" and c: "ce_upper_microusd c = ce_lower_microusd c" "ce_confidence c = Exact"
    and lo: "to_u64 ?t = Inr (ce_lower_microusd c)"
    by (auto simp: estimate_def cost_range_def and_then_ok Let_def split: if_splits)
  note lo' = to_u64_ok [OF lo, unfolded two_more_costs]
  have "unat (token_cost ?n (input_rate u p)) < 2 ^ 64" "unat (token_cost (ucast w) (cache_write_rate u p)) < 2 ^ 64"
    using lo' by linarith+
  note costs = this [THEN token_cost_exact]
  have wn: "unat w \<le> unat (non_cached u)" using le by (simp add: word_le_nat_alt)
  then have "unat ?n = unat (non_cached u) - unat w" using le by (simp add: unat_sub)
  then show ?thesis using lo' c wn unfolding costs by simp
qed

lemma estimate_bounded:
  assumes "estimate u p = Inr c" and none: "tu_cache_write_input_tokens u = None"
  shows "unat (ce_lower_microusd c) = unat (fixed_cost u p) +
      exact_cost (unat (non_cached u)) (min (unat (input_rate u p)) (unat (cache_write_rate u p))) \<and>
    unat (ce_upper_microusd c) = unat (fixed_cost u p) +
      exact_cost (unat (non_cached u)) (max (unat (input_rate u p)) (unat (cache_write_rate u p))) \<and>
    ce_confidence c = Bounded"
proof -
  let ?a = "fixed_cost u p + token_cost (non_cached u) (input_rate u p)"
  let ?b = "fixed_cost u p + token_cost (non_cached u) (cache_write_rate u p)"
  from assms have c: "ce_confidence c = Bounded"
    and lo: "to_u64 (min ?a ?b) = Inr (ce_lower_microusd c)"
    and hi: "to_u64 (max ?a ?b) = Inr (ce_upper_microusd c)"
    by (auto simp: estimate_def cost_range_def and_then_ok Let_def split: if_splits)
  have minmax: "exact_cost n (min r r') = min (exact_cost n r) (exact_cost n r')"
    "exact_cost n (max r r') = max (exact_cost n r) (exact_cost n r')" for n r r'
    using exact_cost_mono [of r r' n] exact_cost_mono [of r' r n] by (auto simp: min_def max_def)
  have un: "unat (min ?a ?b) = min (unat ?a) (unat ?b)" "unat (max ?a ?b) = max (unat ?a) (unat ?b)"
    by (auto simp: min_def max_def word_le_nat_alt)
  have small: "unat ?a < 2 ^ 64" "unat ?b < 2 ^ 64"
    using to_u64_ok [OF hi] unfolding un by simp_all
  then have "unat (token_cost (non_cached u) (input_rate u p)) < 2 ^ 64"
    "unat (token_cost (non_cached u) (cache_write_rate u p)) < 2 ^ 64"
    unfolding one_more_cost by linarith+
  note costs = this [THEN token_cost_exact]
  have ab: "unat ?a = unat (fixed_cost u p) + exact_cost (unat (non_cached u)) (unat (input_rate u p))"
    "unat ?b = unat (fixed_cost u p) + exact_cost (unat (non_cached u)) (unat (cache_write_rate u p))"
    unfolding one_more_cost costs by (rule refl)+
  show ?thesis
    using to_u64_ok [OF lo] to_u64_ok [OF hi] c unfolding un ab minmax
    by (simp add: min_add_distrib_right max_add_distrib_right)
qed

section \<open>Properties of estimates\<close>

lemma rounding_slack:
  fixes a b :: nat
  shows "(a + 500000) div 1000000 + (b + 500000) div 1000000 \<le> (a + b + 500000) div 1000000 + 1"
    and "(a + b + 500000) div 1000000 \<le> (a + 500000) div 1000000 + (b + 500000) div 1000000 + 1"
proof -
  let ?M = "1000000 :: nat"
  let ?x = "a + 500000" and ?y = "b + 500000"
  have sum: "(?x + ?y) div ?M = ?x div ?M + ?y div ?M + (?x mod ?M + ?y mod ?M) div ?M"
    by (rule div_add1_eq)
  have xy: "?x + ?y = (a + b) + ?M" by simp
  have up: "(?x + ?y) div ?M = (a + b) div ?M + 1" unfolding xy by (rule div_add_self2) simp
  have "(a + b) div ?M \<le> (a + b + 500000) div ?M" by (rule div_le_mono) simp
  with sum up show "?x div ?M + ?y div ?M \<le> (a + b + 500000) div ?M + 1" by linarith
  have "?x mod ?M + ?y mod ?M < 2 * ?M" using mod_less_divisor [of ?M ?x] mod_less_divisor [of ?M ?y] by simp
  then have "(?x mod ?M + ?y mod ?M) div ?M < 2" by (rule less_mult_imp_div_less)
  moreover have "(a + b + 500000) div ?M \<le> (?x + ?y) div ?M" by (rule div_le_mono) simp
  ultimately show "(a + b + 500000) div ?M \<le> ?x div ?M + ?y div ?M + 1" using sum by linarith
qed

lemma split_cost_bounds:
  assumes "w \<le> n"
  shows "exact_cost (n - w) r + exact_cost w r' \<le> exact_cost n (max r r') + 1"
    and "exact_cost n (min r r') \<le> exact_cost (n - w) r + exact_cost w r' + 1"
proof -
  have "(n - w) * r + w * r' \<le> (n - w) * max r r' + w * max r r'" by (intro add_mono mult_le_mono) simp_all
  also have "\<dots> = n * max r r'" using assms by (simp flip: add_mult_distrib)
  finally have "(n - w) * r + w * r' + 500000 \<le> n * max r r' + 500000" by simp
  with rounding_slack(1) [of "(n - w) * r" "w * r'"]
  show "exact_cost (n - w) r + exact_cost w r' \<le> exact_cost n (max r r') + 1"
    unfolding exact_cost_def by (meson add_le_mono1 div_le_mono le_trans)
  have "n * min r r' = (n - w) * min r r' + w * min r r'" using assms by (simp flip: add_mult_distrib)
  also have "\<dots> \<le> (n - w) * r + w * r'" by (intro add_mono mult_le_mono) simp_all
  finally have "n * min r r' + 500000 \<le> (n - w) * r + w * r' + 500000" by simp
  with rounding_slack(2) [of "(n - w) * r" "w * r'"]
  show "exact_cost n (min r r') \<le> exact_cost (n - w) r + exact_cost w r' + 1"
    unfolding exact_cost_def by (meson div_le_mono le_trans)
qed

lemma cost_ignores_cache_write [simp]:
  "fixed_cost (u\<lparr>tu_cache_write_input_tokens := x\<rparr>) p = fixed_cost u p"
  "input_rate (u\<lparr>tu_cache_write_input_tokens := x\<rparr>) p = input_rate u p"
  "cache_write_rate (u\<lparr>tu_cache_write_input_tokens := x\<rparr>) p = cache_write_rate u p"
  "non_cached (u\<lparr>tu_cache_write_input_tokens := x\<rparr>) = non_cached u"
  by (simp_all add: fixed_cost_def cached_rate_def output_rate_def cache_write_rate_def input_rate_def
      input_multiplier_def output_multiplier_def is_long_context_def non_cached_def)

text \<open>
  The cost range brackets the exact cost: when the cache-write count of a turn is not reported, the
  estimated range is ordered, and for every count the provider could have reported the exact
  estimate lies in the range up to one micro-dollar of rounding on either side.
\<close>

theorem bounded_estimate_brackets_exact:
  assumes range: "estimate (u\<lparr>tu_cache_write_input_tokens := None\<rparr>) p = Inr b"
    and exact: "estimate (u\<lparr>tu_cache_write_input_tokens := Some w\<rparr>) p = Inr c"
  shows "ce_confidence b = Bounded \<and> ce_confidence c = Exact \<and>
    unat (ce_lower_microusd b) \<le> unat (ce_upper_microusd b) \<and>
    ce_lower_microusd c = ce_upper_microusd c \<and>
    unat (ce_lower_microusd b) \<le> unat (ce_lower_microusd c) + 1 \<and>
    unat (ce_upper_microusd c) \<le> unat (ce_upper_microusd b) + 1"
proof -
  note bd = estimate_bounded [OF range, simplified] and e = estimate_exact [OF exact, simplified]
  have wn: "unat w \<le> unat (non_cached u)" using e by blast
  note s = split_cost_bounds [OF wn, of "unat (input_rate u p)" "unat (cache_write_rate u p)"]
  from exact_cost_min_max [of "unat (non_cached u)" "unat (input_rate u p)" "unat (cache_write_rate u p)"] bd e s
  show ?thesis by auto
qed

definition sample_pricing :: PricingSnapshot where
  "sample_pricing = \<lparr>ps_id = ''p1'', ps_model = ''m'', ps_effective_at = ''t'',
     ps_input_microusd_per_million = 500000, ps_cached_input_microusd_per_million = 0,
     ps_output_microusd_per_million = 0, ps_cache_write_multiplier_numerator = 1,
     ps_cache_write_multiplier_denominator = 1, ps_long_context_threshold_tokens = None,
     ps_long_context_input_multiplier_numerator = None, ps_long_context_input_multiplier_denominator = None,
     ps_long_context_output_multiplier_numerator = None, ps_long_context_output_multiplier_denominator = None\<rparr>"

definition sample_usage :: "u64 option \<Rightarrow> TokenUsage" where
  "sample_usage w = \<lparr>tu_input_tokens = 2, tu_cached_input_tokens = 0, tu_cache_write_input_tokens = w,
     tu_output_tokens = 0, tu_reasoning_output_tokens = 0, tu_total_tokens = 2, tu_model_context_window = None\<rparr>"

lemma sample_estimates:
  "map_sum id (\<lambda>c. (ce_lower_microusd c, ce_upper_microusd c)) (estimate (sample_usage None) sample_pricing) =
     Inr (1, 1)"
  "map_sum id (\<lambda>c. (ce_lower_microusd c, ce_upper_microusd c)) (estimate (sample_usage (Some 1)) sample_pricing) =
     Inr (2, 2)"
  by (simp_all add: estimate_def validate_usage_def cost_range_def sample_usage_def sample_pricing_def
      non_cached_def fixed_cost_def cached_rate_def output_rate_def input_rate_def cache_write_rate_def
      input_multiplier_def output_multiplier_def is_long_context_def apply_ratio_def token_cost_def
      TOKEN_DENOMINATOR_def sat_mul_def sat_add_def to_u64_def Let_def)

theorem bounded_estimate_brackets_exact_witness:
  "\<exists>b c. estimate (sample_usage None) sample_pricing = Inr b \<and>
     estimate (sample_usage (Some 1)) sample_pricing = Inr c \<and>
     unat (ce_upper_microusd c) \<le> unat (ce_upper_microusd b) + 1"
proof -
  obtain b c where b: "estimate (sample_usage None) sample_pricing = Inr b"
    and c: "estimate (sample_usage (Some 1)) sample_pricing = Inr c"
    using sample_estimates by (auto simp: map_sum_def split: sum.splits)
  have "(sample_usage None)\<lparr>tu_cache_write_input_tokens := x\<rparr> = sample_usage x" for x
    by (simp add: sample_usage_def)
  with bounded_estimate_brackets_exact [of "sample_usage None" sample_pricing b 1 c] b c
  show ?thesis by simp
qed

text \<open>
  The slack is real: a turn exists whose exact cost is above the upper bound of the range that is
  given when its cache-write count is missing, because each component is rounded by itself.
\<close>

theorem bounded_range_can_miss_exact:
  "\<exists>u p w b c. estimate (u\<lparr>tu_cache_write_input_tokens := None\<rparr>) p = Inr b \<and>
     estimate (u\<lparr>tu_cache_write_input_tokens := Some w\<rparr>) p = Inr c \<and>
     ce_upper_microusd b < ce_lower_microusd c"
proof -
  obtain b c where "estimate (sample_usage None) sample_pricing = Inr b" "ce_upper_microusd b = 1"
    and "estimate (sample_usage (Some 1)) sample_pricing = Inr c" "ce_lower_microusd c = 2"
    using sample_estimates by (auto simp: map_sum_def split: sum.splits)
  moreover have "(sample_usage None)\<lparr>tu_cache_write_input_tokens := x\<rparr> = sample_usage x" for x
    by (simp add: sample_usage_def)
  ultimately show ?thesis
    by (intro exI [of _ "sample_usage None"] exI [of _ sample_pricing] exI [of _ 1] exI [of _ b] exI [of _ c]) simp
qed

section \<open>Aggregation\<close>

interpretation confidence: semilattice_neutr aggregate_confidence Exact
proof
  fix a b c :: CostConfidence
  show "aggregate_confidence (aggregate_confidence a b) c = aggregate_confidence a (aggregate_confidence b c)"
    by (cases a; cases b; cases c) simp_all
  show "aggregate_confidence a b = aggregate_confidence b a" by (cases a; cases b) simp_all
  show "aggregate_confidence a a = a" by (cases a) simp_all
  show "aggregate_confidence a Exact = a" by (cases a) simp_all
qed

lemma sat_add_mono: "a \<le> c \<Longrightarrow> b \<le> d \<Longrightarrow> sat_add a b \<le> sat_add c d" for a b c d :: "'a::len word"
  by (simp add: word_le_nat_alt unat_sat_add min.coboundedI1)

lemma push_new_set: "set (push_new ids xs) = set ids \<union> set xs"
  by (induction ids xs rule: push_new.induct) auto

lemma push_new_distinct: "distinct ids \<Longrightarrow> distinct (push_new ids xs)"
  by (induction ids xs rule: push_new.induct) auto

text \<open>Counters that can stand for real turns, in a summary as in a sample.\<close>

definition summary_ok :: "UsageSummary \<Rightarrow> bool" where
  "summary_ok s \<longleftrightarrow> us_cached_input_tokens s \<le> us_input_tokens s \<and>
     (\<forall>w. us_cache_write_input_tokens s = Some w \<longrightarrow> w \<le> us_input_tokens s) \<and>
     us_reasoning_output_tokens s \<le> us_output_tokens s \<and>
     ce_lower_microusd (us_cost s) \<le> ce_upper_microusd (us_cost s) \<and>
     distinct (ce_pricing_snapshot_ids (us_cost s))"

fun add_samples :: "UsageSummary \<Rightarrow> (TokenUsage \<times> CostEstimate) list \<Rightarrow> UsageError + UsageSummary" where
  "add_samples s [] = Inr s"
| "add_samples s ((u, c) # xs) = and_then (add_sample s u c) (\<lambda>s'. add_samples s' xs)"

lemma le_sat_add: "b \<le> sat_add a b" for a b :: "'a::len word"
proof -
  have "unat b < 2 ^ LENGTH('a)" by (rule unsigned_less)
  then have "unat b \<le> 2 ^ LENGTH('a) - 1" by linarith
  then show ?thesis by (simp add: word_le_nat_alt unat_sat_add)
qed

lemma add_sample_ok:
  assumes ok: "summary_ok s" and c: "ce_lower_microusd c \<le> ce_upper_microusd c"
    and add: "add_sample s u c = Inr s'"
  shows "summary_ok s'"
proof -
  have valid: "validate_usage u = Inr ()" using add by (auto simp: add_sample_def and_then_ok)
  have w: "w \<le> sat_add (us_input_tokens s) (tu_input_tokens u)"
    if "us_cache_write_input_tokens s' = Some w" for w
    using that add valid ok le_sat_add [of "tu_input_tokens u" "us_input_tokens s"]
    by (auto simp: add_sample_def and_then_ok Let_def ok_iff summary_ok_def sat_add_mono
        split: option.splits if_splits)
  have s': "us_input_tokens s' = sat_add (us_input_tokens s) (tu_input_tokens u)"
    "us_cached_input_tokens s' = sat_add (us_cached_input_tokens s) (tu_cached_input_tokens u)"
    "us_output_tokens s' = sat_add (us_output_tokens s) (tu_output_tokens u)"
    "us_reasoning_output_tokens s' = sat_add (us_reasoning_output_tokens s) (tu_reasoning_output_tokens u)"
    "\<exists>e. us_cost s' = add_cost e (us_cost s) c"
    using add by (auto simp: add_sample_def and_then_ok Let_def)
  then show ?thesis using w valid ok c
    by (auto simp: summary_ok_def ok_iff sat_add_mono add_cost_def push_new_distinct)
qed

lemma add_samples_ok:
  "summary_ok s \<Longrightarrow> \<forall>(u, c) \<in> set xs. ce_lower_microusd c \<le> ce_upper_microusd c \<Longrightarrow>
     add_samples s xs = Inr s' \<Longrightarrow> summary_ok s'"
  by (induction s xs rule: add_samples.induct) (auto simp: and_then_ok intro: add_sample_ok)

lemma estimate_ordered: "estimate u p = Inr c \<Longrightarrow> ce_lower_microusd c \<le> ce_upper_microusd c"
proof (cases "tu_cache_write_input_tokens u")
  case None
  assume "estimate u p = Inr c"
  with estimate_bounded [OF this None] show ?thesis by (simp add: word_le_nat_alt exact_cost_min_max)
next
  case (Some w)
  assume "estimate u p = Inr c"
  from estimate_exact [OF this Some] show ?thesis by simp
qed

definition empty_summary :: UsageSummary where
  "empty_summary = \<lparr>us_input_tokens = 0, us_cached_input_tokens = 0, us_cache_write_input_tokens = None,
     us_output_tokens = 0, us_reasoning_output_tokens = 0, us_total_tokens = 0,
     us_cost = \<lparr>ce_lower_microusd = 0, ce_upper_microusd = 0, ce_confidence = UnknownCost,
       ce_pricing_snapshot_ids = [], ce_explanation = []\<rparr>\<rparr>"

lemma sat_total:
  "min (min a m + b) m = min (a + b) m" for a b m :: nat
  by linarith

lemma add_samples_totals:
  assumes "add_samples s xs = Inr s'"
  shows "unat (us_input_tokens s') = min (unat (us_input_tokens s) + (\<Sum>(u, c) \<leftarrow> xs. unat (tu_input_tokens u))) (2 ^ 64 - 1) \<and>
    unat (ce_upper_microusd (us_cost s')) =
      min (unat (ce_upper_microusd (us_cost s)) + (\<Sum>(u, c) \<leftarrow> xs. unat (ce_upper_microusd c))) (2 ^ 64 - 1)"
  using assms
proof (induction s xs rule: add_samples.induct)
  case (1 s)
  have "unat (us_input_tokens s) < 2 ^ 64" "unat (ce_upper_microusd (us_cost s)) < 2 ^ 64"
    using unsigned_less [of "us_input_tokens s"] unsigned_less [of "ce_upper_microusd (us_cost s)"] by simp_all
  with 1 show ?case by simp
next
  case (2 s u c xs)
  then obtain m where m: "add_sample s u c = Inr m" "add_samples m xs = Inr s'"
    by (auto simp: and_then_ok)
  then have "us_input_tokens m = sat_add (us_input_tokens s) (tu_input_tokens u)"
    "ce_upper_microusd (us_cost m) = sat_add (ce_upper_microusd (us_cost s)) (ce_upper_microusd c)"
    by (auto simp: add_sample_def and_then_ok Let_def add_cost_def)
  with 2(1) [OF m(2)] show ?case by (simp add: unat_sat_add sat_total add.assoc)
qed

lemma aggregate_exact: "aggregate_confidence a b = Exact \<longleftrightarrow> a = Exact \<and> b = Exact"
  by (cases a; cases b) simp_all

lemma add_samples_confidence:
  assumes "add_samples s xs = Inr s'" and "ce_pricing_snapshot_ids (us_cost s) \<noteq> []"
  shows "ce_confidence (us_cost s') = Exact \<longleftrightarrow>
    ce_confidence (us_cost s) = Exact \<and> (\<forall>(u, c) \<in> set xs. ce_confidence c = Exact)"
  using assms
proof (induction s xs rule: add_samples.induct)
  case (2 s u c xs)
  then obtain m where m: "add_sample s u c = Inr m" "add_samples m xs = Inr s'"
    by (auto simp: and_then_ok)
  then have cost: "us_cost m = add_cost False (us_cost s) c"
    using 2(3) by (auto simp: add_sample_def and_then_ok Let_def)
  have "set (ce_pricing_snapshot_ids (us_cost m)) \<noteq> {}"
    using 2(3) unfolding cost add_cost_def by (simp add: push_new_set)
  then have "ce_pricing_snapshot_ids (us_cost m) \<noteq> []" by simp
  with 2(1) [OF m(2)] show ?case by (auto simp: cost add_cost_def aggregate_exact)
qed simp

text \<open>
  Aggregated usage stays consistent: whatever priced turns are added to an empty summary, cached
  and cache-write input never exceed input, reasoning never exceeds output, the lower cost never
  exceeds the upper and no price list is named twice; the input total and the upper cost are the
  exact sums, capped at the largest 64-bit value; and the result is called exact only when every turn
  was.
\<close>

theorem aggregated_usage_consistent:
  assumes add: "add_samples empty_summary xs = Inr s"
    and priced: "\<forall>(u, c) \<in> set xs. \<exists>p. estimate u p = Inr c"
  shows "summary_ok s \<and>
    unat (us_input_tokens s) = min (\<Sum>(u, c) \<leftarrow> xs. unat (tu_input_tokens u)) (2 ^ 64 - 1) \<and>
    unat (ce_upper_microusd (us_cost s)) = min (\<Sum>(u, c) \<leftarrow> xs. unat (ce_upper_microusd c)) (2 ^ 64 - 1) \<and>
    (ce_confidence (us_cost s) = Exact \<longleftrightarrow> xs \<noteq> [] \<and> (\<forall>(u, c) \<in> set xs. ce_confidence c = Exact))"
proof -
  have "summary_ok empty_summary" by (simp add: summary_ok_def empty_summary_def)
  moreover have "\<forall>(u, c) \<in> set xs. ce_lower_microusd c \<le> ce_upper_microusd c"
    using priced estimate_ordered by fast
  ultimately have ok: "summary_ok s" using add by (rule add_samples_ok)
  have "ce_confidence (us_cost s) = Exact \<longleftrightarrow> xs \<noteq> [] \<and> (\<forall>(u, c) \<in> set xs. ce_confidence c = Exact)"
  proof (cases xs)
    case Nil
    with add show ?thesis by (auto simp: empty_summary_def)
  next
    case (Cons x ys)
    obtain u c where x: "x = (u, c)" by (cases x)
    with add Cons obtain m where m: "add_sample empty_summary u c = Inr m" "add_samples m ys = Inr s"
      by (auto simp: and_then_ok)
    from priced Cons x obtain p where "estimate u p = Inr c" by auto
    then have ids: "ce_pricing_snapshot_ids c = [ps_id p]"
      by (auto simp: estimate_def and_then_ok)
    have cost: "us_cost m = add_cost True (us_cost empty_summary) c"
      using m(1) by (auto simp: add_sample_def and_then_ok Let_def empty_summary_def)
    then have "ce_pricing_snapshot_ids (us_cost m) \<noteq> []" "ce_confidence (us_cost m) = ce_confidence c"
      using ids by (simp_all add: add_cost_def empty_summary_def)
    with add_samples_confidence [OF m(2)] Cons x show ?thesis by auto
  qed
  with ok add_samples_totals [OF add] show ?thesis by (simp add: empty_summary_def)
qed

theorem aggregated_usage_consistent_witness:
  "\<exists>c s. estimate (sample_usage None) sample_pricing = Inr c \<and>
     add_samples empty_summary [(sample_usage None, c), (sample_usage None, c)] = Inr s \<and>
     unat (us_input_tokens s) = 4 \<and> ce_confidence (us_cost s) \<noteq> Exact"
proof -
  obtain c where c: "estimate (sample_usage None) sample_pricing = Inr c"
    using sample_estimates by (auto simp: map_sum_def split: sum.splits)
  have "ce_confidence c = Bounded"
    using estimate_bounded [OF c] by (simp add: sample_usage_def)
  have valid: "validate_usage (sample_usage None) = Inr ()" by (simp add: validate_usage_def sample_usage_def)
  obtain s where s: "add_samples empty_summary [(sample_usage None, c), (sample_usage None, c)] = Inr s"
    by (simp add: add_sample_def valid Let_def)
  from aggregated_usage_consistent [OF s] c \<open>ce_confidence c = Bounded\<close>
  have "unat (us_input_tokens s) = 4 \<and> ce_confidence (us_cost s) \<noteq> Exact"
    by (auto simp: sample_usage_def)
  with c s show ?thesis by blast
qed

end
