(* ===== verification/Eval_Compare.thy ===== *)
theory Eval_Compare
  imports Rust_Prelude "HOL-Library.Multiset" "HOL-Library.List_Lexorder" "HOL-Library.Char_ord"
    "HOL-Library.Product_Lexorder"
begin

text \<open>
  The paired comparison of a challenger with the champion (\<^verbatim>\<open>harness-eval/src/stats.rs\<close>) and the custody
  of holdout data (\<^verbatim>\<open>harness-eval/src/custody.rs\<close>, \<^verbatim>\<open>digest.rs\<close>).

  Scores are 64-bit signed integers; differences and their running sum wrap as in a release build.
  Counters are naturals: a slice cannot hold \<open>2 ^ 64\<close> samples. The serializer and the digest of the
  sample list are parameters. The theorems: the verdict does not depend on the order in which samples
  arrive, and it is \<open>Better\<close> exactly under the stated conditions, never with a regression.
\<close>

section \<open>Data\<close>

datatype SampleResult = Pass | Fail | InfrastructureUnavailable

record PairedSample =
  sp_case_id :: string
  sp_case_digest :: string
  sp_seed :: u64
  sp_grader_digest :: string
  sp_runtime_digest :: string
  sp_critical :: bool
  sp_champion :: SampleResult
  sp_challenger :: SampleResult
  sp_champion_score_milli :: i64
  sp_challenger_score_milli :: i64

datatype Decision =
    Better | Worse | Inconclusive | RefusedCriticalRegression | RefusedSmallSample
  | InvalidRewardIntegrity

datatype StatisticsMethod = PairedExactV1

record Statistics =
  st_decision :: Decision
  st_successful_pairs :: nat
  st_win_pairs :: nat
  st_loss_pairs :: nat
  st_delta_milli :: i64
  st_method :: StatisticsMethod
  st_input_digest :: string

record SignalVector =
  required_pass :: bool
  negative_controls_pass :: bool
  reward_integrity_pass :: bool

section \<open>The comparison\<close>

definition reward_integrity :: "SignalVector \<Rightarrow> bool" where
  "reward_integrity s \<longleftrightarrow> required_pass s \<and> negative_controls_pass s \<and> reward_integrity_pass s"

text \<open>The tuple samples are ordered and compared by.\<close>

definition sample_key :: "PairedSample \<Rightarrow> string \<times> string \<times> u64 \<times> string \<times> string" where
  "sample_key p = (sp_case_id p, sp_case_digest p, sp_seed p, sp_runtime_digest p, sp_grader_digest p)"

definition paired_digest ::
  "(PairedSample list \<Rightarrow> string option) \<Rightarrow> (string \<Rightarrow> string) \<Rightarrow> PairedSample list \<Rightarrow> string" where
  "paired_digest tv sha samples = sha (case tv samples of None \<Rightarrow> [] | Some raw \<Rightarrow> raw)"

text \<open>\<open>ordered.windows(2).any(..)\<close>.\<close>

fun adjacent_duplicate :: "PairedSample list \<Rightarrow> bool" where
  "adjacent_duplicate (x # y # ps) = (sample_key x = sample_key y \<or> adjacent_duplicate (y # ps))"
| "adjacent_duplicate _ = False"

definition unavailable :: "PairedSample \<Rightarrow> bool" where
  "unavailable p \<longleftrightarrow> sp_champion p = InfrastructureUnavailable \<or> sp_challenger p = InfrastructureUnavailable"

definition score_delta :: "PairedSample \<Rightarrow> i64" where
  "score_delta p = wrap_i64 (sp_challenger_score_milli p - sp_champion_score_milli p)"

definition regression :: "PairedSample \<Rightarrow> bool" where
  "regression p \<longleftrightarrow> sp_champion p = Pass \<and> sp_challenger p = Fail"

definition verdict :: "u64 \<Rightarrow> Statistics \<Rightarrow> Statistics" where
  "verdict minimum_pairs out =
    (if st_successful_pairs out < unat minimum_pairs then out\<lparr>st_decision := RefusedSmallSample\<rparr>
     else if st_win_pairs out > st_loss_pairs out \<and> st_delta_milli out > 0
     then out\<lparr>st_decision := Better\<rparr>
     else if st_loss_pairs out > st_win_pairs out \<or> st_delta_milli out < 0
     then out\<lparr>st_decision := Worse\<rparr>
     else out)"

text \<open>The loop over the ordered samples with its early return, then the final decision.\<close>

definition admit_pair :: "PairedSample \<Rightarrow> Statistics \<Rightarrow> Statistics" where
  "admit_pair p out = out\<lparr>st_successful_pairs := st_successful_pairs out + 1,
     st_delta_milli := wrap_i64 (st_delta_milli out + score_delta p)\<rparr>"

definition tally_pair :: "PairedSample \<Rightarrow> Statistics \<Rightarrow> Statistics" where
  "tally_pair p out =
    (if score_delta p > 0 then out\<lparr>st_win_pairs := st_win_pairs out + 1\<rparr>
     else if score_delta p < 0 then out\<lparr>st_loss_pairs := st_loss_pairs out + 1\<rparr>
     else out)"

fun scan :: "u64 \<Rightarrow> PairedSample list \<Rightarrow> Statistics \<Rightarrow> Statistics" where
  "scan minimum_pairs [] out = verdict minimum_pairs out"
| "scan minimum_pairs (p # ps) out =
    (if unavailable p then scan minimum_pairs ps out
     else if regression p
     then (admit_pair p out)\<lparr>st_decision := (if sp_critical p then RefusedCriticalRegression else Worse)\<rparr>
     else scan minimum_pairs ps (tally_pair p (admit_pair p out)))"

definition empty_statistics :: "string \<Rightarrow> Statistics" where
  "empty_statistics d = \<lparr>st_decision = Inconclusive, st_successful_pairs = 0, st_win_pairs = 0,
     st_loss_pairs = 0, st_delta_milli = 0, st_method = PairedExactV1, st_input_digest = d\<rparr>"

definition compare_samples ::
  "(PairedSample list \<Rightarrow> string option) \<Rightarrow> (string \<Rightarrow> string) \<Rightarrow> PairedSample list \<Rightarrow> SignalVector \<Rightarrow>
     u64 \<Rightarrow> Statistics" where
  "compare_samples tv sha samples signals minimum_pairs =
    (let ordered = sort_key sample_key samples;
         out = empty_statistics (paired_digest tv sha ordered)
     in if \<not> reward_integrity signals then out\<lparr>st_decision := InvalidRewardIntegrity\<rparr>
        else if adjacent_duplicate ordered then out\<lparr>st_decision := Inconclusive\<rparr>
        else scan minimum_pairs ordered out)"

section \<open>Holdout custody\<close>

datatype Split = Training | Development | Holdout | Canary | Quarantine

datatype Principal = Optimizer | CandidateRuntime | Evaluator | Operator

datatype HoldoutState = Clean | HoldoutInvalidated

datatype HoldoutAction = ReadMetadata | ReadAnswer | Execute

record HoldoutAccess =
  ha_principal :: Principal
  ha_split :: Split
  ha_action :: HoldoutAction
  ha_receipt_id :: string

record LeakageDeclaration =
  ld_case_id :: string
  ld_rotation_revision :: u64
  ld_confirmed :: bool

datatype CustodyError = Denied | CustodyInvalidated

definition authorize :: "HoldoutAccess \<Rightarrow> CustodyError + unit" where
  "authorize a = (if ha_split a \<noteq> Holdout then Inr ()
     else if ha_principal a \<in> set [Evaluator, Operator] then Inr () else Inl Denied)"

definition leakage_state :: "LeakageDeclaration list \<Rightarrow> HoldoutState" where
  "leakage_state ds = (if list_ex ld_confirmed ds then HoldoutInvalidated else Clean)"

definition require_clean_holdout :: "LeakageDeclaration list \<Rightarrow> CustodyError + unit" where
  "require_clean_holdout ds = (if leakage_state ds = Clean then Inr () else Inl CustodyInvalidated)"

section \<open>Order of the samples\<close>

lemma adjacent_duplicate_sorted:
  "sorted (map sample_key ps) \<Longrightarrow> adjacent_duplicate ps \<longleftrightarrow> \<not> distinct (map sample_key ps)"
proof (induction ps rule: adjacent_duplicate.induct)
  case (1 x y ps)
  then have "adjacent_duplicate (y # ps) \<longleftrightarrow> \<not> distinct (map sample_key (y # ps))" by simp
  moreover have "sample_key x \<in> sample_key ` set ps \<Longrightarrow> sample_key x = sample_key y"
    using 1(2) by force
  ultimately show ?case by auto
qed auto

lemma duplicate_keys_perm:
  assumes "mset xs = mset ys"
  shows "distinct (map sample_key xs) \<longleftrightarrow> distinct (map sample_key ys)"
  by (rule mset_eq_imp_distinct_iff) (simp add: assms)

lemma sorted_unique:
  assumes "mset xs = mset ys" and "distinct (map sample_key xs)"
  shows "sort_key sample_key xs = sort_key sample_key ys"
proof (rule map_sorted_distinct_set_unique [where f = sample_key])
  have sets: "set xs = set ys" using assms(1) by (rule mset_eq_setD)
  show "inj_on sample_key (set (sort_key sample_key xs) \<union> set (sort_key sample_key ys))"
    using assms(2) sets by (simp add: distinct_map)
  have "distinct (map sample_key ys)"
    using duplicate_keys_perm [OF assms(1)] assms(2) by simp
  then show "distinct (map sample_key (sort_key sample_key ys))"
    by (simp add: distinct_map)
  show "distinct (map sample_key (sort_key sample_key xs))" using assms(2) by (simp add: distinct_map)
  show "set (sort_key sample_key xs) = set (sort_key sample_key ys)"
    using sets by simp
qed simp_all

text \<open>
  The verdict does not depend on the order of the samples: two lists with the same samples give the
  same decision, counts and score difference; and the same statistics altogether, input digest
  included, when no two samples share their key.
\<close>

theorem comparison_ignores_order:
  assumes same: "mset xs = mset ys"
  shows "(compare_samples tv sha xs sig m)\<lparr>st_input_digest := d\<rparr> =
         (compare_samples tv sha ys sig m)\<lparr>st_input_digest := d\<rparr> \<and>
         (distinct (map sample_key xs) \<longrightarrow> compare_samples tv sha xs sig m = compare_samples tv sha ys sig m)"
proof (cases "distinct (map sample_key xs)")
  case True
  from sorted_unique [OF same True] show ?thesis by (simp add: compare_samples_def)
next
  case False
  with duplicate_keys_perm [OF same] have "\<not> distinct (map sample_key ys)" by simp
  with False have "adjacent_duplicate (sort_key sample_key xs)" "adjacent_duplicate (sort_key sample_key ys)"
    by (simp_all add: adjacent_duplicate_sorted distinct_map)
  with False show ?thesis by (simp add: compare_samples_def Let_def empty_statistics_def)
qed

definition with_critical :: "string \<Rightarrow> bool \<Rightarrow> SampleResult \<Rightarrow> i64 \<Rightarrow> PairedSample" where
  "with_critical name critical challenger score = \<lparr>sp_case_id = name, sp_case_digest = [], sp_seed = 0,
     sp_grader_digest = [], sp_runtime_digest = [], sp_critical = critical, sp_champion = Pass,
     sp_challenger = challenger, sp_champion_score_milli = 0, sp_challenger_score_milli = score\<rparr>"

definition all_signals :: SignalVector where
  "all_signals = \<lparr>required_pass = True, negative_controls_pass = True, reward_integrity_pass = True\<rparr>"

theorem comparison_ignores_order_witness:
  "compare_samples (\<lambda>_. None) (\<lambda>s. s)
     [with_critical ''b'' False Pass 5, with_critical ''a'' True Pass (-1)] all_signals 2 =
   compare_samples (\<lambda>_. None) (\<lambda>s. s)
     [with_critical ''a'' True Pass (-1), with_critical ''b'' False Pass 5] all_signals 2"
proof -
  have "mset [with_critical ''b'' False Pass 5, with_critical ''a'' True Pass (-1)] =
      mset [with_critical ''a'' True Pass (-1), with_critical ''b'' False Pass 5]" by simp
  from comparison_ignores_order [OF this] show ?thesis
    by (simp add: with_critical_def sample_key_def)
qed

section \<open>What the verdicts mean\<close>

abbreviation available :: "PairedSample list \<Rightarrow> PairedSample list" where
  "available \<equiv> filter (\<lambda>p. \<not> unavailable p)"

definition wins :: "PairedSample list \<Rightarrow> nat" where
  "wins ps = length (filter (\<lambda>p. score_delta p > 0) (available ps))"

definition losses :: "PairedSample list \<Rightarrow> nat" where
  "losses ps = length (filter (\<lambda>p. score_delta p < 0) (available ps))"

definition total_delta :: "PairedSample list \<Rightarrow> int" where
  "total_delta ps = sum_list (map score_delta (available ps))"

lemma wrapped_scan:
  "\<forall>p \<in> set (available ps). \<not> regression p \<Longrightarrow> st_delta_milli out = wrap_i64 t \<Longrightarrow>
     scan m ps out = verdict m (out\<lparr>
       st_successful_pairs := st_successful_pairs out + length (available ps),
       st_win_pairs := st_win_pairs out + wins ps, st_loss_pairs := st_loss_pairs out + losses ps,
       st_delta_milli := wrap_i64 (t + total_delta ps)\<rparr>)"
proof (induction ps arbitrary: out t)
  case Nil
  then show ?case by (cases out) (simp add: wins_def losses_def total_delta_def)
next
  case (Cons p ps)
  show ?case
  proof (cases "unavailable p")
    case True
    with Cons show ?thesis by (simp add: wins_def losses_def total_delta_def)
  next
    case False
    let ?out = "tally_pair p (admit_pair p out)"
    have "st_delta_milli ?out = wrap_i64 (t + score_delta p)"
      using Cons.prems by (simp add: tally_pair_def admit_pair_def wrap_i64_add)
    moreover have "\<not> regression p" and "\<forall>p \<in> set (available ps). \<not> regression p"
      using Cons.prems False by simp_all
    ultimately show ?thesis
      using Cons.IH [of ?out "t + score_delta p"] False
      by (simp add: tally_pair_def admit_pair_def wins_def losses_def total_delta_def add.assoc)
  qed
qed

lemma scan_regression:
  "\<exists>p \<in> set (available ps). regression p \<Longrightarrow>
     st_decision (scan m ps out) \<in> {Worse, RefusedCriticalRegression}"
proof (induction ps arbitrary: out)
  case (Cons p ps)
  show ?case
  proof (cases "\<not> unavailable p \<and> regression p")
    case True
    then show ?thesis by simp
  next
    case False
    with Cons.prems have "\<exists>p \<in> set (available ps). regression p" by (auto split: if_splits)
    from Cons.IH [OF this] False show ?thesis by auto
  qed
qed simp

lemma sorted_counts:
  "wins (sort_key f ps) = wins ps" "losses (sort_key f ps) = losses ps"
  "total_delta (sort_key f ps) = total_delta ps" "length (available (sort_key f ps)) = length (available ps)"
proof -
  have same: "mset (filter P (sort_key f ps)) = mset (filter P ps)" for P by simp
  then have len: "length (filter P (sort_key f ps)) = length (filter P ps)" for P
    by (metis size_mset)
  show "length (available (sort_key f ps)) = length (available ps)" by (rule len)
  show "wins (sort_key f ps) = wins ps" "losses (sort_key f ps) = losses ps"
    unfolding wins_def losses_def filter_filter by (rule len)+
  have "mset (map score_delta (available (sort_key f ps))) = mset (map score_delta (available ps))"
    by simp
  then show "total_delta (sort_key f ps) = total_delta ps"
    unfolding total_delta_def by (metis sum_mset_sum_list)
qed

text \<open>
  When a challenger is called better: exactly when all reward signals hold, no two samples share a
  key, no available pair turned a pass into a failure, enough pairs were available, strictly more of
  them were won than lost, and the summed score difference (in wrapping 64-bit arithmetic) is
  positive. In particular a single regression, critical or not, rules it out.
\<close>

theorem better_verdict_iff:
  "st_decision (compare_samples tv sha samples signals m) = Better \<longleftrightarrow>
     reward_integrity signals \<and> distinct (map sample_key samples) \<and>
     list_all (\<lambda>p. \<not> regression p) (available samples) \<and>
     unat m \<le> length (available samples) \<and> wins samples > losses samples \<and>
     wrap_i64 (total_delta samples) > 0"
proof -
  let ?o = "sort_key sample_key samples"
  have dup: "adjacent_duplicate ?o \<longleftrightarrow> \<not> distinct (map sample_key samples)"
    by (simp add: adjacent_duplicate_sorted distinct_map)
  have reg: "(\<forall>p \<in> set (available ?o). \<not> regression p) \<longleftrightarrow> list_all (\<lambda>p. \<not> regression p) (available samples)"
    by (simp add: list_all_iff)
  show ?thesis
  proof (cases "\<forall>p \<in> set (available ?o). \<not> regression p")
    case True
    let ?e = "empty_statistics (paired_digest tv sha ?o)"
    have "st_delta_milli ?e = wrap_i64 0" by (simp add: empty_statistics_def)
    from wrapped_scan [OF True this] True reg dup show ?thesis
      by (simp add: compare_samples_def Let_def verdict_def sorted_counts empty_statistics_def)
  next
    case False
    then have "st_decision (scan m ?o e) \<noteq> Better" for e
      using scan_regression [of ?o m e] by auto
    with False reg dup show ?thesis
      by (auto simp: compare_samples_def Let_def empty_statistics_def)
  qed
qed

text \<open>
  A critical regression can be reported as an ordinary one: the scan stops at the first regression
  in key order, so a critical regression behind a non-critical one yields \<open>Worse\<close> and not the refusal
  reserved for critical regressions.
\<close>

theorem critical_regression_can_be_masked:
  "\<exists>samples. list_ex (\<lambda>p. regression p \<and> sp_critical p) samples \<and>
     st_decision (compare_samples tv sha samples all_signals 1) = Worse"
proof -
  let ?s = "[with_critical ''a'' False Fail 0, with_critical ''b'' True Fail 0]"
  have "st_decision (compare_samples tv sha ?s all_signals 1) = Worse"
    by (simp add: compare_samples_def with_critical_def sample_key_def all_signals_def reward_integrity_def
        unavailable_def regression_def empty_statistics_def Let_def admit_pair_def)
  moreover have "list_ex (\<lambda>p. regression p \<and> sp_critical p) ?s"
    by (simp add: with_critical_def regression_def)
  ultimately show ?thesis by blast
qed

end
