(* ===== verification/Contract_Digest.thy ===== *)
theory Contract_Digest
  imports Identifiers "HOL-Library.List_Lexorder" "HOL-Library.Char_ord" "HOL-Library.Finite_Map"
begin

text \<open>
  The digests and receipts of the promotion crate (\<^verbatim>\<open>harness-promotion/src/digest.rs\<close> and the
  receipt types of \<^verbatim>\<open>harness-promotion/src/promotion.rs\<close>).

  A contract is digested by turning it into a JSON value, removing the key \<open>sha256\<close>, ordering the
  keys of every object and hashing the bytes. The derived serializer of the record (\<open>tval\<close>), the
  printer of JSON values (\<open>to_bytes\<close>) and the hash (\<open>sha256_hex\<close>) belong to the libraries
  \<open>serde_json\<close>, \<open>sha2\<close> and \<open>hex\<close> and are parameters; JSON values themselves are a datatype with the
  constructors of \<open>serde_json::Value\<close>, the members of an object a list in the order of the map.

  The first group of lemmas shows what the ordering of keys achieves: two values have the same
  ordered form exactly when they denote the same value, objects being finite maps. The locale
  \<open>digested\<close> is the interface of the contracts with a \<open>sha256\<close> field.
\<close>

section \<open>JSON values and their canonical order\<close>

datatype 'n json =
    Null
  | Bool bool
  | Number 'n
  | String string
  | Array "'n json list"
  | Object "(string \<times> 'n json) list"

text \<open>Insertion into a \<open>BTreeMap\<close>: keys stay in order, a present key gets the new value.\<close>

fun btree_insert :: "'k::linorder \<Rightarrow> 'v \<Rightarrow> ('k \<times> 'v) list \<Rightarrow> ('k \<times> 'v) list" where
  "btree_insert k v [] = [(k, v)]"
| "btree_insert k v ((k', v') # m) =
    (if k < k' then (k, v) # (k', v') # m
     else if k = k' then (k, v) # m
     else (k', v') # btree_insert k v m)"

definition btree_collect :: "('k::linorder \<times> 'v) list \<Rightarrow> ('k \<times> 'v) list" where
  "btree_collect xs = foldl (\<lambda>m (k, v). btree_insert k v m) [] xs"

fun canonical :: "'n json \<Rightarrow> 'n json" where
  "canonical (Object members) = Object (btree_collect (map (\<lambda>(k, v). (k, canonical v)) members))"
| "canonical (Array vs) = Array (map canonical vs)"
| "canonical v = v"

section \<open>Digest of a contract\<close>

datatype ContractError = Invalid | Digest | HardGate | StageOrder | Stopped | Budget | Stale | Missing

record 'n digest_ops =
  to_bytes :: "'n json \<Rightarrow> string option"
  sha256_hex :: "string \<Rightarrow> string"

definition remove_key :: "string \<Rightarrow> (string \<times> 'v) list \<Rightarrow> (string \<times> 'v) list" where
  "remove_key k m = filter (\<lambda>(k', _). k' \<noteq> k) m"

definition digest_without_self ::
  "'n digest_ops \<Rightarrow> ('r \<Rightarrow> 'n json option) \<Rightarrow> 'r \<Rightarrow> ContractError + string" where
  "digest_without_self ops tval r =
    (case tval r of
       Some (Object members) \<Rightarrow>
         (case to_bytes ops (canonical (Object (remove_key ''sha256'' members))) of
            None \<Rightarrow> Inl Invalid
          | Some raw \<Rightarrow> Inr (sha256_hex ops raw))
     | _ \<Rightarrow> Inl Invalid)"

definition is_digest :: "string \<Rightarrow> bool" where
  "is_digest v \<longleftrightarrow>
    length v = 64 \<and> list_all (\<lambda>b. is_ascii_digit b \<or> (is_ascii_lowercase b \<and> is_ascii_hexdigit b)) v"

definition is_id :: "string \<Rightarrow> bool" where
  "is_id v \<longleftrightarrow>
    v \<noteq> [] \<and> length v \<le> 128 \<and> list_all (\<lambda>b. is_ascii_alphanumeric b \<or> b \<in> set ''_-.:'') v"

section \<open>Receipts\<close>

datatype ReceiptKind =
    OfflineReceipt | HoldoutReceipt | ShadowReceipt | CanaryReceipt | RewardIntegrity | StatisticsReceipt
  | IndependentReview | OperatorApproval | Promotion | Rollback | HardGateReceipt | IsolationCustody
  | Assignment | Fallback | OperatorStart | Telemetry | Candidate | ChampionBundle | ChallengerBundle

record Receipt =
  kind :: ReceiptKind
  rid :: string
  digest :: string

definition valid_as :: "Receipt \<Rightarrow> ReceiptKind \<Rightarrow> bool" where
  "valid_as r k \<longleftrightarrow> kind r = k \<and> is_id (rid r) \<and> is_digest (digest r)"

lemma is_digest_lower_hex: "is_digest v = is_lower_hex v 64"
  by (simp add: is_digest_def is_lower_hex_def)

lemma is_digest_zeros [simp]: "is_digest (zeros n) \<longleftrightarrow> n = 64"
  by (simp add: is_digest_lower_hex)

section \<open>The canonical order identifies values up to the order of keys\<close>

text \<open>The value a JSON text denotes: objects are finite maps, a repeated key has its last value.\<close>

datatype 'n jval =
    VNull
  | VBool bool
  | VNumber 'n
  | VString string
  | VArray "'n jval list"
  | VObject "(string, 'n jval) fmap"

fun denote :: "'n json \<Rightarrow> 'n jval" where
  "denote (Object members) = VObject (fmap_of_list (rev (map (\<lambda>(k, v). (k, denote v)) members)))"
| "denote (Array vs) = VArray (map denote vs)"
| "denote Null = VNull"
| "denote (Bool b) = VBool b"
| "denote (Number n) = VNumber n"
| "denote (String s) = VString s"

lemma btree_insert_lookup: "map_of (btree_insert k v m) = (map_of m)(k \<mapsto> v)"
  by (induction m) (auto simp: fun_upd_twist)

lemma btree_insert_keys: "set (map fst (btree_insert k v m)) = insert k (set (map fst m))"
  by (simp add: btree_insert_lookup flip: dom_map_of_conv_image_fst)

lemma btree_insert_sorted:
  "sorted_wrt (<) (map fst m) \<Longrightarrow> sorted_wrt (<) (map fst (btree_insert k v m))"
proof (induction m)
  case (Cons p m)
  then show ?case
    using btree_insert_keys [of k v m] by (cases p) fastforce
qed simp

lemma btree_collect_snoc: "btree_collect (xs @ [(k, v)]) = btree_insert k v (btree_collect xs)"
  by (simp add: btree_collect_def)

lemma btree_collect_sorted: "sorted_wrt (<) (map fst (btree_collect xs))"
proof (induction xs rule: rev_induct)
  case (snoc p xs)
  then show ?case by (cases p) (simp add: btree_collect_snoc btree_insert_sorted)
qed (simp add: btree_collect_def)

lemma btree_collect_lookup: "map_of (btree_collect xs) = fmlookup (fmap_of_list (rev xs))"
proof (induction xs rule: rev_induct)
  case (snoc p xs)
  then show ?case by (cases p) (auto simp: btree_collect_snoc btree_insert_lookup fun_eq_iff)
qed (simp add: btree_collect_def)

lemma strictly_sorted_maps_eq:
  fixes xs ys :: "('k::linorder \<times> 'v) list"
  assumes "sorted_wrt (<) (map fst xs)" and "sorted_wrt (<) (map fst ys)" and "map_of xs = map_of ys"
  shows "xs = ys"
proof -
  have d: "distinct (map fst xs)" "distinct (map fst ys)"
    using assms(1,2) by (simp_all add: strict_sorted_iff)
  have "(k, v) \<in> set xs \<longleftrightarrow> (k, v) \<in> set ys" for k v
    using assms(3) d by (metis map_of_eq_Some_iff)
  then have "set xs = set ys" by auto
  moreover from this have "inj_on fst (set xs \<union> set ys)"
    using d by (simp add: distinct_map)
  ultimately show ?thesis
    using assms(1,2) d by (intro map_sorted_distinct_set_unique) (simp_all add: strict_sorted_iff)
qed

text \<open>A canonical representative of each denotation; the source's function computes it.\<close>

primrec embed :: "'n jval \<Rightarrow> 'n json" where
  "embed VNull = Null"
| "embed (VBool b) = Bool b"
| "embed (VNumber n) = Number n"
| "embed (VString s) = String s"
| "embed (VArray vs) = Array (map embed vs)"
| "embed (VObject m) = Object (sorted_list_of_fmap (fmmap embed m))"

lemma sorted_list_of_fmap_keys: "sorted_wrt (<) (map fst (sorted_list_of_fmap m))"
  by (simp add: sorted_list_of_fmap_def o_def sorted_list_of_fset.rep_eq)

lemma btree_collect_eq: "btree_collect xs = sorted_list_of_fmap (fmap_of_list (rev xs))"
  by (rule strictly_sorted_maps_eq)
    (simp_all add: btree_collect_sorted sorted_list_of_fmap_keys btree_collect_lookup)

lemma canonical_embed: "canonical v = embed (denote v)"
proof (induction v rule: canonical.induct)
  case (1 members)
  then have "map (\<lambda>(k, v). (k, canonical v)) members = map (apsnd embed) (map (\<lambda>(k, v). (k, denote v)) members)"
    by auto
  then show ?case
    by (simp add: btree_collect_eq fmmap_of_list rev_map del: map_map map_eq_conv)
qed simp_all

lemma denote_embed: "denote (embed v) = v"
proof (induction v)
  case (VObject m)
  have "map (\<lambda>(k, v). (k, denote v)) (sorted_list_of_fmap (fmmap embed m)) = sorted_list_of_fmap m"
    using VObject
    by (auto simp: sorted_list_of_fmap_def o_def fmlookup_dom_iff fmran'I sorted_list_of_fset.rep_eq)
  moreover have "fmap_of_list (rev (sorted_list_of_fmap m)) = m"
  proof (rule fmap_ext)
    fix k
    have "distinct (map fst (sorted_list_of_fmap m))"
      using sorted_list_of_fmap_keys strict_sorted_iff by blast
    then have "map_of (rev (sorted_list_of_fmap m)) = map_of (sorted_list_of_fmap m)"
      by (intro map_of_inject_set [THEN iffD2]) (simp_all flip: rev_map)
    then show "fmlookup (fmap_of_list (rev (sorted_list_of_fmap m))) k = fmlookup m k"
      by (simp add: fmlookup_of_list)
  qed
  ultimately show ?case by simp
qed (auto intro: map_idI)

text \<open>
  Canonical ordering identifies exactly the equal values: two JSON values have the same
  canonical form, and therefore the same bytes to hash, if and only if they denote the same value
  when objects are read as finite maps; and the canonical form denotes the value it came from.
\<close>

theorem canonical_identifies_values:
  "(canonical v = canonical w \<longleftrightarrow> denote v = denote w) \<and> denote (canonical v) = denote v"
  by (metis canonical_embed denote_embed)

section \<open>Contracts with a digest of themselves\<close>

text \<open>
  What the contracts rely on of a derived serializer: the field \<open>sha256\<close> only shows under the key
  \<open>sha256\<close>, so that records that differ in that field agree on all other keys.
\<close>

definition unsigned :: "'n json option \<Rightarrow> (string \<times> 'n json) list option" where
  "unsigned v = (case v of Some (Object members) \<Rightarrow> Some (remove_key ''sha256'' members) | _ \<Rightarrow> None)"

definition serializes_sha ::
  "('r \<Rightarrow> 'n json option) \<Rightarrow> (string \<Rightarrow> 'r \<Rightarrow> 'r) \<Rightarrow> bool" where
  "serializes_sha tval set_sha \<longleftrightarrow> (\<forall>r s. unsigned (tval (set_sha s r)) = unsigned (tval r))"

lemma digest_without_self_unsigned:
  "digest_without_self ops tval r =
    (case unsigned (tval r) of
       None \<Rightarrow> Inl Invalid
     | Some members \<Rightarrow>
         (case to_bytes ops (canonical (Object members)) of
            None \<Rightarrow> Inl Invalid | Some raw \<Rightarrow> Inr (sha256_hex ops raw)))"
  by (simp add: digest_without_self_def unsigned_def split: option.split json.split)

locale digested =
  fixes get_sha :: "'r \<Rightarrow> string" and set_sha :: "string \<Rightarrow> 'r \<Rightarrow> 'r"
  assumes get_set: "get_sha (set_sha s r) = s"
    and set_set: "set_sha s (set_sha t r) = set_sha s r"
    and set_get: "set_sha (get_sha r) r = r"
begin

text \<open>Writing the digest into the record does not change the digest.\<close>

lemma digest_stable:
  "serializes_sha tval set_sha \<Longrightarrow>
    digest_without_self ops tval (set_sha s r) = digest_without_self ops tval r"
  by (simp add: digest_without_self_unsigned serializes_sha_def)

lemma sealed_verifies:
  "serializes_sha tval set_sha \<Longrightarrow> digest_without_self ops tval r = Inr d \<Longrightarrow>
    digest_without_self ops tval (set_sha d r) = Inr (get_sha (set_sha d r))"
  by (simp add: digest_stable get_set)

lemma seal_is_unique:
  "serializes_sha tval set_sha \<Longrightarrow> digest_without_self ops tval r = Inr (get_sha r) \<Longrightarrow>
    digest_without_self ops tval (set_sha s r) = Inr s \<longleftrightarrow> set_sha s r = r"
  by (metis digest_stable get_set set_get Inr_inject)

end

end
