(* ===== verification/Experiment_Stages.thy ===== *)
theory Experiment_Stages
  imports Contract_Digest
begin

text \<open>
  Experiments and bounded exposure (\<^verbatim>\<open>harness-promotion/src/experiment.rs\<close>): the experiment contract
  with its four stages and hard gates, the advance from one stage to the next, the assignment of
  subjects to a cohort, and the shadow and canary observations with their sample, cost and failure
  budgets.

  Lemmas: what a verified experiment looks like, when a stage can be advanced, how many hash values
  a share in basis points really admits, and that no sequence of observations exceeds its budget or
  continues after a stop.
\<close>

section \<open>Experiments\<close>

datatype Stage = Offline | Holdout | Shadow | Canary

datatype StageState =
  Pending | Running | Passed | Failed | Inconclusive | InfrastructureUnavailable | Invalidated | StageStopped

datatype ExperimentState =
    Proposed | OfflineRunning | HoldoutRunning | ShadowRunning | CanaryRunning | PromotionReview
  | ExperimentFailed | ExperimentInconclusive | ExperimentInvalidated | ExperimentStopped

record StageEvidence =
  ev_stage :: Stage
  ev_id :: string
  ev_digest :: string

record StageReceipt =
  stage :: Stage
  state :: StageState
  evidence :: "StageEvidence option"
  sample_count :: u64
  successful_pairs :: u64

definition pending :: "Stage \<Rightarrow> StageReceipt" where
  "pending s = \<lparr> stage = s, state = Pending, evidence = None, sample_count = 0, successful_pairs = 0 \<rparr>"

record GateReceipt =
  gate_id :: string
  passed :: bool
  gate_evidence :: Receipt

record ExperimentV1 =
  schema :: string
  experiment_id :: string
  candidate_id :: string
  candidate_receipt :: Receipt
  champion_bundle_id :: string
  champion_bundle_receipt :: Receipt
  challenger_bundle_id :: string
  challenger_bundle_receipt :: Receipt
  runtime_policy_digest :: string
  stages :: "StageReceipt list"
  hard_gates :: "GateReceipt list"
  exp_state :: ExperimentState
  exp_sha256 :: string

definition coherent_state :: "ExperimentV1 \<Rightarrow> bool" where
  "coherent_state v =
    (let states = map state (stages v) in
     case exp_state v of
       Proposed \<Rightarrow> states = [Pending, Pending, Pending, Pending]
     | OfflineRunning \<Rightarrow> states = [Running, Pending, Pending, Pending]
     | HoldoutRunning \<Rightarrow> states = [Passed, Running, Pending, Pending]
     | ShadowRunning \<Rightarrow> states = [Passed, Passed, Running, Pending]
     | CanaryRunning \<Rightarrow> states = [Passed, Passed, Passed, Running]
     | PromotionReview \<Rightarrow> states = [Passed, Passed, Passed, Passed]
     | ExperimentFailed \<Rightarrow> Failed \<in> set states
     | ExperimentInconclusive \<Rightarrow> Inconclusive \<in> set states \<or> InfrastructureUnavailable \<in> set states
     | ExperimentInvalidated \<Rightarrow> Invalidated \<in> set states
     | ExperimentStopped \<Rightarrow> StageStopped \<in> set states)"

definition stage_ok :: "StageReceipt \<Rightarrow> bool" where
  "stage_ok v \<longleftrightarrow>
    successful_pairs v \<le> sample_count v \<and>
    is_none_or (\<lambda>e. ev_stage e = stage v \<and> is_id (ev_id e) \<and> is_digest (ev_digest e)) (evidence v) \<and>
    (state v \<noteq> Passed \<or> evidence v \<noteq> None)"

definition experiment_shape :: "ExperimentV1 \<Rightarrow> bool" where
  "experiment_shape v \<longleftrightarrow>
    schema v = ''harness.experiment.v1'' \<and>
    list_all is_id [experiment_id v, candidate_id v, champion_bundle_id v, challenger_bundle_id v] \<and>
    champion_bundle_id v \<noteq> challenger_bundle_id v \<and>
    valid_as (candidate_receipt v) Candidate \<and>
    rid (candidate_receipt v) = candidate_id v \<and>
    valid_as (champion_bundle_receipt v) ChampionBundle \<and>
    rid (champion_bundle_receipt v) = champion_bundle_id v \<and>
    valid_as (challenger_bundle_receipt v) ChallengerBundle \<and>
    rid (challenger_bundle_receipt v) = challenger_bundle_id v \<and>
    is_digest (runtime_policy_digest v) \<and>
    map stage (stages v) = [Offline, Holdout, Shadow, Canary] \<and>
    list_all stage_ok (stages v) \<and>
    coherent_state v \<and>
    list_all (\<lambda>g. is_id (gate_id g) \<and> valid_as (gate_evidence g) HardGateReceipt) (hard_gates v) \<and>
    hard_gates v \<noteq> []"

text \<open>
  The conjunction is lazy: the digest is computed, and its error returned, only when everything
  before it holds.
\<close>

definition verify_experiment ::
  "'n digest_ops \<Rightarrow> (ExperimentV1 \<Rightarrow> 'n json option) \<Rightarrow> ExperimentV1 \<Rightarrow> ContractError + unit" where
  "verify_experiment ops tval v =
    (if experiment_shape v
     then and_then (digest_without_self ops tval v) (\<lambda>d. ensure (d = exp_sha256 v) Digest)
     else Inl Digest)"

fun expected_state :: "Stage \<Rightarrow> ExperimentState" where
  "expected_state Offline = Proposed"
| "expected_state Holdout = OfflineRunning"
| "expected_state Shadow = HoldoutRunning"
| "expected_state Canary = ShadowRunning"

fun running_state :: "Stage \<Rightarrow> ExperimentState" where
  "running_state Offline = OfflineRunning"
| "running_state Holdout = HoldoutRunning"
| "running_state Shadow = ShadowRunning"
| "running_state Canary = CanaryRunning"

fun stage_index :: "Stage \<Rightarrow> nat" where
  "stage_index Offline = 0"
| "stage_index Holdout = 1"
| "stage_index Shadow = 2"
| "stage_index Canary = 3"

text \<open>
  The indices are within the stages of a verified experiment, so no access of the source panics
  (\<open>verified_stages\<close> below).
\<close>

definition set_running :: "ExperimentV1 \<Rightarrow> Stage \<Rightarrow> ExperimentV1" where
  "set_running v s =
    v\<lparr> stages := (stages v)[stage_index s := (stages v ! stage_index s)\<lparr> state := Running \<rparr>],
       exp_state := running_state s \<rparr>"

definition advance_stage ::
  "'n digest_ops \<Rightarrow> (ExperimentV1 \<Rightarrow> 'n json option) \<Rightarrow> ExperimentV1 \<Rightarrow> Stage \<Rightarrow>
    ContractError + ExperimentV1" where
  "advance_stage ops tval v s =
    and_then (verify_experiment ops tval v) (\<lambda>_.
    if \<not> list_all passed (hard_gates v) then Inl HardGate
    else if exp_state v \<noteq> expected_state s then Inl StageOrder
    else if state (stages v ! stage_index s) \<noteq> Pending \<or>
            (stage_index s > 0 \<and> state (stages v ! (stage_index s - 1)) \<noteq> Passed)
    then Inl StageOrder
    else let next = set_running v s in
      and_then (digest_without_self ops tval next) (\<lambda>d. Inr (next\<lparr> exp_sha256 := d \<rparr>)))"

section \<open>Cohorts\<close>

text \<open>\<open>sha\<close> is the raw digest; its first two bytes are read big-endian.\<close>

definition in_cohort :: "u16 \<Rightarrow> u16 \<Rightarrow> bool" where
  "in_cohort h basis_points \<longleftrightarrow> h mod 10000 < basis_points"

definition assign_cohort :: "(string \<Rightarrow> string) \<Rightarrow> string \<Rightarrow> string \<Rightarrow> u16 \<Rightarrow> bool" where
  "assign_cohort sha experiment subject basis_points \<longleftrightarrow>
    basis_points \<le> 10000 \<and>
    (let raw = sha (experiment @ [CHR 0x00] @ subject) in
     in_cohort (of_nat (byte (raw ! 0) * 256 + byte (raw ! 1))) basis_points)"

section \<open>Bounded exposure\<close>

datatype ProductionResult = ProductionPassed | ProductionFailed | ProductionUnavailable
datatype ChallengerResult = ChallengerPassed | ChallengerFailed | ChallengerUnavailable
datatype StopReason = CriticalRegression | SampleBudget | CostBudget | Emergency
datatype TaskFamily = DevelopmentEval | ShadowReplay | CanaryTraffic
datatype EditDimension = Prompt | ToolPolicy | RetrievalPolicy | ModelRoute

record ExposureBudget =
  max_samples :: u64
  max_cost_microusd :: u64
  max_critical_failures :: u64

record ShadowObservation =
  obs_production :: ProductionResult
  challenger :: ChallengerResult
  cost_microusd :: u64
  critical :: bool

record ShadowAuthority =
  isolation_custody_receipt :: Receipt
  task_family :: TaskFamily
  edit_dimensions :: "EditDimension list"
  assignment_receipt :: Receipt
  fallback_receipt :: Receipt

definition shadow_authority_valid :: "ShadowAuthority \<Rightarrow> bool" where
  "shadow_authority_valid a \<longleftrightarrow>
    edit_dimensions a \<noteq> [] \<and>
    card (set (edit_dimensions a)) = length (edit_dimensions a) \<and>
    valid_as (isolation_custody_receipt a) IsolationCustody \<and>
    valid_as (assignment_receipt a) Assignment \<and>
    valid_as (fallback_receipt a) Fallback"

record CanaryAuthority =
  shadow :: ShadowAuthority
  operator_start_receipt :: Receipt

definition canary_authority_valid :: "CanaryAuthority \<Rightarrow> bool" where
  "canary_authority_valid a \<longleftrightarrow>
    shadow_authority_valid (shadow a) \<and> valid_as (operator_start_receipt a) OperatorStart"

record ShadowState =
  budget :: ExposureBudget
  observed :: u64
  spent_microusd :: u64
  critical_failures :: u64
  production :: ProductionResult
  fallback_used :: bool
  stop :: "StopReason option"

definition new_shadow :: "ExposureBudget \<Rightarrow> ShadowState" where
  "new_shadow b =
    \<lparr> budget = b, observed = 0, spent_microusd = 0, critical_failures = 0,
      production = ProductionUnavailable, fallback_used = False, stop = None \<rparr>"

text \<open>The last part of \<open>observe_shadow\<close>: a critical failure is counted and may stop the exposure.\<close>

definition count_critical :: "ShadowObservation \<Rightarrow> ShadowState \<Rightarrow> ShadowState" where
  "count_critical obs st =
    (if critical obs \<and> challenger obs = ChallengerFailed then
       let st = st\<lparr> critical_failures := critical_failures st + 1 \<rparr> in
       if critical_failures st \<ge> max_critical_failures (budget st)
       then st\<lparr> stop := Some CriticalRegression \<rparr> else st
     else st)"

definition observe_shadow ::
  "ShadowAuthority \<Rightarrow> ShadowState \<Rightarrow> ShadowObservation \<Rightarrow> ContractError + ShadowState" where
  "observe_shadow authority st obs =
    (if \<not> shadow_authority_valid authority then Inl Missing
     else if stop st \<noteq> None then Inl Stopped
     else if observed st \<ge> max_samples (budget st) \<or>
             sat_add (spent_microusd st) (cost_microusd obs) > max_cost_microusd (budget st)
     then Inr (st\<lparr> stop := Some (if observed st \<ge> max_samples (budget st)
                                 then SampleBudget else CostBudget) \<rparr>)
     else Inr (count_critical obs
       (st\<lparr> observed := observed st + 1,
            spent_microusd := spent_microusd st + cost_microusd obs,
            production := obs_production obs,
            fallback_used := (challenger obs \<noteq> ChallengerPassed) \<rparr>)))"

definition observe_canary ::
  "CanaryAuthority \<Rightarrow> ShadowState \<Rightarrow> ShadowObservation \<Rightarrow> ContractError + ShadowState" where
  "observe_canary authority st obs =
    (if \<not> canary_authority_valid authority then Inl Missing
     else observe_shadow (shadow authority) st obs)"

section \<open>Verified experiments and their advance\<close>

interpretation experiment_seal: digested exp_sha256 "\<lambda>d. exp_sha256_update (\<lambda>_. d)"
  by unfold_locales simp_all

lemma verify_experiment_ok:
  "verify_experiment ops tval v = Inr u \<longleftrightarrow>
    experiment_shape v \<and> digest_without_self ops tval v = Inr (exp_sha256 v)"
  by (auto simp: verify_experiment_def and_then_ok)

lemma verified_stages:
  assumes "experiment_shape v"
  obtains a b c d where "stages v = [a, b, c, d]"
    and "stage a = Offline" and "stage b = Holdout" and "stage c = Shadow" and "stage d = Canary"
  using assms by (auto simp: experiment_shape_def map_eq_Cons_conv)

lemma experiment_shape_seal [simp]: "experiment_shape (v\<lparr>exp_sha256 := d\<rparr>) = experiment_shape v"
  by (simp add: experiment_shape_def coherent_state_def)

lemma stage_ok_running: "stage_ok r \<Longrightarrow> stage_ok (r\<lparr>state := Running\<rparr>)"
  by (simp add: stage_ok_def)

lemma set_running_shape:
  assumes "experiment_shape v" and "exp_state v = Proposed"
  shows "experiment_shape (set_running v Offline)"
proof -
  obtain a b c d where st: "stages v = [a, b, c, d]"
    using assms(1) by (rule verified_stages)
  show ?thesis
    using assms st by (simp add: experiment_shape_def set_running_def coherent_state_def stage_ok_running)
qed

text \<open>
  Coherence puts the stage before the next one in state \<open>Running\<close>, while the advance asks for
  \<open>Passed\<close>: only the first stage, which has none before it, meets both.
\<close>

lemma advance_needs_offline:
  assumes shape: "experiment_shape v" and exp: "exp_state v = expected_state s"
    and prev: "stage_index s > 0 \<longrightarrow> state (stages v ! (stage_index s - 1)) = Passed"
  shows "s = Offline"
proof -
  obtain a b c d where st: "stages v = [a, b, c, d]"
    using shape by (rule verified_stages)
  have "coherent_state v" using shape by (simp add: experiment_shape_def)
  then show ?thesis
    using exp prev st by (cases s) (simp_all add: coherent_state_def)
qed

lemma advance_stage_iff:
  "advance_stage ops tval v s = Inr w \<longleftrightarrow>
    s = Offline \<and> verify_experiment ops tval v = Inr () \<and> list_all passed (hard_gates v) \<and>
    exp_state v = Proposed \<and>
    (\<exists>d. digest_without_self ops tval (set_running v Offline) = Inr d \<and>
         w = (set_running v Offline)\<lparr> exp_sha256 := d \<rparr>)"
  (is "?lhs \<longleftrightarrow> ?rhs")
proof
  assume ?lhs
  then have v: "verify_experiment ops tval v = Inr ()" and gates: "list_all passed (hard_gates v)"
    and exp: "exp_state v = expected_state s"
    and prev: "stage_index s > 0 \<longrightarrow> state (stages v ! (stage_index s - 1)) = Passed"
    and d: "\<exists>d. digest_without_self ops tval (set_running v s) = Inr d \<and> w = (set_running v s)\<lparr> exp_sha256 := d \<rparr>"
    by (auto simp: advance_stage_def and_then_ok Let_def split: if_splits)
  have "s = Offline"
    using advance_needs_offline [OF _ exp prev] v by (simp add: verify_experiment_ok)
  with v gates exp d show ?rhs by simp
next
  assume rhs: ?rhs
  then have shape: "experiment_shape v" by (simp add: verify_experiment_ok)
  then obtain a b c d where st: "stages v = [a, b, c, d]" by (rule verified_stages)
  have "coherent_state v" using shape by (simp add: experiment_shape_def)
  then have "state a = Pending" using rhs st by (simp add: coherent_state_def)
  then show ?lhs
    using rhs st by (auto simp: advance_stage_def and_then_ok Let_def)
qed

text \<open>
  C38. An experiment can only ever be advanced to its first stage: \<open>advance_stage\<close> fails for every
  experiment when it is asked for the holdout, shadow or canary stage. The check of the experiment
  admits a running stage only directly after passed ones, while the advance asks for an experiment
  whose current stage is at once running (as the state of the experiment) and passed.
\<close>

theorem later_stages_never_start:
  assumes "s = Holdout \<or> s = Shadow \<or> s = Canary"
  shows "\<exists>e. advance_stage ops tval v s = Inl e"
proof (cases "advance_stage ops tval v s")
  case (Inr w)
  then have "s = Offline" by (simp add: advance_stage_iff)
  with assms show ?thesis by auto
qed simp

text \<open>
  Starting the offline stage: from a verified proposed experiment whose hard gates all passed,
  the advance succeeds whenever the new record serializes; it sets exactly the first stage running,
  keeps the gates, and yields an experiment that verifies again. The serializer is only assumed to
  show the digest of a record under its own key.
\<close>

theorem offline_start_verifies:
  assumes ser: "serializes_sha tval (\<lambda>d. exp_sha256_update (\<lambda>_. d))"
    and v: "verify_experiment ops tval v = Inr ()"
    and gates: "list_all passed (hard_gates v)"
    and start: "exp_state v = Proposed"
    and d: "digest_without_self ops tval (set_running v Offline) = Inr d"
  shows "\<exists>w. advance_stage ops tval v Offline = Inr w \<and> verify_experiment ops tval w = Inr () \<and>
      exp_state w = OfflineRunning \<and> map state (stages w) = [Running, Pending, Pending, Pending] \<and>
      hard_gates w = hard_gates v \<and> exp_sha256 w = d"
proof -
  let ?w = "(set_running v Offline)\<lparr> exp_sha256 := d \<rparr>"
  have run: "experiment_shape (set_running v Offline)"
    using v start by (simp add: set_running_shape verify_experiment_ok)
  then have "coherent_state (set_running v Offline)" by (simp add: experiment_shape_def)
  then have "map state (stages ?w) = [Running, Pending, Pending, Pending]"
    by (simp add: coherent_state_def set_running_def)
  moreover have "verify_experiment ops tval ?w = Inr ()"
    using run experiment_seal.sealed_verifies [OF ser d] by (simp add: verify_experiment_ok)
  moreover have "advance_stage ops tval v Offline = Inr ?w"
    using v gates start d by (simp add: advance_stage_iff)
  ultimately show ?thesis by (intro exI [of _ ?w]) (simp add: set_running_def)
qed

definition sample_receipt :: "ReceiptKind \<Rightarrow> string \<Rightarrow> Receipt" where
  "sample_receipt k i = \<lparr> kind = k, rid = i, digest = zeros 64 \<rparr>"

definition sample_experiment :: ExperimentV1 where
  "sample_experiment =
    \<lparr> schema = ''harness.experiment.v1'', experiment_id = ''experiment-1'', candidate_id = ''candidate-1'',
      candidate_receipt = sample_receipt Candidate ''candidate-1'',
      champion_bundle_id = ''champion-1'',
      champion_bundle_receipt = sample_receipt ChampionBundle ''champion-1'',
      challenger_bundle_id = ''challenger-1'',
      challenger_bundle_receipt = sample_receipt ChallengerBundle ''challenger-1'',
      runtime_policy_digest = zeros 64,
      stages = map pending [Offline, Holdout, Shadow, Canary],
      hard_gates = [\<lparr> gate_id = ''gate-1'', passed = True,
        gate_evidence = sample_receipt HardGateReceipt ''gate-receipt'' \<rparr>],
      exp_state = Proposed, exp_sha256 = ''object'' \<rparr>"

text \<open>A concrete serializer with two keys, and a digest that names the constructor.\<close>

definition sample_value :: "ExperimentV1 \<Rightarrow> unit json option" where
  "sample_value v = Some (Object [(''sha256'', String (exp_sha256 v)), (''schema'', String (schema v))])"

definition sample_ops :: "unit digest_ops" where
  "sample_ops = \<lparr> to_bytes = (\<lambda>v. case v of Object _ \<Rightarrow> Some ''object'' | _ \<Rightarrow> None), sha256_hex = (\<lambda>raw. raw) \<rparr>"

lemma sample_value_serializes: "serializes_sha sample_value (\<lambda>d. exp_sha256_update (\<lambda>_. d))"
  by (simp add: serializes_sha_def sample_value_def unsigned_def remove_key_def)

lemma sample_digest: "digest_without_self sample_ops sample_value v = Inr ''object''"
  by (simp add: digest_without_self_def sample_value_def sample_ops_def)

lemma sample_receipt_valid: "valid_as (sample_receipt k i) k \<longleftrightarrow> is_id i"
  by (simp add: valid_as_def sample_receipt_def)

lemma sample_ids:
  "is_id ''experiment-1''" "is_id ''candidate-1''" "is_id ''champion-1''" "is_id ''challenger-1''"
  "is_id ''gate-1''" "is_id ''gate-receipt''"
  by (simp_all add: is_id_def ascii_defs)

lemma sample_verifies: "verify_experiment sample_ops sample_value sample_experiment = Inr ()"
proof -
  have "experiment_shape sample_experiment"
    by (simp add: experiment_shape_def sample_experiment_def sample_receipt_valid sample_ids
        coherent_state_def stage_ok_def pending_def)
      (simp add: sample_receipt_def)
  moreover have "exp_sha256 sample_experiment = ''object''" by (simp add: sample_experiment_def)
  ultimately show ?thesis by (simp add: verify_experiment_ok sample_digest)
qed

theorem later_stages_never_start_witness:
  "verify_experiment sample_ops sample_value sample_experiment = Inr () \<and>
   (\<exists>e. advance_stage sample_ops sample_value sample_experiment Holdout = Inl e)"
  using later_stages_never_start [of Holdout sample_ops sample_value sample_experiment] sample_verifies
  by simp

theorem offline_start_verifies_witness:
  "\<exists>w. advance_stage sample_ops sample_value sample_experiment Offline = Inr w \<and>
    verify_experiment sample_ops sample_value w = Inr () \<and> exp_state w = OfflineRunning"
  using offline_start_verifies [OF sample_value_serializes sample_verifies _ _ sample_digest]
  by (auto simp: sample_experiment_def)

section \<open>Cohorts\<close>

lemma residue_blocks:
  "{x. x < 6 * n + r \<and> x mod n < b} =
    (\<Union>i<6. (+) (n * i) ` {..<b}) \<union> (+) (n * 6) ` {..<min b r}" (is "?A = ?B")
  if b: "b \<le> n" and r: "r \<le> n" and n: "0 < n" for n r b :: nat
proof
  show "?A \<subseteq> ?B"
  proof
    fix x assume "x \<in> ?A"
    then have x: "x < 6 * n + r" "x mod n < b" by auto
    define i where "i = x div n"
    have x_eq: "x = n * i + x mod n" by (simp add: i_def)
    have "i < 6 \<or> i = 6 \<and> x mod n < r"
    proof (cases "i < 6")
      case False
      then have "n * 6 \<le> n * i" by simp
      with x x_eq r have "x mod n < r" by linarith
      moreover have "\<not> 7 \<le> i"
      proof
        assume "7 \<le> i"
        then have "n * 7 \<le> n * i" by simp
        with x x_eq r show False by linarith
      qed
      ultimately show ?thesis using False by simp
    qed simp
    then show "x \<in> ?B" using x x_eq by (auto intro!: image_eqI)
  qed
  show "?B \<subseteq> ?A"
  proof
    fix x assume "x \<in> ?B"
    then obtain i j where x: "x = n * i + j" and j: "j < b" and i: "i < 6 \<or> i = 6 \<and> j < r" by auto
    have "n * i + j < 6 * n + r"
    proof (cases "i < 6")
      case True
      then have "n * (i + 1) \<le> n * 6" by (intro mult_le_mono2) simp
      then have "n * i + n \<le> 6 * n" by (simp only: distrib_left mult_1_right mult.commute)
      with j b show ?thesis by linarith
    qed (use i in simp)
    then show "x \<in> ?A" using x j b by simp
  qed
qed

lemma residue_count:
  assumes b: "b \<le> n" and r: "r \<le> n" and n: "0 < n"
  shows "card {x. x < 6 * n + r \<and> x mod n < b} = 6 * b + min b r"
proof -
  let ?block = "\<lambda>i. (+) (n * i) ` {..<b :: nat}"
  have apart: "?block i \<inter> (+) (n * j) ` {..<c} = {}" if ij: "i \<noteq> j" and c: "c \<le> b" for i j c
  proof (rule ccontr)
    assume "?block i \<inter> (+) (n * j) ` {..<c} \<noteq> {}"
    then obtain x y where "n * i + x = n * j + y" and "x < b" and "y < c"
      by auto
    with b c have "n * i + x = n * j + y" and "x < n" and "y < n" by simp_all
    then have "(n * i + x) div n = (n * j + y) div n" by simp
    then show False using \<open>x < n\<close> \<open>y < n\<close> ij by simp
  qed
  have "card (\<Union>i<6. ?block i) = (\<Sum>i<6. card (?block i))"
    by (rule card_UN_disjoint) (auto intro!: apart)
  then have "card (\<Union>i<6. ?block i) = 6 * b"
    by (simp add: card_image)
  moreover have "?block i \<inter> (+) (n * 6) ` {..<min b r} = {}" if "i < 6" for i
    by (rule apart) (use that in simp_all)
  then have "(\<Union>i<6. ?block i) \<inter> (+) (n * 6) ` {..<min b r} = {}" by blast
  ultimately show ?thesis
    unfolding residue_blocks [OF b r n] by (simp add: card_Un_disjoint card_image)
qed

lemma card_words: "card {h :: u16. P (unat h)} = card {x. x < 65536 \<and> P x}"
proof (rule bij_betw_same_card [of unat])
  have "x \<in> unat ` {h :: u16. P (unat h)}" if "x < 65536" "P x" for x
    using that by (intro image_eqI [of _ _ "of_nat x"]) (simp_all add: unat_of_nat)
  then show "bij_betw unat {h :: u16. P (unat h)} {x. x < 65536 \<and> P x}"
    using unsigned_less [where 'b = 16 and 'a = nat] by (auto simp: bij_betw_def inj_on_def word_unat_eq_iff)
qed

lemma in_cohort_unat: "in_cohort h bp \<longleftrightarrow> unat h mod 10000 < unat bp"
  by (simp add: in_cohort_def word_less_nat_alt unat_mod)

lemma cohort_size:
  assumes "unat bp \<le> 10000"
  shows "card {h. in_cohort h bp} = 6 * unat bp + min (unat bp) 5536"
  using residue_count [of "unat bp" 10000 5536] card_words [of "\<lambda>x. x mod 10000 < unat bp"] assms
  by (simp add: in_cohort_unat)

text \<open>
  The cohort is larger than its share: of the 65536 values the two hash bytes can take, a share
  of \<open>bp\<close> basis points admits exactly \<open>6 bp + min bp 5536\<close>. For every share strictly between nothing
  and everything, and for no other, that is more than \<open>bp\<close> ten-thousandths of the values.
\<close>

theorem cohort_exceeds_share:
  assumes "bp \<le> 10000"
  shows "card {h. in_cohort h bp} = 6 * unat bp + min (unat bp) 5536 \<and>
    (10000 * card {h. in_cohort h bp} > 65536 * unat bp \<longleftrightarrow> 0 < bp \<and> bp < 10000)"
proof -
  have bp: "unat bp \<le> 10000" using assms by (simp add: word_le_nat_alt)
  have "0 < bp \<longleftrightarrow> 0 < unat bp" "bp < 10000 \<longleftrightarrow> unat bp < 10000"
    by (simp_all only: word_less_nat_alt) simp_all
  moreover have "65536 * n < 10000 * (6 * n + min n 5536) \<longleftrightarrow> 0 < n \<and> n < 10000" if "n \<le> 10000" for n :: nat
    using that by (auto simp: min_def)
  ultimately show ?thesis using cohort_size [OF bp] bp by (simp del: of_nat_unat)
qed

theorem cohort_exceeds_share_witness:
  "card {h. in_cohort h 5000} = 35000"
  using cohort_exceeds_share [of 5000] by simp

text \<open>
  A subject keeps its cohort while the share grows: whoever is assigned at some share is
  assigned at every larger valid one; nobody is at share zero or above ten thousand, and everybody
  at ten thousand.
\<close>

theorem cohort_grows_with_share:
  assumes "a \<le> b" and "b \<le> 10000" and "assign_cohort sha e s a"
  shows "assign_cohort sha e s b \<and> \<not> assign_cohort sha e s 0 \<and> assign_cohort sha e s 10000 \<and>
    (\<forall>c > 10000. \<not> assign_cohort sha e s c)"
proof -
  have "in_cohort h 10000" for h by (simp add: in_cohort_unat)
  then show ?thesis
    using assms by (auto simp: assign_cohort_def in_cohort_def Let_def)
qed

theorem cohort_grows_with_share_witness:
  "assign_cohort (\<lambda>_. [CHR 0x00, CHR 0x05]) ''e'' ''s'' 6 \<and>
   assign_cohort (\<lambda>_. [CHR 0x00, CHR 0x05]) ''e'' ''s'' 7"
  using cohort_grows_with_share [of 6 7 "\<lambda>_. [CHR 0x00, CHR 0x05]" "''e''" "''s''"]
  by (simp add: assign_cohort_def in_cohort_def byte_def)

section \<open>Exposure stays within its budget\<close>

text \<open>
  The states an exposure can be in, with the observations it has admitted: it starts from a budget,
  and each successful call of \<open>observe_shadow\<close> (\<open>observe_canary\<close> makes the same call after one more
  check) either only stops it or counts one more observation.
\<close>

inductive exposure :: "ExposureBudget \<Rightarrow> ShadowObservation list \<Rightarrow> ShadowState \<Rightarrow> bool" for b where
  start: "exposure b [] (new_shadow b)"
| observe: "exposure b admitted st \<Longrightarrow> observe_shadow a st obs = Inr st' \<Longrightarrow>
    exposure b (if observed st' = observed st then admitted else admitted @ [obs]) st'"

lemma observe_canary_is_shadow:
  "observe_canary a st obs = Inr st' \<longleftrightarrow>
    valid_as (operator_start_receipt a) OperatorStart \<and> observe_shadow (shadow a) st obs = Inr st'"
  by (simp add: observe_canary_def canary_authority_valid_def) (auto simp: observe_shadow_def)

definition critical_failure :: "ShadowObservation \<Rightarrow> bool" where
  "critical_failure obs \<longleftrightarrow> critical obs \<and> challenger obs = ChallengerFailed"

text \<open>The two outcomes of a successful observation.\<close>

lemma observe_shadow_cases:
  assumes "observe_shadow a st obs = Inr st'"
  obtains (stopped) r where "stop st = None" and "st' = st\<lparr> stop := Some r \<rparr>"
  | (counted) "stop st = None" and "observed st < max_samples (budget st)"
      and "sat_add (spent_microusd st) (cost_microusd obs) \<le> max_cost_microusd (budget st)"
      and "st' = count_critical obs
       (st\<lparr> observed := observed st + 1, spent_microusd := spent_microusd st + cost_microusd obs,
            production := obs_production obs, fallback_used := (challenger obs \<noteq> ChallengerPassed) \<rparr>)"
  using assms by (auto simp: observe_shadow_def not_le not_less split: if_splits)

lemma count_critical_fields [simp]:
  "budget (count_critical obs st) = budget st"
  "observed (count_critical obs st) = observed st"
  "spent_microusd (count_critical obs st) = spent_microusd st"
  "production (count_critical obs st) = production st"
  "fallback_used (count_critical obs st) = fallback_used st"
  "critical_failures (count_critical obs st) =
    (if critical_failure obs then critical_failures st + 1 else critical_failures st)"
  "stop st = None \<Longrightarrow> stop (count_critical obs st) = None \<longleftrightarrow>
    \<not> (critical_failure obs \<and> critical_failures st + 1 \<ge> max_critical_failures (budget st))"
  by (auto simp: count_critical_def critical_failure_def Let_def)

lemma sat_add_below_max:
  fixes x y z :: "'a::len word"
  assumes "sat_add x y \<le> z" and "z < - 1"
  shows "unat (x + y) = unat x + unat y" and "x + y \<le> z"
proof -
  have fits: "unat x + unat y < 2 ^ LENGTH('a)"
    using assms by (auto simp: sat_add_def split: if_splits)
  then show "unat (x + y) = unat x + unat y" by (simp add: unat_word_ariths)
  from fits show "x + y \<le> z" using assms by (simp add: sat_add_def)
qed

lemma unat_Suc_below: "x < y \<Longrightarrow> unat (x + 1) = Suc (unat x)" for x y :: "'a::len word"
proof -
  assume "x < y"
  then have "unat x < unat y" by (simp add: word_less_nat_alt)
  also have "unat y < 2 ^ LENGTH('a)" by (rule unsigned_less)
  finally have "Suc (unat x) < 2 ^ LENGTH('a) \<or> Suc (unat x) = 2 ^ LENGTH('a)" by linarith
  moreover have "Suc (unat x) \<noteq> 2 ^ LENGTH('a)"
    using \<open>unat x < unat y\<close> \<open>unat y < 2 ^ LENGTH('a)\<close> by linarith
  ultimately show ?thesis by (simp add: unat_word_ariths)
qed

definition within_budget :: "ExposureBudget \<Rightarrow> ShadowObservation list \<Rightarrow> ShadowState \<Rightarrow> bool" where
  "within_budget b admitted st \<longleftrightarrow>
    budget st = b \<and>
    unat (observed st) = length admitted \<and> observed st \<le> max_samples b \<and>
    (max_cost_microusd b < - 1 \<longrightarrow>
      unat (spent_microusd st) = (\<Sum>obs\<leftarrow>admitted. unat (cost_microusd obs)) \<and>
      spent_microusd st \<le> max_cost_microusd b) \<and>
    unat (critical_failures st) = length (filter critical_failure admitted) \<and>
    critical_failures st \<le> max 1 (max_critical_failures b) \<and>
    (stop st = None \<longrightarrow> critical_failures st < max_critical_failures b \<or> critical_failures st = 0) \<and>
    (admitted \<noteq> [] \<longrightarrow> production st = obs_production (last admitted) \<and>
      (fallback_used st \<longleftrightarrow> challenger (last admitted) \<noteq> ChallengerPassed))"

lemma within_budget_counted:
  assumes inv: "within_budget b admitted st"
    and room: "observed st < max_samples b"
    and afford: "sat_add (spent_microusd st) (cost_microusd obs) \<le> max_cost_microusd b"
    and going: "stop st = None"
  shows "within_budget b (admitted @ [obs]) (count_critical obs
       (st\<lparr> observed := observed st + 1, spent_microusd := spent_microusd st + cost_microusd obs,
            production := obs_production obs, fallback_used := (challenger obs \<noteq> ChallengerPassed) \<rparr>))"
proof -
  have len: "unat (observed st + 1) = Suc (length admitted)"
    using inv room by (simp add: unat_Suc_below within_budget_def)
  have "critical_failures st \<le> observed st"
    using inv by (simp add: within_budget_def word_le_nat_alt)
  then have failed: "unat (critical_failures st + 1) = Suc (unat (critical_failures st))"
    using room by (intro unat_Suc_below) (rule order.strict_trans1)
  have "critical_failures st < max_critical_failures b \<or> critical_failures st = 0"
    using inv going by (simp add: within_budget_def)
  then have "critical_failures st + 1 \<le> max 1 (max_critical_failures b)"
    using failed by (auto simp: max_def word_le_nat_alt word_less_nat_alt)
  moreover have "observed st + 1 \<le> max_samples b"
    using len room inv by (simp add: word_le_nat_alt word_less_nat_alt within_budget_def)
  moreover have "unat (spent_microusd st + cost_microusd obs) = (\<Sum>obs\<leftarrow>admitted @ [obs]. unat (cost_microusd obs)) \<and>
      spent_microusd st + cost_microusd obs \<le> max_cost_microusd b" if "max_cost_microusd b < - 1"
    using inv that sat_add_below_max [OF afford that] by (simp add: within_budget_def)
  ultimately show ?thesis
    using inv len going failed by (simp add: within_budget_def not_le)
qed

text \<open>
  C34. What an exposure admits is counted exactly and limited: after any sequence of shadow or canary observations the
  counter is the number of admitted observations and within the sample budget; the critical failures among them are
  counted exactly, are at most the failure budget, or one where that budget is zero, and an exposure that is not stopped
  has none or fewer than the budget; and the result shown is the production result of the last admitted observation. If
  the cost budget is below the largest 64-bit number, the amount spent is the exact sum of the admitted costs and within
  the cost budget; at the largest number the stored sum can wrap around.
\<close>

theorem exposure_within_budget:
  assumes "exposure b admitted st"
  shows "within_budget b admitted st"
  using assms
proof induction
  case start
  show ?case by (simp add: within_budget_def new_shadow_def)
next
  case (observe admitted st a obs st')
  have b: "budget st = b" using observe.IH by (simp add: within_budget_def)
  from observe.hyps(2) show ?case
  proof (cases rule: observe_shadow_cases)
    case (stopped r)
    then show ?thesis using observe.IH by (simp add: within_budget_def)
  next
    case counted
    then show ?thesis
      using within_budget_counted [OF observe.IH] by (simp add: b)
  qed
qed

definition sample_authority :: ShadowAuthority where
  "sample_authority =
    \<lparr> isolation_custody_receipt = sample_receipt IsolationCustody ''custody'',
      task_family = ShadowReplay, edit_dimensions = [Prompt],
      assignment_receipt = sample_receipt Assignment ''assignment'',
      fallback_receipt = sample_receipt Fallback ''fallback'' \<rparr>"

definition sample_budget :: "u64 \<Rightarrow> ExposureBudget" where
  "sample_budget cost = \<lparr> max_samples = 10, max_cost_microusd = cost, max_critical_failures = 1 \<rparr>"

definition sample_observation :: "u64 \<Rightarrow> ShadowObservation" where
  "sample_observation cost = \<lparr> obs_production = ProductionPassed, challenger = ChallengerPassed,
     cost_microusd = cost, critical = False \<rparr>"

definition sample_shadow :: "u64 \<Rightarrow> u64 \<Rightarrow> u64 \<Rightarrow> ShadowState" where
  "sample_shadow cost n spent = \<lparr> budget = sample_budget cost, observed = n, spent_microusd = spent,
     critical_failures = 0, production = ProductionPassed, fallback_used = False, stop = None \<rparr>"

lemma sample_authority_valid: "shadow_authority_valid sample_authority"
  by (simp add: shadow_authority_valid_def sample_authority_def sample_receipt_valid is_id_def ascii_defs)

lemma sample_step:
  assumes "n < 10" and "sat_add spent c \<le> cost"
  shows "observe_shadow sample_authority (sample_shadow cost n spent) (sample_observation c) =
    Inr (sample_shadow cost (n + 1) (spent + c))"
  using assms sample_authority_valid
  by (simp add: observe_shadow_def sample_shadow_def sample_observation_def sample_budget_def
      count_critical_def not_le not_less)

lemma sample_start:
  assumes "c \<le> cost"
  shows "exposure (sample_budget cost) [sample_observation c] (sample_shadow cost 1 c)"
proof -
  have "observe_shadow sample_authority (new_shadow (sample_budget cost)) (sample_observation c) =
      Inr (sample_shadow cost 1 c)"
    using assms sample_authority_valid unsigned_less [of c, where 'a = nat]
    by (simp add: observe_shadow_def sample_shadow_def sample_observation_def sample_budget_def
        count_critical_def new_shadow_def sat_add_def not_le word_less_nat_alt word_le_nat_alt)
  from exposure.observe [OF exposure.start this] show ?thesis
    by (simp add: new_shadow_def sample_shadow_def)
qed

theorem exposure_within_budget_witness:
  "within_budget (sample_budget 50) [sample_observation 7] (sample_shadow 50 1 7)"
  by (rule exposure_within_budget [OF sample_start]) simp

text \<open>
  With the largest number as its cost budget an exposure can spend without limit: two
  observations are admitted whose costs together exceed every 64-bit budget, and the amount recorded
  as spent afterwards is zero. The test of the budget saturates, the sum that is stored does not.
\<close>

theorem unlimited_cost_wraps:
  "exposure (sample_budget (- 1)) [sample_observation (- 1), sample_observation 1] (sample_shadow (- 1) 2 0) \<and>
   2 ^ 64 \<le> unat (cost_microusd (sample_observation (- 1))) + unat (cost_microusd (sample_observation 1))"
proof
  have "observe_shadow sample_authority (sample_shadow (- 1) 1 (- 1)) (sample_observation 1) =
      Inr (sample_shadow (- 1) 2 0)"
    by (subst sample_step) (simp_all add: word_less_nat_alt)
  from exposure.observe [OF sample_start [of "- 1" "- 1"] this]
  show "exposure (sample_budget (- 1)) [sample_observation (- 1), sample_observation 1] (sample_shadow (- 1) 2 0)"
    by (simp add: sample_shadow_def)
qed (simp add: sample_observation_def unat_max_word)

end
