(* ===== verification/Promotion_Contract.thy ===== *)
theory Promotion_Contract
  imports Experiment_Stages
begin

text \<open>
  Promotion and rollback (\<^verbatim>\<open>harness-promotion/src/promotion.rs\<close>): the promotion decision with its
  receipts and approvals, its check alone and against the experiment it promotes, the command that
  switches the active bundle, and the rollback contract that switches it back.

  Lemmas: what a decision accepted against an experiment guarantees, and that the rollback built
  from a decision restores exactly the bundle the decision replaced, once, with later calls either
  recognised as the same rollback or refused.
\<close>

section \<open>Decisions\<close>

datatype ApprovalRole = IndependentReviewer | OperatorRole

record ApprovalReceipt =
  role :: ApprovalRole
  receipt :: Receipt

record RequiredReceipts =
  offline :: Receipt
  holdout :: Receipt
  shadow_receipt :: Receipt
  canary :: Receipt
  reward_integrity :: Receipt
  statistics :: Receipt

definition named_receipt :: "string \<Rightarrow> ReceiptKind \<Rightarrow> string \<Rightarrow> Receipt" where
  "named_receipt pre k suf =
    \<lparr> kind = k, rid = pre @ ''-'' @ suf, digest = replicate 64 (CHR ''a'') \<rparr>"

definition all_receipts :: "string \<Rightarrow> RequiredReceipts" where
  "all_receipts pre =
    \<lparr> offline = named_receipt pre OfflineReceipt ''offline'',
      holdout = named_receipt pre HoldoutReceipt ''holdout'',
      shadow_receipt = named_receipt pre ShadowReceipt ''shadow'',
      canary = named_receipt pre CanaryReceipt ''canary'',
      reward_integrity = named_receipt pre RewardIntegrity ''reward'',
      statistics = named_receipt pre StatisticsReceipt ''statistics'' \<rparr>"

definition receipts_valid :: "RequiredReceipts \<Rightarrow> bool" where
  "receipts_valid r =
    list_all (\<lambda>(receipt, k). valid_as receipt k)
      [(offline r, OfflineReceipt), (holdout r, HoldoutReceipt), (shadow_receipt r, ShadowReceipt),
       (canary r, CanaryReceipt), (reward_integrity r, RewardIntegrity), (statistics r, StatisticsReceipt)]"

record PromotionDecisionV1 =
  pd_schema :: string
  pd_promotion_id :: string
  pd_experiment_id :: string
  pd_candidate_id :: string
  experiment_digest :: string
  pd_runtime_policy_digest :: string
  from_bundle_id :: string
  to_bundle_id :: string
  safety_anchor_digest :: string
  required_receipts :: RequiredReceipts
  approvals :: "ApprovalReceipt list"
  rollback_evidence :: Receipt
  pd_sha256 :: string

text \<open>\<open>None\<close> is the panic of \<open>expect\<close>.\<close>

definition approved ::
  "'n digest_ops \<Rightarrow> (PromotionDecisionV1 \<Rightarrow> 'n json option) \<Rightarrow> string \<Rightarrow> string \<Rightarrow> string \<Rightarrow> string \<Rightarrow>
    string \<Rightarrow> string \<Rightarrow> RequiredReceipts \<Rightarrow> Receipt \<Rightarrow> PromotionDecisionV1 option" where
  "approved ops tval pid eid cid from to anchor receipts rollback =
    (let value =
      \<lparr> pd_schema = ''harness.promotion-decision.v1'', pd_promotion_id = pid, pd_experiment_id = eid,
        pd_candidate_id = cid, experiment_digest = replicate 64 (CHR ''a''),
        pd_runtime_policy_digest = replicate 64 (CHR ''a''), from_bundle_id = from, to_bundle_id = to,
        safety_anchor_digest = anchor, required_receipts = receipts,
        approvals =
          [\<lparr> role = IndependentReviewer, receipt = named_receipt pid IndependentReview ''review'' \<rparr>,
           \<lparr> role = OperatorRole, receipt = named_receipt pid OperatorApproval ''operator'' \<rparr>],
        rollback_evidence = rollback, pd_sha256 = [] \<rparr> in
     case digest_without_self ops tval value of
       Inl _ \<Rightarrow> None
     | Inr d \<Rightarrow> Some (value\<lparr> pd_sha256 := d \<rparr>))"

definition promotion_shape :: "PromotionDecisionV1 \<Rightarrow> bool" where
  "promotion_shape v \<longleftrightarrow>
    pd_schema v = ''harness.promotion-decision.v1'' \<and>
    list_all is_id [pd_promotion_id v, pd_experiment_id v, pd_candidate_id v, from_bundle_id v, to_bundle_id v] \<and>
    from_bundle_id v \<noteq> to_bundle_id v \<and>
    is_digest (safety_anchor_digest v) \<and>
    is_digest (experiment_digest v) \<and>
    is_digest (pd_runtime_policy_digest v) \<and>
    receipts_valid (required_receipts v) \<and>
    length (approvals v) = 2 \<and>
    card (set (map role (approvals v))) = 2 \<and>
    role (approvals v ! 0) = IndependentReviewer \<and>
    valid_as (receipt (approvals v ! 0)) IndependentReview \<and>
    role (approvals v ! 1) = OperatorRole \<and>
    valid_as (receipt (approvals v ! 1)) OperatorApproval \<and>
    valid_as (rollback_evidence v) Rollback"

definition verify_promotion ::
  "'n digest_ops \<Rightarrow> (PromotionDecisionV1 \<Rightarrow> 'n json option) \<Rightarrow> PromotionDecisionV1 \<Rightarrow> ContractError + unit" where
  "verify_promotion ops tval v =
    (if promotion_shape v
     then and_then (digest_without_self ops tval v) (\<lambda>d. ensure (d = pd_sha256 v) Missing)
     else Inl Missing)"

definition evidence_matches :: "Receipt \<Rightarrow> StageReceipt \<Rightarrow> bool" where
  "evidence_matches r s = is_some_and (\<lambda>e. rid r = ev_id e \<and> digest r = ev_digest e) (evidence s)"

definition verify_promotion_against_experiment ::
  "'n digest_ops \<Rightarrow> (PromotionDecisionV1 \<Rightarrow> 'n json option) \<Rightarrow> (ExperimentV1 \<Rightarrow> 'n json option) \<Rightarrow>
    PromotionDecisionV1 \<Rightarrow> ExperimentV1 \<Rightarrow> ContractError + unit" where
  "verify_promotion_against_experiment ops ptval etval v e =
    and_then (verify_promotion ops ptval v) (\<lambda>_.
    and_then (verify_experiment ops etval e) (\<lambda>_.
      let r = required_receipts v in
      ensure
        (pd_experiment_id v = experiment_id e \<and>
         pd_candidate_id v = candidate_id e \<and>
         from_bundle_id v = champion_bundle_id e \<and>
         to_bundle_id v = challenger_bundle_id e \<and>
         experiment_digest v = exp_sha256 e \<and>
         pd_runtime_policy_digest v = runtime_policy_digest e \<and>
         exp_state e = PromotionReview \<and>
         list_all (\<lambda>s. state s = Passed) (stages e) \<and>
         list_all passed (hard_gates e) \<and>
         list_all (\<lambda>(r, s). evidence_matches r s)
           (zip [offline r, holdout r, shadow_receipt r, canary r] (stages e)))
        Stale))"

section \<open>Binding commands\<close>

record AtomicBindingCommand =
  expected_active_bundle_id :: string
  cmd_to_bundle_id :: string
  cmd_safety_anchor_digest :: string
  cmd_promotion_id :: string
  cmd_promotion_receipt :: Receipt

definition atomic_binding_command ::
  "'n digest_ops \<Rightarrow> (PromotionDecisionV1 \<Rightarrow> 'n json option) \<Rightarrow> PromotionDecisionV1 \<Rightarrow> string \<Rightarrow> string \<Rightarrow>
    ContractError + AtomicBindingCommand" where
  "atomic_binding_command ops tval v active anchor =
    and_then (verify_promotion ops tval v) (\<lambda>_.
      if active \<noteq> from_bundle_id v \<or> anchor \<noteq> safety_anchor_digest v then Inl Stale
      else Inr
        \<lparr> expected_active_bundle_id = active, cmd_to_bundle_id = to_bundle_id v,
          cmd_safety_anchor_digest = anchor, cmd_promotion_id = pd_promotion_id v,
          cmd_promotion_receipt =
            \<lparr> kind = Promotion, rid = pd_promotion_id v, digest = pd_sha256 v \<rparr> \<rparr>)"

datatype RollbackReason = OperatorRequested | HardConstraint | GlobalKillSwitch

datatype RollbackReplay = Apply | ExactReplay

record RollbackContract =
  rb_schema :: string
  rb_promotion_id :: string
  rb_expected_active_bundle_id :: string
  rb_target_bundle_id :: string
  rb_safety_anchor_digest :: string
  rb_promotion_receipt :: Receipt
  emergency_stop :: bool
  reason :: RollbackReason
  rb_evidence :: Receipt
  rb_sha256 :: string

record RollbackBindingCommand =
  rc_expected_active_bundle_id :: string
  rollback_target_bundle_id :: string
  rc_safety_anchor_digest :: string
  rollback_receipt :: Receipt

text \<open>The contract before it is sealed.\<close>

definition unsealed_rollback :: "PromotionDecisionV1 \<Rightarrow> string \<Rightarrow> Receipt \<Rightarrow> RollbackContract" where
  "unsealed_rollback v current ev =
    \<lparr> rb_schema = ''harness.rollback.v1'', rb_promotion_id = pd_promotion_id v,
      rb_expected_active_bundle_id = current, rb_target_bundle_id = from_bundle_id v,
      rb_safety_anchor_digest = safety_anchor_digest v,
      rb_promotion_receipt = \<lparr> kind = Promotion, rid = pd_promotion_id v, digest = pd_sha256 v \<rparr>,
      emergency_stop = False, reason = OperatorRequested, rb_evidence = ev, rb_sha256 = [] \<rparr>"

definition from_promotion ::
  "'n digest_ops \<Rightarrow> (PromotionDecisionV1 \<Rightarrow> 'n json option) \<Rightarrow> (RollbackContract \<Rightarrow> 'n json option) \<Rightarrow>
    PromotionDecisionV1 \<Rightarrow> string \<Rightarrow> Receipt \<Rightarrow> ContractError + RollbackContract" where
  "from_promotion ops ptval rtval v current ev =
    and_then (verify_promotion ops ptval v) (\<lambda>_.
      if current \<noteq> to_bundle_id v then Inl Stale
      else let value = unsealed_rollback v current ev in
        and_then (digest_without_self ops rtval value) (\<lambda>d. Inr (value\<lparr> rb_sha256 := d \<rparr>)))"

definition rollback_shape :: "RollbackContract \<Rightarrow> string \<Rightarrow> string \<Rightarrow> bool" where
  "rollback_shape v active anchor \<longleftrightarrow>
    rb_schema v = ''harness.rollback.v1'' \<and>
    rb_expected_active_bundle_id v = active \<and>
    rb_safety_anchor_digest v = anchor \<and>
    list_all is_id [rb_promotion_id v, rb_expected_active_bundle_id v, rb_target_bundle_id v] \<and>
    rb_expected_active_bundle_id v \<noteq> rb_target_bundle_id v \<and>
    is_digest (rb_safety_anchor_digest v) \<and>
    valid_as (rb_promotion_receipt v) Promotion \<and>
    rid (rb_promotion_receipt v) = rb_promotion_id v \<and>
    valid_as (rb_evidence v) Rollback \<and>
    (\<not> emergency_stop v \<or> reason v = HardConstraint \<or> reason v = GlobalKillSwitch)"

definition validate_rollback ::
  "'n digest_ops \<Rightarrow> (RollbackContract \<Rightarrow> 'n json option) \<Rightarrow> RollbackContract \<Rightarrow> string \<Rightarrow> string \<Rightarrow>
    ContractError + unit" where
  "validate_rollback ops tval v active anchor =
    (if rollback_shape v active anchor
     then and_then (digest_without_self ops tval v) (\<lambda>d. ensure (d = rb_sha256 v) Stale)
     else Inl Stale)"

definition rollback_command :: "RollbackContract \<Rightarrow> string \<Rightarrow> string \<Rightarrow> RollbackBindingCommand" where
  "rollback_command v active anchor =
    \<lparr> rc_expected_active_bundle_id = active, rollback_target_bundle_id = rb_target_bundle_id v,
      rc_safety_anchor_digest = anchor,
      rollback_receipt = \<lparr> kind = Rollback, rid = rb_promotion_id v, digest = rb_sha256 v \<rparr> \<rparr>"

definition rollback_binding_command ::
  "'n digest_ops \<Rightarrow> (RollbackContract \<Rightarrow> 'n json option) \<Rightarrow> RollbackContract \<Rightarrow> string \<Rightarrow> string \<Rightarrow>
    string option \<Rightarrow> ContractError + RollbackBindingCommand \<times> RollbackReplay" where
  "rollback_binding_command ops tval v active anchor persisted =
    (if active = rb_target_bundle_id v then
       and_then (validate_rollback ops tval v (rb_expected_active_bundle_id v) anchor) (\<lambda>_.
         if persisted = Some (rb_sha256 v)
         then Inr (rollback_command v (rb_expected_active_bundle_id v) (rb_safety_anchor_digest v), ExactReplay)
         else Inl Stale)
     else
       and_then (validate_rollback ops tval v active anchor) (\<lambda>_.
         Inr (rollback_command v active anchor, Apply)))"

section \<open>Accepted promotions\<close>

interpretation rollback_seal: digested rb_sha256 "\<lambda>d. rb_sha256_update (\<lambda>_. d)"
  by unfold_locales simp_all

interpretation promotion_seal: digested pd_sha256 "\<lambda>d. pd_sha256_update (\<lambda>_. d)"
  by unfold_locales simp_all

lemma verify_promotion_ok:
  "verify_promotion ops tval v = Inr u \<longleftrightarrow>
    promotion_shape v \<and> digest_without_self ops tval v = Inr (pd_sha256 v)"
  by (auto simp: verify_promotion_def and_then_ok)

lemma validate_rollback_ok:
  "validate_rollback ops tval v active anchor = Inr u \<longleftrightarrow>
    rollback_shape v active anchor \<and> digest_without_self ops tval v = Inr (rb_sha256 v)"
  by (auto simp: validate_rollback_def and_then_ok)

text \<open>
  C35. A promotion is accepted only for a finished experiment: when a decision passes the check
  against an experiment, the experiment is in promotion review with all four stages passed and every
  hard gate passed, the receipts of the decision are those of the evidence of the four stages in
  order, the decision names this experiment by its digest and replaces its champion by its
  challenger, and it carries the approval of an independent reviewer and of the operator.
\<close>

theorem promotion_needs_finished_experiment:
  assumes "verify_promotion_against_experiment ops ptval etval v e = Inr ()"
  shows "exp_state e = PromotionReview \<and> map stage (stages e) = [Offline, Holdout, Shadow, Canary] \<and>
    map state (stages e) = [Passed, Passed, Passed, Passed] \<and>
    hard_gates e \<noteq> [] \<and> list_all passed (hard_gates e) \<and>
    map (\<lambda>s. map_option (\<lambda>ev. (ev_id ev, ev_digest ev)) (evidence s)) (stages e) =
      map (\<lambda>r. Some (rid r, digest r))
        [offline (required_receipts v), holdout (required_receipts v),
         shadow_receipt (required_receipts v), canary (required_receipts v)] \<and>
    experiment_digest v = exp_sha256 e \<and>
    from_bundle_id v = champion_bundle_id e \<and> to_bundle_id v = challenger_bundle_id e \<and>
    map role (approvals v) = [IndependentReviewer, OperatorRole]"
proof -
  have shape: "experiment_shape e" and prom: "promotion_shape v"
    using assms
    by (auto simp: verify_promotion_against_experiment_def and_then_ok verify_experiment_ok verify_promotion_ok)
  obtain a b c d where st: "stages e = [a, b, c, d]"
    using shape by (rule verified_stages)
  have "evidence_matches r s \<longleftrightarrow>
      map_option (\<lambda>ev. (ev_id ev, ev_digest ev)) (evidence s) = Some (rid r, digest r)" for r s
    by (cases "evidence s") (auto simp: evidence_matches_def)
  moreover have "map stage (stages e) = [Offline, Holdout, Shadow, Canary]" "hard_gates e \<noteq> []"
    using shape by (simp_all add: experiment_shape_def)
  moreover have "map role (approvals v) = [IndependentReviewer, OperatorRole]"
    using prom by (auto simp: promotion_shape_def length_Suc_conv numeral_2_eq_2)
  ultimately show ?thesis
    using assms st
    by (simp add: verify_promotion_against_experiment_def and_then_ok Let_def)
qed

section \<open>Rollback undoes a promotion\<close>

text \<open>What is relied on of the hash: its hexadecimal form is 64 lower-case digits.\<close>

definition hex_digests :: "'n digest_ops \<Rightarrow> bool" where
  "hex_digests ops \<longleftrightarrow> (\<forall>raw. is_digest (sha256_hex ops raw))"

lemma digest_is_hex:
  "hex_digests ops \<Longrightarrow> digest_without_self ops tval r = Inr d \<Longrightarrow> is_digest d"
  by (auto simp: digest_without_self_def hex_digests_def split: option.splits json.splits)

lemma sealed_rollback_valid:
  assumes hex: "hex_digests ops" and ser: "serializes_sha rtval (\<lambda>d. rb_sha256_update (\<lambda>_. d))"
    and v: "verify_promotion ops ptval v = Inr ()" and ev: "valid_as ev Rollback"
    and d: "digest_without_self ops rtval (unsealed_rollback v (to_bundle_id v) ev) = Inr d"
  shows "validate_rollback ops rtval ((unsealed_rollback v (to_bundle_id v) ev)\<lparr> rb_sha256 := d \<rparr>)
    (to_bundle_id v) (safety_anchor_digest v) = Inr ()"
proof -
  have "is_digest (pd_sha256 v)"
    using v hex by (auto simp: verify_promotion_ok intro: digest_is_hex)
  then have "rollback_shape ((unsealed_rollback v (to_bundle_id v) ev)\<lparr> rb_sha256 := d \<rparr>)
      (to_bundle_id v) (safety_anchor_digest v)"
    using v ev
    by (auto simp: rollback_shape_def unsealed_rollback_def verify_promotion_ok promotion_shape_def valid_as_def)
  then show ?thesis
    using rollback_seal.sealed_verifies [OF ser d] by (simp add: validate_rollback_ok)
qed

text \<open>
  C36. A rollback undoes its promotion: for a verified decision, a valid rollback receipt and a
  serializable contract, the promotion command switches from the old bundle to the new one, the
  rollback contract built afterwards is accepted while the new bundle is active and its command goes
  back to the old bundle. Once the old bundle is active again, the same call with the stored digest
  of this rollback yields the same command marked as a replay, and without it is refused as stale.
\<close>

theorem rollback_undoes_promotion:
  assumes hex: "hex_digests ops" and ser: "serializes_sha rtval (\<lambda>d. rb_sha256_update (\<lambda>_. d))"
    and v: "verify_promotion ops ptval v = Inr ()" and ev: "valid_as ev Rollback"
    and d: "digest_without_self ops rtval (unsealed_rollback v (to_bundle_id v) ev) = Inr d"
  shows "\<exists>cmd contract undo.
    atomic_binding_command ops ptval v (from_bundle_id v) (safety_anchor_digest v) = Inr cmd \<and>
    expected_active_bundle_id cmd = from_bundle_id v \<and>
    from_promotion ops ptval rtval v (cmd_to_bundle_id cmd) ev = Inr contract \<and>
    rollback_binding_command ops rtval contract (cmd_to_bundle_id cmd) (safety_anchor_digest v) persisted =
      Inr (undo, Apply) \<and>
    rollback_target_bundle_id undo = from_bundle_id v \<and>
    rollback_binding_command ops rtval contract (from_bundle_id v) (safety_anchor_digest v) (Some d) =
      Inr (undo, ExactReplay) \<and>
    (persisted \<noteq> Some d \<longrightarrow>
      rollback_binding_command ops rtval contract (from_bundle_id v) (safety_anchor_digest v) persisted =
        Inl Stale)"
proof -
  let ?c = "(unsealed_rollback v (to_bundle_id v) ev)\<lparr> rb_sha256 := d \<rparr>"
  have c: "validate_rollback ops rtval ?c (to_bundle_id v) (safety_anchor_digest v) = Inr ()"
    by (rule sealed_rollback_valid [OF assms])
  have fields: "rb_target_bundle_id ?c = from_bundle_id v" "rb_expected_active_bundle_id ?c = to_bundle_id v"
    "rb_safety_anchor_digest ?c = safety_anchor_digest v" "rb_sha256 ?c = d"
    by (simp_all add: unsealed_rollback_def)
  have "from_bundle_id v \<noteq> to_bundle_id v"
    using v by (simp add: verify_promotion_ok promotion_shape_def)
  moreover have "from_promotion ops ptval rtval v (to_bundle_id v) ev = Inr ?c"
    using v d by (simp add: from_promotion_def Let_def)
  ultimately show ?thesis
    using v c
    by (simp add: atomic_binding_command_def rollback_binding_command_def fields rollback_command_def)
qed

section \<open>A concrete promotion\<close>

definition hex_ops :: "unit digest_ops" where
  "hex_ops = \<lparr> to_bytes = (\<lambda>_. Some ''bytes''), sha256_hex = (\<lambda>_. zeros 64) \<rparr>"

definition empty_object :: "'r \<Rightarrow> unit json option" where
  "empty_object r = Some (Object [])"

lemma hex_ops_facts:
  "hex_digests hex_ops" "serializes_sha empty_object f"
  "digest_without_self hex_ops empty_object r = Inr (zeros 64)"
  by (simp_all add: hex_digests_def hex_ops_def serializes_sha_def empty_object_def digest_without_self_def)

definition passed_stage :: "Stage \<Rightarrow> StageReceipt" where
  "passed_stage s =
    \<lparr> stage = s, state = Passed,
      evidence = Some \<lparr> ev_stage = s, ev_id = ''evidence'', ev_digest = zeros 64 \<rparr>,
      sample_count = 1, successful_pairs = 1 \<rparr>"

definition finished_experiment :: ExperimentV1 where
  "finished_experiment = sample_experiment
    \<lparr> stages := map passed_stage [Offline, Holdout, Shadow, Canary], exp_state := PromotionReview,
      exp_sha256 := zeros 64 \<rparr>"

definition sample_decision :: PromotionDecisionV1 where
  "sample_decision =
    \<lparr> pd_schema = ''harness.promotion-decision.v1'', pd_promotion_id = ''promotion-1'',
      pd_experiment_id = ''experiment-1'', pd_candidate_id = ''candidate-1'',
      experiment_digest = zeros 64, pd_runtime_policy_digest = zeros 64,
      from_bundle_id = ''champion-1'', to_bundle_id = ''challenger-1'', safety_anchor_digest = zeros 64,
      required_receipts =
        \<lparr> offline = sample_receipt OfflineReceipt ''evidence'',
          holdout = sample_receipt HoldoutReceipt ''evidence'',
          shadow_receipt = sample_receipt ShadowReceipt ''evidence'',
          canary = sample_receipt CanaryReceipt ''evidence'',
          reward_integrity = sample_receipt RewardIntegrity ''evidence'',
          statistics = sample_receipt StatisticsReceipt ''evidence'' \<rparr>,
      approvals =
        [\<lparr> role = IndependentReviewer, receipt = sample_receipt IndependentReview ''evidence'' \<rparr>,
         \<lparr> role = OperatorRole, receipt = sample_receipt OperatorApproval ''evidence'' \<rparr>],
      rollback_evidence = sample_receipt Rollback ''evidence'', pd_sha256 = zeros 64 \<rparr>"

lemma promotion_ids: "is_id ''evidence''" "is_id ''promotion-1''"
  by (simp_all add: is_id_def ascii_defs)

lemma sample_decision_verifies: "verify_promotion hex_ops empty_object sample_decision = Inr ()"
  by (simp add: verify_promotion_ok promotion_shape_def sample_decision_def hex_ops_facts receipts_valid_def
      sample_receipt_valid promotion_ids sample_ids)

lemma finished_experiment_verifies: "verify_experiment hex_ops empty_object finished_experiment = Inr ()"
  by (simp add: verify_experiment_ok experiment_shape_def finished_experiment_def hex_ops_facts
      sample_experiment_def sample_receipt_valid sample_ids promotion_ids coherent_state_def stage_ok_def
      passed_stage_def)
    (simp add: sample_receipt_def)

theorem promotion_needs_finished_experiment_witness:
  "verify_promotion_against_experiment hex_ops empty_object empty_object sample_decision finished_experiment = Inr () \<and>
   exp_state finished_experiment = PromotionReview"
proof -
  have "verify_promotion_against_experiment hex_ops empty_object empty_object sample_decision finished_experiment = Inr ()"
    by (simp add: verify_promotion_against_experiment_def sample_decision_verifies finished_experiment_verifies)
      (simp add: sample_decision_def finished_experiment_def sample_experiment_def passed_stage_def
        sample_receipt_def evidence_matches_def)
  with promotion_needs_finished_experiment [OF this] show ?thesis by simp
qed

theorem rollback_undoes_promotion_witness:
  "\<exists>undo contract. rollback_target_bundle_id undo = ''champion-1'' \<and>
    rollback_binding_command hex_ops empty_object contract ''challenger-1'' (zeros 64) None = Inr (undo, Apply)"
proof -
  have f: "from_bundle_id sample_decision = ''champion-1''" "safety_anchor_digest sample_decision = zeros 64"
    "to_bundle_id sample_decision = ''challenger-1''"
    by (simp_all add: sample_decision_def)
  have "valid_as (sample_receipt Rollback ''evidence'') Rollback"
    by (simp add: sample_receipt_valid promotion_ids)
  from rollback_undoes_promotion
    [OF hex_ops_facts(1,2) sample_decision_verifies this hex_ops_facts(3), of None]
  show ?thesis by (auto simp: f atomic_binding_command_def and_then_ok sample_decision_verifies)
qed

end
