(* ===== verification/Avo_Episode.thy ===== *)
theory Avo_Episode
  imports Experiment_Stages
begin

text \<open>
  Variation episodes (\<^verbatim>\<open>harness-promotion/src/avo.rs\<close>): a bounded sequence of variations of a
  champion, each with a correctness result, a score and an outcome, the check of the whole episode
  and the summary of its trajectory.

  Lemmas: the summary of a verified episode never panics; its incumbent is the best score of the
  episode and the directive follows from the budget and the run of variations without improvement.
\<close>

definition MAX_VARIATIONS_PER_EPISODE :: u16 where
  "MAX_VARIATIONS_PER_EPISODE = 64"

datatype VariationStrategy = Refine | Repair | Reframe | Retrieval

datatype CorrectnessResult =
  CorrectnessPassed | CorrectnessFailed | CorrectnessInconclusive | CorrectnessUnavailable

datatype VariationOutcome = Improved | NotImproved | Rejected | OutcomeInconclusive

datatype AvoDirective = Continue | RequestAdvisoryRedirect | StopBudget

record AvoVariationV1 =
  sequence :: u16
  variation_id :: string
  parent_candidate_id :: "string option"
  strategy :: VariationStrategy
  parent_score_milli :: u64
  var_candidate_id :: string
  var_candidate_receipt :: Receipt
  correctness :: CorrectnessResult
  correctness_evidence :: Receipt
  candidate_score_milli :: "u64 option"
  outcome :: VariationOutcome

record AvoEpisodeV1 =
  avo_schema :: string
  episode_id :: string
  avo_task_family :: TaskFamily
  avo_champion_bundle_id :: string
  avo_champion_bundle_receipt :: Receipt
  knowledge_snapshot_digest :: string
  hard_gate_policy_digest :: string
  initial_score_milli :: u64
  variation_budget :: u16
  stagnation_limit :: u16
  variations :: "AvoVariationV1 list"
  avo_sha256 :: string

record AvoTrajectory =
  incumbent_score_milli :: u64
  incumbent_candidate_id :: "string option"
  completed_variations :: u16
  stagnant_variations :: u16
  directive :: AvoDirective

fun valid_outcome :: "CorrectnessResult \<Rightarrow> u64 option \<Rightarrow> u64 \<Rightarrow> VariationOutcome \<Rightarrow> bool" where
  "valid_outcome CorrectnessPassed score parent out =
    is_some_and (\<lambda>s. case out of
        Improved \<Rightarrow> s > parent
      | NotImproved \<Rightarrow> s \<le> parent
      | Rejected \<Rightarrow> False
      | OutcomeInconclusive \<Rightarrow> False) score"
| "valid_outcome CorrectnessFailed score parent out \<longleftrightarrow> score = None \<and> out = Rejected"
| "valid_outcome CorrectnessInconclusive score parent out \<longleftrightarrow> score = None \<and> out = OutcomeInconclusive"
| "valid_outcome CorrectnessUnavailable score parent out \<longleftrightarrow> score = None \<and> out = OutcomeInconclusive"

definition verify_variation :: "AvoVariationV1 \<Rightarrow> u64 \<Rightarrow> ContractError + unit" where
  "verify_variation v expected_parent_score =
    (if \<not> is_id (variation_id v)
      \<or> \<not> is_id (var_candidate_id v)
      \<or> \<not> is_none_or is_id (parent_candidate_id v)
      \<or> parent_score_milli v \<noteq> expected_parent_score
      \<or> \<not> valid_as (var_candidate_receipt v) Candidate
      \<or> rid (var_candidate_receipt v) \<noteq> var_candidate_id v
      \<or> \<not> valid_as (correctness_evidence v) HardGateReceipt
     then Inl Invalid
     else ensure (valid_outcome (correctness v) (candidate_score_milli v) (parent_score_milli v) (outcome v))
       HardGate)"

text \<open>
  The loop of \<open>verify_avo_episode\<close>, with the index of the next variation, the score and candidate of
  the incumbent and the identifiers seen so far.
\<close>

fun walk_variations ::
  "nat \<Rightarrow> u64 \<Rightarrow> string option \<Rightarrow> string set \<Rightarrow> string set \<Rightarrow> AvoVariationV1 list \<Rightarrow> ContractError + unit" where
  "walk_variations index score incumbent seen_variations seen_candidates [] = Inr ()"
| "walk_variations index score incumbent seen_variations seen_candidates (v # vs) =
    (if \<not> index + 1 < 2 ^ 16 then Inl Budget
     else if sequence v \<noteq> of_nat (index + 1)
       \<or> variation_id v \<in> seen_variations
       \<or> var_candidate_id v \<in> seen_candidates
       \<or> parent_candidate_id v \<noteq> incumbent
     then Inl StageOrder
     else and_then (verify_variation v score) (\<lambda>_.
       let seen_variations = insert (variation_id v) seen_variations;
           seen_candidates = insert (var_candidate_id v) seen_candidates in
       if outcome v = Improved then
         (case candidate_score_milli v of
            None \<Rightarrow> Inl HardGate
          | Some s \<Rightarrow>
              walk_variations (index + 1) s (Some (var_candidate_id v)) seen_variations seen_candidates vs)
       else walk_variations (index + 1) score incumbent seen_variations seen_candidates vs))"

definition episode_shape :: "AvoEpisodeV1 \<Rightarrow> bool" where
  "episode_shape v \<longleftrightarrow>
    \<not> (avo_schema v \<noteq> ''harness.avo-episode.v1''
      \<or> \<not> is_id (episode_id v)
      \<or> \<not> is_id (avo_champion_bundle_id v)
      \<or> \<not> valid_as (avo_champion_bundle_receipt v) ChampionBundle
      \<or> rid (avo_champion_bundle_receipt v) \<noteq> avo_champion_bundle_id v
      \<or> \<not> is_digest (knowledge_snapshot_digest v)
      \<or> \<not> is_digest (hard_gate_policy_digest v)
      \<or> variation_budget v = 0
      \<or> variation_budget v > MAX_VARIATIONS_PER_EPISODE
      \<or> stagnation_limit v = 0
      \<or> stagnation_limit v > variation_budget v
      \<or> length (variations v) > unat (variation_budget v))"

definition verify_avo_episode ::
  "'n digest_ops \<Rightarrow> (AvoEpisodeV1 \<Rightarrow> 'n json option) \<Rightarrow> AvoEpisodeV1 \<Rightarrow> ContractError + unit" where
  "verify_avo_episode ops tval v =
    (if \<not> episode_shape v then Inl Digest
     else and_then (digest_without_self ops tval v) (\<lambda>d.
       if d \<noteq> avo_sha256 v then Inl Digest
       else walk_variations 0 (initial_score_milli v) None {} {} (variations v)))"

text \<open>The loop of \<open>avo_trajectory\<close>; \<open>None\<close> is the panic of \<open>expect\<close>.\<close>

fun track :: "u64 \<Rightarrow> string option \<Rightarrow> u16 \<Rightarrow> AvoVariationV1 list \<Rightarrow> (u64 \<times> string option \<times> u16) option" where
  "track score incumbent stagnant [] = Some (score, incumbent, stagnant)"
| "track score incumbent stagnant (v # vs) =
    (if outcome v = Improved then
       (case candidate_score_milli v of
          None \<Rightarrow> None
        | Some s \<Rightarrow> track s (Some (var_candidate_id v)) 0 vs)
     else track score incumbent (sat_add stagnant 1) vs)"

definition avo_trajectory ::
  "'n digest_ops \<Rightarrow> (AvoEpisodeV1 \<Rightarrow> 'n json option) \<Rightarrow> AvoEpisodeV1 \<Rightarrow> (ContractError + AvoTrajectory) option" where
  "avo_trajectory ops tval v =
    (case verify_avo_episode ops tval v of
       Inl e \<Rightarrow> Some (Inl e)
     | Inr _ \<Rightarrow>
        (case track (initial_score_milli v) None 0 (variations v) of
           None \<Rightarrow> None
         | Some (score, incumbent, stagnant) \<Rightarrow>
             if \<not> length (variations v) < 2 ^ 16 then Some (Inl Budget)
             else let completed = of_nat (length (variations v)) in
               Some (Inr
                 \<lparr> incumbent_score_milli = score, incumbent_candidate_id = incumbent,
                   completed_variations = completed, stagnant_variations = stagnant,
                   directive =
                     (if completed = variation_budget v then StopBudget
                      else if stagnant \<ge> stagnation_limit v then RequestAdvisoryRedirect
                      else Continue) \<rparr>)))"

section \<open>What a verified episode shows\<close>

abbreviation scores :: "AvoVariationV1 list \<Rightarrow> u64 list" where
  "scores vs \<equiv> List.map_filter candidate_score_milli vs"

abbreviation improvements :: "AvoVariationV1 list \<Rightarrow> AvoVariationV1 list" where
  "improvements vs \<equiv> filter (\<lambda>v. outcome v = Improved) vs"

abbreviation stagnation :: "AvoVariationV1 list \<Rightarrow> nat" where
  "stagnation vs \<equiv> length (takeWhile (\<lambda>v. outcome v \<noteq> Improved) (rev vs))"

text \<open>A verified variation either beats its parent, and then is the improvement, or does not.\<close>

lemma verified_outcome:
  assumes "verify_variation v score = Inr ()"
  shows "outcome v = Improved \<Longrightarrow> correctness v = CorrectnessPassed \<and> (\<exists>s. candidate_score_milli v = Some s \<and> score < s)"
    and "outcome v \<noteq> Improved \<Longrightarrow> candidate_score_milli v = None \<or> (\<exists>s \<le> score. candidate_score_milli v = Some s)"
  using assms
  by (cases "correctness v"; cases "candidate_score_milli v";
      auto simp: verify_variation_def split: if_splits VariationOutcome.splits)+

lemma walk_variations_Cons:
  assumes "walk_variations i score inc sv sc (v # vs) = Inr ()"
  shows "verify_variation v score = Inr ()"
    and "outcome v = Improved \<Longrightarrow> \<exists>s. candidate_score_milli v = Some s \<and> score < s \<and>
      walk_variations (i + 1) s (Some (var_candidate_id v)) (insert (variation_id v) sv)
        (insert (var_candidate_id v) sc) vs = Inr ()"
    and "outcome v \<noteq> Improved \<Longrightarrow> walk_variations (i + 1) score inc (insert (variation_id v) sv)
        (insert (var_candidate_id v) sc) vs = Inr ()"
  using assms by (auto simp: and_then_ok Let_def dest: verified_outcome(1) split: if_splits option.splits)

lemma stagnation_Cons:
  "stagnation (v # vs) =
    (if improvements vs \<noteq> [] then stagnation vs
     else if outcome v = Improved then length vs else Suc (length vs))"
  by (auto simp: takeWhile_append filter_empty_conv)

lemma stagnation_no_improvement: "improvements vs = [] \<Longrightarrow> stagnation vs = length vs"
proof -
  assume "improvements vs = []"
  then have "takeWhile (\<lambda>v. outcome v \<noteq> Improved) (rev vs) = rev vs"
    by (simp add: takeWhile_eq_all_conv filter_empty_conv)
  then show ?thesis by (simp only: length_rev)
qed

lemma Max_drop_smaller:
  "finite S \<Longrightarrow> a \<le> b \<Longrightarrow> Max (insert a (insert b S)) = Max (insert b S)" for a b :: "'a::linorder"
  by (cases "S = {}") (auto simp: max_def)

lemma scores_Cons:
  "scores (v # vs) = (case candidate_score_milli v of None \<Rightarrow> scores vs | Some s \<Rightarrow> s # scores vs)"
  by (simp add: map_filter_simps)

text \<open>One verified variation moves the incumbent score to the larger of parent and candidate.\<close>

lemma track_improved:
  assumes "candidate_score_milli v = Some s" and "score < s" and "outcome v = Improved"
    and "track s (Some (var_candidate_id v)) 0 vs = Some (score', inc', m)"
    and "score' = Max (insert s (set (scores vs)))"
  shows "track score inc n (v # vs) = Some (score', inc', m)"
    and "score' = Max (insert score (set (scores (v # vs))))"
  using assms Max_drop_smaller [of "set (scores vs)" score s] by (simp_all add: scores_Cons)

lemma track_kept:
  assumes "verify_variation v score = Inr ()" and "outcome v \<noteq> Improved"
    and "track score inc (sat_add n 1) vs = Some (score', inc', m)"
    and "score' = Max (insert score (set (scores vs)))"
  shows "track score inc n (v # vs) = Some (score', inc', m)"
    and "score' = Max (insert score (set (scores (v # vs))))"
proof -
  show "track score inc n (v # vs) = Some (score', inc', m)" using assms(2,3) by simp
  show "score' = Max (insert score (set (scores (v # vs))))"
    using verified_outcome(2) [OF assms(1,2)]
  proof
    assume "\<exists>s \<le> score. candidate_score_milli v = Some s"
    then obtain s where "candidate_score_milli v = Some s" and "s \<le> score" by blast
    then show ?thesis
      using assms(4) Max_drop_smaller [of "set (scores vs)" s score] by (simp add: scores_Cons insert_commute)
  qed (use assms(4) in \<open>simp add: scores_Cons\<close>)
qed

lemma track_walked:
  assumes "walk_variations i score inc sv sc vs = Inr ()" and "unat n + length vs < 2 ^ 16"
  shows "\<exists>score' m. track score inc n vs =
      Some (score', (if improvements vs = [] then inc else Some (var_candidate_id (last (improvements vs)))), m) \<and>
    score' = Max (insert score (set (scores vs))) \<and>
    unat m = (if improvements vs = [] then unat n + length vs else stagnation vs)"
  using assms
proof (induction vs arbitrary: i score inc sv sc n)
  case Nil
  then show ?case by (simp add: map_filter_simps)
next
  case (Cons v vs)
  note step = walk_variations_Cons [OF Cons.prems(1)]
  show ?case
  proof (cases "outcome v = Improved")
    case True
    then obtain s where s: "candidate_score_milli v = Some s" "score < s"
      and walk: "walk_variations (i + 1) s (Some (var_candidate_id v)) (insert (variation_id v) sv)
        (insert (var_candidate_id v) sc) vs = Inr ()"
      using step(2) by blast
    from Cons.IH [OF walk, of 0] Cons.prems(2) obtain score' m
      where "track s (Some (var_candidate_id v)) 0 vs =
          Some (score', (if improvements vs = [] then Some (var_candidate_id v)
            else Some (var_candidate_id (last (improvements vs)))), m)"
        and "score' = Max (insert s (set (scores vs)))"
        and "unat m = (if improvements vs = [] then length vs else stagnation vs)"
      by auto
    with track_improved [OF s True this(1,2)] True show ?thesis
      by (auto simp: stagnation_Cons simp del: rev.simps track.simps)
  next
    case False
    have n: "unat (sat_add n 1) = Suc (unat n)"
      using Cons.prems(2) by (simp add: unat_sat_add)
    from Cons.IH [OF step(3) [OF False], of "sat_add n 1"] Cons.prems(2) n obtain score' m
      where "track score inc (sat_add n 1) vs =
          Some (score', (if improvements vs = [] then inc
            else Some (var_candidate_id (last (improvements vs)))), m)"
        and "score' = Max (insert score (set (scores vs)))"
        and "unat m = (if improvements vs = [] then Suc (unat n + length vs) else stagnation vs)"
      by auto
    with track_kept [OF step(1) False this(1,2)] False show ?thesis
      by (auto simp: stagnation_Cons simp del: rev.simps track.simps)
  qed
qed

text \<open>
  C37. The summary of a verified episode is available and right: \<open>avo_trajectory\<close> does not panic; the
  incumbent score is the largest of the initial score and all candidate scores of the episode, the
  incumbent is the candidate of the last improvement (none if there was none), the counters are the
  number of variations and the length of the final run without improvement, and the directive is
  to stop exactly when the budget is used up and to ask for a redirect exactly when it is not and
  that run has reached the limit.
\<close>

theorem trajectory_of_verified_episode:
  assumes "verify_avo_episode ops tval v = Inr ()"
  shows "\<exists>t. avo_trajectory ops tval v = Some (Inr t) \<and>
    incumbent_score_milli t = Max (insert (initial_score_milli v) (set (scores (variations v)))) \<and>
    incumbent_candidate_id t =
      (if improvements (variations v) = [] then None
       else Some (var_candidate_id (last (improvements (variations v))))) \<and>
    unat (completed_variations t) = length (variations v) \<and>
    unat (stagnant_variations t) = stagnation (variations v) \<and>
    (directive t = StopBudget \<longleftrightarrow> length (variations v) = unat (variation_budget v)) \<and>
    (directive t = RequestAdvisoryRedirect \<longleftrightarrow> length (variations v) < unat (variation_budget v) \<and>
       unat (stagnation_limit v) \<le> stagnation (variations v))"
proof -
  have shape: "episode_shape v"
    and walk: "walk_variations 0 (initial_score_milli v) None {} {} (variations v) = Inr ()"
    using assms by (auto simp: verify_avo_episode_def and_then_ok split: if_splits)
  have budget: "length (variations v) \<le> unat (variation_budget v)"
    using shape by (simp add: episode_shape_def)
  have "unat (variation_budget v) \<le> 64"
    using shape by (simp add: episode_shape_def MAX_VARIATIONS_PER_EPISODE_def word_le_nat_alt not_less)
  with budget have small: "length (variations v) < 2 ^ 16" by simp
  then have completed: "unat (of_nat (length (variations v)) :: u16) = length (variations v)"
    by (simp add: unat_of_nat)
  from track_walked [OF walk, of 0] small obtain score m
    where t: "track (initial_score_milli v) None 0 (variations v) =
        Some (score, (if improvements (variations v) = [] then None
          else Some (var_candidate_id (last (improvements (variations v))))), m)"
      and score: "score = Max (insert (initial_score_milli v) (set (scores (variations v))))"
      and "unat m = (if improvements (variations v) = [] then length (variations v)
        else stagnation (variations v))"
    by auto
  then have m: "unat m = stagnation (variations v)"
    by (auto simp: stagnation_no_improvement)
  have "of_nat (length (variations v)) = variation_budget v \<longleftrightarrow>
      length (variations v) = unat (variation_budget v)"
    using completed by (auto simp: word_unat_eq_iff)
  then show ?thesis
    using assms t score m small budget completed
    by (simp add: avo_trajectory_def Let_def word_le_nat_alt)
qed

definition sample_variation ::
  "u16 \<Rightarrow> string \<Rightarrow> string option \<Rightarrow> string \<Rightarrow> u64 \<Rightarrow> u64 \<Rightarrow> VariationOutcome \<Rightarrow> AvoVariationV1" where
  "sample_variation n name parent candidate parent_score score out =
    \<lparr> sequence = n, variation_id = name, parent_candidate_id = parent, strategy = Refine,
      parent_score_milli = parent_score, var_candidate_id = candidate,
      var_candidate_receipt = sample_receipt Candidate candidate, correctness = CorrectnessPassed,
      correctness_evidence = sample_receipt HardGateReceipt name,
      candidate_score_milli = Some score, outcome = out \<rparr>"

definition sample_episode :: AvoEpisodeV1 where
  "sample_episode =
    \<lparr> avo_schema = ''harness.avo-episode.v1'', episode_id = ''e1'', avo_task_family = DevelopmentEval,
      avo_champion_bundle_id = ''b1'', avo_champion_bundle_receipt = sample_receipt ChampionBundle ''b1'',
      knowledge_snapshot_digest = zeros 64, hard_gate_policy_digest = zeros 64,
      initial_score_milli = 100, variation_budget = 3, stagnation_limit = 2,
      variations =
        [sample_variation 1 ''v1'' None ''c1'' 100 120 Improved,
         sample_variation 2 ''v2'' (Some ''c1'') ''c2'' 120 119 NotImproved],
      avo_sha256 = ''object'' \<rparr>"

definition episode_value :: "AvoEpisodeV1 \<Rightarrow> unit json option" where
  "episode_value v = Some (Object [(''sha256'', String (avo_sha256 v))])"

lemma episode_digest: "digest_without_self sample_ops episode_value v = Inr ''object''"
  by (simp add: digest_without_self_def episode_value_def sample_ops_def)

lemma sample_episode_verifies: "verify_avo_episode sample_ops episode_value sample_episode = Inr ()"
proof -
  have ids: "is_id ''e1''" "is_id ''b1''" "is_id ''v1''" "is_id ''v2''" "is_id ''c1''" "is_id ''c2''"
    by (simp_all add: is_id_def ascii_defs)
  have "episode_shape sample_episode"
    by (simp add: episode_shape_def sample_episode_def ids sample_receipt_valid
        MAX_VARIATIONS_PER_EPISODE_def word_less_nat_alt)
      (simp add: sample_receipt_def)
  moreover have "verify_variation (sample_variation n name parent candidate p s out) p = Inr ()"
    if "is_id name" "is_id candidate" "is_none_or is_id parent"
      "out = Improved \<and> p < s \<or> out = NotImproved \<and> s \<le> p" for n name parent candidate p s out
    using that by (auto simp: verify_variation_def sample_variation_def sample_receipt_valid)
      (simp_all add: sample_receipt_def)
  then have "verify_variation (sample_variation 1 ''v1'' None ''c1'' 100 120 Improved) 100 = Inr ()"
    and "verify_variation (sample_variation 2 ''v2'' (Some ''c1'') ''c2'' 120 119 NotImproved) 120 = Inr ()"
    by (simp_all add: ids word_less_nat_alt word_le_nat_alt)
  then have "walk_variations 0 (initial_score_milli sample_episode) None {} {} (variations sample_episode) = Inr ()"
    by (simp add: sample_episode_def) (simp add: sample_variation_def)
  moreover have "avo_sha256 sample_episode = ''object''" by (simp add: sample_episode_def)
  ultimately show ?thesis by (simp add: verify_avo_episode_def episode_digest)
qed

theorem trajectory_of_verified_episode_witness:
  "\<exists>t. avo_trajectory sample_ops episode_value sample_episode = Some (Inr t) \<and>
    incumbent_candidate_id t = Some ''c1'' \<and> unat (stagnant_variations t) = 1"
proof -
  have "improvements (variations sample_episode) = [sample_variation 1 ''v1'' None ''c1'' 100 120 Improved]"
    and "stagnation (variations sample_episode) = 1"
    by (simp_all add: sample_episode_def sample_variation_def)
  then show ?thesis
    using trajectory_of_verified_episode [OF sample_episode_verifies] by (auto simp: sample_variation_def)
qed

end
