(* ===== verification/Promotion_Health.thy ===== *)
theory Promotion_Health
  imports Contract_Digest
begin

text \<open>
  Health of a promoted bundle (\<^verbatim>\<open>harness-promotion/src/telemetry.rs\<close>): a batch of metric readings is
  checked for completeness and summarised as healthy, degraded or unknown.

  The metrics carry the order of their declaration, as the derived \<open>Ord\<close> of the source, so that
  the sorted list of missing metrics is the library's \<open>sort\<close>. Lemmas: the state of the summary is
  characterised on every branch, and the missing metrics are listed once each and in order.
\<close>

datatype Metric = Quality | Correction | Regression | Cost | Latency | Distribution | Grader | Taskset

fun metric_rank :: "Metric \<Rightarrow> nat" where
  "metric_rank Quality = 0"
| "metric_rank Correction = 1"
| "metric_rank Regression = 2"
| "metric_rank Cost = 3"
| "metric_rank Latency = 4"
| "metric_rank Distribution = 5"
| "metric_rank Grader = 6"
| "metric_rank Taskset = 7"

lemma metric_rank_inj: "metric_rank a = metric_rank b \<Longrightarrow> a = b"
  by (cases a; cases b) simp_all

instantiation Metric :: linorder
begin

definition less_eq_Metric :: "Metric \<Rightarrow> Metric \<Rightarrow> bool" where
  "less_eq_Metric a b \<longleftrightarrow> metric_rank a \<le> metric_rank b"

definition less_Metric :: "Metric \<Rightarrow> Metric \<Rightarrow> bool" where
  "less_Metric a b \<longleftrightarrow> metric_rank a < metric_rank b"

instance
  by intro_classes (auto simp: less_eq_Metric_def less_Metric_def intro: metric_rank_inj)

end

datatype HealthState = Healthy | Degraded | UnknownHealth

record MetricTelemetry =
  metric :: Metric
  present :: bool
  within_threshold :: bool
  source_receipt :: Receipt
  mt_start_ms :: i64
  mt_end_ms :: i64

record HealthBatch =
  threshold_policy_digest :: string
  observation_start_ms :: i64
  observation_end_ms :: i64
  metrics :: "MetricTelemetry list"

record PromotionHealth =
  health_state :: HealthState
  missing :: "Metric list"
  breached :: "Metric list"

definition REQUIRED :: "Metric list" where
  "REQUIRED = [Quality, Correction, Regression, Cost, Latency, Distribution, Grader, Taskset]"

definition validate_health_telemetry :: "HealthBatch \<Rightarrow> ContractError + unit" where
  "validate_health_telemetry batch =
    ensure
      (is_digest (threshold_policy_digest batch) \<and>
       observation_start_ms batch \<le> observation_end_ms batch \<and>
       length (metrics batch) = length REQUIRED \<and>
       set (map metric (metrics batch)) = set REQUIRED \<and>
       list_all (\<lambda>v. mt_start_ms v = observation_start_ms batch \<and>
         mt_end_ms v = observation_end_ms batch \<and> valid_as (source_receipt v) Telemetry) (metrics batch))
      Missing"

definition missing_metrics :: "HealthBatch \<Rightarrow> Metric list" where
  "missing_metrics batch =
    (let supplied = set (map metric (metrics batch)) in
     remdups_adj (sort
       (filter (\<lambda>m. m \<notin> supplied) REQUIRED @ map metric (filter (\<lambda>v. \<not> present v) (metrics batch)))))"

definition breached_metrics :: "HealthBatch \<Rightarrow> Metric list" where
  "breached_metrics batch = map metric (filter (\<lambda>v. present v \<and> \<not> within_threshold v) (metrics batch))"

definition promotion_health :: "HealthBatch \<Rightarrow> PromotionHealth" where
  "promotion_health batch =
    \<lparr> health_state =
        (if (case validate_health_telemetry batch of Inl _ \<Rightarrow> True | Inr _ \<Rightarrow> False) \<or> missing_metrics batch \<noteq> []
         then UnknownHealth
         else if breached_metrics batch = [] then Healthy else Degraded),
      missing = missing_metrics batch, breached = breached_metrics batch \<rparr>"

section \<open>The summary\<close>

lemma REQUIRED_complete: "set REQUIRED = UNIV"
proof
  show "UNIV \<subseteq> set REQUIRED"
  proof
    fix m :: Metric show "m \<in> set REQUIRED" by (cases m) (simp_all add: REQUIRED_def)
  qed
qed simp

lemma sorted_remdups_adj_strict: "sorted xs \<Longrightarrow> sorted_wrt (<) (remdups_adj xs)" for xs :: "'a::linorder list"
  by (induction xs rule: remdups_adj.induct) (auto simp: order.strict_iff_order)

text \<open>
  The health summary never hides a gap: it is healthy exactly when the batch is valid, every one
  of the eight metrics has exactly one reading, all are present and within threshold; degraded
  exactly when the batch is valid and complete and some reading is out of threshold; unknown
  otherwise. The missing metrics are listed in the declared order without repetition.
\<close>

theorem health_never_hides_a_gap:
  "health_state (promotion_health batch) =
     (if validate_health_telemetry batch \<noteq> Inr () \<or> (\<exists>v \<in> set (metrics batch). \<not> present v) then UnknownHealth
      else if list_all within_threshold (metrics batch) then Healthy else Degraded) \<and>
   (validate_health_telemetry batch = Inr () \<longrightarrow>
     distinct (map metric (metrics batch)) \<and> set (map metric (metrics batch)) = UNIV \<and>
     set (missing (promotion_health batch)) = metric ` {v \<in> set (metrics batch). \<not> present v}) \<and>
   sorted_wrt (<) (missing (promotion_health batch))"
proof -
  have complete: "distinct (map metric (metrics batch))" "set (map metric (metrics batch)) = UNIV"
    if "validate_health_telemetry batch = Inr ()"
  proof -
    have len: "length (map metric (metrics batch)) = length REQUIRED"
      and all: "set (map metric (metrics batch)) = set REQUIRED"
      using that by (simp_all add: validate_health_telemetry_def)
    have "distinct REQUIRED" by (simp add: REQUIRED_def)
    then have "card (set (map metric (metrics batch))) = length (map metric (metrics batch))"
      by (simp only: all len distinct_card)
    then show "distinct (map metric (metrics batch))" by (rule card_distinct)
    show "set (map metric (metrics batch)) = UNIV" using all REQUIRED_complete by simp
  qed
  have gaps: "set (missing_metrics batch) = metric ` {v \<in> set (metrics batch). \<not> present v}"
    if v: "validate_health_telemetry batch = Inr ()"
    using complete [OF v] by (fastforce simp: missing_metrics_def Let_def)
  have "missing_metrics batch = [] \<longleftrightarrow> (\<forall>v \<in> set (metrics batch). present v)"
    if v: "validate_health_telemetry batch = Inr ()"
    using arg_cong [OF gaps [OF v], of "\<lambda>s. s = {}"] by auto
  moreover have "sorted_wrt (<) (missing_metrics batch)"
    unfolding missing_metrics_def Let_def by (rule sorted_remdups_adj_strict) simp
  ultimately show ?thesis
    using complete gaps
    by (cases "validate_health_telemetry batch")
      (auto simp: promotion_health_def breached_metrics_def filter_empty_conv list_all_iff)
qed

definition sample_batch :: "HealthBatch" where
  "sample_batch =
    \<lparr> threshold_policy_digest = zeros 64, observation_start_ms = 0, observation_end_ms = 5,
      metrics = map (\<lambda>m.
        \<lparr> metric = m, present = (m \<noteq> Cost), within_threshold = True,
          source_receipt = \<lparr> kind = Telemetry, rid = ''t'', digest = zeros 64 \<rparr>,
          mt_start_ms = 0, mt_end_ms = 5 \<rparr>) REQUIRED \<rparr>"

theorem health_never_hides_a_gap_witness:
  "validate_health_telemetry sample_batch = Inr () \<and>
   health_state (promotion_health sample_batch) = UnknownHealth \<and> set (missing (promotion_health sample_batch)) = {Cost}"
proof -
  have v: "validate_health_telemetry sample_batch = Inr ()"
    by (simp add: validate_health_telemetry_def sample_batch_def REQUIRED_def valid_as_def is_id_def ascii_defs)
  have "set (map metric (filter (\<lambda>v. \<not> present v) (metrics sample_batch))) = {Cost}"
    and "\<not> list_all present (metrics sample_batch)"
    by (simp_all add: sample_batch_def REQUIRED_def)
  with v health_never_hides_a_gap [of sample_batch] show ?thesis by (simp add: list_all_iff)
qed

end
