(* ===== verification/Repository_Profile.thy ===== *)
theory Repository_Profile
  imports Rust_Prelude
begin

text \<open>
  Repository profiles (\<^verbatim>\<open>crates/harness-profile/src/lib.rs\<close>, from \<open>RepositoryProfile\<close> on): the policy
  a run is held to, its validation, how it is found on disk, and the redaction of diagnostics.

  The file system is a view of it: which paths exist and what reading one returns. The TOML reader
  and SHA-256 are parameters. Paths are byte strings.
\<close>

section \<open>Data\<close>

datatype ProfileError =
    Io | Toml | TomlSerialize | Missing string | MissingHome | ProfileValidation string

record ProfileConcurrency =
  pc_max_total_agent_threads :: u32
  pc_max_mutable_tasks :: u32
  pc_max_independent_verifiers :: u32
  pc_final_integration_mutable_tasks :: u32
  pc_live_certification_mutable_tasks :: u32

record ModelRoute =
  mr_model :: string
  mr_reasoning_effort :: string
  mr_sandbox :: string

record ProfileModels =
  pm_architect :: ModelRoute
  pm_governor :: ModelRoute
  pm_explorer :: ModelRoute
  pm_worker :: ModelRoute
  pm_worker_escalation :: ModelRoute
  pm_integrator :: ModelRoute
  pm_verifier :: ModelRoute
  pm_final_auditor :: ModelRoute

record DomainRule =
  dr_id :: string
  dr_globs :: "string list"
  dr_authority_hints :: "string list"

record ValidationPolicy =
  vp_review_ready :: bool
  vp_integration :: bool
  vp_require_behavioral_integration :: bool
  vp_behavioral_required_globs :: "string list"
  vp_require_human_signoff :: bool
  vp_require_draft_pr_ci :: bool

definition default_validation_policy :: ValidationPolicy where
  "default_validation_policy = \<lparr>vp_review_ready = False, vp_integration = True,
     vp_require_behavioral_integration = True, vp_behavioral_required_globs = [''**''],
     vp_require_human_signoff = True, vp_require_draft_pr_ci = False\<rparr>"

datatype ValidationGate = ReviewReadyGate | IntegrationGate

datatype ValidatorEvidenceClass = Custody | Contract | Behavioral

datatype AcceptanceKind = Automated | Attested

datatype ResourceClass = ControlClass | MediumClass | HeavyClass | Hardware string

record AcceptanceRule =
  ar_id :: string
  ar_kind :: AcceptanceKind
  ar_command :: "string list"
  ar_instructions :: string
  ar_proof_tier :: string
  ar_resource_class :: string
  ar_path_globs :: "string list"

record ValidatorRule =
  vr_id :: string
  vr_command :: "string list"
  vr_proof_tier :: string
  vr_resource_class :: string
  vr_manual_prerequisites :: bool
  vr_path_globs :: "string list"
  vr_gates :: "ValidationGate list"
  vr_evidence_class :: ValidatorEvidenceClass

record RepositoryProfile =
  rp_schema_version :: u32
  rp_profile_id :: string
  rp_display_name :: string
  rp_repository :: string
  rp_default_branch :: string
  rp_base_ref :: string
  rp_completion_authority :: string
  rp_instruction_sources :: "string list"
  rp_required_global_authorities :: "string list"
  rp_receipt_only_authorities :: "string list"
  rp_protected_semantics :: "string list"
  rp_serial_paths :: "string list"
  rp_forbidden_generated_runtime_paths :: "string list"
  rp_concurrency :: ProfileConcurrency
  rp_models :: ProfileModels
  rp_domains :: "DomainRule list"
  rp_validation_policy :: ValidationPolicy
  rp_validators :: "ValidatorRule list"
  rp_acceptance :: "AcceptanceRule list"

definition resource_class :: "string \<Rightarrow> ResourceClass" where
  "resource_class c =
    (if c = ''control'' then ControlClass else if c = ''medium'' then MediumClass
     else if c = ''heavy'' then HeavyClass else Hardware c)"

definition acceptance_class :: "AcceptanceRule \<Rightarrow> ResourceClass" where
  "acceptance_class r = resource_class (ar_resource_class r)"

definition validator_class :: "ValidatorRule \<Rightarrow> ResourceClass" where
  "validator_class r = resource_class (vr_resource_class r)"

definition profile_model_map :: "RepositoryProfile \<Rightarrow> (string \<times> ModelRoute) list" where
  "profile_model_map p = (let m = rp_models p in
    [(''architect'', pm_architect m), (''explorer'', pm_explorer m),
     (''final_auditor'', pm_final_auditor m), (''governor'', pm_governor m),
     (''integrator'', pm_integrator m), (''verifier'', pm_verifier m),
     (''worker'', pm_worker m), (''worker_escalation'', pm_worker_escalation m)])"

section \<open>Validation\<close>

definition known_proof_tier :: "string \<Rightarrow> bool" where
  "known_proof_tier t \<longleftrightarrow> t \<in> set [''T0'', ''T1'', ''T2'', ''T3'', ''T4'', ''T5'', ''T6'']"

definition selectable_authorities :: "RepositoryProfile \<Rightarrow> string list" where
  "selectable_authorities p = rp_instruction_sources p @ rp_required_global_authorities p
     @ concat (map dr_authority_hints (rp_domains p))"

definition check_policy :: "RepositoryProfile \<Rightarrow> ProfileError + unit" where
  "check_policy p = all_ok
    [ensure (rp_schema_version p = 1)
       (ProfileValidation (''unsupported profile schema version '' @ digits (unat (rp_schema_version p)))),
     ensure (\<not> trim_is_empty (rp_profile_id p)) (ProfileValidation ''profile id is required''),
     ensure (\<not> (card (set (rp_receipt_only_authorities p)) \<noteq> length (rp_receipt_only_authorities p) \<or>
         list_ex (\<lambda>a. trim_is_empty a \<or> a \<notin> set (selectable_authorities p))
           (rp_receipt_only_authorities p)))
       (ProfileValidation ''receipt_only_authorities must be unique selected profile authorities''),
     ensure (list_ex (\<lambda>path. starts_with path ''.harness-runtime'') (rp_forbidden_generated_runtime_paths p))
       (ProfileValidation ''profile must forbid repository-local Harness runtime state''),
     ensure (vp_integration (rp_validation_policy p))
       (ProfileValidation ''integrated-head validation cannot be disabled''),
     ensure (vp_require_behavioral_integration (rp_validation_policy p))
       (ProfileValidation ''behavioral integration proof cannot be disabled''),
     ensure (vp_require_human_signoff (rp_validation_policy p))
       (ProfileValidation ''final human signoff cannot be disabled''),
     ensure (vp_behavioral_required_globs (rp_validation_policy p) \<noteq> [])
       (ProfileValidation ''behavioral_required_globs cannot be empty when behavioral integration proof is required'')]"

definition check_validator :: "string set \<Rightarrow> ValidatorRule \<Rightarrow> ProfileError + unit" where
  "check_validator ids v = all_ok
    [ensure (\<not> trim_is_empty (vr_id v)) (ProfileValidation ''validator id is required''),
     ensure (\<not> (vr_command v = [] \<or> list_ex (\<lambda>part. part = []) (vr_command v)))
       (ProfileValidation (''validator '' @ vr_id v @ '' must have a non-empty command'')),
     ensure (known_proof_tier (vr_proof_tier v))
       (ProfileValidation (''validator '' @ vr_id v @ '' has unknown proof tier '' @ vr_proof_tier v)),
     ensure (vr_id v \<notin> ids) (ProfileValidation (''duplicate validator id '' @ vr_id v)),
     ensure (card (set (vr_gates v)) = length (vr_gates v))
       (ProfileValidation (''validator '' @ vr_id v @ '' declares a lifecycle gate more than once'')),
     ensure (\<not> (vr_manual_prerequisites v \<and> vr_gates v \<noteq> []))
       (ProfileValidation (''validator '' @ vr_id v
          @ '' cannot bind a manual-prerequisite command to an automatic lifecycle gate''))]"

text \<open>The loop's state: the ids seen, and whether each gate has a validator.\<close>

type_synonym declared = "string set \<times> bool \<times> bool"

fun check_validators :: "ValidatorRule list \<Rightarrow> declared \<Rightarrow> ProfileError + declared" where
  "check_validators [] st = Inr st"
| "check_validators (v # vs) (ids, integration, review_ready) =
    and_then (check_validator ids v)
      (\<lambda>_. check_validators vs
        (insert (vr_id v) ids, integration \<or> IntegrationGate \<in> set (vr_gates v),
         review_ready \<or> ReviewReadyGate \<in> set (vr_gates v)))"

definition check_acceptance_rule :: "string set \<Rightarrow> AcceptanceRule \<Rightarrow> ProfileError + unit" where
  "check_acceptance_rule ids a = all_ok
    [ensure (\<not> (trim_is_empty (ar_id a) \<or> ar_id a \<in> ids \<or> \<not> known_proof_tier (ar_proof_tier a)))
       (ProfileValidation (''acceptance id '' @ ar_id a @ '' must be unique and use a known proof tier'')),
     ensure (\<not> trim_is_empty (ar_instructions a))
       (ProfileValidation (''acceptance '' @ ar_id a @ '' needs operator-facing proof instructions'')),
     ensure (\<not> (ar_kind a = Automated \<and>
         (ar_command a = [] \<or> list_ex trim_is_empty (ar_command a))))
       (ProfileValidation (''automated acceptance '' @ ar_id a @ '' needs a command''))]"

fun check_acceptance :: "AcceptanceRule list \<Rightarrow> string set \<Rightarrow> ProfileError + unit" where
  "check_acceptance [] ids = Inr ()"
| "check_acceptance (a # rest) ids =
    and_then (check_acceptance_rule ids a) (\<lambda>_. check_acceptance rest (insert (ar_id a) ids))"

definition validate_profile :: "RepositoryProfile \<Rightarrow> ProfileError + unit" where
  "validate_profile p =
    and_then (check_policy p) (\<lambda>_.
    and_then (check_validators (rp_validators p) ({}, False, False))
      (\<lambda>(ids, integration_validator_declared, review_ready_validator_declared). all_ok
        [ensure integration_validator_declared
           (ProfileValidation ''at least one integrated-head validator is required''),
         ensure (\<not> (vp_review_ready (rp_validation_policy p) \<and> \<not> review_ready_validator_declared))
           (ProfileValidation ''review_ready is enabled but no validator is bound to that gate''),
         check_acceptance (rp_acceptance p) ids]))"

section \<open>Finding a profile\<close>

record fs_view =
  fs_exists :: "string \<Rightarrow> bool"
  fs_read :: "string \<Rightarrow> string option"

record LoadedProfile =
  lp_profile :: RepositoryProfile
  lp_source :: string
  lp_digest :: string

text \<open>\<open>Path::join\<close>: an absolute second path replaces the first, and one separator stands between
  the two.\<close>

definition path_join :: "string \<Rightarrow> string \<Rightarrow> string" where
  "path_join a b =
    (if b \<noteq> [] \<and> hd b = CHR ''/'' then b
     else if a = [] \<or> last a = CHR ''/'' then a @ b else a @ CHR ''/'' # b)"

definition profile_id_is_safe :: "string \<Rightarrow> bool" where
  "profile_id_is_safe v \<longleftrightarrow> v \<noteq> [] \<and>
     list_all (\<lambda>c. is_ascii_alphanumeric c \<or> c = CHR ''-'' \<or> c = CHR ''_'') v"

definition builtin_or_installed ::
  "fs_view \<Rightarrow> string \<Rightarrow> string \<Rightarrow> string \<Rightarrow> ProfileError + string \<times> string" where
  "builtin_or_installed fs installed name text =
    (if fs_exists fs installed
     then and_then (ok_or Io (fs_read fs installed)) (\<lambda>t. Inr (installed, t))
     else Inr (''builtin:'' @ name, text))"

definition profile_source ::
  "fs_view \<Rightarrow> string \<Rightarrow> string \<Rightarrow> string \<Rightarrow> string \<Rightarrow> ProfileError + string \<times> string" where
  "profile_source fs general bildr id_or_path config_dir =
    (if id_or_path = ''general''
     then builtin_or_installed fs (path_join config_dir ''profiles/general.toml'') ''general'' general
     else if id_or_path = ''bildr''
     then builtin_or_installed fs (path_join config_dir ''profiles/bildr.toml'') ''bildr'' bildr
     else
       let installed = (if profile_id_is_safe id_or_path
              then Some (path_join (path_join config_dir ''profiles'') (id_or_path @ ''.toml''))
              else None);
           source = (case installed of
               Some path \<Rightarrow> if fs_exists fs path then Some path
                  else if fs_exists fs id_or_path then Some id_or_path else None
             | None \<Rightarrow> if fs_exists fs id_or_path then Some id_or_path else None)
       in and_then (ok_or (Missing (case installed of None \<Rightarrow> id_or_path | Some path \<Rightarrow> path)) source)
            (\<lambda>path. and_then (ok_or Io (fs_read fs path)) (\<lambda>t. Inr (path, t))))"

definition load_profile ::
  "fs_view \<Rightarrow> (string \<Rightarrow> RepositoryProfile option) \<Rightarrow> (string \<Rightarrow> string) \<Rightarrow> string \<Rightarrow> string \<Rightarrow>
   string \<Rightarrow> string \<Rightarrow> ProfileError + LoadedProfile" where
  "load_profile fs from_toml hex_digest general bildr id_or_path config_dir =
    and_then (profile_source fs general bildr id_or_path config_dir) (\<lambda>(source, text).
    and_then (ok_or Toml (from_toml text)) (\<lambda>profile.
    and_then (validate_profile profile) (\<lambda>_.
      Inr \<lparr>lp_profile = profile, lp_source = source, lp_digest = hex_digest text\<rparr>)))"

section \<open>Redaction of diagnostics\<close>

definition secret_keys :: "string list" where
  "secret_keys = [''token'', ''secret'', ''password'', ''passwd'', ''api_key'', ''apikey'',
     ''authorization'', ''cookie'', ''credential'']"

definition probable_secret :: "string \<Rightarrow> bool" where
  "probable_secret line \<longleftrightarrow> list_ex (contains_str (to_ascii_lowercase line)) secret_keys"

definition redact_line :: "string \<Rightarrow> string" where
  "redact_line line =
    (if probable_secret line
     then trim (takeWhile (\<lambda>c. c \<noteq> CHR ''='' \<and> c \<noteq> CHR '':'') line) @ ''=<redacted>''
     else line)"

definition redact_diagnostic :: "string \<Rightarrow> string" where
  "redact_diagnostic input = join_with (CHR 0x0A) (map redact_line (lines input))"

section \<open>What a validated profile guarantees\<close>

lemma check_validator_ok [ok_iff]:
  "check_validator ids v = Inr u \<longleftrightarrow>
     \<not> trim_is_empty (vr_id v) \<and> vr_command v \<noteq> [] \<and> [] \<notin> set (vr_command v) \<and>
     known_proof_tier (vr_proof_tier v) \<and> vr_id v \<notin> ids \<and> distinct (vr_gates v) \<and>
     (vr_manual_prerequisites v \<longrightarrow> vr_gates v = [])"
  by (auto simp: check_validator_def list_ex_iff card_distinct distinct_card)

lemma check_acceptance_rule_ok [ok_iff]:
  "check_acceptance_rule ids a = Inr u \<longleftrightarrow>
     \<not> trim_is_empty (ar_id a) \<and> ar_id a \<notin> ids \<and> known_proof_tier (ar_proof_tier a) \<and>
     \<not> trim_is_empty (ar_instructions a) \<and>
     (ar_kind a = Automated \<longrightarrow> ar_command a \<noteq> [] \<and> \<not> list_ex trim_is_empty (ar_command a))"
  by (auto simp: check_acceptance_rule_def)

lemma check_validators_ok:
  "check_validators vs (ids, integration, review_ready) = Inr (ids', integration', review_ready') \<Longrightarrow>
     ids' = ids \<union> vr_id ` set vs \<and> distinct (map vr_id vs) \<and> vr_id ` set vs \<inter> ids = {} \<and>
     (integration' \<longleftrightarrow> integration \<or> (\<exists>v \<in> set vs. IntegrationGate \<in> set (vr_gates v))) \<and>
     (review_ready' \<longleftrightarrow> review_ready \<or> (\<exists>v \<in> set vs. ReviewReadyGate \<in> set (vr_gates v))) \<and>
     (\<forall>v \<in> set vs. \<exists>seen. check_validator seen v = Inr ())"
proof (induction vs arbitrary: ids integration review_ready)
  case Nil
  then show ?case by simp
next
  case (Cons v vs)
  from Cons.prems have v: "check_validator ids v = Inr ()"
    and rest: "check_validators vs (insert (vr_id v) ids,
        integration \<or> IntegrationGate \<in> set (vr_gates v),
        review_ready \<or> ReviewReadyGate \<in> set (vr_gates v)) = Inr (ids', integration', review_ready')"
    by (auto simp: and_then_ok)
  from v have "vr_id v \<notin> ids" by (simp add: check_validator_ok)
  with Cons.IH [OF rest] v show ?case by auto
qed

lemma check_acceptance_ok:
  "check_acceptance as ids = Inr u \<Longrightarrow>
     distinct (map ar_id as) \<and> ar_id ` set as \<inter> ids = {} \<and>
     (\<forall>a \<in> set as. \<exists>seen. check_acceptance_rule seen a = Inr ())"
  by (induction as arbitrary: ids) (force simp: and_then_ok check_acceptance_rule_ok)+

lemma validate_profile_ok:
  assumes "validate_profile p = Inr ()"
  shows "check_policy p = Inr () \<and>
    (\<exists>ids review. check_validators (rp_validators p) ({}, False, False) = Inr (ids, True, review) \<and>
       (vp_review_ready (rp_validation_policy p) \<longrightarrow> review) \<and>
       check_acceptance (rp_acceptance p) ids = Inr ())"
  using assms by (auto simp: validate_profile_def and_then_ok)

text \<open>
  The gates a profile cannot switch off: in every profile the loader accepts, integrated-head
  validation, behavioural proof and the final human sign-off are on; some validator with a real command
  and no manual prerequisite runs at the integration gate (and one at the review gate when that gate
  is on); no two validators or acceptance rules share an id; no manual-prerequisite validator is bound to
  a gate; repository-local runtime state is forbidden; and every receipt-only authority is one the
  profile selects.
\<close>

theorem profile_cannot_drop_gates:
  assumes "validate_profile p = Inr ()"
  shows "vp_integration (rp_validation_policy p) \<and>
    vp_require_behavioral_integration (rp_validation_policy p) \<and>
    vp_require_human_signoff (rp_validation_policy p) \<and>
    vp_behavioral_required_globs (rp_validation_policy p) \<noteq> [] \<and>
    (\<exists>v \<in> set (rp_validators p). IntegrationGate \<in> set (vr_gates v) \<and> vr_command v \<noteq> [] \<and>
       \<not> vr_manual_prerequisites v) \<and>
    (vp_review_ready (rp_validation_policy p) \<longrightarrow>
      (\<exists>v \<in> set (rp_validators p). ReviewReadyGate \<in> set (vr_gates v) \<and> vr_command v \<noteq> [] \<and>
         \<not> vr_manual_prerequisites v)) \<and>
    distinct (map vr_id (rp_validators p) @ map ar_id (rp_acceptance p)) \<and>
    (\<exists>path \<in> set (rp_forbidden_generated_runtime_paths p). prefix ''.harness-runtime'' path) \<and>
    set (rp_receipt_only_authorities p) \<subseteq> set (selectable_authorities p)"
proof -
  from validate_profile_ok [OF assms] obtain ids review where policy: "check_policy p = Inr ()"
    and vs: "check_validators (rp_validators p) ({}, False, False) = Inr (ids, True, review)"
    and rr: "vp_review_ready (rp_validation_policy p) \<longrightarrow> review"
    and acc: "check_acceptance (rp_acceptance p) ids = Inr ()" by blast
  note v_ok = check_validators_ok [OF vs] and a_ok = check_acceptance_ok [OF acc]
  have real: "vr_command v \<noteq> []" "g \<in> set (vr_gates v) \<Longrightarrow> \<not> vr_manual_prerequisites v"
    if "v \<in> set (rp_validators p)" for v g
    using v_ok that by (auto simp: check_validator_ok)
  have policy_facts: "vp_integration (rp_validation_policy p)"
    "vp_require_behavioral_integration (rp_validation_policy p)"
    "vp_require_human_signoff (rp_validation_policy p)"
    "vp_behavioral_required_globs (rp_validation_policy p) \<noteq> []"
    "\<exists>path \<in> set (rp_forbidden_generated_runtime_paths p). prefix ''.harness-runtime'' path"
    "set (rp_receipt_only_authorities p) \<subseteq> set (selectable_authorities p)"
    using policy by (auto simp: check_policy_def list_ex_iff starts_with_def)
  have "distinct (map vr_id (rp_validators p) @ map ar_id (rp_acceptance p))"
    using v_ok a_ok by auto
  moreover have "\<exists>v \<in> set (rp_validators p). IntegrationGate \<in> set (vr_gates v) \<and> vr_command v \<noteq> [] \<and>
      \<not> vr_manual_prerequisites v"
    using v_ok real by blast
  moreover have "vp_review_ready (rp_validation_policy p) \<longrightarrow>
      (\<exists>v \<in> set (rp_validators p). ReviewReadyGate \<in> set (vr_gates v) \<and> vr_command v \<noteq> [] \<and>
         \<not> vr_manual_prerequisites v)"
    using v_ok real rr by blast
  ultimately show ?thesis using policy_facts by blast
qed

definition sample_route :: ModelRoute where
  "sample_route = \<lparr>mr_model = ''m'', mr_reasoning_effort = ''high'', mr_sandbox = ''read-only''\<rparr>"

definition sample_profile :: RepositoryProfile where
  "sample_profile = \<lparr>rp_schema_version = 1, rp_profile_id = ''bildr'', rp_display_name = ''B'',
     rp_repository = ''r'', rp_default_branch = ''main'', rp_base_ref = ''main'',
     rp_completion_authority = ''a'', rp_instruction_sources = [''AGENTS.md''],
     rp_required_global_authorities = [], rp_receipt_only_authorities = [''AGENTS.md''],
     rp_protected_semantics = [], rp_serial_paths = [],
     rp_forbidden_generated_runtime_paths = [''.harness-runtime/**''],
     rp_concurrency = \<lparr>pc_max_total_agent_threads = 4, pc_max_mutable_tasks = 2,
       pc_max_independent_verifiers = 1, pc_final_integration_mutable_tasks = 1,
       pc_live_certification_mutable_tasks = 1\<rparr>,
     rp_models = \<lparr>pm_architect = sample_route, pm_governor = sample_route,
       pm_explorer = sample_route, pm_worker = sample_route, pm_worker_escalation = sample_route,
       pm_integrator = sample_route, pm_verifier = sample_route, pm_final_auditor = sample_route\<rparr>,
     rp_domains = [], rp_validation_policy = default_validation_policy,
     rp_validators = [\<lparr>vr_id = ''tests'', vr_command = [''cargo'', ''test''], vr_proof_tier = ''T2'',
       vr_resource_class = ''heavy'', vr_manual_prerequisites = False, vr_path_globs = [],
       vr_gates = [IntegrationGate], vr_evidence_class = Behavioral\<rparr>],
     rp_acceptance = []\<rparr>"

lemma sample_profile_valid: "validate_profile sample_profile = Inr ()"
  by (simp add: validate_profile_def sample_profile_def check_policy_def check_validator_def
      default_validation_policy_def selectable_authorities_def known_proof_tier_def
      starts_with_def text_eval)

theorem profile_cannot_drop_gates_witness:
  "validate_profile sample_profile = Inr () \<and>
   vp_require_human_signoff (rp_validation_policy sample_profile) \<and>
   set (rp_receipt_only_authorities sample_profile) \<subseteq> set (selectable_authorities sample_profile)"
  using profile_cannot_drop_gates [OF sample_profile_valid] sample_profile_valid by blast

section \<open>Where a profile comes from\<close>

lemma safe_id_is_one_segment:
  "profile_id_is_safe v \<Longrightarrow> CHR ''/'' \<notin> set v \<and> CHR ''.'' \<notin> set v"
  by (auto simp: profile_id_is_safe_def list_all_iff ascii_defs)

lemma load_profile_ok:
  "load_profile fs from_toml hex_digest general bildr name config_dir = Inr lp \<longleftrightarrow>
     (\<exists>text. profile_source fs general bildr name config_dir = Inr (lp_source lp, text) \<and>
        from_toml text = Some (lp_profile lp) \<and> validate_profile (lp_profile lp) = Inr () \<and>
        lp_digest lp = hex_digest text)"
  by (cases lp) (auto simp: load_profile_def and_then_ok split: prod.splits)

section \<open>Redaction\<close>

lemma probable_secret_prefix: "probable_secret a \<Longrightarrow> probable_secret (a @ b)"
  unfolding probable_secret_def list_ex_iff to_ascii_lowercase_append by (blast intro: contains_str_prefix)

lemma takeWhile_separator:
  "CHR ''='' \<notin> set a \<Longrightarrow> CHR '':'' \<notin> set a \<Longrightarrow> sep \<in> {CHR ''='', CHR '':''} \<Longrightarrow>
     takeWhile (\<lambda>c. c \<noteq> CHR ''='' \<and> c \<noteq> CHR '':'') (a @ sep # b) = a"
  by (subst takeWhile_append2) auto

text \<open>
  What follows a key is not shown: of a diagnostic line whose part before the first \<open>=\<close> or
  \<open>:\<close> names a secret, in any case of letters, the redacted output is the trimmed key and a fixed mark,
  whatever the rest of the line is.
\<close>

theorem redaction_hides_the_value:
  assumes "probable_secret key" and "CHR ''='' \<notin> set key" and "CHR '':'' \<notin> set key"
    and "sep \<in> {CHR ''='', CHR '':''}" and "CHR 0x0A \<notin> set (key @ value)"
  shows "redact_diagnostic (key @ sep # value) = trim key @ ''=<redacted>''"
proof -
  have "CHR 0x0A \<notin> set (key @ sep # value)" using assms(4,5) by auto
  then have "lines (key @ sep # value) = [key @ sep # value]" by (intro lines_single) simp_all
  moreover have "probable_secret (key @ sep # value)" by (rule probable_secret_prefix) fact
  ultimately show ?thesis
    using takeWhile_separator [OF assms(2-4)] by (simp add: redact_diagnostic_def redact_line_def)
qed

lemma api_token_key: "probable_secret ''API_Token''"
  by code_simp

lemma api_token_trim: "trim ''API_Token'' = ''API_Token''"
  by (simp add: trim_def trim_start.simps trim_is_empty_Cons byte_def)

theorem redaction_hides_the_value_witness:
  "redact_diagnostic (''API_Token'' @ CHR ''='' # ''hunter2'') = ''API_Token'' @ ''=<redacted>''"
  using redaction_hides_the_value [OF api_token_key, of "CHR ''=''" "''hunter2''"] api_token_trim
  by simp

text \<open>
  A secret with no separator is shown: a line that names a secret but has neither \<open>=\<close> nor
  \<open>:\<close> is printed whole, with the mark appended; a bearer token after a blank stays readable.
\<close>

theorem redaction_needs_a_separator:
  assumes "probable_secret line" and "CHR ''='' \<notin> set line" and "CHR '':'' \<notin> set line"
    and "CHR 0x0A \<notin> set line"
  shows "redact_diagnostic line = trim line @ ''=<redacted>''"
proof -
  have "line \<noteq> []" using assms(1)
    by (auto simp: probable_secret_def secret_keys_def contains_str_def to_ascii_lowercase_def)
  then have "lines line = [line]" using assms(4) by (rule lines_single)
  moreover have "takeWhile (\<lambda>c. c \<noteq> CHR ''='' \<and> c \<noteq> CHR '':'') line = line"
    using assms(2,3) by (auto simp: takeWhile_eq_all_conv)
  ultimately show ?thesis using assms(1)
    by (simp add: redact_diagnostic_def redact_line_def del: takeWhile_eq_all_conv)
qed

lemma bearer_line: "probable_secret ''Authorization Bearer s3cr3t''"
  by code_simp

lemma bearer_trim: "trim ''Authorization Bearer s3cr3t'' = ''Authorization Bearer s3cr3t''"
  by (simp add: trim_def trim_start.simps trim_is_empty_Cons byte_def)

theorem redaction_needs_a_separator_witness:
  "redact_diagnostic ''Authorization Bearer s3cr3t'' = ''Authorization Bearer s3cr3t=<redacted>''"
  using redaction_needs_a_separator [OF bearer_line] bearer_trim by simp

end
