(* ===== verification/Orchestrator_Base.thy ===== *)
theory Orchestrator_Base
  imports Run_Lifecycle Task_Lifecycle Task_Contract Repository_Profile Store_Base Contract_Digest
begin

text \<open>
  What the orchestrator's planning and integration logic works on: the summaries of runs and tasks and
  the plan (\<^verbatim>\<open>crates/harness-domain/src/lib.rs\<close>), the orchestrator's error type and its digest checks
  (\<^verbatim>\<open>crates/harness-orchestrator/src/lib.rs\<close>). Errors that wrap those of crates outside the model
  carry no payload here.
\<close>

record RunSummary =
  ru_id :: string
  ru_repository_id :: string
  ru_title :: string
  ru_objective :: string
  ru_mode :: string
  ru_publication_mode :: string
  ru_state :: RunState
  ru_phase :: string
  ru_base_ref :: string
  ru_base_sha :: string
  ru_integration_branch :: "string option"
  ru_integration_sha :: "string option"
  ru_authority_digest :: string
  ru_created_at :: string
  ru_started_at :: "string option"
  ru_completed_at :: "string option"
  ru_failure_reason :: "string option"
  ru_scheduler_paused :: bool
  ru_run_token_budget :: "u64 option"
  ru_pinned :: bool
  ru_version :: u64

record TaskSummary =
  tk_id :: string
  tk_run_id :: string
  tk_external_task_id :: string
  tk_title :: string
  tk_objective :: string
  tk_state :: TaskState
  tk_priority :: string
  tk_owner_profile :: string
  tk_reviewer_profile :: string
  tk_attempt :: u32
  tk_base_sha :: string
  tk_head_sha :: "string option"
  tk_token_budget :: "u64 option"
  tk_dependencies :: "string list"
  tk_failure_reason :: "string option"
  tk_version :: u64

record RunPlan =
  plan_schema :: string
  plan_summary :: string
  plan_tasks :: "TaskPacket list"

datatype OrchestratorError =
    StoreErr StoreError | GitErr | CodexErr | ContextErr | RunnerErr | EvidenceErr
  | ProfileErr ProfileError | JsonErr | IoErr
  | ValidationErr string | ConflictErr string | BlockedErr string | ProtocolErr string

definition require_exact_sha :: "string \<Rightarrow> OrchestratorError + unit" where
  "require_exact_sha v =
    (if length v = 40 \<and> list_all (\<lambda>b. is_ascii_digit b \<or> (97 \<le> byte b \<and> byte b \<le> 102)) v
     then Inr ()
     else Inl (ValidationErr (''expected an exact lowercase 40-character Git SHA, observed '' @ v)))"

definition require_sha256_digest :: "string \<Rightarrow> string \<Rightarrow> OrchestratorError + unit" where
  "require_sha256_digest v label =
    (if length v = 64 \<and> list_all (\<lambda>b. is_ascii_digit b \<or> (97 \<le> byte b \<and> byte b \<le> 102)) v
     then Inr ()
     else Inl (ValidationErr (label @ '' must be an exact lowercase 64-character SHA-256 digest'')))"

lemma require_exact_sha_ok [simp, ok_iff]: "require_exact_sha v = Inr u \<longleftrightarrow> is_lower_hex v 40"
  by (auto simp: require_exact_sha_def is_lower_hex_def list_all_iff lower_hex_byte)

lemma require_exact_sha_err [simp]: "is_lower_hex v 40 \<Longrightarrow> require_exact_sha v \<noteq> Inl e"
  by (metis require_exact_sha_ok sum.distinct(1))

lemma require_sha256_digest_ok [simp, ok_iff]: "require_sha256_digest v l = Inr u \<longleftrightarrow> is_lower_hex v 64"
  by (auto simp: require_sha256_digest_def is_lower_hex_def list_all_iff lower_hex_byte)

definition packet_uses_governor :: "TaskPacket \<Rightarrow> bool" where
  "packet_uses_governor packet \<longleftrightarrow> (let owner = to_ascii_lowercase (tp_owner_profile packet) in
     contains_str owner ''controller'' \<or> contains_str owner ''governor'')"

section \<open>Ordered maps\<close>

text \<open>Collecting distinct keys into a \<open>BTreeMap\<close> keeps the entries and orders them.\<close>

lemma btree_collect_distinct: "distinct (map fst (btree_collect xs))"
  using btree_collect_sorted [of xs] by (simp add: strict_sorted_iff)

lemma btree_collect_map_of: "map_of (btree_collect xs) = map_of (rev xs)"
  by (simp add: btree_collect_lookup fmap_of_list.rep_eq)

lemma btree_collect_unique: "distinct (map fst xs) \<Longrightarrow> map_of (btree_collect xs) = map_of xs"
  unfolding btree_collect_map_of by (subst map_of_inject_set) (simp_all add: rev_map [symmetric])

lemma btree_collect_set: "distinct (map fst xs) \<Longrightarrow> set (btree_collect xs) = set xs"
proof -
  assume d: "distinct (map fst xs)"
  have "(k, v) \<in> set (btree_collect xs) \<longleftrightarrow> (k, v) \<in> set xs" for k v
    using btree_collect_unique [OF d] d btree_collect_distinct [of xs]
    by (metis map_of_eq_Some_iff)
  then show ?thesis by auto
qed

lemma btree_collect_keys: "fst ` set (btree_collect xs) = fst ` set xs"
  by (metis btree_collect_map_of dom_map_of_conv_image_fst set_rev)

end
