(* ===== verification/Plan_Validation.thy ===== *)
theory Plan_Validation
  imports Orchestrator_Base Causal_Links
begin

text \<open>
  The check a plan passes before it may run (\<open>validate_plan\<close>, \<open>detect_cycle\<close>, \<open>validate_repo_glob\<close> and
  \<open>repo_globs_may_overlap\<close> of \<^verbatim>\<open>crates/harness-orchestrator/src/lib.rs\<close>).

  The theorems: an accepted plan is a closed acyclic graph of tasks with distinct ids, and no file
  is in the custody of two of its tasks, as long as no pattern of theirs has a wild card in the
  middle of a name; where one has, the check can miss an overlap.
\<close>

section \<open>Custody patterns\<close>

definition validate_repo_glob :: "string \<Rightarrow> string + unit" where
  "validate_repo_glob v =
    (if trim_is_empty v \<or> starts_with v ''/'' \<or> starts_with v ''-''
        \<or> list_ex (\<lambda>c. c = CHR 0x00 \<or> c = CHR 0x0A \<or> c = CHR 0x0D) v
        \<or> list_ex (\<lambda>comp. comp = ''..'' \<or> comp = []) (split_on CHR ''/'' v)
     then Inl (''unsafe repository custody pattern: '' @ v) else Inr ())"

definition glob_char :: "char \<Rightarrow> bool" where
  "glob_char c \<longleftrightarrow> c \<in> set ''*?[]{}''"

definition literal_part :: "string \<Rightarrow> string" where
  "literal_part v = takeWhile (\<lambda>c. \<not> glob_char c) v"

definition trim_slashes :: "string \<Rightarrow> string" where
  "trim_slashes v = rev (dropWhile (\<lambda>c. c = CHR ''/'') (rev v))"

definition glob_prefix :: "string \<Rightarrow> string" where
  "glob_prefix v = trim_slashes (literal_part v)"

text \<open>\<open>a.strip_prefix(b).is_some_and(|suffix| suffix.starts_with('/'))\<close>.\<close>

definition below :: "string \<Rightarrow> string \<Rightarrow> bool" where
  "below a b \<longleftrightarrow> prefix b a \<and> starts_with (drop (length b) a) ''/''"

definition repo_globs_may_overlap :: "string \<Rightarrow> string \<Rightarrow> bool" where
  "repo_globs_may_overlap left right =
    (let l = glob_prefix left; r = glob_prefix right
     in l = [] \<or> r = [] \<or> l = r \<or> below l r \<or> below r l)"

section \<open>One task\<close>

fun check_milestones :: "string \<Rightarrow> TaskMilestone list \<Rightarrow> string set \<Rightarrow> OrchestratorError + unit" where
  "check_milestones task_id [] ids = Inr ()"
| "check_milestones task_id (m # ms) ids =
    (if tm_id m \<in> ids \<or> trim_is_empty (tm_title m) \<or> trim_is_empty (tm_objective m)
        \<or> tm_success_criteria m = []
     then Inl (ValidationErr (''task '' @ task_id @ '' has an invalid or duplicate milestone '' @ tm_id m))
     else check_milestones task_id ms (insert (tm_id m) ids))"

definition check_packet ::
  "RunSummary \<Rightarrow> RepositoryProfile \<Rightarrow> string set \<Rightarrow> TaskPacket \<Rightarrow> OrchestratorError + unit" where
  "check_packet run profile ids packet = (let tid = tp_task_id packet in all_ok
    [ensure (tid \<notin> ids) (ValidationErr (''duplicate task id '' @ tid)),
     ensure (tp_base_sha packet = ru_base_sha run)
       (ValidationErr (''task '' @ tid @ '' does not use pinned base '' @ ru_base_sha run)),
     map_err (ValidationErr \<circ> control_error_to_string) (validate_execution_contract packet),
     ensure (\<not> ((tp_execution_kind packet \<noteq> Investigation \<and> tp_owned_paths packet = [])
         \<or> \<not> (3 \<le> length (tp_milestones packet) \<and> length (tp_milestones packet) \<le> 20)
         \<or> tp_success_criteria packet = [] \<or> tp_required_evidence packet = []
         \<or> tp_proof_limits packet = [] \<or> tp_token_budget packet = 0
         \<or> db_files (tp_diff_budget packet) = 0 \<or> db_lines (tp_diff_budget packet) = 0))
       (ValidationErr (''task '' @ tid @ '' lacks required execution custody, 3-20 milestones, criteria, evidence, proof limits, or budgets'')),
     check_milestones tid (tp_milestones packet) {},
     ensure (\<not> list_ex (\<lambda>path. path \<in> set (tp_owned_paths packet)) (tp_forbidden_paths packet))
       (ValidationErr (''task '' @ tid @ '' owns an exactly forbidden path'')),
     for_ok (\<lambda>path. map_err ValidationErr (validate_repo_glob path))
       (tp_owned_paths packet @ tp_forbidden_paths packet @ tp_reserved_serial_paths packet),
     for_ok (\<lambda>reserved. all_ok
       [ensure (reserved \<in> set (rp_serial_paths profile))
          (ValidationErr (''task '' @ tid @ '' reserves serial path '' @ reserved @ '', which is not an exact profile serial path'')),
        ensure (reserved \<in> set (tp_owned_paths packet))
          (ValidationErr (''task '' @ tid @ '' reserves serial path '' @ reserved @ '' without owning the same bounded path''))])
       (tp_reserved_serial_paths packet),
     ensure (\<not> (is_high_risk packet \<and> tp_owner_profile packet = ''worker''))
       (ValidationErr (''high-risk task '' @ tid @ '' must use an escalated owner profile'')),
     for_ok (\<lambda>authority. ensure (\<not> (starts_with authority ''.omx/'' \<or> starts_with authority ''.harness-runtime/''))
       (ValidationErr (''task '' @ tid @ '' treats runtime state as authority''))) (tp_authority_refs packet),
     for_ok (\<lambda>(dependency, sha). all_ok
       [ensure (dependency \<in> set (tp_depends_on packet))
          (ValidationErr (''task '' @ tid @ '' supplies a SHA for non-dependency '' @ dependency)),
        require_exact_sha sha]) (tp_dependency_shas packet)])"

fun check_packets ::
  "RunSummary \<Rightarrow> RepositoryProfile \<Rightarrow> TaskPacket list \<Rightarrow> string set \<Rightarrow> OrchestratorError + unit" where
  "check_packets run profile [] ids = Inr ()"
| "check_packets run profile (packet # rest) ids =
    and_then (check_packet run profile ids packet)
      (\<lambda>_. check_packets run profile rest (insert (tp_task_id packet) ids))"

section \<open>The dependency graph\<close>

type_synonym task_lookup = "(string \<times> TaskPacket) list"

function detect_cycle :: "task_lookup \<Rightarrow> string \<Rightarrow> marks \<Rightarrow> OrchestratorError + marks"
  and detect_each :: "task_lookup \<Rightarrow> string list \<Rightarrow> marks \<Rightarrow> OrchestratorError + marks" where
  "detect_cycle tasks task_id (visiting, visited) =
    (if task_id \<in> visited then Inr (visiting, visited)
     else if task_id \<in> visiting
     then Inl (ValidationErr (''task graph contains a dependency cycle at '' @ task_id))
     else case map_of tasks task_id of
       None \<Rightarrow> Inr (insert task_id visiting - {task_id}, insert task_id visited)
     | Some task \<Rightarrow>
        (case detect_each tasks (tp_depends_on task) (insert task_id visiting, visited) of
           Inl e \<Rightarrow> Inl e
         | Inr (visiting', visited') \<Rightarrow> Inr (visiting' - {task_id}, insert task_id visited')))"
| "detect_each tasks [] st = Inr st"
| "detect_each tasks (dependency # rest) st =
    (case detect_cycle tasks dependency st of Inl e \<Rightarrow> Inl e | Inr st' \<Rightarrow> detect_each tasks rest st')"
  by pat_completeness auto

text \<open>
  The search is the depth-first search of the causal links over the graph of dependencies, with
  another error; where it is defined, it has the same result, so it ends where that one does.
\<close>

definition dependency_graph :: "task_lookup \<Rightarrow> adjacency" where
  "dependency_graph tasks = map (\<lambda>(k, task). (k, tp_depends_on task)) tasks"

fun as_cycle_error :: "CorrelationError \<Rightarrow> OrchestratorError" where
  "as_cycle_error (CausalCycle m) = ValidationErr (''task graph contains a dependency cycle at '' @ m)"
| "as_cycle_error e = ValidationErr []"

lemma map_of_dependency_graph:
  "map_of (dependency_graph tasks) n = map_option tp_depends_on (map_of tasks n)"
  by (induction tasks) (auto simp: dependency_graph_def)

lemma detect_cycle_is_visit_dom:
  "detect_cycle_detect_each_dom (Inl (tasks, n, st)) \<Longrightarrow>
     detect_cycle tasks n st = map_err as_cycle_error (visit (dependency_graph tasks) n st)"
  "detect_cycle_detect_each_dom (Inr (tasks, ns, st)) \<Longrightarrow>
     detect_each tasks ns st = map_err as_cycle_error (visit_each (dependency_graph tasks) ns st)"
proof (induction tasks n st and tasks ns st rule: detect_cycle_detect_each.pinduct)
  case (1 tasks task_id visiting visited)
  then show ?case
    by (auto simp: detect_cycle.psimps visit.simps map_of_dependency_graph map_err_def
        split: option.splits sum.splits)
next
  case (2 tasks st)
  then show ?case by (simp add: detect_each.psimps)
next
  case (3 tasks dependency rest st)
  then show ?case by (auto simp: detect_each.psimps map_err_def split: sum.splits)
qed

lemma detect_cycle_total: "All detect_cycle_detect_each_dom"
proof (relation "measures
    [\<lambda>x. case x of Inl (tasks, n, st) \<Rightarrow> unvisiting (dependency_graph tasks) st
       | Inr (tasks, ns, st) \<Rightarrow> unvisiting (dependency_graph tasks) st,
     \<lambda>x. case x of Inl _ \<Rightarrow> 0 | Inr (tasks, ns, st) \<Rightarrow> Suc (length ns)]")
  fix tasks dependency and rest :: "string list" and st st'
  assume dom: "detect_cycle_detect_each_dom (Inl (tasks, dependency, st))"
    and call: "detect_cycle tasks dependency st = Inr st'"
  from detect_cycle_is_visit_dom(1) [OF dom] call
  have "visit (dependency_graph tasks) dependency st = Inr st'" by (metis map_err_ok)
  from visit_same_visiting(1) [OF this]
  show "(Inr (tasks, rest, st'), Inr (tasks, dependency # rest, st)) \<in> measures
    [\<lambda>x. case x of Inl (tasks, n, st) \<Rightarrow> unvisiting (dependency_graph tasks) st
       | Inr (tasks, ns, st) \<Rightarrow> unvisiting (dependency_graph tasks) st,
     \<lambda>x. case x of Inl _ \<Rightarrow> 0 | Inr (tasks, ns, st) \<Rightarrow> Suc (length ns)]"
    by (simp add: unvisiting_def)
qed (auto simp: unvisiting_less map_of_dependency_graph)

termination detect_cycle
  by (rule detect_cycle_total)

declare detect_cycle.simps [simp del]

lemmas detect_cycle_is_visit = detect_cycle_is_visit_dom [OF detect_cycle_total [THEN spec]]

section \<open>The whole plan\<close>

definition plan_lookup :: "TaskPacket list \<Rightarrow> task_lookup" where
  "plan_lookup tasks = btree_collect (map (\<lambda>task. (tp_task_id task, task)) tasks)"

fun check_custody :: "TaskPacket list \<Rightarrow> OrchestratorError + unit" where
  "check_custody [] = Inr ()"
| "check_custody (left # rest) = all_ok
    [for_ok (\<lambda>right. for_ok (\<lambda>left_path. for_ok (\<lambda>right_path.
       ensure (\<not> repo_globs_may_overlap left_path right_path)
         (ValidationErr (''task custody overlaps: '' @ tp_task_id left @ '' owns '' @ left_path @ '', ''
            @ tp_task_id right @ '' owns '' @ right_path)))
       (tp_owned_paths right)) (tp_owned_paths left)) rest,
     check_custody rest]"

definition validate_plan ::
  "RunSummary \<Rightarrow> RunPlan \<Rightarrow> RepositoryProfile \<Rightarrow> OrchestratorError + unit" where
  "validate_plan run plan profile = (let lookup = plan_lookup (plan_tasks plan) in all_ok
    [ensure (\<not> (plan_schema plan \<noteq> ''harness.orchestration.plan.v1'' \<or> plan_tasks plan = []))
       (ValidationErr ''plan schema must be harness.orchestration.plan.v1 and contain tasks''),
     ensure (\<not> (rp_profile_id profile = ''general'' \<and>
         (length (plan_tasks plan) \<noteq> 1 \<or> \<not> packet_uses_governor (hd (plan_tasks plan)))))
       (ValidationErr ''general runs require exactly one governor-owned root task''),
     check_packets run profile (plan_tasks plan) {},
     for_ok (\<lambda>task. for_ok (\<lambda>dependency.
       ensure (map_of lookup dependency \<noteq> None)
         (ValidationErr (''task '' @ tp_task_id task @ '' depends on missing task '' @ dependency)))
       (tp_depends_on task)) (plan_tasks plan),
     check_custody (plan_tasks plan),
     for_ok (\<lambda>task. and_then (detect_cycle lookup (tp_task_id task) ({}, {})) (\<lambda>_. Inr ()))
       (plan_tasks plan)])"

section \<open>An accepted plan is a closed acyclic graph\<close>

definition plan_edges :: "TaskPacket list \<Rightarrow> (string \<times> string) set" where
  "plan_edges tasks = {(tp_task_id task, dependency) | task dependency.
     task \<in> set tasks \<and> dependency \<in> set (tp_depends_on task)}"

lemma settled_path:
  assumes "settled E D" and "x \<in> D" and "(x, y) \<in> E\<^sup>+"
  shows "y \<in> D \<and> (x, y) \<in> (E \<inter> D \<times> UNIV)\<^sup>+"
  using assms(3)
proof (induction rule: trancl_induct)
  case (base y)
  then show ?case using assms by (auto simp: settled_def)
next
  case (step y z)
  then have "z \<in> D" and "(y, z) \<in> E \<inter> D \<times> UNIV" using assms(1) by (auto simp: settled_def)
  with step show ?case by (meson trancl.trancl_into_trancl)
qed

lemma settled_no_cycle: "settled E D \<Longrightarrow> x \<in> D \<Longrightarrow> (x, x) \<notin> E\<^sup>+"
  using settled_path [of E D x x] by (auto simp: settled_def acyclic_def)

lemma search_each_decides:
  assumes "fst ` edges_of adj \<subseteq> set ns"
  shows "(\<forall>n \<in> set ns. \<exists>st. visit adj n ({}, {}) = Inr st) \<longleftrightarrow> acyclic (edges_of adj)"
proof
  assume found: "\<forall>n \<in> set ns. \<exists>st. visit adj n ({}, {}) = Inr st"
  show "acyclic (edges_of adj)"
  proof (rule acyclicI, rule allI, rule notI)
    fix x assume cyc: "(x, x) \<in> (edges_of adj)\<^sup>+"
    then have "x \<in> set ns" using assms by (metis DomainE Domain_fst subsetD tranclD Domain.DomainI)
    then obtain st where st: "visit adj x ({}, {}) = Inr st" using found by blast
    have "settled (edges_of adj) (snd st)" "x \<in> snd st"
      using visit_ok(1) [OF st] by (auto simp: settled_def acyclic_def)
    with cyc settled_no_cycle show False by blast
  qed
next
  assume ac: "acyclic (edges_of adj)"
  show "\<forall>n \<in> set ns. \<exists>st. visit adj n ({}, {}) = Inr st"
  proof
    fix n assume "n \<in> set ns"
    show "\<exists>st. visit adj n ({}, {}) = Inr st"
    proof (cases "visit adj n ({}, {})")
      case (Inl e)
      from visit_err(1) [OF this] ac show ?thesis by (auto simp: acyclic_def)
    qed blast
  qed
qed

lemma plan_lookup_edges:
  assumes "distinct (map tp_task_id tasks)"
  shows "edges_of (dependency_graph (plan_lookup tasks)) = plan_edges tasks"
proof -
  have d: "distinct (map fst (map (\<lambda>task. (tp_task_id task, task)) tasks))"
    using assms by (simp add: comp_def)
  have "map_of (plan_lookup tasks) n = Some t \<longleftrightarrow> t \<in> set tasks \<and> tp_task_id t = n" for n t
    unfolding plan_lookup_def btree_collect_unique [OF d] map_of_eq_Some_iff [OF d] by auto
  then show ?thesis by (auto simp: edges_of_def plan_edges_def map_of_dependency_graph)
qed

lemma plan_lookup_dom: "map_of (plan_lookup tasks) n \<noteq> None \<longleftrightarrow> n \<in> tp_task_id ` set tasks"
  by (simp add: plan_lookup_def map_of_eq_None_iff btree_collect_keys image_image)

lemma check_packets_ok:
  "check_packets run profile tasks ids = Inr u \<Longrightarrow>
     distinct (map tp_task_id tasks) \<and> tp_task_id ` set tasks \<inter> ids = {} \<and>
     (\<forall>t \<in> set tasks. \<exists>seen. check_packet run profile seen t = Inr ())"
proof (induction tasks arbitrary: ids)
  case (Cons t tasks)
  then have t: "check_packet run profile ids t = Inr ()"
    and rest: "check_packets run profile tasks (insert (tp_task_id t) ids) = Inr u"
    by (auto simp: and_then_ok)
  from t have "tp_task_id t \<notin> ids" by (simp add: check_packet_def Let_def)
  with Cons.IH [OF rest] t show ?case by auto
qed simp

lemma check_packets_total:
  assumes "distinct (map tp_task_id tasks)" and "tp_task_id ` set tasks \<inter> ids = {}"
    and "\<forall>t \<in> set tasks. \<exists>seen. check_packet run profile seen t = Inr ()"
  shows "check_packets run profile tasks ids = Inr ()"
  using assms
proof (induction tasks arbitrary: ids)
  case (Cons t tasks)
  then have "check_packet run profile ids t = Inr ()" by (auto simp: check_packet_def Let_def)
  moreover have "check_packets run profile tasks (insert (tp_task_id t) ids) = Inr ()"
    using Cons by (intro Cons.IH) auto
  ultimately show ?case by simp
qed simp

lemma check_custody_iff:
  "check_custody tasks = Inr u \<longleftrightarrow> sorted_wrt (\<lambda>left right.
     \<forall>a \<in> set (tp_owned_paths left). \<forall>b \<in> set (tp_owned_paths right). \<not> repo_globs_may_overlap a b) tasks"
  by (induction tasks) auto

lemma cycle_step_iff:
  assumes "distinct (map tp_task_id tasks)"
  shows "(\<forall>t \<in> set tasks. and_then (detect_cycle (plan_lookup tasks) (tp_task_id t) ({}, {})) (\<lambda>_. Inr ()) = Inr ())
    \<longleftrightarrow> acyclic (plan_edges tasks)"
proof -
  have "fst ` edges_of (dependency_graph (plan_lookup tasks)) \<subseteq> set (map tp_task_id tasks)"
    unfolding plan_lookup_edges [OF assms] by (auto simp: plan_edges_def)
  from search_each_decides [OF this] show ?thesis
    by (simp add: and_then_ok detect_cycle_is_visit plan_lookup_edges [OF assms])
qed

lemma validate_plan_iff:
  "validate_plan run plan profile = Inr () \<longleftrightarrow>
     plan_schema plan = ''harness.orchestration.plan.v1'' \<and> plan_tasks plan \<noteq> [] \<and>
     (rp_profile_id profile = ''general'' \<longrightarrow>
        length (plan_tasks plan) = 1 \<and> packet_uses_governor (hd (plan_tasks plan))) \<and>
     distinct (map tp_task_id (plan_tasks plan)) \<and>
     (\<forall>t \<in> set (plan_tasks plan). \<exists>seen. check_packet run profile seen t = Inr ()) \<and>
     snd ` plan_edges (plan_tasks plan) \<subseteq> tp_task_id ` set (plan_tasks plan) \<and>
     acyclic (plan_edges (plan_tasks plan)) \<and> check_custody (plan_tasks plan) = Inr ()"
    (is "_ \<longleftrightarrow> ?rhs")
proof -
  let ?ts = "plan_tasks plan"
  have closed: "(\<forall>t \<in> set ?ts. \<forall>d \<in> set (tp_depends_on t). map_of (plan_lookup ?ts) d \<noteq> None)
      \<longleftrightarrow> snd ` plan_edges ?ts \<subseteq> tp_task_id ` set ?ts"
    unfolding plan_lookup_dom by (force simp: plan_edges_def)
  have packets: "check_packets run profile ?ts {} = Inr () \<longleftrightarrow> distinct (map tp_task_id ?ts) \<and>
      (\<forall>t \<in> set ?ts. \<exists>seen. check_packet run profile seen t = Inr ())"
    using check_packets_ok [of run profile ?ts "{}" "()"] check_packets_total [of ?ts "{}" run profile] by blast
  have "validate_plan run plan profile = Inr () \<longleftrightarrow>
      plan_schema plan = ''harness.orchestration.plan.v1'' \<and> ?ts \<noteq> [] \<and>
      (rp_profile_id profile = ''general'' \<longrightarrow> length ?ts = 1 \<and> packet_uses_governor (hd ?ts)) \<and>
      check_packets run profile ?ts {} = Inr () \<and>
      (\<forall>t \<in> set ?ts. \<forall>d \<in> set (tp_depends_on t). map_of (plan_lookup ?ts) d \<noteq> None) \<and>
      check_custody ?ts = Inr () \<and>
      (\<forall>t \<in> set ?ts. and_then (detect_cycle (plan_lookup ?ts) (tp_task_id t) ({}, {})) (\<lambda>_. Inr ()) = Inr ())"
    unfolding validate_plan_def Let_def all_ok_Cons_ok for_ok_iff ensure_ok by auto
  then show ?thesis unfolding closed packets using cycle_step_iff by blast
qed

lemma check_packet_seen:
  "check_packet run profile seen t = Inr () \<longleftrightarrow> tp_task_id t \<notin> seen \<and> check_packet run profile {} t = Inr ()"
  by (simp add: check_packet_def Let_def)

text \<open>
  C4. The plan check decides that a plan can be executed: a plan is accepted exactly when it has the
  current schema, has tasks (one governor-owned task under the general profile), every task passes
  its own checks, task ids are distinct, every dependency is a task of the plan, no task depends on
  itself through others, and no two tasks hold patterns the overlap test relates.
\<close>

theorem plan_check_decides:
  "validate_plan run plan profile = Inr () \<longleftrightarrow>
     plan_schema plan = ''harness.orchestration.plan.v1'' \<and> plan_tasks plan \<noteq> [] \<and>
     (rp_profile_id profile = ''general'' \<longrightarrow>
        length (plan_tasks plan) = 1 \<and> packet_uses_governor (hd (plan_tasks plan))) \<and>
     (\<forall>t \<in> set (plan_tasks plan). check_packet run profile {} t = Inr ()) \<and>
     distinct (map tp_task_id (plan_tasks plan)) \<and>
     snd ` plan_edges (plan_tasks plan) \<subseteq> tp_task_id ` set (plan_tasks plan) \<and>
     acyclic (plan_edges (plan_tasks plan)) \<and>
     (\<forall>i j. i < j \<and> j < length (plan_tasks plan) \<longrightarrow>
        (\<forall>a \<in> set (tp_owned_paths (plan_tasks plan ! i)).
         \<forall>b \<in> set (tp_owned_paths (plan_tasks plan ! j)). \<not> repo_globs_may_overlap a b))"
proof -
  have "(\<exists>seen. check_packet run profile seen t = Inr ()) \<longleftrightarrow> check_packet run profile {} t = Inr ()" for t
    using check_packet_seen by blast
  then show ?thesis
    unfolding validate_plan_iff check_custody_iff sorted_wrt_iff_nth_less by auto
qed

definition sample_milestone :: "string \<Rightarrow> TaskMilestone" where
  "sample_milestone n = \<lparr>tm_id = n, tm_title = ''t'', tm_objective = ''o'', tm_success_criteria = [''c'']\<rparr>"

definition plan_task :: "string \<Rightarrow> string list \<Rightarrow> string list \<Rightarrow> TaskPacket" where
  "plan_task tid deps owned = sample_packet
    \<lparr>tp_task_id := tid, tp_depends_on := deps, tp_owned_paths := owned,
     tp_execution_kind := Implementation, tp_investigation_scope := None,
     tp_milestones := [sample_milestone ''a'', sample_milestone ''b'', sample_milestone ''c''],
     tp_success_criteria := [''c''], tp_required_evidence := [''e''], tp_proof_limits := [''l'']\<rparr>"

definition sample_plan :: RunPlan where
  "sample_plan = \<lparr>plan_schema = ''harness.orchestration.plan.v1'', plan_summary = ''s'',
     plan_tasks = [plan_task ''t1'' [] [''src/a.rs''], plan_task ''t2'' [''t1''] [''src/b/**'']]\<rparr>"

definition sample_run :: RunSummary where
  "sample_run = \<lparr>ru_id = ''run'', ru_repository_id = ''r'', ru_title = ''t'', ru_objective = ''o'',
     ru_mode = ''m'', ru_publication_mode = ''p'', ru_state = PlanReviewRequired, ru_phase = ''plan'',
     ru_base_ref = ''main'', ru_base_sha = ''b'', ru_integration_branch = None, ru_integration_sha = None,
     ru_authority_digest = ''d'', ru_created_at = ''now'', ru_started_at = None, ru_completed_at = None,
     ru_failure_reason = None, ru_scheduler_paused = False, ru_run_token_budget = None,
     ru_pinned = False, ru_version = 1\<rparr>"

lemmas packet_eval = check_packet_def Let_def plan_task_def sample_packet_def sample_run_def
  sample_milestone_def validate_execution_contract_def is_high_risk_def validate_repo_glob_def
  starts_with_def text_eval

lemma sample_packets:
  "check_packet sample_run profile {} (plan_task ''t1'' [] [''src/a.rs'']) = Inr ()"
  "check_packet sample_run profile {} (plan_task ''t2'' [''t1''] [''src/b/**'']) = Inr ()"
  by (simp_all add: packet_eval)

lemma sample_no_overlap: "\<not> repo_globs_may_overlap ''src/a.rs'' ''src/b/**''"
  by (simp add: repo_globs_may_overlap_def glob_prefix_def literal_part_def glob_char_def
      trim_slashes_def below_def)

lemma plan_task_fields [simp]:
  "tp_task_id (plan_task tid deps owned) = tid" "tp_depends_on (plan_task tid deps owned) = deps"
  "tp_owned_paths (plan_task tid deps owned) = owned"
  by (simp_all add: plan_task_def)

lemma plan_edges_simps [simp]:
  "plan_edges [] = {}"
  "plan_edges (t # ts) = Pair (tp_task_id t) ` set (tp_depends_on t) \<union> plan_edges ts"
  by (auto simp: plan_edges_def)

lemma sample_edges: "plan_edges (plan_tasks sample_plan) = {(''t2'', ''t1'')}"
  by (simp add: sample_plan_def)

lemma sample_acyclic: "acyclic {(''t2'', ''t1'')}"
  by (simp add: acyclic_insert) (simp add: acyclic_def)

theorem plan_check_decides_witness:
  "validate_plan sample_run sample_plan sample_profile = Inr () \<and>
   plan_edges (plan_tasks sample_plan) = {(''t2'', ''t1'')}"
proof -
  let ?ts = "plan_tasks sample_plan"
  have "\<forall>i j. i < j \<and> j < length ?ts \<longrightarrow> (\<forall>a \<in> set (tp_owned_paths (?ts ! i)).
      \<forall>b \<in> set (tp_owned_paths (?ts ! j)). \<not> repo_globs_may_overlap a b)"
  proof (intro allI impI)
    fix i j assume "i < j \<and> j < length ?ts"
    then have "i = 0 \<and> j = Suc 0" by (auto simp: sample_plan_def)
    then show "\<forall>a \<in> set (tp_owned_paths (?ts ! i)). \<forall>b \<in> set (tp_owned_paths (?ts ! j)).
        \<not> repo_globs_may_overlap a b"
      using sample_no_overlap by (simp add: sample_plan_def)
  qed
  moreover have "\<forall>t \<in> set ?ts. check_packet sample_run sample_profile {} t = Inr ()"
    using sample_packets by (simp add: sample_plan_def)
  ultimately show ?thesis
    unfolding plan_check_decides sample_edges
    using sample_acyclic by (simp add: sample_plan_def sample_profile_def)
qed

section \<open>Custody\<close>

text \<open>
  What the check relies on of the pattern matcher (\<open>globset\<close>): a path a pattern matches starts with
  the pattern's part before its first special character, and a pattern without one matches itself only;
  a backslash escapes, so patterns with one are left out. A pattern is wild by whole names when its
  special part begins at a name.
\<close>

definition glob_respects_literals :: "(string \<Rightarrow> string \<Rightarrow> bool) \<Rightarrow> bool" where
  "glob_respects_literals matches \<longleftrightarrow> (\<forall>pat path. CHR 0x5C \<notin> set pat \<longrightarrow> matches pat path \<longrightarrow>
     prefix (literal_part pat) path \<and> (literal_part pat = pat \<longrightarrow> path = pat))"

definition wild_by_names :: "string \<Rightarrow> bool" where
  "wild_by_names pat \<longleftrightarrow> CHR 0x5C \<notin> set pat \<and>
     (literal_part pat = pat \<or> literal_part pat = [] \<or> last (literal_part pat) = CHR ''/'')"

lemma trim_slashes_split: "\<exists>k. v = trim_slashes v @ replicate k CHR ''/''"
proof -
  let ?s = "takeWhile (\<lambda>c. c = CHR ''/'') (rev v)"
  have "rev v = ?s @ dropWhile (\<lambda>c. c = CHR ''/'') (rev v)" by simp
  moreover have "?s = replicate (length ?s) CHR ''/''"
    by (auto simp: list_eq_iff_nth_eq dest: nth_mem set_takeWhileD)
  ultimately show ?thesis
    unfolding trim_slashes_def by (metis rev_append rev_replicate rev_rev_ident)
qed

lemma below_iff: "below a b \<longleftrightarrow> prefix (b @ ''/'') a"
  by (auto simp: below_def starts_with_def prefix_def)

lemma match_under_prefix:
  assumes "glob_respects_literals matches" and "wild_by_names pat" and "matches pat path"
    and "glob_prefix pat \<noteq> []"
  shows "path = glob_prefix pat \<or> below path (glob_prefix pat)"
proof -
  from assms(1-3) have lit: "prefix (literal_part pat) path"
    and exact: "literal_part pat = pat \<Longrightarrow> path = pat"
    by (auto simp: glob_respects_literals_def wild_by_names_def)
  obtain k where k: "literal_part pat = glob_prefix pat @ replicate k CHR ''/''"
    using trim_slashes_split [of "literal_part pat"] by (auto simp: glob_prefix_def)
  show ?thesis
  proof (cases k)
    case 0
    have "last (glob_prefix pat) \<noteq> CHR ''/''"
      using assms(4) hd_dropWhile [of "\<lambda>c. c = CHR ''/''" "rev (literal_part pat)"]
      by (simp add: glob_prefix_def trim_slashes_def last_rev)
    with 0 k assms(2,4) have "literal_part pat = pat" by (simp add: wild_by_names_def)
    with exact k 0 show ?thesis by simp
  next
    case (Suc m)
    then have "prefix (glob_prefix pat @ ''/'') (literal_part pat)" using k by (simp add: prefix_def)
    with lit show ?thesis by (metis below_iff prefix_order.trans)
  qed
qed

lemma common_path_nested:
  assumes "path = a \<or> below path a" and "path = b \<or> below path b"
  shows "a = b \<or> below a b \<or> below b a"
proof -
  have pre: "prefix a path" "prefix b path" using assms by (auto simp: below_def)
  have nested: "c = d \<or> below d c" if "prefix c d" "prefix d path" "path = c \<or> below path c" for c d
  proof -
    from that(1) obtain r where r: "d = c @ r" by (auto simp: prefix_def)
    show ?thesis
    proof (cases r)
      case (Cons x xs)
      from that(2) r Cons have "prefix (c @ [x]) path" by (auto simp: prefix_def)
      moreover have "path \<noteq> c" using calculation by (auto simp: prefix_def)
      moreover from this that(3) have "prefix (c @ ''/'') path" by (simp add: below_iff)
      ultimately have "x = CHR ''/''" by (auto simp: prefix_def)
      then show ?thesis using r Cons by (simp add: below_iff prefix_def)
    qed (use r in simp)
  qed
  from prefix_same_cases [OF pre] nested pre assms show ?thesis by metis
qed

lemma overlap_sound:
  assumes "glob_respects_literals matches" and "wild_by_names a" and "wild_by_names b"
    and "matches a path" and "matches b path"
  shows "repo_globs_may_overlap a b"
proof (cases "glob_prefix a = [] \<or> glob_prefix b = []")
  case False
  with assms have "path = glob_prefix a \<or> below path (glob_prefix a)"
    "path = glob_prefix b \<or> below path (glob_prefix b)"
    using match_under_prefix by blast+
  from common_path_nested [OF this] show ?thesis by (auto simp: repo_globs_may_overlap_def Let_def)
qed (auto simp: repo_globs_may_overlap_def)

lemma overlap_sym: "repo_globs_may_overlap a b = repo_globs_may_overlap b a"
  by (auto simp: repo_globs_may_overlap_def Let_def)

text \<open>
  C39. No file has two owners: in an accepted plan, a path that a custody pattern of one task matches
  is matched by no pattern of another task, for every matcher that respects literal parts and
  patterns whose wild cards start at a name.
\<close>

theorem custody_is_exclusive:
  assumes "validate_plan run plan profile = Inr ()" and "glob_respects_literals matches"
    and "s \<in> set (plan_tasks plan)" and "t \<in> set (plan_tasks plan)" and "tp_task_id s \<noteq> tp_task_id t"
    and "a \<in> set (tp_owned_paths s)" and "b \<in> set (tp_owned_paths t)"
    and "wild_by_names a" and "wild_by_names b"
  shows "\<not> (matches a path \<and> matches b path)"
proof
  assume "matches a path \<and> matches b path"
  with overlap_sound assms(2,8,9) have ov: "repo_globs_may_overlap a b" by blast
  from assms(1) have sorted: "sorted_wrt (\<lambda>left right. \<forall>a \<in> set (tp_owned_paths left).
      \<forall>b \<in> set (tp_owned_paths right). \<not> repo_globs_may_overlap a b) (plan_tasks plan)"
    unfolding validate_plan_iff check_custody_iff by blast
  obtain i j where "i < length (plan_tasks plan)" "j < length (plan_tasks plan)"
    "s = plan_tasks plan ! i" "t = plan_tasks plan ! j" "i \<noteq> j"
    using assms(3-5) by (metis in_set_conv_nth)
  then show False
    using sorted_wrt_nth_less [OF sorted, of i j] sorted_wrt_nth_less [OF sorted, of j i]
      ov overlap_sym assms(6,7) by (metis linorder_neqE_nat)
qed

lemma sample_plan_valid: "validate_plan sample_run sample_plan sample_profile = Inr ()"
  unfolding validate_plan_iff sample_edges check_custody_iff
  using sample_packets sample_no_overlap sample_acyclic
  by (auto simp: sample_plan_def sample_profile_def)

text \<open>A matcher for patterns that are literal or end in \<open>/**\<close>.\<close>

definition subtree_matches :: "string \<Rightarrow> string \<Rightarrow> bool" where
  "subtree_matches pat path \<longleftrightarrow>
     (if literal_part pat = pat then path = pat else prefix (literal_part pat) path)"

lemma subtree_matches_respects: "glob_respects_literals subtree_matches"
  by (auto simp: glob_respects_literals_def subtree_matches_def split: if_splits)

theorem custody_is_exclusive_witness:
  "subtree_matches ''src/b/**'' ''src/b/x.rs'' \<and>
   \<not> (subtree_matches ''src/a.rs'' ''src/b/x.rs'' \<and> subtree_matches ''src/b/**'' ''src/b/x.rs'')"
proof -
  have wild: "wild_by_names ''src/a.rs''" "wild_by_names ''src/b/**''"
    by (simp_all add: wild_by_names_def literal_part_def glob_char_def)
  have "subtree_matches ''src/b/**'' ''src/b/x.rs''"
    by (simp add: subtree_matches_def literal_part_def glob_char_def)
  moreover have "\<not> (subtree_matches ''src/a.rs'' ''src/b/x.rs'' \<and> subtree_matches ''src/b/**'' ''src/b/x.rs'')"
    by (rule custody_is_exclusive [OF sample_plan_valid subtree_matches_respects,
          of "plan_task ''t1'' [] [''src/a.rs'']" "plan_task ''t2'' [''t1''] [''src/b/**'']"])
      (simp_all add: sample_plan_def wild)
  ultimately show ?thesis by blast
qed

text \<open>
  A wild card inside a name escapes the overlap check: for any name started by \<open>d\<close>, the pattern
  \<open>d*\<close> and the longer literal name \<open>d c r\<close> are taken to be disjoint, although the star matches the
  rest of that name.
\<close>

theorem partial_name_overlap_is_missed:
  assumes "d \<noteq> []" and "last d \<noteq> CHR ''/''" and "\<forall>c \<in> set (d @ c # r). \<not> glob_char c"
    and "c \<noteq> CHR ''/''" and "last (c # r) \<noteq> CHR ''/''"
  shows "\<not> repo_globs_may_overlap (d @ ''*'') (d @ c # r)"
proof -
  have star: "glob_char CHR ''*''" by (simp add: glob_char_def)
  have trim: "trim_slashes v = v" if "v \<noteq> []" "last v \<noteq> CHR ''/''" for v
    using that by (cases v rule: rev_cases) (simp_all add: trim_slashes_def)
  have "literal_part (d @ ''*'') = d" "literal_part (d @ c # r) = d @ c # r"
    using assms(3) star by (auto simp: literal_part_def takeWhile_append2)
  then have "glob_prefix (d @ ''*'') = d" "glob_prefix (d @ c # r) = d @ c # r"
    using assms trim [of d] trim [of "d @ c # r"] by (simp_all add: glob_prefix_def)
  then show ?thesis using assms(1,4) by (auto simp: repo_globs_may_overlap_def below_iff prefix_def)
qed

theorem partial_name_overlap_is_missed_witness:
  "\<not> repo_globs_may_overlap (''src/a'' @ ''*'') (''src/a'' @ CHR ''b'' # ''.rs'')"
  using partial_name_overlap_is_missed [of "''src/a''" "CHR ''b''" "''.rs''"] by (simp add: glob_char_def)

end
