(* ===== verification/Commit_Order.thy ===== *)
theory Commit_Order
  imports Plan_Validation "HOL-Library.Multiset"
begin

text \<open>
  The order in which verified task commits are integrated, and the commits a task's worktree starts from
  (\<open>ordered_task_commits\<close> and \<open>dependency_task_commits\<close> of
  \<^verbatim>\<open>crates/harness-orchestrator/src/lib.rs\<close>).

  Both end in a loop that repeatedly takes the first pending task whose dependencies are done. Each
  loop is shown to compute \<open>topo_order\<close>, the reference algorithm on bare ids, whose theorems are proved
  once: the order it finds respects the dependencies, and it finds one for every closed acyclic graph. With the
  plan check this gives that every accepted plan can be integrated.
\<close>

section \<open>The reference algorithm\<close>

definition ready :: "'k set \<Rightarrow> 'k list \<Rightarrow> bool" where
  "ready done deps \<longleftrightarrow> list_all (\<lambda>d. d \<in> done) deps"

lemma find_shrinks:
  "find P xs = Some (k, v) \<Longrightarrow> length (filter (\<lambda>(k', _). k' \<noteq> k) xs) < length xs"
proof -
  assume "find P xs = Some (k, v)"
  then have "(k, v) \<in> set xs" using find_mem by metis
  then show ?thesis by (intro length_filter_less) auto
qed

function topo_order :: "('k \<times> 'k list) list \<Rightarrow> 'k set \<Rightarrow> 'k list option" where
  "topo_order pending done =
    (if pending = [] then Some []
     else case find (\<lambda>(_, deps). ready done deps) pending of
       None \<Rightarrow> None
     | Some (k, _) \<Rightarrow> map_option ((#) k) (topo_order (filter (\<lambda>(k', _). k' \<noteq> k) pending) (insert k done)))"
  by pat_completeness auto
termination
  by (relation "measure (\<lambda>(pending, _). length pending)") (auto dest: find_shrinks)

declare topo_order.simps [simp del]

text \<open>\<open>follows done deps ks\<close>: each id comes after everything it depends on.\<close>

fun follows :: "'k set \<Rightarrow> ('k \<Rightarrow> 'k list) \<Rightarrow> 'k list \<Rightarrow> bool" where
  "follows done deps [] \<longleftrightarrow> True"
| "follows done deps (k # ks) \<longleftrightarrow> set (deps k) \<subseteq> done \<and> follows (insert k done) deps ks"

lemma follows_nth:
  "follows done deps ks \<longleftrightarrow> (\<forall>i < length ks. set (deps (ks ! i)) \<subseteq> done \<union> set (take i ks))"
proof (induction ks arbitrary: "done")
  case (Cons k ks)
  show ?case
    unfolding follows.simps Cons.IH
    by (simp add: All_less_Suc2)
qed simp

definition graph_of :: "('k \<times> 'k list) list \<Rightarrow> ('k \<times> 'k) set" where
  "graph_of pending = {(k, d). \<exists>deps. (k, deps) \<in> set pending \<and> d \<in> set deps}"

lemma topo_order_sound:
  assumes "distinct (map fst pending)" and "topo_order pending done = Some ks"
    and "\<And>k ds. (k, ds) \<in> set pending \<Longrightarrow> deps k = ds"
  shows "distinct ks \<and> set ks = fst ` set pending \<and> follows done deps ks"
  using assms
proof (induction pending "done" arbitrary: ks rule: topo_order.induct)
  case (1 pending "done")
  show ?case
  proof (cases "pending = []")
    case True
    with 1 show ?thesis by (simp add: topo_order.simps)
  next
    case False
    with 1(3) obtain k ds rest where found: "find (\<lambda>(_, deps). ready done deps) pending = Some (k, ds)"
      and rest: "topo_order (filter (\<lambda>(k', _). k' \<noteq> k) pending) (insert k done) = Some rest"
      and ks: "ks = k # rest"
      by (subst (asm) topo_order.simps) (auto split: option.splits)
    let ?p = "filter (\<lambda>(k', _). k' \<noteq> k) pending"
    have mem: "(k, ds) \<in> set pending" and rdy: "ready done ds" using find_mem [OF found] by auto
    have keys: "fst ` set ?p = fst ` set pending - {k}" by force
    have "distinct (map fst ?p)" using 1(2) by (simp add: distinct_map_filter)
    from 1(1) [OF False found refl this rest] 1(4)
    have ih: "distinct rest \<and> set rest = fst ` set ?p \<and> follows (insert k done) deps rest" by auto
    have "k \<in> fst ` set pending" using mem by force
    moreover have "set (deps k) \<subseteq> done" using rdy 1(4) [OF mem] by (auto simp: ready_def list_all_iff)
    ultimately show ?thesis using ih keys by (auto simp: ks)
  qed
qed

lemma some_ready:
  assumes "pending \<noteq> []" and "acyclic (graph_of pending)"
    and "snd ` graph_of pending \<subseteq> done \<union> fst ` set pending"
  shows "\<exists>p \<in> set pending. ready done (snd p)"
proof -
  have "graph_of pending \<subseteq> (\<Union>(k, ds) \<in> set pending. {k} \<times> set ds)" by (auto simp: graph_of_def)
  then have "finite (graph_of pending)" by (rule finite_subset) auto
  then have "wf ((graph_of pending)\<inverse>)" using assms(2) by (rule finite_acyclic_wf_converse)
  moreover have "fst (hd pending) \<in> fst ` set pending" using assms(1) by simp
  ultimately obtain k where k: "k \<in> fst ` set pending"
    and least: "\<And>d. (d, k) \<in> (graph_of pending)\<inverse> \<Longrightarrow> d \<notin> fst ` set pending"
    by (rule wfE_min) blast
  then obtain ds where mem: "(k, ds) \<in> set pending" by auto
  have "d \<in> done" if "d \<in> set ds" for d
  proof -
    have "(k, d) \<in> graph_of pending" using mem that by (auto simp: graph_of_def)
    then show ?thesis using least [of d] assms(3) by force
  qed
  then show ?thesis using mem by (force simp: ready_def list_all_iff)
qed

lemma topo_order_complete:
  assumes "acyclic (graph_of pending)" and "snd ` graph_of pending \<subseteq> done \<union> fst ` set pending"
  shows "\<exists>ks. topo_order pending done = Some ks"
  using assms
proof (induction pending "done" rule: topo_order.induct)
  case (1 pending "done")
  show ?case
  proof (cases "pending = []")
    case True
    then show ?thesis by (simp add: topo_order.simps)
  next
    case False
    from some_ready [OF False 1(2,3)]
    obtain k ds where found: "find (\<lambda>(_, deps). ready done deps) pending = Some (k, ds)"
      by (cases "find (\<lambda>(_, deps). ready done deps) pending") (auto simp: find_None_iff)
    let ?p = "filter (\<lambda>(k', _). k' \<noteq> k) pending"
    have sub: "graph_of ?p \<subseteq> graph_of pending" by (auto simp: graph_of_def)
    then have "acyclic (graph_of ?p)" using 1(2) by (rule acyclic_subset [rotated])
    moreover have "done \<union> fst ` set pending \<subseteq> insert k done \<union> fst ` set ?p" by force
    then have "snd ` graph_of ?p \<subseteq> insert k done \<union> fst ` set ?p"
      using image_mono [OF sub, of snd] 1(3) by (blast intro: subset_trans)
    ultimately obtain ks where "topo_order ?p (insert k done) = Some ks"
      using 1(1) [OF False found refl] by blast
    then show ?thesis using False found by (subst topo_order.simps) simp
  qed
qed

section \<open>The two loops\<close>

type_synonym pending = "(string \<times> string \<times> string list \<times> string) list"

definition deps_of :: "pending \<Rightarrow> (string \<times> string list) list" where
  "deps_of pending = map (\<lambda>(k, _, deps, _). (k, deps)) pending"

definition next_ready :: "string set \<Rightarrow> pending \<Rightarrow> (string \<times> string \<times> string list \<times> string) option" where
  "next_ready done pending = find (\<lambda>(_, _, deps, _). list_all (\<lambda>d. d \<in> done) deps) pending"

lemma next_ready_shrinks: "next_ready done pending = Some (k, v) \<Longrightarrow> length (remove_key k pending) < length pending"
  unfolding next_ready_def remove_key_def by (rule find_shrinks)

lemma map_of_remove_key: "k' \<noteq> k \<Longrightarrow> map_of (remove_key k m) k' = map_of m k'"
  by (induction m) (auto simp: remove_key_def)

function integrate_loop ::
  "pending \<Rightarrow> string set \<Rightarrow> (string \<times> string) list \<Rightarrow> OrchestratorError + (string \<times> string) list" where
  "integrate_loop pending integrated ordered =
    (if pending = [] then Inr ordered
     else case next_ready integrated pending of
       None \<Rightarrow> Inl (ProtocolErr ''approved task dependencies could not be topologically ordered'')
     | Some (external_id, _) \<Rightarrow>
        (case map_of pending external_id of
           None \<Rightarrow> Inl (ProtocolErr ''integration task disappeared'')
         | Some (task_id, _, sha) \<Rightarrow>
            (case require_exact_sha sha of
               Inl e \<Rightarrow> Inl e
             | Inr _ \<Rightarrow> integrate_loop (remove_key external_id pending) (insert external_id integrated)
                 (ordered @ [(task_id, sha)]))))"
  by pat_completeness auto
termination
  by (relation "measure (\<lambda>(pending, _). length pending)") (auto dest: next_ready_shrinks)

function dependency_loop ::
  "pending \<Rightarrow> string set \<Rightarrow> (string \<times> string \<times> string) list \<Rightarrow>
   OrchestratorError + (string \<times> string \<times> string) list" where
  "dependency_loop pending completed ordered =
    (if pending = [] then Inr ordered
     else case next_ready completed pending of
       None \<Rightarrow> Inl (ProtocolErr ''dependency commits could not be topologically ordered'')
     | Some (external_id, _) \<Rightarrow>
        (case map_of pending external_id of
           None \<Rightarrow> Inl (ProtocolErr ''dependency disappeared'')
         | Some (task_id, _, sha) \<Rightarrow>
            dependency_loop (remove_key external_id pending) (insert external_id completed)
              (ordered @ [(external_id, task_id, sha)])))"
  by pat_completeness auto
termination
  by (relation "measure (\<lambda>(pending, _). length pending)") (auto dest: next_ready_shrinks)

declare integrate_loop.simps [simp del] dependency_loop.simps [simp del]

text \<open>
  What the two have in common: one step takes the first ready entry, may refuse its commit, and
  emits a row. Every such loop succeeds exactly when the reference algorithm finds an order all of
  whose commits are accepted, and then its rows are in that order.
\<close>

locale commit_loop =
  fixes loop :: "pending \<Rightarrow> string set \<Rightarrow> 'o list \<Rightarrow> OrchestratorError + 'o list"
    and accepts :: "string \<Rightarrow> bool"
    and emit :: "string \<Rightarrow> string \<times> string list \<times> string \<Rightarrow> 'o"
  assumes loop_done: "loop [] done ordered = Inr ordered"
    and loop_stuck: "pending \<noteq> [] \<Longrightarrow> next_ready done pending = None \<Longrightarrow> \<exists>e. loop pending done ordered = Inl e"
    and loop_step: "distinct (map fst pending) \<Longrightarrow> next_ready done pending = Some (k, t) \<Longrightarrow>
      if accepts (snd (snd t)) then loop pending done ordered =
          loop (remove_key k pending) (insert k done) (ordered @ [emit k t])
        else \<exists>e. loop pending done ordered = Inl e"
begin

lemma loop_computes_order:
  assumes "distinct (map fst pending)"
  shows "loop pending done ordered = Inr rows \<longleftrightarrow>
    (\<exists>ks. topo_order (deps_of pending) done = Some ks \<and>
       (\<forall>k \<in> set ks. accepts (snd (snd (the (map_of pending k))))) \<and>
       rows = ordered @ map (\<lambda>k. emit k (the (map_of pending k))) ks)"
  using assms
proof (induction "length pending" arbitrary: pending "done" ordered rule: less_induct)
  case less
  have find_deps: "find (\<lambda>(_, deps). ready done deps) (deps_of pending) =
      map_option (\<lambda>(k, _, deps, _). (k, deps)) (next_ready done pending)"
    unfolding deps_of_def next_ready_def by (induction pending) (auto simp: ready_def)
  show ?case
  proof (cases "pending = []")
    case True
    then show ?thesis by (auto simp: loop_done topo_order.simps deps_of_def)
  next
    case False
    then have nonempty: "deps_of pending \<noteq> []" by (simp add: deps_of_def)
    show ?thesis
    proof (cases "next_ready done pending")
      case None
      then have "topo_order (deps_of pending) done = None"
        using nonempty find_deps by (subst topo_order.simps) simp
      then show ?thesis using loop_stuck [OF False None, of ordered] by auto
    next
      case (Some p)
      obtain k t where p: "p = (k, t)" by (cases p)
      let ?rest = "remove_key k pending"
      have mem: "(k, t) \<in> set pending" using Some p find_mem unfolding next_ready_def by metis
      then have look: "map_of pending k = Some t" using less.prems by simp
      have rest_deps: "filter (\<lambda>(k', _). k' \<noteq> k) (deps_of pending) = deps_of ?rest"
        by (auto simp: deps_of_def remove_key_def filter_map comp_def intro!: arg_cong [where f = "map _"] filter_cong)
      have order: "topo_order (deps_of pending) done =
          map_option ((#) k) (topo_order (deps_of ?rest) (insert k done))"
        using nonempty find_deps Some p rest_deps by (subst topo_order.simps) (cases t, auto)
      have rest_keys: "distinct (map fst ?rest)" and others: "\<And>k'. k' \<noteq> k \<Longrightarrow> map_of ?rest k' = map_of pending k'"
        using less.prems map_of_remove_key by (auto simp: remove_key_def distinct_map_filter)
      have k_gone: "k \<notin> set ks" if "topo_order (deps_of ?rest) (insert k done) = Some ks" for ks
      proof -
        have "distinct (map fst (deps_of ?rest))"
          using rest_keys by (simp add: deps_of_def comp_def case_prod_unfold)
        from topo_order_sound [OF this that, where deps = "\<lambda>k. fst (snd (the (map_of ?rest k)))"] rest_keys
        have "set ks = fst ` set (deps_of ?rest)" by (force simp: deps_of_def)
        then show ?thesis by (auto simp: deps_of_def remove_key_def)
      qed
      have same: "\<forall>k' \<in> set ks. map_of ?rest k' = map_of pending k'"
        if "topo_order (deps_of ?rest) (insert k done) = Some ks" for ks
        using k_gone [OF that] others by metis
      have "length ?rest < length pending" using next_ready_shrinks Some p by blast
      note ih = less.hyps [OF this rest_keys]
      show ?thesis
      proof (cases "accepts (snd (snd t))")
        case True
        then have "loop pending done ordered = loop ?rest (insert k done) (ordered @ [emit k t])"
          using loop_step [OF less.prems Some [unfolded p], of ordered] by simp
        then have step: "loop pending done ordered = Inr rows \<longleftrightarrow>
            (\<exists>ks. topo_order (deps_of ?rest) (insert k done) = Some ks \<and>
              (\<forall>k' \<in> set ks. accepts (snd (snd (the (map_of ?rest k'))))) \<and>
              rows = (ordered @ [emit k t]) @ map (\<lambda>k'. emit k' (the (map_of ?rest k'))) ks)"
          using ih [of "insert k done" "ordered @ [emit k t]"] by simp
        show ?thesis
        proof (cases "topo_order (deps_of ?rest) (insert k done)")
          case None
          then show ?thesis unfolding step order by simp
        next
          case (Some ks)
          have eq: "map (\<lambda>k'. emit k' (the (map_of ?rest k'))) ks = map (\<lambda>k'. emit k' (the (map_of pending k'))) ks"
            using same [OF Some] by simp
          then show ?thesis unfolding step order using Some same [OF Some] look True by (simp add: eq)
        qed
      next
        case False
        then have "\<exists>e. loop pending done ordered = Inl e"
          using loop_step [OF less.prems Some [unfolded p], of ordered] by simp
        then show ?thesis unfolding order using look False by auto
      qed
    qed
  qed
qed

end

interpretation integration: commit_loop integrate_loop "\<lambda>sha. is_lower_hex sha 40" "\<lambda>k (task_id, deps, sha). (task_id, sha)"
proof
  fix pending :: pending and "done" and ordered :: "(string \<times> string) list" and k t
  show "integrate_loop [] done ordered = Inr ordered" by (simp add: integrate_loop.simps)
  show "\<exists>e. integrate_loop pending done ordered = Inl e"
    if "pending \<noteq> []" "next_ready done pending = None"
    using that by (simp add: integrate_loop.simps [of pending])
  assume keys: "distinct (map fst pending)" and found: "next_ready done pending = Some (k, t)"
  then have "(k, t) \<in> set pending" using find_mem unfolding next_ready_def by metis
  then have "map_of pending k = Some t" "pending \<noteq> []" using keys by auto
  then show "if is_lower_hex (snd (snd t)) 40 then integrate_loop pending done ordered =
      integrate_loop (remove_key k pending) (insert k done)
        (ordered @ [case t of (task_id, deps, sha) \<Rightarrow> (task_id, sha)])
    else \<exists>e. integrate_loop pending done ordered = Inl e"
    using found by (cases t) (auto simp: integrate_loop.simps [of pending] split: sum.splits)
qed

interpretation dependencies: commit_loop dependency_loop "\<lambda>_. True" "\<lambda>k (task_id, deps, sha). (k, task_id, sha)"
proof
  fix pending :: pending and "done" and ordered :: "(string \<times> string \<times> string) list" and k t
  show "dependency_loop [] done ordered = Inr ordered" by (simp add: dependency_loop.simps)
  show "\<exists>e. dependency_loop pending done ordered = Inl e"
    if "pending \<noteq> []" "next_ready done pending = None"
    using that by (simp add: dependency_loop.simps [of pending])
  assume keys: "distinct (map fst pending)" and found: "next_ready done pending = Some (k, t)"
  then have "(k, t) \<in> set pending" using find_mem unfolding next_ready_def by metis
  then have "map_of pending k = Some t" "pending \<noteq> []" using keys by auto
  then show "if True then dependency_loop pending done ordered =
      dependency_loop (remove_key k pending) (insert k done)
        (ordered @ [case t of (task_id, deps, sha) \<Rightarrow> (k, task_id, sha)])
    else \<exists>e. dependency_loop pending done ordered = Inl e"
    using found by (cases t) (auto simp: dependency_loop.simps [of pending])
qed

section \<open>Integration order\<close>

definition ordered_task_commits ::
  "TaskSummary list \<Rightarrow> (string \<times> string) list \<Rightarrow> OrchestratorError + (string \<times> string) list" where
  "ordered_task_commits tasks commits = (let commit_by_id = btree_collect commits in
    and_then (try_map (\<lambda>task.
        and_then (ok_or (BlockedErr (''verified task '' @ tk_external_task_id task @ '' has no verified commit''))
            (map_of commit_by_id (tk_id task)))
          (\<lambda>sha. Inr (tk_external_task_id task, tk_id task, tk_dependencies task, sha))) tasks)
      (\<lambda>entries. integrate_loop (btree_collect entries) {} []))"

text \<open>The entry of a task, and the order of tasks an order of their ids gives.\<close>

definition entry :: "(string \<Rightarrow> string) \<Rightarrow> TaskSummary \<Rightarrow> string \<times> string \<times> string list \<times> string" where
  "entry commit t = (tk_external_task_id t, tk_id t, tk_dependencies t, commit (tk_id t))"

definition respects_dependencies :: "TaskSummary list \<Rightarrow> bool" where
  "respects_dependencies ts \<longleftrightarrow> (\<forall>i < length ts. \<forall>d \<in> set (tk_dependencies (ts ! i)).
     \<exists>j < i. tk_external_task_id (ts ! j) = d)"

definition summary_edges :: "TaskSummary list \<Rightarrow> (string \<times> string) set" where
  "summary_edges tasks = {(tk_external_task_id t, d) | t d. t \<in> set tasks \<and> d \<in> set (tk_dependencies t)}"

lemma entries_lookup:
  assumes "distinct (map tk_external_task_id tasks)" and "t \<in> set tasks"
  shows "map_of (btree_collect (map (entry commit) tasks)) (tk_external_task_id t) = Some (snd (entry commit t))"
proof -
  have d: "distinct (map fst (map (entry commit) tasks))" using assms(1) by (simp add: entry_def comp_def)
  have "(tk_external_task_id t, snd (entry commit t)) \<in> set (map (entry commit) tasks)"
    using assms(2) by (force simp: entry_def)
  then show ?thesis unfolding btree_collect_unique [OF d] using d by simp
qed

lemma entries_graph:
  assumes "distinct (map tk_external_task_id tasks)"
  shows "graph_of (deps_of (btree_collect (map (entry commit) tasks))) = summary_edges tasks \<and>
    fst ` set (deps_of (btree_collect (map (entry commit) tasks))) = tk_external_task_id ` set tasks"
proof -
  have "distinct (map fst (map (entry commit) tasks))" using assms by (simp add: entry_def comp_def)
  then have "set (deps_of (btree_collect (map (entry commit) tasks))) =
      (\<lambda>t. (tk_external_task_id t, tk_dependencies t)) ` set tasks"
    by (simp add: deps_of_def btree_collect_set image_image entry_def)
  then show ?thesis by (auto simp: graph_of_def summary_edges_def image_image)
qed

lemma order_of_entries:
  assumes "distinct (map tk_external_task_id tasks)"
    and "topo_order (deps_of (btree_collect (map (entry commit) tasks))) {} = Some ks"
  shows "\<exists>ts. mset ts = mset tasks \<and> ks = map tk_external_task_id ts \<and> respects_dependencies ts"
proof -
  define task_of where "task_of = (\<lambda>k. the (map_of (map (\<lambda>t. (tk_external_task_id t, t)) tasks) k))"
  have task_of: "task_of (tk_external_task_id t) = t" if "t \<in> set tasks" for t
    using assms(1) that unfolding task_of_def by (subst map_of_is_SomeI [of _ _ t]) (auto simp: comp_def)
  let ?pend = "deps_of (btree_collect (map (entry commit) tasks))"
  have "distinct (map fst ?pend)"
    using btree_collect_distinct [of "map (entry commit) tasks"] by (simp add: deps_of_def comp_def case_prod_unfold)
  moreover have "tk_dependencies (task_of k) = ds" if "(k, ds) \<in> set ?pend" for k ds
  proof -
    have "distinct (map fst (map (entry commit) tasks))" using assms(1) by (simp add: entry_def comp_def)
    then show ?thesis using that task_of by (auto simp: deps_of_def btree_collect_set entry_def)
  qed
  ultimately have "distinct ks \<and> set ks = fst ` set ?pend \<and> follows {} (\<lambda>k. tk_dependencies (task_of k)) ks"
    by (intro topo_order_sound [OF _ assms(2)])
  then have ks: "distinct ks" "set ks = tk_external_task_id ` set tasks"
    and fol: "follows {} (\<lambda>k. tk_dependencies (task_of k)) ks"
    using entries_graph [OF assms(1)] by auto
  let ?ts = "map task_of ks"
  have ext_of: "tk_external_task_id (task_of k) = k" if "k \<in> set ks" for k
    using that ks(2) task_of by auto
  have ext: "map tk_external_task_id ?ts = ks" using ext_of by (simp add: map_idI)
  have "distinct (map tk_external_task_id ?ts)" unfolding ext by (rule ks)
  then have "distinct ?ts" unfolding distinct_map [of tk_external_task_id] by blast
  moreover have "set ?ts = set tasks" using ks(2) task_of by force
  moreover have "distinct tasks" using assms(1) unfolding distinct_map by blast
  ultimately have "mset ?ts = mset tasks" using set_eq_iff_mset_eq_distinct by blast
  moreover have "respects_dependencies ?ts"
    unfolding respects_dependencies_def
  proof (intro allI impI ballI)
    fix i d assume i: "i < length ?ts" and "d \<in> set (tk_dependencies (?ts ! i))"
    with fol have "d \<in> set (take i ks)" by (auto simp: follows_nth)
    then obtain j where "j < i" "ks ! j = d" using i by (auto simp: in_set_conv_nth)
    then show "\<exists>j < i. tk_external_task_id (?ts ! j) = d" using i ext_of [of d] nth_mem [of j ks] by (intro exI [of _ j]) simp
  qed
  ultimately show ?thesis using ext by metis
qed

definition commit_of :: "(string \<times> string) list \<Rightarrow> string \<Rightarrow> string" where
  "commit_of commits task_id = the (map_of (btree_collect commits) task_id)"

lemma ordered_task_commits_loop:
  "ordered_task_commits tasks commits = Inr rows \<longleftrightarrow>
     (\<forall>t \<in> set tasks. map_of (btree_collect commits) (tk_id t) \<noteq> None) \<and>
     integrate_loop (btree_collect (map (entry (commit_of commits)) tasks)) {} [] = Inr rows"
proof -
  have "map (\<lambda>t. and_then (ok_or (e t) (map_of (btree_collect commits) (tk_id t)))
        (\<lambda>sha. Inr (tk_external_task_id t, tk_id t, tk_dependencies t, sha))) tasks = map Inr es \<longleftrightarrow>
      (\<forall>t \<in> set tasks. map_of (btree_collect commits) (tk_id t) \<noteq> None) \<and>
      es = map (entry (commit_of commits)) tasks" for e :: "TaskSummary \<Rightarrow> OrchestratorError" and es
    by (induction tasks arbitrary: es) (auto simp: and_then_ok entry_def commit_of_def Cons_eq_map_conv)
  then show ?thesis unfolding ordered_task_commits_def Let_def and_then_ok try_map_ok by auto
qed

lemma integration_rows:
  assumes "distinct (map tk_external_task_id tasks)"
  shows "ordered_task_commits tasks commits = Inr rows \<longleftrightarrow>
    (\<forall>t \<in> set tasks. \<exists>sha. map_of (btree_collect commits) (tk_id t) = Some sha \<and> is_lower_hex sha 40) \<and>
    (\<exists>ks. topo_order (deps_of (btree_collect (map (entry (commit_of commits)) tasks))) {} = Some ks \<and>
       rows = map (\<lambda>k. case the (map_of (btree_collect (map (entry (commit_of commits)) tasks)) k) of
         (task_id, deps, sha) \<Rightarrow> (task_id, sha)) ks)"
proof -
  let ?p = "btree_collect (map (entry (commit_of commits)) tasks)"
  have accepted: "(\<forall>k \<in> set ks. is_lower_hex (snd (snd (the (map_of ?p k)))) 40) \<longleftrightarrow>
      (\<forall>t \<in> set tasks. is_lower_hex (commit_of commits (tk_id t)) 40)"
    if order: "topo_order (deps_of ?p) {} = Some ks" for ks
  proof -
    obtain ts where "mset ts = mset tasks" "ks = map tk_external_task_id ts"
      using order_of_entries [OF assms order] by blast
    then have "set ks = tk_external_task_id ` set tasks" by (metis set_map set_mset_mset)
    then show ?thesis using entries_lookup [OF assms] by (auto simp: entry_def)
  qed
  have shas: "(\<forall>t \<in> set tasks. \<exists>sha. map_of (btree_collect commits) (tk_id t) = Some sha \<and> is_lower_hex sha 40) \<longleftrightarrow>
      (\<forall>t \<in> set tasks. map_of (btree_collect commits) (tk_id t) \<noteq> None) \<and>
      (\<forall>t \<in> set tasks. is_lower_hex (commit_of commits (tk_id t)) 40)"
    unfolding commit_of_def by (metis option.exhaust_sel option.sel option.distinct(1))
  show ?thesis
    unfolding ordered_task_commits_loop shas
      integration.loop_computes_order [OF btree_collect_distinct] append_Nil
    using accepted by blast
qed

text \<open>
  C5. Integration follows the dependencies: when the commits of a run's tasks are put in order, every
  task occurs once, with the commit recorded for it, a full Git hash, and after every task it
  depends on.
\<close>

theorem integration_order_is_topological:
  assumes "ordered_task_commits tasks commits = Inr rows" and "distinct (map tk_external_task_id tasks)"
  shows "\<exists>ts. mset ts = mset tasks \<and> respects_dependencies ts \<and>
    rows = map (\<lambda>t. (tk_id t, commit_of commits (tk_id t))) ts \<and>
    (\<forall>t \<in> set tasks. map_of (btree_collect commits) (tk_id t) = Some (commit_of commits (tk_id t)) \<and>
       is_lower_hex (commit_of commits (tk_id t)) 40)"
proof -
  let ?p = "btree_collect (map (entry (commit_of commits)) tasks)"
  from assms obtain ks where ks: "topo_order (deps_of ?p) {} = Some ks"
    and rows: "rows = map (\<lambda>k. case the (map_of ?p k) of (task_id, deps, sha) \<Rightarrow> (task_id, sha)) ks"
    and commits: "\<forall>t \<in> set tasks. \<exists>sha. map_of (btree_collect commits) (tk_id t) = Some sha \<and> is_lower_hex sha 40"
    using integration_rows [OF assms(2)] by blast
  obtain ts where ts: "mset ts = mset tasks" "ks = map tk_external_task_id ts" "respects_dependencies ts"
    using order_of_entries [OF assms(2) ks] by blast
  have "rows = map (\<lambda>t. (tk_id t, commit_of commits (tk_id t))) ts"
    unfolding rows ts(2) using mset_eq_setD [OF ts(1)] entries_lookup [OF assms(2)]
    by (auto simp: entry_def)
  moreover have "\<forall>t \<in> set tasks. map_of (btree_collect commits) (tk_id t) = Some (commit_of commits (tk_id t)) \<and>
      is_lower_hex (commit_of commits (tk_id t)) 40"
    using commits by (auto simp: commit_of_def)
  ultimately show ?thesis using ts by blast
qed

lemma integration_exists:
  assumes "distinct (map tk_external_task_id tasks)" and "acyclic (summary_edges tasks)"
    and "snd ` summary_edges tasks \<subseteq> tk_external_task_id ` set tasks"
    and "\<forall>t \<in> set tasks. \<exists>sha. map_of (btree_collect commits) (tk_id t) = Some sha \<and> is_lower_hex sha 40"
  shows "\<exists>rows. ordered_task_commits tasks commits = Inr rows"
proof -
  let ?p = "deps_of (btree_collect (map (entry (commit_of commits)) tasks))"
  have "acyclic (graph_of ?p)" "snd ` graph_of ?p \<subseteq> {} \<union> fst ` set ?p"
    using entries_graph [OF assms(1), of "commit_of commits"] assms(2,3) by simp_all
  from topo_order_complete [OF this] show ?thesis
    using integration_rows [OF assms(1)] assms(4) by blast
qed

text \<open>
  C6. Every accepted plan can be integrated: once each of its tasks has a verified commit, ordering the
  commits ends and succeeds; it never stops half-way for a dependency that cannot be satisfied.
\<close>

theorem accepted_plan_can_be_integrated:
  assumes "validate_plan run plan profile = Inr ()"
    and "map (\<lambda>t. (tk_external_task_id t, tk_dependencies t)) tasks =
      map (\<lambda>p. (tp_task_id p, tp_depends_on p)) (plan_tasks plan)"
    and "\<forall>t \<in> set tasks. \<exists>sha. map_of (btree_collect commits) (tk_id t) = Some sha \<and> is_lower_hex sha 40"
  shows "\<exists>rows. ordered_task_commits tasks commits = Inr rows \<and> length rows = length tasks"
proof -
  have ids: "map tk_external_task_id tasks = map tp_task_id (plan_tasks plan)"
    using arg_cong [OF assms(2), of "map fst"] by (simp add: comp_def)
  have pairs: "(\<lambda>t. (tk_external_task_id t, tk_dependencies t)) ` set tasks =
      (\<lambda>p. (tp_task_id p, tp_depends_on p)) ` set (plan_tasks plan)"
    using arg_cong [OF assms(2), of set] by simp
  have "summary_edges tasks = (\<Union>(k, ds) \<in> (\<lambda>t. (tk_external_task_id t, tk_dependencies t)) ` set tasks. {k} \<times> set ds)"
    by (auto simp: summary_edges_def)
  also have "\<dots> = plan_edges (plan_tasks plan)" unfolding pairs by (auto simp: plan_edges_def)
  finally have edges: "summary_edges tasks = plan_edges (plan_tasks plan)" .
  have set_ids: "tk_external_task_id ` set tasks = tp_task_id ` set (plan_tasks plan)"
    using arg_cong [OF ids, of set] by simp
  from assms(1) have plan: "distinct (map tp_task_id (plan_tasks plan))"
    "snd ` plan_edges (plan_tasks plan) \<subseteq> tp_task_id ` set (plan_tasks plan)"
    "acyclic (plan_edges (plan_tasks plan))"
    unfolding validate_plan_iff by blast+
  obtain rows where rows: "ordered_task_commits tasks commits = Inr rows"
    using integration_exists [of tasks commits] plan assms(3) unfolding ids edges set_ids by blast
  have dist: "distinct (map tk_external_task_id tasks)" using plan(1) ids by simp
  obtain ks where "topo_order (deps_of (btree_collect (map (entry (commit_of commits)) tasks))) {} = Some ks"
    and "length rows = length ks"
    using rows integration_rows [OF dist] by auto
  moreover from this obtain ts where "mset ts = mset tasks" "ks = map tk_external_task_id ts"
    using order_of_entries [OF dist] by blast
  ultimately have "length rows = length tasks" by (metis length_map mset_eq_length)
  then show ?thesis using rows by blast
qed

section \<open>What a task starts from\<close>

type_synonym task_index = "(string \<times> TaskSummary) list"

text \<open>The inner \<open>for\<close>: each dependency not yet needed is inserted in the ordered set and pushed.\<close>

fun push_new :: "string list \<Rightarrow> string list \<Rightarrow> string list \<Rightarrow> string list \<times> string list" where
  "push_new [] queue needed = (queue, needed)"
| "push_new (d # ds) queue needed =
    (if d \<in> set needed then push_new ds queue needed
     else push_new ds (queue @ [d]) (insort_insert d needed))"

lemma push_new_spec:
  "push_new ds queue needed = (queue', needed') \<Longrightarrow>
     \<exists>new. queue' = queue @ new \<and> set needed' = set needed \<union> set new \<and> distinct new \<and>
       set new \<inter> set needed = {} \<and> set new \<subseteq> set ds \<and> set ds \<subseteq> set needed' \<and>
       (distinct needed \<longrightarrow> distinct needed')"
proof (induction ds arbitrary: queue needed)
  case (Cons d ds)
  show ?case
  proof (cases "d \<in> set needed")
    case True
    with Cons show ?thesis by fastforce
  next
    case False
    with Cons.prems have "push_new ds (queue @ [d]) (insort_insert d needed) = (queue', needed')" by simp
    from Cons.IH [OF this] obtain new where "queue' = (queue @ [d]) @ new"
      "set needed' = insert d (set needed) \<union> set new" "distinct new"
      "set new \<inter> insert d (set needed) = {}" "set new \<subseteq> set ds" "set ds \<subseteq> set needed'"
      "distinct needed \<longrightarrow> distinct needed'"
      by (auto simp: set_insort_insert insort_insert_key_def distinct_insort set_insort_key False)
    with False show ?thesis by (intro exI [of _ "d # new"]) auto
  qed
qed simp

definition all_dependencies :: "task_index \<Rightarrow> string set" where
  "all_dependencies index = (\<Union>(k, t) \<in> set index. set (tk_dependencies t))"

function close_needed ::
  "task_index \<Rightarrow> string \<Rightarrow> string list \<Rightarrow> string list \<Rightarrow> OrchestratorError + string list" where
  "close_needed index root queue needed =
    (if queue = [] then Inr needed
     else case map_of index (last queue) of
       None \<Rightarrow> Inl (ProtocolErr (''task '' @ root @ '' depends on missing task '' @ last queue))
     | Some dependency \<Rightarrow>
        (case push_new (tk_dependencies dependency) (butlast queue) needed of
           (queue', needed') \<Rightarrow> close_needed index root queue' needed'))"
  by pat_completeness auto

text \<open>Each round takes one id off the queue, and every id it adds was not needed before.\<close>

lemma close_needed_shrinks:
  assumes "queue \<noteq> []" and "map_of index (last queue) = Some dependency"
    and "push_new (tk_dependencies dependency) (butlast queue) needed = (queue', needed')"
  shows "length queue' + card (all_dependencies index - set needed')
    < length queue + card (all_dependencies index - set needed)"
proof -
  from push_new_spec [OF assms(3)] obtain new where new: "queue' = butlast queue @ new"
    "set needed' = set needed \<union> set new" "distinct new" "set new \<inter> set needed = {}"
    "set new \<subseteq> set (tk_dependencies dependency)" by blast
  let ?U = "all_dependencies index"
  have fin: "finite ?U" by (auto simp: all_dependencies_def)
  have sub: "set new \<subseteq> ?U - set needed"
    using new(4,5) map_of_SomeD [OF assms(2)] by (force simp: all_dependencies_def)
  then have "length new \<le> card (?U - set needed)"
    using card_mono [of "?U - set needed" "set new"] fin distinct_card [OF new(3)] by simp
  moreover have "?U - set needed' = (?U - set needed) - set new" using new(2) by blast
  then have "card (?U - set needed') = card (?U - set needed) - length new"
    using sub distinct_card [OF new(3)] by (simp add: card_Diff_subset)
  moreover have "Suc (length (butlast queue)) = length queue" using assms(1) by simp
  ultimately show ?thesis using new(1) by simp
qed

termination close_needed
  by (relation "measure (\<lambda>(index, _, queue, needed). length queue + card (all_dependencies index - set needed))")
    (auto dest!: sym [of "(_, _)"] close_needed_shrinks)

declare close_needed.simps [simp del]

definition btree_set_of :: "string list \<Rightarrow> string list" where
  "btree_set_of xs = foldl (\<lambda>s d. insort_insert d s) [] xs"

definition dependency_task_commits ::
  "TaskSummary \<Rightarrow> TaskSummary list \<Rightarrow> (string \<times> string) list \<Rightarrow>
   OrchestratorError + (string \<times> string \<times> string) list" where
  "dependency_task_commits task tasks commits =
    (let task_by_external = btree_collect (map (\<lambda>t. (tk_external_task_id t, t)) tasks);
         commit_by_id = btree_collect commits
     in and_then (close_needed task_by_external (tk_external_task_id task) (tk_dependencies task)
          (btree_set_of (tk_dependencies task))) (\<lambda>needed.
        and_then (try_map (\<lambda>external_id.
            and_then (ok_or (ProtocolErr (''missing dependency task '' @ external_id))
                (map_of task_by_external external_id)) (\<lambda>dependency.
            and_then (ok_or (BlockedErr (''dependency '' @ external_id @ '' has not produced a verified commit''))
                (map_of commit_by_id (tk_id dependency))) (\<lambda>sha.
            and_then (require_exact_sha sha) (\<lambda>_.
              Inr (external_id, tk_id dependency, tk_dependencies dependency, sha))))) needed) (\<lambda>entries.
          dependency_loop (btree_collect entries) {} [])))"

lemma btree_set_of_spec: "set (btree_set_of xs) = set xs \<and> distinct (btree_set_of xs)"
proof (induction xs rule: rev_induct)
  case (snoc x xs)
  then show ?case
    by (auto simp: btree_set_of_def insort_insert_key_def set_insort_key distinct_insort)
qed (simp add: btree_set_of_def)

definition index_edges :: "task_index \<Rightarrow> (string \<times> string) set" where
  "index_edges index = {(a, b). \<exists>t. map_of index a = Some t \<and> b \<in> set (tk_dependencies t)}"

lemma closed_image_rtrancl: "E `` S \<subseteq> S \<Longrightarrow> E\<^sup>* `` S = S"
  by (simp add: Image_closed_trancl)

lemma rtrancl_image_absorb: "X \<subseteq> E\<^sup>* `` S \<Longrightarrow> E\<^sup>* `` (S \<union> X) = E\<^sup>* `` S"
proof -
  assume "X \<subseteq> E\<^sup>* `` S"
  then have "E\<^sup>* `` X \<subseteq> E\<^sup>* `` (E\<^sup>* `` S)" by (rule Image_mono [OF subset_refl])
  also have "\<dots> = E\<^sup>* `` S" by (simp flip: relcomp_Image)
  finally show ?thesis by (simp add: Image_Un Un_absorb2)
qed

lemma close_needed_ok:
  assumes "close_needed index root queue needed = Inr result" and "set queue \<subseteq> set needed"
    and "distinct needed"
    and "\<And>x. x \<in> set needed \<Longrightarrow> x \<notin> set queue \<Longrightarrow>
      map_of index x \<noteq> None \<and> index_edges index `` {x} \<subseteq> set needed"
  shows "distinct result \<and> set result = (index_edges index)\<^sup>* `` set needed \<and>
    (\<forall>x \<in> set result. map_of index x \<noteq> None)"
  using assms
proof (induction index root queue needed rule: close_needed.induct)
  case (1 index root queue needed)
  show ?case
  proof (cases "queue = []")
    case True
    then have "result = needed" using 1(2) by (simp add: close_needed.simps)
    moreover have "index_edges index `` set needed \<subseteq> set needed" using 1(5) True by auto
    then have "(index_edges index)\<^sup>* `` set needed = set needed" by (rule closed_image_rtrancl)
    ultimately show ?thesis using 1(4,5) True by auto
  next
    case False
    then obtain dependency queue' needed' where dep: "map_of index (last queue) = Some dependency"
      and push: "push_new (tk_dependencies dependency) (butlast queue) needed = (queue', needed')"
      and rest: "close_needed index root queue' needed' = Inr result"
      using 1(2) by (subst (asm) close_needed.simps) (auto split: option.splits prod.splits)
    from push_new_spec [OF push] obtain new where new: "queue' = butlast queue @ new"
      "set needed' = set needed \<union> set new" "set new \<subseteq> set (tk_dependencies dependency)"
      "set (tk_dependencies dependency) \<subseteq> set needed'" "distinct needed \<longrightarrow> distinct needed'" by blast
    have last: "last queue \<in> set needed" using False 1(3) by auto
    have split: "set queue = insert (last queue) (set (butlast queue))"
      using False by (metis append_butlast_last_id list.simps(15) rotate1.simps(2) set_rotate1)
    have edges: "index_edges index `` {last queue} = set (tk_dependencies dependency)"
      using dep by (auto simp: index_edges_def)
    have ih: "distinct result \<and> set result = (index_edges index)\<^sup>* `` set needed' \<and>
        (\<forall>x \<in> set result. map_of index x \<noteq> None)"
    proof (rule 1(1) [OF False dep push [symmetric] rest])
      show "set queue' \<subseteq> set needed'" "distinct needed'" using new split 1(3,4) by auto
      fix x assume x: "x \<in> set needed'" "x \<notin> set queue'"
      then have "x \<in> set needed" "x = last queue \<or> x \<notin> set queue" using new split by auto
      then show "map_of index x \<noteq> None \<and> index_edges index `` {x} \<subseteq> set needed'"
        using dep edges new(2,4) 1(5) [of x] by auto
    qed
    have "set new \<subseteq> (index_edges index)\<^sup>* `` set needed"
    proof
      fix x assume "x \<in> set new"
      then have "(last queue, x) \<in> index_edges index" using new(3) edges by blast
      then show "x \<in> (index_edges index)\<^sup>* `` set needed" using last by blast
    qed
    then have "(index_edges index)\<^sup>* `` set needed' = (index_edges index)\<^sup>* `` set needed"
      unfolding new(2) by (rule rtrancl_image_absorb)
    then show ?thesis using ih by simp
  qed
qed

lemma close_needed_total:
  assumes "(index_edges index)\<^sup>* `` set needed \<subseteq> dom (map_of index)" and "set queue \<subseteq> set needed"
  shows "\<exists>result. close_needed index root queue needed = Inr result"
  using assms
proof (induction index root queue needed rule: close_needed.induct)
  case (1 index root queue needed)
  show ?case
  proof (cases "queue = []")
    case False
    have last: "last queue \<in> set needed" using False 1(3) by auto
    then obtain dependency where dep: "map_of index (last queue) = Some dependency" using 1(2) by blast
    obtain queue' needed' where push: "push_new (tk_dependencies dependency) (butlast queue) needed = (queue', needed')"
      by force
    from push_new_spec [OF push] obtain new where new: "queue' = butlast queue @ new"
      "set needed' = set needed \<union> set new" "set new \<subseteq> set (tk_dependencies dependency)" by blast
    have "set new \<subseteq> index_edges index `` set needed"
      using new(3) dep last by (auto simp: index_edges_def)
    then have "set new \<subseteq> (index_edges index)\<^sup>* `` set needed" by blast
    from rtrancl_image_absorb [OF this]
    have "(index_edges index)\<^sup>* `` set needed' \<subseteq> dom (map_of index)" using 1(2) new(2) by simp
    moreover have "set queue' \<subseteq> set needed'" using new 1(3) by (auto dest: in_set_butlastD)
    ultimately obtain result where "close_needed index root queue' needed' = Inr result"
      using 1(1) [OF False dep push [symmetric]] by blast
    then show ?thesis using False dep push by (subst close_needed.simps) simp
  qed (simp add: close_needed.simps)
qed

lemma dependency_entries:
  "map (\<lambda>k. and_then (ok_or (e k) (map_of index k)) (\<lambda>t.
      and_then (ok_or (e' k) (map_of cs (tk_id t))) (\<lambda>sha.
      and_then (require_exact_sha sha) (\<lambda>_. Inr (k, tk_id t, tk_dependencies t, sha))))) ks = map Inr es \<longleftrightarrow>
   (\<forall>k \<in> set ks. \<exists>t sha. map_of index k = Some t \<and> map_of cs (tk_id t) = Some sha \<and> is_lower_hex sha 40) \<and>
   es = map (\<lambda>k. (k, snd (entry (\<lambda>tid. the (map_of cs tid)) (the (map_of index k))))) ks"
  by (induction ks arbitrary: es) (auto simp: and_then_ok Cons_eq_map_conv entry_def)

lemma task_index_facts:
  assumes "distinct (map tk_external_task_id tasks)"
  shows "map_of (btree_collect (map (\<lambda>t. (tk_external_task_id t, t)) tasks)) k = Some t \<longleftrightarrow>
      t \<in> set tasks \<and> tk_external_task_id t = k"
    and "index_edges (btree_collect (map (\<lambda>t. (tk_external_task_id t, t)) tasks)) = summary_edges tasks"
proof -
  have d: "distinct (map fst (map (\<lambda>t. (tk_external_task_id t, t)) tasks))" using assms by (simp add: comp_def)
  show found: "map_of (btree_collect (map (\<lambda>t. (tk_external_task_id t, t)) tasks)) k = Some t \<longleftrightarrow>
      t \<in> set tasks \<and> tk_external_task_id t = k" for k t
    unfolding btree_collect_unique [OF d] map_of_eq_Some_iff [OF d] by auto
  show "index_edges (btree_collect (map (\<lambda>t. (tk_external_task_id t, t)) tasks)) = summary_edges tasks"
    unfolding index_edges_def found by (auto simp: summary_edges_def)
qed

lemma needed_is_reachable:
  assumes "distinct (map tk_external_task_id tasks)" and "task \<in> set tasks"
  shows "(summary_edges tasks)\<^sup>* `` set (tk_dependencies task) =
    {d. (tk_external_task_id task, d) \<in> (summary_edges tasks)\<^sup>+}"
proof -
  have "summary_edges tasks `` {tk_external_task_id task} = set (tk_dependencies task)"
    using assms by (auto simp: summary_edges_def dest: eq_key_imp_eq_value) (metis (no_types, lifting) distinct_map inj_onD)
  then show ?thesis by (auto intro: rtrancl_into_trancl2 dest!: tranclD)
qed

lemma dependency_rows:
  assumes "distinct (map tk_external_task_id tasks)" and "dependency_task_commits task tasks commits = Inr rows"
  shows "\<exists>ts ks. distinct (map tk_external_task_id ts) \<and> set ts \<subseteq> set tasks \<and>
    tk_external_task_id ` set ts = (summary_edges tasks)\<^sup>* `` set (tk_dependencies task) \<and>
    (\<forall>t \<in> set ts. \<exists>sha. map_of (btree_collect commits) (tk_id t) = Some sha \<and> is_lower_hex sha 40) \<and>
    topo_order (deps_of (btree_collect (map (entry (commit_of commits)) ts))) {} = Some ks \<and>
    rows = map (\<lambda>k. case the (map_of (btree_collect (map (entry (commit_of commits)) ts)) k) of
      (task_id, deps, sha) \<Rightarrow> (k, task_id, sha)) ks"
proof -
  let ?index = "btree_collect (map (\<lambda>t. (tk_external_task_id t, t)) tasks)"
  let ?cs = "btree_collect commits"
  note found = task_index_facts(1) [OF assms(1)] and edges = task_index_facts(2) [OF assms(1)]
  have commit_of: "(\<lambda>tid. the (map_of ?cs tid)) = commit_of commits" by (simp add: fun_eq_iff commit_of_def)
  from assms(2) [unfolded dependency_task_commits_def Let_def and_then_ok try_map_ok dependency_entries commit_of]
  obtain needed es where closed: "close_needed ?index (tk_external_task_id task)
      (tk_dependencies task) (btree_set_of (tk_dependencies task)) = Inr needed"
    and commits: "\<forall>k \<in> set needed. \<exists>t sha. map_of ?index k = Some t \<and> map_of ?cs (tk_id t) = Some sha \<and> is_lower_hex sha 40"
    and es: "es = map (\<lambda>k. (k, snd (entry (commit_of commits) (the (map_of ?index k))))) needed"
    and loop: "dependency_loop (btree_collect es) {} [] = Inr rows"
    by (elim exE conjE) (rule that)
  note spec = btree_set_of_spec [of "tk_dependencies task"]
  have "distinct needed \<and> set needed = (index_edges ?index)\<^sup>* `` set (btree_set_of (tk_dependencies task)) \<and>
      (\<forall>x \<in> set needed. map_of ?index x \<noteq> None)"
    by (rule close_needed_ok [OF closed]) (simp_all add: spec)
  then have needed: "distinct needed" "set needed = (summary_edges tasks)\<^sup>* `` set (tk_dependencies task)"
    by (simp_all add: edges spec)
  let ?ts = "map (\<lambda>k. the (map_of ?index k)) needed"
  have origin: "the (map_of ?index k) \<in> set tasks \<and> tk_external_task_id (the (map_of ?index k)) = k"
    if "k \<in> set needed" for k
  proof -
    from commits that obtain t where t: "map_of ?index k = Some t" by blast
    then show ?thesis using found [of k t] by simp
  qed
  have ext: "map tk_external_task_id ?ts = needed" using origin by (simp add: map_idI)
  have entries: "map (\<lambda>k. (k, snd (entry (commit_of commits) (the (map_of ?index k))))) needed =
      map (entry (commit_of commits)) ?ts"
    using origin by (simp add: entry_def)
  obtain ks where "topo_order (deps_of (btree_collect (map (entry (commit_of commits)) ?ts))) {} = Some ks"
    "rows = map (\<lambda>k. case the (map_of (btree_collect (map (entry (commit_of commits)) ?ts)) k) of
      (task_id, deps, sha) \<Rightarrow> (k, task_id, sha)) ks"
    using loop unfolding es entries dependencies.loop_computes_order [OF btree_collect_distinct] by auto
  moreover have "distinct (map tk_external_task_id ?ts)" "set ?ts \<subseteq> set tasks" using ext needed(1) origin by auto
  moreover have "tk_external_task_id ` set ?ts = set needed" using ext by (metis set_map)
  moreover have "\<forall>t \<in> set ?ts. \<exists>sha. map_of ?cs (tk_id t) = Some sha \<and> is_lower_hex sha 40"
    using commits by fastforce
  ultimately show ?thesis using needed(2) by blast
qed

text \<open>
  C40. A task starts from exactly what it depends on: the commits put into its worktree are those of the
  tasks it reaches through dependencies, each once, no other, every one a full Git hash recorded for
  its task, and each after the ones it builds on.
\<close>

theorem worktree_gets_transitive_dependencies:
  assumes "dependency_task_commits task tasks commits = Inr rows"
    and "distinct (map tk_external_task_id tasks)" and "task \<in> set tasks"
  shows "\<exists>ts. distinct ts \<and> set ts \<subseteq> set tasks \<and> respects_dependencies ts \<and>
    tk_external_task_id ` set ts = {d. (tk_external_task_id task, d) \<in> (summary_edges tasks)\<^sup>+} \<and>
    rows = map (\<lambda>t. (tk_external_task_id t, tk_id t, commit_of commits (tk_id t))) ts \<and>
    (\<forall>t \<in> set ts. map_of (btree_collect commits) (tk_id t) = Some (commit_of commits (tk_id t)) \<and>
       is_lower_hex (commit_of commits (tk_id t)) 40)"
proof -
  from dependency_rows [OF assms(2,1)] obtain us ks where us: "distinct (map tk_external_task_id us)"
    "set us \<subseteq> set tasks"
    "tk_external_task_id ` set us = (summary_edges tasks)\<^sup>* `` set (tk_dependencies task)"
    and commits: "\<forall>t \<in> set us. \<exists>sha. map_of (btree_collect commits) (tk_id t) = Some sha \<and> is_lower_hex sha 40"
    and ks: "topo_order (deps_of (btree_collect (map (entry (commit_of commits)) us))) {} = Some ks"
    and rows: "rows = map (\<lambda>k. case the (map_of (btree_collect (map (entry (commit_of commits)) us)) k) of
      (task_id, deps, sha) \<Rightarrow> (k, task_id, sha)) ks"
    by blast
  obtain ts where ts: "mset ts = mset us" "ks = map tk_external_task_id ts" "respects_dependencies ts"
    using order_of_entries [OF us(1) ks] by blast
  have set_ts: "set ts = set us" and "distinct us" using mset_eq_setD [OF ts(1)] us(1) unfolding distinct_map by blast+
  then have distinct: "distinct ts" using ts(1) by (metis mset_eq_imp_distinct_iff)
  have rows: "rows = map (\<lambda>t. (tk_external_task_id t, tk_id t, commit_of commits (tk_id t))) ts"
    unfolding rows ts(2) using set_ts entries_lookup [OF us(1)] by (auto simp: entry_def)
  have shas: "\<forall>t \<in> set ts. map_of (btree_collect commits) (tk_id t) = Some (commit_of commits (tk_id t)) \<and>
      is_lower_hex (commit_of commits (tk_id t)) 40"
    using commits set_ts by (auto simp: commit_of_def)
  have reach: "set ts \<subseteq> set tasks"
    "tk_external_task_id ` set ts = {d. (tk_external_task_id task, d) \<in> (summary_edges tasks)\<^sup>+}"
    using us(2,3) set_ts needed_is_reachable [OF assms(2,3)] by simp_all
  show ?thesis by (intro exI conjI) (rule distinct reach ts(3) rows shas)+
qed

section \<open>Examples\<close>

definition sample_task :: "string \<Rightarrow> string list \<Rightarrow> TaskSummary" where
  "sample_task ext deps = \<lparr>tk_id = CHR ''#'' # ext, tk_run_id = ''run'', tk_external_task_id = ext, tk_title = ''t'',
     tk_objective = ''o'', tk_state = Verified, tk_priority = ''P1'', tk_owner_profile = ''worker'',
     tk_reviewer_profile = ''verifier'', tk_attempt = 1, tk_base_sha = ''b'', tk_head_sha = None,
     tk_token_budget = None, tk_dependencies = deps, tk_failure_reason = None, tk_version = 1\<rparr>"

definition sample_tasks :: "TaskSummary list" where
  "sample_tasks = [sample_task ''t1'' [''t2''], sample_task ''t2'' [], sample_task ''t3'' [''t1'']]"

definition sample_commits :: "(string \<times> string) list" where
  "sample_commits = [(''#t1'', replicate 40 (CHR ''a'')), (''#t2'', replicate 40 (CHR ''b'')),
     (''#t3'', replicate 40 (CHR ''c''))]"

lemma sample_order:
  "ordered_task_commits sample_tasks sample_commits = Inr [(''#t2'', replicate 40 (CHR ''b'')),
     (''#t1'', replicate 40 (CHR ''a'')), (''#t3'', replicate 40 (CHR ''c''))]"
  by code_simp

lemma sample_dependencies:
  "dependency_task_commits (sample_task ''t3'' [''t1'']) sample_tasks sample_commits = Inr
     [(''t2'', ''#t2'', replicate 40 (CHR ''b'')), (''t1'', ''#t1'', replicate 40 (CHR ''a''))]"
  by code_simp

lemma sample_task_ids: "distinct (map tk_external_task_id sample_tasks)"
  by (simp add: sample_tasks_def sample_task_def)

theorem integration_order_is_topological_witness:
  "\<exists>ts. mset ts = mset sample_tasks \<and> respects_dependencies ts \<and>
     [(''#t2'', replicate 40 (CHR ''b'')), (''#t1'', replicate 40 (CHR ''a'')), (''#t3'', replicate 40 (CHR ''c''))] =
       map (\<lambda>t. (tk_id t, commit_of sample_commits (tk_id t))) ts"
  using integration_order_is_topological [OF sample_order sample_task_ids]
  by metis

theorem worktree_gets_transitive_dependencies_witness:
  "\<exists>ts. respects_dependencies ts \<and>
     tk_external_task_id ` set ts = {d. (''t3'', d) \<in> (summary_edges sample_tasks)\<^sup>+} \<and>
     [(''t2'', ''#t2'', replicate 40 (CHR ''b'')), (''t1'', ''#t1'', replicate 40 (CHR ''a''))] =
       map (\<lambda>t. (tk_external_task_id t, tk_id t, commit_of sample_commits (tk_id t))) ts"
proof -
  have "sample_task ''t3'' [''t1''] \<in> set sample_tasks" by (simp add: sample_tasks_def)
  moreover have "tk_external_task_id (sample_task ''t3'' [''t1'']) = ''t3''" by (simp add: sample_task_def)
  ultimately show ?thesis
    using worktree_gets_transitive_dependencies [OF sample_dependencies sample_task_ids] by metis
qed

definition planned_tasks :: "TaskSummary list" where
  "planned_tasks = [sample_task ''t1'' [], sample_task ''t2'' [''t1'']]"

theorem accepted_plan_can_be_integrated_witness:
  "\<exists>rows. ordered_task_commits planned_tasks sample_commits = Inr rows \<and> length rows = length planned_tasks"
proof (rule accepted_plan_can_be_integrated [OF sample_plan_valid])
  show "map (\<lambda>t. (tk_external_task_id t, tk_dependencies t)) planned_tasks =
      map (\<lambda>p. (tp_task_id p, tp_depends_on p)) (plan_tasks sample_plan)"
    by (simp add: planned_tasks_def sample_task_def sample_plan_def)
  have "map_of (btree_collect sample_commits) ''#t1'' = Some (replicate 40 (CHR ''a''))"
    "map_of (btree_collect sample_commits) ''#t2'' = Some (replicate 40 (CHR ''b''))"
    by code_simp+
  moreover have "is_lower_hex (replicate 40 (CHR ''a'')) 40" "is_lower_hex (replicate 40 (CHR ''b'')) 40"
    by code_simp+
  ultimately show "\<forall>t \<in> set planned_tasks. \<exists>sha. map_of (btree_collect sample_commits) (tk_id t) = Some sha \<and>
      is_lower_hex sha 40"
    by (simp add: planned_tasks_def sample_task_def)
qed

end
