(* ===== verification/Harness_Config.thy ===== *)
theory Harness_Config
  imports Repository_Profile Usage_Cost Improvement_Taxonomy
begin

text \<open>
  The controller's configuration (\<^verbatim>\<open>crates/harness-profile/src/lib.rs\<close>, \<open>HarnessConfig\<close>): its
  validation, the switch between provisioned model providers, the environment overrides, the
  directories it resolves to and its atomic replacement on disk.

  Binary floating point is a type parameter with the operations the price check applies to it. The
  process environment, the TOML reader and writer and file metadata are parameters. Each I/O call of
  the atomic replacement may fail, and which ones do is an argument.
\<close>

section \<open>Data\<close>

record ServerConfig =
  sc_bind :: string
  sc_open_browser_on_start :: bool
  sc_ui_event_replay_limit :: u32

record PathsConfig =
  px_data_dir :: string
  px_cache_dir :: string
  px_config_dir :: string
  px_worktree_root :: string
  px_artifact_root :: string

record CodexConfig =
  cx_binary :: string
  cx_codex_home :: "string option"
  cx_model_provider :: string
  cx_allowed_models :: "string list"
  cx_model_catalog_json :: "string option"
  cx_transport :: string
  cx_service_name :: string
  cx_experimental_api :: bool
  cx_required_version :: string
  cx_required_protocol_schema_sha256 :: string
  cx_execution_on_schema_mismatch :: string
  cx_reasoning_summary :: string

text \<open>\<open>providers\<close> is a \<open>BTreeMap\<close>, held as its entries in key order.\<close>

record ProviderSwitchConfig =
  pw_active_provider :: string
  pw_providers :: "(string \<times> CodexConfig) list"

record OrchestrationConfig =
  oc_max_total_agent_threads :: u32
  oc_max_mutable_tasks :: u32
  oc_max_independent_verifiers :: u32
  oc_max_read_only_discovery :: u32
  oc_max_automatic_remediation_rounds :: u32
  oc_automatic_plan_approval_max_execution_tokens :: u64
  oc_default_task_token_budget :: u64
  oc_default_turn_timeout_seconds :: u64
  oc_lease_ttl_seconds :: u64
  oc_heartbeat_interval_seconds :: u64

record GitConfig =
  gc_primary_checkout_must_remain_clean :: bool
  gc_fetch_before_run :: bool
  gc_base_ref :: string
  gc_auto_push :: bool
  gc_auto_create_pr :: bool
  gc_auto_mark_pr_ready :: bool
  gc_auto_merge :: bool
  gc_preserve_failed_worktrees :: bool

record SecurityConfig =
  se_bind_localhost_only :: bool
  se_network_default :: string
  se_approval_policy :: string
  se_store_raw_reasoning :: bool
  se_store_reasoning_summaries :: bool
  se_redact_environment_values :: bool
  se_redact_probable_secrets :: bool
  se_allow_agent_full_access :: bool
  se_allow_automatic_external_writes :: bool

record StorageConfig =
  st_sqlite_wal :: bool
  st_raw_event_retention_days :: u32
  st_command_log_retention_days :: u32
  st_artifact_retention_days :: u32
  st_compress_raw_events :: bool
  st_hash_algorithm :: string

record UsageConfig =
  uc_label_subscription_costs_as_api_equivalent :: bool
  uc_show_reasoning_tokens_separately :: bool
  uc_never_double_count_reasoning_output :: bool
  uc_cost_when_cache_write_missing :: string

record 'f PriceSnapshotConfig =
  pr_id :: string
  pr_effective_at :: string
  pr_model :: string
  pr_currency :: string
  pr_input_per_million :: 'f
  pr_cached_input_per_million :: 'f
  pr_output_per_million :: 'f
  pr_cache_write_multiplier :: 'f
  pr_long_context_threshold_tokens :: "u64 option"
  pr_long_context_input_multiplier :: "'f option"
  pr_long_context_output_multiplier :: "'f option"

record SelfImprovementConfig =
  si_mode :: ImprovementMode
  si_safety_anchor_sha256 :: string

datatype SupervisorMode =
    SupervisionDisabled | SupervisionObserveOnly | Shadow | Advisory | ActiveLowRisk | Active

record SupervisorRouteConfig =
  sr_model :: string
  sr_reasoning_effort :: string
  sr_sandbox :: string
  sr_token_budget :: u64
  sr_uncertainty_retries :: "8 word"

record ExpertRouteConfig =
  er_model :: string
  er_reasoning_effort :: string
  er_sandbox :: string
  er_token_budget :: u64
  er_max_completed_per_signature :: "8 word"
  er_max_children :: "8 word"

record SupervisionConfig =
  sv_mode :: SupervisorMode
  sv_event_coalesce_seconds :: u64
  sv_liveness_seconds :: u64
  sv_max_snapshot_bytes :: u64
  sv_supervisor :: SupervisorRouteConfig
  sv_expert :: ExpertRouteConfig

record 'f HarnessConfig =
  hc_schema_version :: u32
  hc_server :: ServerConfig
  hc_paths :: PathsConfig
  hc_codex :: CodexConfig
  hc_provider_switch :: "ProviderSwitchConfig option"
  hc_orchestration :: OrchestrationConfig
  hc_git :: GitConfig
  hc_security :: SecurityConfig
  hc_storage :: StorageConfig
  hc_usage :: UsageConfig
  hc_pricing :: "'f PriceSnapshotConfig list"
  hc_self_improvement :: SelfImprovementConfig
  hc_supervision :: SupervisionConfig

section \<open>Defaults\<close>

definition FROZEN_SAFETY_ANCHOR_SHA256 :: string where
  "FROZEN_SAFETY_ANCHOR_SHA256 = ''197cd971adb684a42509253054dc6987910a5b35fceac0d7f208449d42e50d77''"

definition default_self_improvement :: SelfImprovementConfig where
  "default_self_improvement =
    \<lparr>si_mode = Disabled, si_safety_anchor_sha256 = FROZEN_SAFETY_ANCHOR_SHA256\<rparr>"

definition default_supervisor_route :: SupervisorRouteConfig where
  "default_supervisor_route = \<lparr>sr_model = ''gpt-5.6-terra'', sr_reasoning_effort = ''high'',
     sr_sandbox = ''read-only'', sr_token_budget = 48000, sr_uncertainty_retries = 1\<rparr>"

definition default_expert_route :: ExpertRouteConfig where
  "default_expert_route = \<lparr>er_model = ''gpt-5.6-sol'', er_reasoning_effort = ''xhigh'',
     er_sandbox = ''read-only'', er_token_budget = 80000, er_max_completed_per_signature = 2,
     er_max_children = 0\<rparr>"

definition default_supervision :: SupervisionConfig where
  "default_supervision = \<lparr>sv_mode = SupervisionDisabled, sv_event_coalesce_seconds = 2,
     sv_liveness_seconds = 300, sv_max_snapshot_bytes = 65536,
     sv_supervisor = default_supervisor_route, sv_expert = default_expert_route\<rparr>"

section \<open>Prices\<close>

text \<open>What the price conversion needs of \<open>f64\<close>: finiteness, the sign tests, the constant one, and
  \<open>(value * 1_000_000.0).round() as u64\<close>.\<close>

record 'f f64_ops =
  f64_is_finite :: "'f \<Rightarrow> bool"
  f64_negative :: "'f \<Rightarrow> bool"
  f64_zero_or_negative :: "'f \<Rightarrow> bool"
  f64_one :: 'f
  f64_micro :: "'f \<Rightarrow> u64"

definition price_rate :: "'f f64_ops \<Rightarrow> string \<Rightarrow> 'f \<Rightarrow> string \<Rightarrow> ProfileError + u64" where
  "price_rate F pid v name =
    (if \<not> f64_is_finite F v \<or> f64_negative F v
     then Inl (ProfileValidation (''pricing snapshot '' @ pid @ '' has invalid '' @ name))
     else Inr (f64_micro F v))"

definition price_ratio :: "'f f64_ops \<Rightarrow> string \<Rightarrow> 'f option \<Rightarrow> 'f \<Rightarrow> ProfileError + u64 \<times> u64" where
  "price_ratio F pid v dflt = (let x = (case v of None \<Rightarrow> dflt | Some y \<Rightarrow> y) in
    if \<not> f64_is_finite F x \<or> f64_zero_or_negative F x
    then Inl (ProfileValidation (''pricing snapshot '' @ pid @ '' has invalid multiplier''))
    else Inr (f64_micro F x, 1000000))"

definition to_domain :: "'f f64_ops \<Rightarrow> 'f PriceSnapshotConfig \<Rightarrow> ProfileError + PricingSnapshot" where
  "to_domain F s =
    (if pr_currency s \<noteq> ''USD''
     then Inl (ProfileValidation (''pricing snapshot '' @ pr_id s @ '' uses unsupported currency '' @ pr_currency s))
     else
       and_then (price_ratio F (pr_id s) (Some (pr_cache_write_multiplier s)) (f64_one F)) (\<lambda>cache.
       and_then (price_ratio F (pr_id s) (pr_long_context_input_multiplier s) (f64_one F)) (\<lambda>input.
       and_then (price_ratio F (pr_id s) (pr_long_context_output_multiplier s) (f64_one F)) (\<lambda>output.
       and_then (price_rate F (pr_id s) (pr_input_per_million s) ''input price'') (\<lambda>in_rate.
       and_then (price_rate F (pr_id s) (pr_cached_input_per_million s) ''cached input price'') (\<lambda>cached_rate.
       and_then (price_rate F (pr_id s) (pr_output_per_million s) ''output price'') (\<lambda>out_rate.
         Inr \<lparr>ps_id = pr_id s, ps_model = pr_model s, ps_effective_at = pr_effective_at s,
           ps_input_microusd_per_million = in_rate,
           ps_cached_input_microusd_per_million = cached_rate,
           ps_output_microusd_per_million = out_rate,
           ps_cache_write_multiplier_numerator = fst cache,
           ps_cache_write_multiplier_denominator = snd cache,
           ps_long_context_threshold_tokens = pr_long_context_threshold_tokens s,
           ps_long_context_input_multiplier_numerator = Some (fst input),
           ps_long_context_input_multiplier_denominator = Some (snd input),
           ps_long_context_output_multiplier_numerator = Some (fst output),
           ps_long_context_output_multiplier_denominator = Some (snd output)\<rparr>)))))))"

section \<open>Model catalogues\<close>

definition valid_model_identifier :: "string \<Rightarrow> bool" where
  "valid_model_identifier v \<longleftrightarrow> v \<noteq> [] \<and> length v \<le> 120 \<and>
     list_all (\<lambda>c. is_ascii_lowercase c \<or> is_ascii_digit c \<or> c = CHR ''.'' \<or> c = CHR ''-'') v"

definition validate_static_model_catalog :: "string list \<Rightarrow> ProfileError + unit" where
  "validate_static_model_catalog models = all_ok
    [ensure (\<not> (models = [] \<or> length models > 32 \<or> list_ex (\<lambda>m. \<not> valid_model_identifier m) models))
       (ProfileValidation ''Codex model catalog must contain one to 32 lowercase model identifiers''),
     ensure (card (set models) = length models)
       (ProfileValidation ''Codex model catalog contains a duplicate model identifier'')]"

record file_meta =
  fm_is_file :: bool
  fm_is_symlink :: bool
  fm_len :: u64

text \<open>\<open>fs::symlink_metadata\<close>: the metadata, or the text of the error.\<close>

type_synonym metadata = "string \<Rightarrow> string + file_meta"

definition validate_qwodex_model_catalog_path :: "metadata \<Rightarrow> string option \<Rightarrow> ProfileError + unit" where
  "validate_qwodex_model_catalog_path meta path =
    (case path of
       None \<Rightarrow> Inl (ProfileValidation ''Qwodex controller requires an absolute operator-owned model_catalog_json path'')
     | Some p \<Rightarrow>
        (if \<not> starts_with p ''/'' then Inl (ProfileValidation ''Qwodex model_catalog_json path must be absolute'')
         else case meta p of
           Inl e \<Rightarrow> Inl (ProfileValidation (''Qwodex model_catalog_json is unavailable at '' @ p @ '': '' @ e))
         | Inr m \<Rightarrow> all_ok
             [ensure (\<not> (\<not> fm_is_file m \<or> fm_is_symlink m))
                (ProfileValidation ''Qwodex model_catalog_json must be a regular non-symlink file''),
              ensure (\<not> (fm_len m = 0 \<or> fm_len m > 2 * 1024 * 1024))
                (ProfileValidation ''Qwodex model_catalog_json must be between one byte and two MiB'')]))"

definition validate_codex_config :: "metadata \<Rightarrow> CodexConfig \<Rightarrow> ProfileError + unit" where
  "validate_codex_config meta codex = all_ok
    [ensure (cx_transport codex = ''stdio'')
       (ProfileValidation ''only Codex App Server stdio transport is supported''),
     ensure (cx_model_provider codex \<in> set [''openai'', ''qwen-local-switcher''])
       (ProfileValidation ''Codex model provider must be openai or qwen-local-switcher''),
     (if cx_model_provider codex = ''openai'' then all_ok
        [ensure (cx_model_catalog_json codex = None)
           (ProfileValidation ''OpenAI controller configuration must not set a Qwodex model catalog path''),
         validate_static_model_catalog (cx_allowed_models codex),
         ensure (list_all (\<lambda>m. m \<in> set [''gpt-5.6-sol'', ''gpt-5.6-terra'', ''gpt-5.6-luna''])
             (cx_allowed_models codex))
           (ProfileValidation ''OpenAI model catalog contains a model unsupported by this controller'')]
      else all_ok
        [ensure (cx_allowed_models codex = [])
           (ProfileValidation ''Qwodex controller model catalog is discovered from model_catalog_json; allowed_models must be empty''),
         validate_qwodex_model_catalog_path meta (cx_model_catalog_json codex)])]"

definition validate_provider_switch :: "metadata \<Rightarrow> 'f HarnessConfig \<Rightarrow> ProfileError + unit" where
  "validate_provider_switch meta c =
    (case hc_provider_switch c of
       None \<Rightarrow> Inr ()
     | Some sw \<Rightarrow>
        (if pw_providers sw = []
         then Inl (ProfileValidation ''provider switch configuration must provision at least one provider'')
         else case map_of (pw_providers sw) (pw_active_provider sw) of
           None \<Rightarrow> Inl (ProfileValidation (''provider switch active_provider '' @ pw_active_provider sw @ '' is not provisioned''))
         | Some active \<Rightarrow>
            (if hc_codex c \<noteq> active
             then Inl (ProfileValidation ''active codex configuration must exactly match the selected provider preset'')
             else for_ok (\<lambda>(provider, preset). all_ok
               [ensure (cx_model_provider preset = provider)
                  (ProfileValidation (''provider preset '' @ provider @ '' must declare the same model_provider'')),
                validate_codex_config meta preset]) (pw_providers sw))))"

definition validate_supervision :: "SupervisionConfig \<Rightarrow> ProfileError + unit" where
  "validate_supervision v = all_ok
    [ensure (sv_mode v \<in> set [SupervisionDisabled, SupervisionObserveOnly, Advisory])
       (ProfileValidation ''supervision modes shadow, active_low_risk, and active are not compiled into this release''),
     ensure (\<not> (\<not> (1 \<le> sv_event_coalesce_seconds v \<and> sv_event_coalesce_seconds v \<le> 60) \<or>
         sv_liveness_seconds v < sv_event_coalesce_seconds v \<or> sv_liveness_seconds v > 3600 \<or>
         \<not> (4096 \<le> sv_max_snapshot_bytes v \<and> sv_max_snapshot_bytes v \<le> 262144)))
       (ProfileValidation ''supervision coalescing, liveness, or snapshot bounds are invalid''),
     ensure (\<not> (sr_model (sv_supervisor v) \<noteq> ''gpt-5.6-terra'' \<or>
         sr_reasoning_effort (sv_supervisor v) \<noteq> ''high'' \<or> sr_sandbox (sv_supervisor v) \<noteq> ''read-only'' \<or>
         \<not> (48000 \<le> sr_token_budget (sv_supervisor v) \<and> sr_token_budget (sv_supervisor v) \<le> 80000) \<or>
         sr_uncertainty_retries (sv_supervisor v) \<noteq> 1))
       (ProfileValidation ''supervisor route must be fixed to gpt-5.6-terra/high/read-only with a 48k-80k token budget and one uncertainty retry''),
     ensure (\<not> (er_model (sv_expert v) \<noteq> ''gpt-5.6-sol'' \<or>
         er_reasoning_effort (sv_expert v) \<noteq> ''xhigh'' \<or> er_sandbox (sv_expert v) \<noteq> ''read-only'' \<or>
         \<not> (48000 \<le> er_token_budget (sv_expert v) \<and> er_token_budget (sv_expert v) \<le> 80000) \<or>
         \<not> (1 \<le> er_max_completed_per_signature (sv_expert v) \<and> er_max_completed_per_signature (sv_expert v) \<le> 2) \<or>
         er_max_children (sv_expert v) \<noteq> 0))
       (ProfileValidation ''expert route must be fixed to gpt-5.6-sol/xhigh/read-only with a 48k-80k token budget, one or two completed consultations per signature, and zero children'')]"

section \<open>The whole configuration\<close>

text \<open>\<open>rsplit_once(':')\<close>, the part before the last colon or the whole; \<open>trim_matches\<close> on brackets.\<close>

definition bind_host :: "string \<Rightarrow> string" where
  "bind_host s = (if CHR '':'' \<in> set s
     then rev (tl (dropWhile (\<lambda>c. c \<noteq> CHR '':'') (rev s))) else s)"

definition trim_brackets :: "string \<Rightarrow> string" where
  "trim_brackets s = (let br = (\<lambda>c. c = CHR ''['' \<or> c = CHR '']'') in
     rev (dropWhile br (rev (dropWhile br s))))"

definition loopback :: "string \<Rightarrow> bool" where
  "loopback bind \<longleftrightarrow> trim_brackets (bind_host bind) \<in> set [''127.0.0.1'', ''localhost'', ''::1'']"

definition validate_config ::
  "'f f64_ops \<Rightarrow> metadata \<Rightarrow> 'f HarnessConfig \<Rightarrow> ProfileError + unit" where
  "validate_config F meta c = (let o' = hc_orchestration c; s = hc_security c; g = hc_git c in all_ok
    [ensure (hc_schema_version c = 1)
       (ProfileValidation (''unsupported config schema version '' @ digits (unat (hc_schema_version c)))),
     ensure (\<not> (sc_ui_event_replay_limit (hc_server c) = 0 \<or> sc_ui_event_replay_limit (hc_server c) > 100000))
       (ProfileValidation ''ui_event_replay_limit must be between 1 and 100,000''),
     ensure (\<not> (se_bind_localhost_only s \<and> \<not> loopback (sc_bind (hc_server c))))
       (ProfileValidation ''v1 refuses a non-loopback bind address''),
     ensure (\<not> se_allow_agent_full_access s)
       (ProfileValidation ''allow_agent_full_access is forbidden by the v1 policy''),
     ensure (\<not> (gc_auto_merge g \<or> gc_auto_push g \<or> gc_auto_create_pr g \<or> gc_auto_mark_pr_ready g \<or>
         se_allow_automatic_external_writes s))
       (ProfileValidation ''automatic external writes and merge are forbidden in v1''),
     ensure (\<not> (\<not> gc_primary_checkout_must_remain_clean g \<or> \<not> gc_preserve_failed_worktrees g))
       (ProfileValidation ''v1 requires a clean primary checkout and preservation of failed worktrees''),
     ensure (se_network_default s = ''disabled'')
       (ProfileValidation ''v1 requires network_default = disabled''),
     ensure (\<not> (\<not> se_redact_environment_values s \<or> \<not> se_redact_probable_secrets s))
       (ProfileValidation ''v1 requires environment and probable-secret redaction''),
     ensure (st_hash_algorithm (hc_storage c) = ''sha256'')
       (ProfileValidation ''v1 supports only sha256 artifact and event custody''),
     ensure (uc_label_subscription_costs_as_api_equivalent (hc_usage c))
       (ProfileValidation ''subscription usage must be labeled as API-equivalent cost''),
     validate_codex_config meta (hc_codex c),
     validate_provider_switch meta c,
     ensure (se_approval_policy s \<in> set [''untrusted'', ''on-request'', ''never''])
       (ProfileValidation ''approval_policy must match the pinned App Server values: untrusted, on-request, or never''),
     ensure (\<not> (oc_max_total_agent_threads o' = 0 \<or> oc_max_mutable_tasks o' = 0 \<or>
         oc_max_independent_verifiers o' = 0))
       (ProfileValidation ''total, mutable, and verifier capacities must be non-zero''),
     ensure (\<not> oc_max_mutable_tasks o' > oc_max_total_agent_threads o')
       (ProfileValidation ''mutable task capacity exceeds total thread capacity''),
     ensure (\<not> oc_max_independent_verifiers o' > oc_max_total_agent_threads o')
       (ProfileValidation ''verifier capacity exceeds total thread capacity''),
     ensure (oc_automatic_plan_approval_max_execution_tokens o' \<noteq> 0)
       (ProfileValidation ''automatic plan approval execution threshold must be non-zero''),
     ensure (\<not> (oc_heartbeat_interval_seconds o' = 0 \<or>
         oc_lease_ttl_seconds o' \<le> oc_heartbeat_interval_seconds o'))
       (ProfileValidation ''lease TTL must be greater than the non-zero heartbeat interval''),
     validate_supervision (hc_supervision c),
     for_ok (\<lambda>snapshot. and_then (to_domain F snapshot) (\<lambda>_. Inr ())) (hc_pricing c)])"

section \<open>Loading and switching\<close>

definition apply_environment :: "(string \<Rightarrow> string option) \<Rightarrow> 'f HarnessConfig \<Rightarrow> 'f HarnessConfig" where
  "apply_environment env c =
    (let with_bind = (case env ''HARNESS_BIND'' of None \<Rightarrow> c
           | Some v \<Rightarrow> c\<lparr>hc_server := (hc_server c)\<lparr>sc_bind := v\<rparr>\<rparr>);
         with_data = (case env ''HARNESS_DATA_DIR'' of None \<Rightarrow> with_bind
           | Some v \<Rightarrow> with_bind\<lparr>hc_paths := (hc_paths with_bind)\<lparr>px_data_dir := v\<rparr>\<rparr>);
         with_cache = (case env ''HARNESS_CACHE_DIR'' of None \<Rightarrow> with_data
           | Some v \<Rightarrow> with_data\<lparr>hc_paths := (hc_paths with_data)\<lparr>px_cache_dir := v\<rparr>\<rparr>);
         with_worktree = (case env ''HARNESS_WORKTREE_ROOT'' of None \<Rightarrow> with_cache
           | Some v \<Rightarrow> with_cache\<lparr>hc_paths := (hc_paths with_cache)\<lparr>px_worktree_root := v\<rparr>\<rparr>)
     in case env ''HARNESS_CODEX_BINARY'' of None \<Rightarrow> with_worktree
        | Some v \<Rightarrow> if hc_provider_switch with_worktree = None
            then with_worktree\<lparr>hc_codex := (hc_codex with_worktree)\<lparr>cx_binary := v\<rparr>\<rparr>
            else with_worktree)"

definition load_config ::
  "fs_view \<Rightarrow> (string \<Rightarrow> 'f HarnessConfig option) \<Rightarrow> (string \<Rightarrow> string option) \<Rightarrow> string \<Rightarrow>
   'f f64_ops \<Rightarrow> metadata \<Rightarrow> string option \<Rightarrow> ProfileError + 'f HarnessConfig" where
  "load_config fs from_toml env default_config F meta path =
    and_then (case path of
        Some p \<Rightarrow> if fs_exists fs p then ok_or Io (fs_read fs p) else Inl (Missing p)
      | None \<Rightarrow> Inr default_config) (\<lambda>text.
    and_then (ok_or Toml (from_toml text)) (\<lambda>parsed.
      let c = apply_environment env parsed in
      and_then (validate_config F meta c) (\<lambda>_. Inr c)))"



definition self_improvement_runtime_status ::
  "(string \<Rightarrow> string) \<Rightarrow> string \<Rightarrow> 'f HarnessConfig \<Rightarrow> ImprovementRuntimeStatus" where
  "self_improvement_runtime_status hex_sha256 frozen_safety_anchor c =
    (let calculated = hex_sha256 frozen_safety_anchor;
         anchor = (calculated = FROZEN_SAFETY_ANCHOR_SHA256 \<and>
           si_safety_anchor_sha256 (hc_self_improvement c) = FROZEN_SAFETY_ANCHOR_SHA256)
     in from_config (si_mode (hc_self_improvement c)) FROZEN_SAFETY_ANCHOR_SHA256
          (si_safety_anchor_sha256 (hc_self_improvement c)) anchor)"

section \<open>Directories\<close>

record ResolvedPaths =
  rd_config_dir :: string
  rd_data_dir :: string
  rd_cache_dir :: string
  rd_state_dir :: string
  rd_database :: string
  rd_artifact_root :: string
  rd_worktree_root :: string
  rd_log_dir :: string

definition env_path :: "(string \<Rightarrow> string option) \<Rightarrow> string \<Rightarrow> string option" where
  "env_path env name = (case env name of None \<Rightarrow> None | Some v \<Rightarrow> if v = [] then None else Some v)"

definition configured_or :: "string \<Rightarrow> string \<Rightarrow> string" where
  "configured_or v fallback = (if trim_is_empty v then fallback else v)"

definition resolve_paths :: "(string \<Rightarrow> string option) \<Rightarrow> 'f HarnessConfig \<Rightarrow> ProfileError + ResolvedPaths" where
  "resolve_paths env c =
    (case env ''HOME'' of
       None \<Rightarrow> Inl MissingHome
     | Some home \<Rightarrow>
        (let base = (\<lambda>name dir. case env_path env name of None \<Rightarrow> path_join home dir | Some p \<Rightarrow> p);
             config_base = base ''XDG_CONFIG_HOME'' ''.config'';
             data_base = base ''XDG_DATA_HOME'' ''.local/share'';
             cache_base = base ''XDG_CACHE_HOME'' ''.cache'';
             state_base = base ''XDG_STATE_HOME'' ''.local/state'';
             config_dir = configured_or (px_config_dir (hc_paths c)) (path_join config_base ''harness-console'');
             data_dir = configured_or (px_data_dir (hc_paths c)) (path_join data_base ''harness-console'');
             cache_dir = configured_or (px_cache_dir (hc_paths c)) (path_join cache_base ''harness-console'');
             state_dir = path_join state_base ''harness-console'';
             artifact_root = configured_or (px_artifact_root (hc_paths c)) (path_join data_dir ''artifacts/sha256'');
             worktree_root = configured_or (px_worktree_root (hc_paths c)) (path_join data_dir ''worktrees'')
         in Inr \<lparr>rd_config_dir = config_dir, rd_data_dir = data_dir, rd_cache_dir = cache_dir,
              rd_state_dir = state_dir, rd_database = path_join data_dir ''harness.sqlite3'',
              rd_artifact_root = artifact_root, rd_worktree_root = worktree_root,
              rd_log_dir = path_join state_dir ''logs''\<rparr>))"

section \<open>Replacing the file\<close>

text \<open>
  A path is its components, and whether it starts at the root. The file system is a map from paths
  to contents. \<open>io_faults\<close> says how each call of one replacement ends; a write may stop part-way.
\<close>

type_synonym fs_path = "bool \<times> string list"

definition parent :: "fs_path \<Rightarrow> fs_path option" where
  "parent p = (if snd p = [] then None else Some (fst p, butlast (snd p)))"

definition file_name :: "fs_path \<Rightarrow> string option" where
  "file_name p = (if snd p = [] \<or> last (snd p) \<in> set [''.'', ''..''] then None else Some (last (snd p)))"

definition child :: "fs_path \<Rightarrow> string \<Rightarrow> fs_path" where
  "child p name = (fst p, snd p @ [name])"

record io_faults =
  io_create_ok :: bool
  io_written :: "nat option"
  io_sync_ok :: bool
  io_rename_ok :: bool
  io_dir_sync_ok :: bool
  io_remove_ok :: bool

type_synonym files = "fs_path \<Rightarrow> string option"

text \<open>The closure in the middle: write, sync, rename, sync the directory; stop at the first error.\<close>

definition write_steps :: "io_faults \<Rightarrow> fs_path \<Rightarrow> fs_path \<Rightarrow> string \<Rightarrow> files \<Rightarrow> bool \<times> files" where
  "write_steps io temporary path serialized fs =
    (case io_written io of
       Some k \<Rightarrow> (False, fs(temporary \<mapsto> take k serialized))
     | None \<Rightarrow>
        (let fs1 = fs(temporary \<mapsto> serialized) in
         if \<not> io_sync_ok io then (False, fs1)
         else if \<not> io_rename_ok io then (False, fs1)
         else (io_dir_sync_ok io, (fs1(path := fs1 temporary))(temporary := None))))"

definition temporary_of :: "fs_path \<Rightarrow> string \<Rightarrow> nat \<Rightarrow> fs_path" where
  "temporary_of dir name pid = child dir (''.'' @ name @ ''.'' @ digits pid @ ''.provider-switch.tmp'')"

definition write_atomically ::
  "'f f64_ops \<Rightarrow> metadata \<Rightarrow> ('f HarnessConfig \<Rightarrow> string option) \<Rightarrow> nat \<Rightarrow> io_faults \<Rightarrow>
   'f HarnessConfig \<Rightarrow> fs_path \<Rightarrow> files \<Rightarrow> (ProfileError + unit) \<times> files" where
  "write_atomically F meta to_toml pid io c path fs =
    (case validate_config F meta c of Inl e \<Rightarrow> (Inl e, fs)
     | Inr _ \<Rightarrow>
    (case to_toml c of None \<Rightarrow> (Inl TomlSerialize, fs)
     | Some serialized \<Rightarrow>
    (case parent path of
       None \<Rightarrow> (Inl (ProfileValidation ''provider configuration path has no parent directory''), fs)
     | Some dir \<Rightarrow>
    (case file_name path of
       None \<Rightarrow> (Inl (ProfileValidation ''provider configuration path has no UTF-8 file name''), fs)
     | Some name \<Rightarrow>
        (let temporary = temporary_of dir name pid in
         if \<not> io_create_ok io \<or> fs temporary \<noteq> None then (Inl Io, fs)
         else case write_steps io temporary path serialized (fs(temporary \<mapsto> [])) of
           (True, fs') \<Rightarrow> (Inr (), fs')
         | (False, fs') \<Rightarrow> (Inl Io, if io_remove_ok io then fs'(temporary := None) else fs'))))))"

section \<open>Sample configurations\<close>

definition unit_f64 :: "unit f64_ops" where
  "unit_f64 = \<lparr>f64_is_finite = (\<lambda>_. True), f64_negative = (\<lambda>_. False),
     f64_zero_or_negative = (\<lambda>_. False), f64_one = (), f64_micro = (\<lambda>_. 1)\<rparr>"

definition no_metadata :: metadata where
  "no_metadata p = (if p = ''/catalog.json''
     then Inr \<lparr>fm_is_file = True, fm_is_symlink = False, fm_len = 10\<rparr> else Inl ''not found'')"

definition openai_preset :: CodexConfig where
  "openai_preset = \<lparr>cx_binary = ''codex'', cx_codex_home = None, cx_model_provider = ''openai'',
     cx_allowed_models = [''gpt-5.6-sol''], cx_model_catalog_json = None, cx_transport = ''stdio'',
     cx_service_name = ''s'', cx_experimental_api = False, cx_required_version = ''1'',
     cx_required_protocol_schema_sha256 = ''d'', cx_execution_on_schema_mismatch = ''block'',
     cx_reasoning_summary = ''auto''\<rparr>"

definition qwodex_preset :: CodexConfig where
  "qwodex_preset = openai_preset\<lparr>cx_model_provider := ''qwen-local-switcher'',
     cx_allowed_models := [], cx_model_catalog_json := Some ''/catalog.json''\<rparr>"

definition sample_config :: "unit HarnessConfig" where
  "sample_config = \<lparr>hc_schema_version = 1,
     hc_server = \<lparr>sc_bind = ''127.0.0.1:8080'', sc_open_browser_on_start = False, sc_ui_event_replay_limit = 100\<rparr>,
     hc_paths = \<lparr>px_data_dir = [], px_cache_dir = [], px_config_dir = [], px_worktree_root = [], px_artifact_root = []\<rparr>,
     hc_codex = openai_preset,
     hc_provider_switch = Some \<lparr>pw_active_provider = ''openai'',
       pw_providers = [(''openai'', openai_preset), (''qwen-local-switcher'', qwodex_preset)]\<rparr>,
     hc_orchestration = \<lparr>oc_max_total_agent_threads = 4, oc_max_mutable_tasks = 2,
       oc_max_independent_verifiers = 1, oc_max_read_only_discovery = 1,
       oc_max_automatic_remediation_rounds = 1, oc_automatic_plan_approval_max_execution_tokens = 2000000,
       oc_default_task_token_budget = 100000, oc_default_turn_timeout_seconds = 60,
       oc_lease_ttl_seconds = 60, oc_heartbeat_interval_seconds = 15\<rparr>,
     hc_git = \<lparr>gc_primary_checkout_must_remain_clean = True, gc_fetch_before_run = True,
       gc_base_ref = ''main'', gc_auto_push = False, gc_auto_create_pr = False,
       gc_auto_mark_pr_ready = False, gc_auto_merge = False, gc_preserve_failed_worktrees = True\<rparr>,
     hc_security = \<lparr>se_bind_localhost_only = True, se_network_default = ''disabled'',
       se_approval_policy = ''never'', se_store_raw_reasoning = False, se_store_reasoning_summaries = True,
       se_redact_environment_values = True, se_redact_probable_secrets = True,
       se_allow_agent_full_access = False, se_allow_automatic_external_writes = False\<rparr>,
     hc_storage = \<lparr>st_sqlite_wal = True, st_raw_event_retention_days = 30,
       st_command_log_retention_days = 30, st_artifact_retention_days = 90,
       st_compress_raw_events = True, st_hash_algorithm = ''sha256''\<rparr>,
     hc_usage = \<lparr>uc_label_subscription_costs_as_api_equivalent = True,
       uc_show_reasoning_tokens_separately = True, uc_never_double_count_reasoning_output = True,
       uc_cost_when_cache_write_missing = ''bounded''\<rparr>,
     hc_pricing = [], hc_self_improvement = default_self_improvement,
     hc_supervision = default_supervision\<rparr>"



section \<open>Switching provider\<close>








lemma load_config_ok:
  "load_config fs from_toml env dflt F meta path = Inr c \<Longrightarrow>
     validate_config F meta c = Inr () \<and> (\<exists>raw parsed. from_toml raw = Some parsed \<and> c = apply_environment env parsed)"
  by (auto simp: load_config_def Let_def and_then_ok)

text \<open>A binary named by the environment never replaces the one of a provisioned preset.\<close>

lemma preset_keeps_binary:
  "hc_provider_switch c = Some sw \<Longrightarrow> hc_codex (apply_environment env c) = hc_codex c"
  by (cases "env ''HARNESS_BIND''"; cases "env ''HARNESS_DATA_DIR''"; cases "env ''HARNESS_CACHE_DIR''";
    cases "env ''HARNESS_WORKTREE_ROOT''"; cases "env ''HARNESS_CODEX_BINARY''")
    (simp_all add: apply_environment_def)

section \<open>Atomic replacement\<close>

lemma temporary_differs:
  assumes "parent path = Some dir" and "file_name path = Some name"
  shows "temporary_of dir name pid \<noteq> path"
proof
  assume eq: "temporary_of dir name pid = path"
  have "last (snd path) = name" using assms(2) by (auto simp: file_name_def split: if_splits)
  with eq have "''.'' @ name @ ''.'' @ digits pid @ ''.provider-switch.tmp'' = name"
    by (auto simp: temporary_of_def child_def)
  then have "length (''.'' @ name @ ''.'' @ digits pid @ ''.provider-switch.tmp'') = length name" by simp
  then show False by simp
qed

lemma write_steps_cases:
  assumes "temporary \<noteq> path"
  shows "case write_steps io temporary path serialized fs of (ok, fs') \<Rightarrow>
    (ok \<longrightarrow> fs' path = Some serialized \<and> fs' temporary = None) \<and>
    (fs' path = fs path \<or> fs' path = Some serialized) \<and>
    (\<forall>q. q \<noteq> path \<longrightarrow> q \<noteq> temporary \<longrightarrow> fs' q = fs q)"
  using assms by (auto simp: write_steps_def Let_def split: option.split)

text \<open>
  C28. The configuration file is replaced as a whole or not at all: however the calls of one replacement
  fail, the file afterwards holds either what it held before or the complete new text; success
  means the new text of a validated configuration and no temporary file left; and no file but it and the
  temporary one beside it changes.
\<close>

theorem config_write_is_atomic:
  assumes "write_atomically F meta to_toml pid io c path fs = (r, fs')"
  shows "(fs' path = fs path \<or> (\<exists>raw. to_toml c = Some raw \<and> fs' path = Some raw \<and>
      validate_config F meta c = Inr ())) \<and>
    (r = Inr () \<longrightarrow> validate_config F meta c = Inr () \<and> to_toml c \<noteq> None \<and> fs' path = to_toml c \<and>
      (\<forall>dir name. parent path = Some dir \<longrightarrow> file_name path = Some name \<longrightarrow>
        fs' (temporary_of dir name pid) = None)) \<and>
    (\<forall>q. q \<noteq> path \<longrightarrow> fs' q \<noteq> fs q \<longrightarrow>
      (\<exists>dir name. parent path = Some dir \<and> file_name path = Some name \<and> q = temporary_of dir name pid))"
proof (cases "validate_config F meta c = Inr () \<and> (\<exists>raw. to_toml c = Some raw) \<and>
    (\<exists>dir. parent path = Some dir) \<and> (\<exists>name. file_name path = Some name)")
  case False
  then have "fs' = fs" and "r \<noteq> Inr ()"
    using assms by (auto simp: write_atomically_def split: sum.splits option.splits)
  then show ?thesis by simp
next
  case True
  then obtain raw dir name where facts: "validate_config F meta c = Inr ()" "to_toml c = Some raw"
    "parent path = Some dir" "file_name path = Some name" by blast
  let ?t = "temporary_of dir name pid"
  have neq: "?t \<noteq> path" by (rule temporary_differs) (rule facts)+
  show ?thesis
  proof (cases "io_create_ok io \<and> fs ?t = None")
    case False
    then have "fs' = fs" and "r \<noteq> Inr ()"
      using assms facts by (auto simp: write_atomically_def Let_def)
    then show ?thesis by simp
  next
    case True
    obtain ok fs1 where steps: "write_steps io ?t path raw (fs(?t \<mapsto> [])) = (ok, fs1)" by force
    note step_facts = write_steps_cases [OF neq, where io = io and serialized = raw and fs = "fs(?t \<mapsto> [])", unfolded steps]
    have result: "r = (if ok then Inr () else Inl Io)"
      "fs' = (if ok \<or> \<not> io_remove_ok io then fs1 else fs1(?t := None))"
      using assms facts True steps by (auto simp: write_atomically_def Let_def split: bool.splits)
    show ?thesis using step_facts result facts neq by (auto split: if_splits)
  qed
qed

definition sample_io :: io_faults where
  "sample_io = \<lparr>io_create_ok = True, io_written = Some 3, io_sync_ok = True, io_rename_ok = True,
     io_dir_sync_ok = True, io_remove_ok = True\<rparr>"

definition sample_files :: files where
  "sample_files = [(True, [''etc'', ''bildr.toml'']) \<mapsto> ''old'']"

text \<open>A write that stops after three bytes leaves the old configuration in place.\<close>

theorem config_write_is_atomic_witness:
  "snd (write_atomically unit_f64 no_metadata (\<lambda>_. Some ''new text'') 7 sample_io sample_config
      (True, [''etc'', ''bildr.toml'']) sample_files) (True, [''etc'', ''bildr.toml'']) = Some ''old'' \<or>
   snd (write_atomically unit_f64 no_metadata (\<lambda>_. Some ''new text'') 7 sample_io sample_config
      (True, [''etc'', ''bildr.toml'']) sample_files) (True, [''etc'', ''bildr.toml'']) = Some ''new text''"
  using config_write_is_atomic [OF surjective_pairing, of unit_f64 no_metadata "\<lambda>_. Some ''new text''" 7
      sample_io sample_config "(True, [''etc'', ''bildr.toml''])" sample_files]
  by (auto simp: sample_files_def)

end
