(* ===== verification/Plan_Review.thy ===== *)
theory Plan_Review
  imports Plan_Validation Harness_Config "HOL-Library.Multiset"
begin

text \<open>
  What the orchestrator demands of a review and what it concludes from one
  (\<^verbatim>\<open>crates/harness-orchestrator/src/lib.rs\<close>): the shape and evidence of plan and execution verdicts,
  the token assessment of a plan, the conditions of automatic approval, the fingerprint of blocking findings and
  the test that stops a review loop that does not converge.

  The file system is seen through \<open>canonicalize\<close> (the resolved absolute path, or the text of the error)
  and \<open>is_file\<close>; the digest of the sorted findings is a parameter.
\<close>

section \<open>Data\<close>

datatype PlanFindingSeverity = Blocking | AdvisoryFinding

record PlanReviewFinding =
  pf_severity :: PlanFindingSeverity
  pf_file :: "string option"
  pf_line :: "u64 option"
  pf_description :: string
  pf_required_correction :: string

record PlanCriticalPathStep =
  cs_task_id :: string
  cs_why_critical :: string
  cs_behavioral_proof :: string

record PlanFailureMode =
  fm_failure_mode :: string
  fm_mitigation :: string

record PlanReviewEvidence =
  pe_inspected_files :: "string list"
  pe_critical_path :: "PlanCriticalPathStep list"
  pe_failure_modes :: "PlanFailureMode list"

record ExecutionReviewEvidence =
  xe_inspected_files :: "string list"
  xe_checks_considered :: "string list"
  xe_failure_modes :: "PlanFailureMode list"

record PlanReviewVerdict =
  pv_verdict :: string
  pv_summary :: string
  pv_findings :: "PlanReviewFinding list"
  pv_evidence :: PlanReviewEvidence

record VerifierVerdict =
  xv_verdict :: string
  xv_summary :: string
  xv_findings :: "PlanReviewFinding list"
  xv_evidence :: ExecutionReviewEvidence

record PlanBudgetAssessment =
  pb_planning_tokens_used :: u64
  pb_run_token_ceiling :: u64
  pb_remaining_run_tokens :: u64
  pb_planned_task_tokens :: u64
  pb_verifier_reserve_tokens :: u64
  pb_final_audit_reserve_tokens :: u64
  pb_contingency_tokens :: u64
  pb_required_execution_tokens :: u64
  pb_feasible :: bool

record PlanRiskAssessment =
  pk_high_risk_tasks :: "string list"
  pk_serial_tasks :: "string list"
  pk_automatic_approval_token_threshold :: u64

record PlanReviewRecord =
  rr_revision :: u64
  rr_plan_digest :: string
  rr_source :: string
  rr_reviewer_agent_id :: "string option"
  rr_verdict :: string
  rr_summary :: string
  rr_findings :: "PlanReviewFinding list"
  rr_evidence :: "PlanReviewEvidence option"
  rr_blocking_fingerprint :: "string option"
  rr_blocking_count :: nat
  rr_recorded_at :: string

section \<open>Verdicts\<close>

definition blocking_findings :: "PlanReviewFinding list \<Rightarrow> PlanReviewFinding list" where
  "blocking_findings fs = filter (\<lambda>f. pf_severity f = Blocking) fs"

definition vague_finding :: "PlanReviewFinding \<Rightarrow> bool" where
  "vague_finding f \<longleftrightarrow> trim_is_empty (pf_description f) \<or> trim_is_empty (pf_required_correction f)"

definition vague_failure_mode :: "PlanFailureMode \<Rightarrow> bool" where
  "vague_failure_mode m \<longleftrightarrow> trim_is_empty (fm_failure_mode m) \<or> trim_is_empty (fm_mitigation m)"

definition validate_plan_review_verdict_shape :: "PlanReviewVerdict \<Rightarrow> OrchestratorError + unit" where
  "validate_plan_review_verdict_shape v = (let e = pv_evidence v; blocking = length (blocking_findings (pv_findings v)) in
    if trim_is_empty (pv_summary v) then Inl (ValidationErr ''plan review summary must not be empty'')
    else if list_ex vague_finding (pv_findings v)
    then Inl (ValidationErr ''every plan-review finding needs a description and concrete correction'')
    else if pe_inspected_files e = [] \<or> pe_critical_path e = []
      \<or> list_ex (\<lambda>s. trim_is_empty (cs_task_id s) \<or> trim_is_empty (cs_why_critical s) \<or> trim_is_empty (cs_behavioral_proof s))
          (pe_critical_path e)
      \<or> \<not> (1 \<le> length (pe_failure_modes e) \<and> length (pe_failure_modes e) \<le> 3)
      \<or> list_ex vague_failure_mode (pe_failure_modes e)
    then Inl (ValidationErr ''plan review needs inspected files, a critical-path trace, and one to three failure-mode mitigations'')
    else if pv_verdict v = ''accept'' then
      (if blocking = 0 then Inr ()
       else Inl (ValidationErr ''plan review cannot accept while reporting blocking findings''))
    else if pv_verdict v = ''changes_requested'' then
      (if blocking = 0
       then Inl (ValidationErr ''plan review must identify at least one blocking finding when requesting changes'')
       else Inr ())
    else Inl (ValidationErr (''unknown plan-review verdict '' @ pv_verdict v)))"

record fs_probe =
  canonicalize :: "string \<Rightarrow> string + string"
  is_regular_file :: "string \<Rightarrow> bool"

text \<open>\<open>Path::starts_with\<close> compares whole components.\<close>

definition components :: "string \<Rightarrow> string list" where
  "components p = filter (\<lambda>c. c \<noteq> []) (split_on CHR ''/'' p)"

definition path_starts_with :: "string \<Rightarrow> string \<Rightarrow> bool" where
  "path_starts_with p root \<longleftrightarrow> prefix (components root) (components p)"

text \<open>The loop over inspected files, shared by both kinds of review up to the word in its messages.\<close>

fun check_inspected_files ::
  "fs_probe \<Rightarrow> string \<Rightarrow> string \<Rightarrow> string list \<Rightarrow> string set \<Rightarrow> OrchestratorError + unit" where
  "check_inspected_files fs review root [] seen = Inr ()"
| "check_inspected_files fs review root (file # files) seen =
    (if file \<in> seen \<or> list_ex glob_char file \<or> validate_repo_glob file \<noteq> Inr ()
     then Inl (ValidationErr (review @ ''-review inspected file is not a unique repository-relative file: '' @ file))
     else case canonicalize fs (path_join root file) of
       Inl _ \<Rightarrow> Inl (ValidationErr (review @ ''-review inspected file does not exist: '' @ file))
     | Inr candidate \<Rightarrow>
        (if \<not> path_starts_with candidate root \<or> \<not> is_regular_file fs candidate
         then Inl (ValidationErr (review @ ''-review inspected file escapes the repository or is not a file: '' @ file))
         else check_inspected_files fs review root files (insert file seen)))"

definition validate_plan_review_critical_path ::
  "PlanReviewEvidence \<Rightarrow> string set \<Rightarrow> OrchestratorError + unit" where
  "validate_plan_review_critical_path evidence task_ids = for_ok (\<lambda>step.
     ensure (\<not> (cs_task_id step \<notin> task_ids \<or> trim_is_empty (cs_why_critical step) \<or>
         trim_is_empty (cs_behavioral_proof step)))
       (ValidationErr (''invalid critical-path evidence for task '' @ cs_task_id step))) (pe_critical_path evidence)"

definition validate_plan_review_evidence ::
  "fs_probe \<Rightarrow> PlanReviewEvidence \<Rightarrow> RunPlan \<Rightarrow> string \<Rightarrow> OrchestratorError + unit" where
  "validate_plan_review_evidence fs evidence plan inspection_root =
    (if pe_inspected_files evidence = []
     then Inl (ValidationErr ''plan review must name at least one inspected repository file'')
     else case canonicalize fs inspection_root of
       Inl e \<Rightarrow> Inl (BlockedErr (''inspection worktree is unavailable: '' @ e))
     | Inr root \<Rightarrow> all_ok
        [check_inspected_files fs ''plan'' root (pe_inspected_files evidence) {},
         ensure (pe_critical_path evidence \<noteq> [])
           (ValidationErr ''plan review must trace at least one critical-path task''),
         validate_plan_review_critical_path evidence (tp_task_id ` set (plan_tasks plan)),
         ensure (\<not> (\<not> (1 \<le> length (pe_failure_modes evidence) \<and> length (pe_failure_modes evidence) \<le> 3) \<or>
             list_ex vague_failure_mode (pe_failure_modes evidence)))
           (ValidationErr ''plan review must analyze one to three material failure modes and mitigations'')])"

definition validate_plan_review_verdict ::
  "fs_probe \<Rightarrow> PlanReviewVerdict \<Rightarrow> RunPlan \<Rightarrow> string \<Rightarrow> OrchestratorError + unit" where
  "validate_plan_review_verdict fs verdict plan inspection_root =
    and_then (validate_plan_review_verdict_shape verdict)
      (\<lambda>_. validate_plan_review_evidence fs (pv_evidence verdict) plan inspection_root)"

definition validate_execution_review_verdict ::
  "fs_probe \<Rightarrow> VerifierVerdict \<Rightarrow> string \<Rightarrow> OrchestratorError + unit" where
  "validate_execution_review_verdict fs v inspection_root =
    (let e = xv_evidence v; blocking = length (blocking_findings (xv_findings v)) in all_ok
      [ensure (\<not> (trim_is_empty (xv_summary v) \<or> list_ex vague_finding (xv_findings v)))
         (ValidationErr ''execution review needs a summary and concrete findings''),
       (if xv_verdict v = ''accept'' then
          ensure (blocking = 0) (ValidationErr ''execution review cannot accept with blocking findings'')
        else if xv_verdict v = ''changes_requested'' then
          ensure (0 < blocking) (ValidationErr ''execution review must include a blocking finding when requesting changes'')
        else Inl (ValidationErr (''unknown execution-review verdict '' @ xv_verdict v))),
       ensure (\<not> (xe_inspected_files e = [] \<or> xe_checks_considered e = []
           \<or> \<not> (1 \<le> length (xe_failure_modes e) \<and> length (xe_failure_modes e) \<le> 3)
           \<or> list_ex trim_is_empty (xe_checks_considered e) \<or> list_ex vague_failure_mode (xe_failure_modes e)))
         (ValidationErr ''execution review needs inspected files, considered checks, and one to three failure-mode mitigations''),
       (case canonicalize fs inspection_root of
          Inl err \<Rightarrow> Inl (BlockedErr (''review worktree is unavailable: '' @ err))
        | Inr root \<Rightarrow> check_inspected_files fs ''execution'' root (xe_inspected_files e) {})])"

section \<open>Budget and risk of a plan\<close>

definition MAX_GOVERNOR_GOAL_TOKEN_BUDGET :: u64 where
  "MAX_GOVERNOR_GOAL_TOKEN_BUDGET = 1000000000"

definition FINAL_AUDITOR_SESSION_TOKEN_BUDGET :: u64 where
  "FINAL_AUDITOR_SESSION_TOKEN_BUDGET = 120000"

definition sat_sub :: "'a::len word \<Rightarrow> 'a word \<Rightarrow> 'a word" where
  "sat_sub a b = (if b \<le> a then a - b else 0)"

definition plan_budget_assessment :: "RunSummary \<Rightarrow> RunPlan \<Rightarrow> u64 \<Rightarrow> PlanBudgetAssessment" where
  "plan_budget_assessment run plan planning_tokens_used =
    (let plan_only = (ru_mode run = ''plan_only'');
         ceiling = (case ru_run_token_budget run of None \<Rightarrow> MAX_GOVERNOR_GOAL_TOKEN_BUDGET | Some b \<Rightarrow> b);
         remaining = sat_sub ceiling planning_tokens_used;
         planned = (if plan_only then 0
           else foldl (\<lambda>total task. sat_add total (tp_token_budget task)) 0 (plan_tasks plan));
         verifier = (if plan_only then 0
           else foldl (\<lambda>total task. sat_add total (tp_token_budget task div 2)) 0 (plan_tasks plan));
         audit = (if plan_only then 0 else FINAL_AUDITOR_SESSION_TOKEN_BUDGET);
         direct = sat_add (sat_add planned verifier) audit;
         contingency = (if plan_only then 0 else direct div 5);
         required = sat_add direct contingency
     in \<lparr>pb_planning_tokens_used = planning_tokens_used, pb_run_token_ceiling = ceiling,
         pb_remaining_run_tokens = remaining, pb_planned_task_tokens = planned,
         pb_verifier_reserve_tokens = verifier, pb_final_audit_reserve_tokens = audit,
         pb_contingency_tokens = contingency, pb_required_execution_tokens = required,
         pb_feasible = (required \<le> remaining)\<rparr>)"

definition plan_risk_assessment :: "RunPlan \<Rightarrow> 'f HarnessConfig \<Rightarrow> PlanRiskAssessment" where
  "plan_risk_assessment plan config =
    \<lparr>pk_high_risk_tasks = map tp_task_id (filter is_high_risk (plan_tasks plan)),
     pk_serial_tasks = map tp_task_id (filter (\<lambda>t. tp_reserved_serial_paths t \<noteq> []) (plan_tasks plan)),
     pk_automatic_approval_token_threshold =
       oc_automatic_plan_approval_max_execution_tokens (hc_orchestration config)\<rparr>"

fun join_str :: "string \<Rightarrow> string list \<Rightarrow> string" where
  "join_str sep [] = []"
| "join_str sep [w] = w"
| "join_str sep (w # v # ws) = w @ sep @ join_str sep (v # ws)"

text \<open>The reasons collected before a certificate is written; a plan with none may be approved
  without a human.\<close>

definition automatic_approval_blockers ::
  "RunSummary \<Rightarrow> PlanBudgetAssessment \<Rightarrow> PlanRiskAssessment \<Rightarrow> bool \<Rightarrow> string list" where
  "automatic_approval_blockers run budget risk same_family =
    (if \<not> pb_feasible budget
     then [''remaining run ceiling does not cover the controller execution reserve''] else [])
    @ (if ru_mode run \<noteq> ''plan_only'' \<and> pk_high_risk_tasks risk \<noteq> []
       then [''high-risk tasks require human approval: '' @ join_str '', '' (pk_high_risk_tasks risk)] else [])
    @ (if ru_mode run \<noteq> ''plan_only'' \<and> pk_serial_tasks risk \<noteq> []
       then [''serial-path tasks require human approval: '' @ join_str '', '' (pk_serial_tasks risk)] else [])
    @ (if pb_required_execution_tokens budget > pk_automatic_approval_token_threshold risk
       then [''execution reserve '' @ digits (unat (pb_required_execution_tokens budget))
          @ '' exceeds automatic approval threshold '' @ digits (unat (pk_automatic_approval_token_threshold risk))]
       else [])
    @ (if same_family then [''architect and reviewer used the same model family''] else [])"

definition eq_ignore_ascii_case :: "string \<Rightarrow> string \<Rightarrow> bool" where
  "eq_ignore_ascii_case a b \<longleftrightarrow> to_ascii_lowercase a = to_ascii_lowercase b"

definition same_model_family :: "string \<Rightarrow> string \<Rightarrow> bool" where
  "same_model_family left right \<longleftrightarrow> eq_ignore_ascii_case (trim left) (trim right)"

section \<open>Fingerprints and convergence\<close>

text \<open>\<open>str::split_whitespace\<close>.\<close>

function words_from :: "string \<Rightarrow> string \<Rightarrow> string list" where
  "words_from w s =
    (case s of [] \<Rightarrow> (if w = [] then [] else [w])
     | c # r \<Rightarrow> (case drop_space s of
         Some r' \<Rightarrow> (if w = [] then [] else [w]) @ words_from [] r'
       | None \<Rightarrow> words_from (w @ [c]) r))"
  by pat_completeness auto
termination
  by (relation "measure (\<lambda>(w, s). length s)") (auto dest: drop_space_shorter simp del: drop_space.simps)

declare words_from.simps [simp del]

definition split_whitespace :: "string \<Rightarrow> string list" where
  "split_whitespace s = words_from [] s"

definition normalize :: "string \<Rightarrow> string" where
  "normalize s = to_ascii_lowercase (join_str '' '' (split_whitespace s))"

definition finding_key :: "PlanReviewFinding \<Rightarrow> string" where
  "finding_key f = (case pf_file f of None \<Rightarrow> [] | Some file \<Rightarrow> normalize file)
     @ CHR 0x00 # normalize (pf_description f)"

definition plan_review_blocking_fingerprint ::
  "(string list \<Rightarrow> string option) \<Rightarrow> PlanReviewFinding list \<Rightarrow> OrchestratorError + string option" where
  "plan_review_blocking_fingerprint hash findings =
    (let blocking = map finding_key (blocking_findings findings) in
     if blocking = [] then Inr None
     else and_then (ok_or JsonErr (hash (sort blocking))) (\<lambda>d. Inr (Some d)))"

definition PLAN_NONSHRINKING_REVIEW_WINDOW :: nat where
  "PLAN_NONSHRINKING_REVIEW_WINDOW = 3"

fun non_shrinking :: "nat list \<Rightarrow> bool" where
  "non_shrinking (a # b # ns) \<longleftrightarrow> a \<le> b \<and> non_shrinking (b # ns)"
| "non_shrinking ns \<longleftrightarrow> True"

definition agent_rejections :: "PlanReviewRecord list \<Rightarrow> PlanReviewRecord list" where
  "agent_rejections prior = filter (\<lambda>r. rr_source r = ''agent'' \<and> 0 < rr_blocking_count r) prior"

definition repeated_from :: "PlanReviewRecord list \<Rightarrow> PlanReviewRecord \<Rightarrow> PlanReviewRecord option" where
  "repeated_from rejections current = (case rr_blocking_fingerprint current of
     None \<Rightarrow> None
   | Some fp \<Rightarrow> find (\<lambda>r. rr_blocking_fingerprint r = Some fp) rejections)"

definition plan_review_nonconvergence :: "PlanReviewRecord list \<Rightarrow> PlanReviewRecord \<Rightarrow> string option" where
  "plan_review_nonconvergence prior current =
    (let rejections = agent_rejections prior in
     case repeated_from rejections current of
       Some previous \<Rightarrow> Some (''blocking finding set repeated from revision '' @ digits (unat (rr_revision previous)))
     | None \<Rightarrow>
        (let counts = rev (take (PLAN_NONSHRINKING_REVIEW_WINDOW - 1) (map rr_blocking_count (rev rejections)))
               @ [rr_blocking_count current]
         in if length counts = PLAN_NONSHRINKING_REVIEW_WINDOW \<and> non_shrinking counts
            then Some (''blocking finding count did not shrink across '' @ digits PLAN_NONSHRINKING_REVIEW_WINDOW
              @ '' reviews ('' @ join_str '' -> '' (map digits counts) @ '')'')
            else None))"

section \<open>What a validated verdict says\<close>

lemma check_inspected_files_ok:
  "check_inspected_files fs review root files seen = Inr u \<Longrightarrow>
     distinct files \<and> set files \<inter> seen = {} \<and>
     (\<forall>file \<in> set files. \<exists>real. canonicalize fs (path_join root file) = Inr real \<and>
        prefix (components root) (components real) \<and> is_regular_file fs real)"
  by (induction files arbitrary: seen) (auto simp: path_starts_with_def split: if_splits sum.splits)

lemma blocking_findings_Nil: "blocking_findings fs = [] \<longleftrightarrow> (\<forall>f \<in> set fs. pf_severity f \<noteq> Blocking)"
  by (auto simp: blocking_findings_def filter_empty_conv)

lemma verdict_shape_ok:
  "validate_plan_review_verdict_shape v = Inr u \<Longrightarrow>
     pv_verdict v = (if blocking_findings (pv_findings v) = [] then ''accept'' else ''changes_requested'') \<and>
     \<not> list_ex vague_finding (pv_findings v)"
  by (auto simp: validate_plan_review_verdict_shape_def Let_def split: if_splits)

text \<open>
  C9. A plan review means what it says: a review the orchestrator takes accepts exactly when it reports
  no blocking finding and requests changes otherwise; each of its findings is described and
  names a correction; its critical path runs over tasks of the plan; and every file it claims to have inspected is
  named once and is a regular file inside the inspected worktree, links resolved.
\<close>

theorem plan_review_is_grounded:
  assumes "validate_plan_review_verdict fs v plan inspection_root = Inr ()"
  shows "pv_verdict v = (if \<exists>f \<in> set (pv_findings v). pf_severity f = Blocking then ''changes_requested'' else ''accept'') \<and>
    (\<forall>f \<in> set (pv_findings v). \<not> trim_is_empty (pf_description f) \<and> \<not> trim_is_empty (pf_required_correction f)) \<and>
    pe_critical_path (pv_evidence v) \<noteq> [] \<and>
    cs_task_id ` set (pe_critical_path (pv_evidence v)) \<subseteq> tp_task_id ` set (plan_tasks plan) \<and>
    distinct (pe_inspected_files (pv_evidence v)) \<and>
    (\<exists>root. canonicalize fs inspection_root = Inr root \<and>
      (\<forall>file \<in> set (pe_inspected_files (pv_evidence v)). \<exists>real.
         canonicalize fs (path_join root file) = Inr real \<and>
         prefix (components root) (components real) \<and> is_regular_file fs real))"
proof -
  from assms have shape: "validate_plan_review_verdict_shape v = Inr ()"
    and evidence: "validate_plan_review_evidence fs (pv_evidence v) plan inspection_root = Inr ()"
    by (auto simp: validate_plan_review_verdict_def and_then_ok)
  from evidence obtain root where root: "canonicalize fs inspection_root = Inr root"
    and files: "check_inspected_files fs ''plan'' root (pe_inspected_files (pv_evidence v)) {} = Inr ()"
    and path: "pe_critical_path (pv_evidence v) \<noteq> []"
      "validate_plan_review_critical_path (pv_evidence v) (tp_task_id ` set (plan_tasks plan)) = Inr ()"
    by (auto simp: validate_plan_review_evidence_def split: if_splits sum.splits)
  have "cs_task_id ` set (pe_critical_path (pv_evidence v)) \<subseteq> tp_task_id ` set (plan_tasks plan)"
    using path(2) by (auto simp: validate_plan_review_critical_path_def)
  moreover have "\<forall>f \<in> set (pv_findings v). \<not> trim_is_empty (pf_description f) \<and> \<not> trim_is_empty (pf_required_correction f)"
    using verdict_shape_ok [OF shape] by (auto simp: list_ex_iff vague_finding_def)
  ultimately show ?thesis
    using verdict_shape_ok [OF shape] check_inspected_files_ok [OF files] root path(1)
    by (auto simp: blocking_findings_Nil)
qed

section \<open>Budgets\<close>

lemma unat_fold_sat_add:
  fixes f :: "'b \<Rightarrow> u64"
  shows "unat (foldl (\<lambda>t x. sat_add t (f x)) a xs) = min (unat a + (\<Sum>x\<leftarrow>xs. unat (f x))) (2 ^ 64 - 1)"
proof (induction xs arbitrary: a)
  case Nil
  have "unat a < 2 ^ 64" using unsigned_less [of a] by simp
  then show ?case by simp
next
  case (Cons x xs)
  show ?case unfolding foldl_Cons Cons.IH by (simp add: unat_sat_add min_def)
qed

lemma unat_sat_sub: "unat (sat_sub a b) = unat a - unat b"
  by (auto simp: sat_sub_def unat_sub word_le_nat_alt)

text \<open>The plan's cost in unbounded numbers: the tasks, half as much for their verification, the final audit, and a
  fifth on top.\<close>

definition direct_cost :: "TaskPacket list \<Rightarrow> nat" where
  "direct_cost tasks = (\<Sum>t\<leftarrow>tasks. unat (tp_token_budget t)) + (\<Sum>t\<leftarrow>tasks. unat (tp_token_budget t) div 2) + 120000"

definition plan_cost :: "TaskPacket list \<Rightarrow> nat" where
  "plan_cost tasks = direct_cost tasks + direct_cost tasks div 5"

lemma required_tokens:
  assumes "ru_mode run \<noteq> ''plan_only''"
  shows "unat (pb_required_execution_tokens (plan_budget_assessment run plan used)) =
    min (plan_cost (plan_tasks plan)) (2 ^ 64 - 1)"
proof -
  let ?ts = "plan_tasks plan"
  let ?planned = "foldl (\<lambda>total task. sat_add total (tp_token_budget task)) 0 ?ts"
  let ?verifier = "foldl (\<lambda>total task. sat_add total (tp_token_budget task div 2)) 0 ?ts"
  let ?direct = "sat_add (sat_add ?planned ?verifier) FINAL_AUDITOR_SESSION_TOKEN_BUDGET"
  have direct: "unat ?direct = min (direct_cost ?ts) (2 ^ 64 - 1)"
    by (simp add: unat_sat_add unat_fold_sat_add FINAL_AUDITOR_SESSION_TOKEN_BUDGET_def direct_cost_def
        unat_div min_def)
  have "unat (sat_add ?direct (?direct div 5)) = min (plan_cost ?ts) (2 ^ 64 - 1)"
  proof -
    have "unat (sat_add ?direct (?direct div 5)) = min (unat ?direct + unat ?direct div 5) (2 ^ 64 - 1)"
      by (simp add: unat_sat_add unat_div)
    then show ?thesis unfolding direct plan_cost_def by (simp add: min_def)
  qed
  then show ?thesis using assms by (simp add: plan_budget_assessment_def Let_def)
qed

text \<open>What the controller charges: nothing in a run that only plans, otherwise the cost of the plan, cut off at the largest
  64-bit number.\<close>

definition execution_charge :: "RunSummary \<Rightarrow> RunPlan \<Rightarrow> nat" where
  "execution_charge run plan = (if ru_mode run = ''plan_only'' then 0 else min (plan_cost (plan_tasks plan)) (2 ^ 64 - 1))"

lemma required_is_charge:
  "unat (pb_required_execution_tokens (plan_budget_assessment run plan used)) = execution_charge run plan"
proof (cases "ru_mode run = ''plan_only''")
  case True
  then show ?thesis by (simp add: execution_charge_def plan_budget_assessment_def Let_def sat_add_def)
next
  case False
  then show ?thesis by (simp add: execution_charge_def required_tokens)
qed

lemma remaining_tokens:
  "unat (pb_remaining_run_tokens (plan_budget_assessment run plan used)) =
     unat (case ru_run_token_budget run of None \<Rightarrow> 1000000000 | Some b \<Rightarrow> b) - unat used"
  by (simp add: plan_budget_assessment_def Let_def unat_sat_sub MAX_GOVERNOR_GOAL_TOKEN_BUDGET_def split: option.split)

lemma feasible_iff:
  "pb_feasible (plan_budget_assessment run plan used) \<longleftrightarrow>
     execution_charge run plan \<le> unat (case ru_run_token_budget run of None \<Rightarrow> 1000000000 | Some b \<Rightarrow> b) - unat used"
proof -
  let ?b = "plan_budget_assessment run plan used"
  have "pb_feasible ?b \<longleftrightarrow> pb_required_execution_tokens ?b \<le> pb_remaining_run_tokens ?b"
    by (simp add: plan_budget_assessment_def Let_def)
  then show ?thesis by (simp only: word_le_nat_alt required_is_charge remaining_tokens)
qed

text \<open>
  C10. What is approved without a human: no blocker is found exactly when the charge for executing the plan is within what
  planning left of the run's ceiling and within the configured threshold, the reviewer's model is not the architect's and,
  unless the run only plans, no task is high-risk or holds a serial path. The charge is the full cost (tasks, half of
  that for verification, the audit, a fifth of contingency) added up without wrap-around and cut off at the largest
  64-bit number; a run that only plans is charged nothing, whatever its tasks cost. So in a run that executes, and with a
  threshold below that number, the full cost is within both limits.
\<close>

theorem automatic_approval_decides:
  assumes "remaining = unat (case ru_run_token_budget run of None \<Rightarrow> 1000000000 | Some b \<Rightarrow> b) - unat used"
    and "threshold = unat (oc_automatic_plan_approval_max_execution_tokens (hc_orchestration config))"
  shows "(automatic_approval_blockers run (plan_budget_assessment run plan used) (plan_risk_assessment plan config) same = [] \<longleftrightarrow>
      execution_charge run plan \<le> remaining \<and> execution_charge run plan \<le> threshold \<and> \<not> same \<and>
      (ru_mode run = ''plan_only'' \<or> (\<forall>t \<in> set (plan_tasks plan). \<not> is_high_risk t \<and> tp_reserved_serial_paths t = []))) \<and>
    (automatic_approval_blockers run (plan_budget_assessment run plan used) (plan_risk_assessment plan config) same = [] \<and>
      ru_mode run \<noteq> ''plan_only'' \<and> threshold < 2 ^ 64 - 1 \<longrightarrow>
      plan_cost (plan_tasks plan) \<le> remaining \<and> plan_cost (plan_tasks plan) \<le> threshold)"
proof -
  let ?b = "plan_budget_assessment run plan used" and ?r = "plan_risk_assessment plan config"
  have over: "pb_required_execution_tokens ?b > pk_automatic_approval_token_threshold ?r \<longleftrightarrow> threshold < execution_charge run plan"
    by (simp add: word_less_nat_alt required_is_charge plan_risk_assessment_def assms(2))
  have risk: "pk_high_risk_tasks ?r = [] \<and> pk_serial_tasks ?r = [] \<longleftrightarrow>
      (\<forall>t \<in> set (plan_tasks plan). \<not> is_high_risk t \<and> tp_reserved_serial_paths t = [])"
    by (auto simp: plan_risk_assessment_def filter_empty_conv)
  have iff: "automatic_approval_blockers run ?b ?r same = [] \<longleftrightarrow>
      execution_charge run plan \<le> remaining \<and> execution_charge run plan \<le> threshold \<and> \<not> same \<and>
      (ru_mode run = ''plan_only'' \<or> (\<forall>t \<in> set (plan_tasks plan). \<not> is_high_risk t \<and> tp_reserved_serial_paths t = []))"
    unfolding automatic_approval_blockers_def feasible_iff assms(1) [symmetric] over risk [symmetric] by (auto simp: not_less)
  moreover have "execution_charge run plan \<le> threshold \<Longrightarrow> ru_mode run \<noteq> ''plan_only'' \<Longrightarrow> threshold < 2 ^ 64 - 1 \<Longrightarrow>
      execution_charge run plan = plan_cost (plan_tasks plan)"
    by (simp add: execution_charge_def min_def split: if_splits)
  ultimately show ?thesis by metis
qed

lemma sample_blockers:
  "automatic_approval_blockers (sample_run\<lparr>ru_run_token_budget := Some 900000\<rparr>)
     (plan_budget_assessment (sample_run\<lparr>ru_run_token_budget := Some 900000\<rparr>) sample_plan 1000)
     (plan_risk_assessment sample_plan sample_config) False = []"
  by (simp add: automatic_approval_blockers_def plan_budget_assessment_def plan_risk_assessment_def Let_def
      sample_plan_def plan_task_def sample_packet_def sample_run_def sample_config_def is_high_risk_def
      sat_add_def sat_sub_def FINAL_AUDITOR_SESSION_TOKEN_BUDGET_def)

theorem automatic_approval_decides_witness:
  "plan_cost (plan_tasks sample_plan) \<le> unat (900000 :: u64) - unat (1000 :: u64) \<and>
   plan_cost (plan_tasks sample_plan) \<le> 2000000"
proof -
  let ?run = "sample_run\<lparr>ru_run_token_budget := Some 900000\<rparr>"
  have "ru_mode ?run \<noteq> ''plan_only''" "ru_run_token_budget ?run = Some 900000"
    "oc_automatic_plan_approval_max_execution_tokens (hc_orchestration sample_config) = 2000000"
    by (simp_all add: sample_run_def sample_config_def)
  with automatic_approval_decides [where run = ?run and used = 1000 and config = sample_config and plan = sample_plan and same = False, OF refl refl] sample_blockers
  show ?thesis by simp
qed

definition sample_probe :: fs_probe where
  "sample_probe = \<lparr>canonicalize = (\<lambda>p. if p = ''/w'' \<or> p = ''/w/src/lib.rs'' then Inr p else Inl ''not found''),
     is_regular_file = (\<lambda>p. p = ''/w/src/lib.rs'')\<rparr>"

definition sample_verdict :: PlanReviewVerdict where
  "sample_verdict = \<lparr>pv_verdict = ''accept'', pv_summary = ''fine'', pv_findings = [],
     pv_evidence = \<lparr>pe_inspected_files = [''src/lib.rs''],
       pe_critical_path = [\<lparr>cs_task_id = ''t1'', cs_why_critical = ''first'', cs_behavioral_proof = ''test''\<rparr>],
       pe_failure_modes = [\<lparr>fm_failure_mode = ''drift'', fm_mitigation = ''check''\<rparr>]\<rparr>\<rparr>"

lemma sample_verdict_valid: "validate_plan_review_verdict sample_probe sample_verdict sample_plan ''/w'' = Inr ()"
  by code_simp

theorem plan_review_is_grounded_witness:
  "pv_verdict sample_verdict = (if \<exists>f \<in> set (pv_findings sample_verdict). pf_severity f = Blocking
     then ''changes_requested'' else ''accept'') \<and>
   cs_task_id ` set (pe_critical_path (pv_evidence sample_verdict)) \<subseteq> tp_task_id ` set (plan_tasks sample_plan)"
  using plan_review_is_grounded [OF sample_verdict_valid] by (elim conjE) (intro conjI)

section \<open>Convergence\<close>

text \<open>A history of agent rejections, none of which was found not to converge with those before it.\<close>

definition unflagged :: "PlanReviewRecord list \<Rightarrow> bool" where
  "unflagged h \<longleftrightarrow> (\<forall>i < length h. plan_review_nonconvergence (take i h) (h ! i) = None)"

lemma agent_rejections_all:
  "\<forall>r \<in> set h. rr_source r = ''agent'' \<and> 0 < rr_blocking_count r \<Longrightarrow> agent_rejections (take i h) = take i h"
  by (auto simp: agent_rejections_def filter_id_conv dest: in_set_takeD)

lemma last_two:
  "Suc (Suc i) < length h \<Longrightarrow> take 2 (rev (take (Suc (Suc i)) h)) = [h ! Suc i, h ! i]"
  by (simp add: take_Suc_conv_app_nth numeral_2_eq_2)

lemma unflagged_shrinks:
  assumes "unflagged h" and "\<forall>r \<in> set h. rr_source r = ''agent'' \<and> 0 < rr_blocking_count r"
    and "Suc (Suc i) < length h"
  shows "rr_blocking_count (h ! Suc i) < rr_blocking_count (h ! i) \<or>
    rr_blocking_count (h ! Suc (Suc i)) < rr_blocking_count (h ! Suc i)"
proof -
  let ?counts = "[rr_blocking_count (h ! i), rr_blocking_count (h ! Suc i), rr_blocking_count (h ! Suc (Suc i))]"
  have none: "plan_review_nonconvergence (take (Suc (Suc i)) h) (h ! Suc (Suc i)) = None"
    using assms(1,3) by (simp add: unflagged_def)
  have "take 2 (map rr_blocking_count (rev (take (Suc (Suc i)) h))) = map rr_blocking_count [h ! Suc i, h ! i]"
    unfolding take_map last_two [OF assms(3)] ..
  then have "rev (take (PLAN_NONSHRINKING_REVIEW_WINDOW - 1) (map rr_blocking_count (rev (take (Suc (Suc i)) h))))
      @ [rr_blocking_count (h ! Suc (Suc i))] = ?counts"
    by (simp add: PLAN_NONSHRINKING_REVIEW_WINDOW_def)
  with none have "\<not> non_shrinking ?counts"
    unfolding plan_review_nonconvergence_def agent_rejections_all [OF assms(2)] Let_def
    by (auto simp: PLAN_NONSHRINKING_REVIEW_WINDOW_def split: option.splits if_splits)
  then show ?thesis by auto
qed

text \<open>By how much the counts of a list went up, all together.\<close>

fun growth :: "nat list \<Rightarrow> nat" where
  "growth (a # b # ns) = (b - a) + growth (b # ns)"
| "growth ns = 0"

fun shrinks :: "nat list \<Rightarrow> bool" where
  "shrinks (a # b # d # ns) \<longleftrightarrow> (b < a \<or> d < b) \<and> shrinks (b # d # ns)"
| "shrinks ns \<longleftrightarrow> True"

lemma shrinks_nth:
  "(\<And>i. Suc (Suc i) < length ns \<Longrightarrow> ns ! Suc i < ns ! i \<or> ns ! Suc (Suc i) < ns ! Suc i) \<Longrightarrow> shrinks ns"
proof (induction ns rule: shrinks.induct)
  case (1 a b d ns)
  have "b < a \<or> d < b" using "1.prems" [of 0] by simp
  moreover have "shrinks (b # d # ns)" by (rule "1.IH") (use "1.prems" [of "Suc _"] in simp)
  ultimately show ?case by simp
qed simp_all

lemma shrinks_length:
  "shrinks ns \<Longrightarrow> ns \<noteq> [] \<Longrightarrow> \<forall>n \<in> set ns. 0 < n \<Longrightarrow> length ns \<le> 2 * (hd ns + growth ns)"
proof (induction ns rule: length_induct)
  case (1 ns)
  show ?case
  proof (cases ns rule: shrinks.cases)
    case (1 a b d rest)
    note ns = 1
    have IH: "length xs \<le> 2 * (hd xs + growth xs)"
      if "length xs < length ns" "shrinks xs" "xs \<noteq> []" "set xs \<subseteq> set ns" for xs
      using "1.IH" "1.prems"(3) that by blast
    show ?thesis
    proof (cases "b < a")
      case True
      have "length (b # d # rest) \<le> 2 * (b + growth (b # d # rest))"
        using IH [of "b # d # rest"] "1.prems"(1) ns by auto
      with True ns show ?thesis by simp
    next
      case False
      have "shrinks (d # rest)" using "1.prems"(1) ns by (cases rest rule: growth.cases) auto
      then have "length (d # rest) \<le> 2 * (d + growth (d # rest))" using IH [of "d # rest"] ns by auto
      moreover have "d < b" using False "1.prems"(1) ns by simp
      ultimately show ?thesis using False ns by simp
    qed
  qed (use "1.prems" in auto)
qed

lemma growth_zero: "(\<And>i. Suc i < length ns \<Longrightarrow> ns ! Suc i \<le> ns ! i) \<Longrightarrow> growth ns = 0"
proof (induction ns rule: growth.induct)
  case (1 a b ns)
  have "b \<le> a" using "1.prems" [of 0] by simp
  moreover have "growth (b # ns) = 0" by (rule "1.IH") (use "1.prems" [of "Suc _"] in simp)
  ultimately show ?case by simp
qed simp_all

text \<open>
  C8. A review loop without new findings ends. In a history of agent rejections none of which was stopped as not
  converging, no set of blocking findings ever comes back, and there are at most twice as many rejections as the first one
  had blocking findings plus all the findings by which later ones went up; so if the number of blocking findings never
  increases, at most twice as many as the first one had. (Without a limit on the increases there is none on the length:
  see \<open>alternating_never_stopped\<close>.)
\<close>

theorem review_loop_terminates:
  assumes "unflagged h" and "h \<noteq> []"
    and "\<forall>r \<in> set h. rr_source r = ''agent'' \<and> 0 < rr_blocking_count r"
  shows "length h \<le> 2 * (rr_blocking_count (h ! 0) + growth (map rr_blocking_count h)) \<and>
    ((\<forall>i. Suc i < length h \<longrightarrow> rr_blocking_count (h ! Suc i) \<le> rr_blocking_count (h ! i)) \<longrightarrow>
       length h \<le> 2 * rr_blocking_count (h ! 0)) \<and>
    (\<forall>i j fp. i < j \<longrightarrow> j < length h \<longrightarrow> rr_blocking_fingerprint (h ! i) = Some fp \<longrightarrow>
       rr_blocking_fingerprint (h ! j) \<noteq> Some fp)"
proof -
  let ?counts = "map rr_blocking_count h"
  have "shrinks ?counts"
    by (rule shrinks_nth) (use unflagged_shrinks [OF assms(1,3)] in simp)
  then have "length ?counts \<le> 2 * (hd ?counts + growth ?counts)"
    using assms(2,3) by (intro shrinks_length) auto
  then have bound: "length h \<le> 2 * (rr_blocking_count (h ! 0) + growth ?counts)"
    using assms(2) by (simp add: hd_conv_nth hd_map)
  have steady: "growth ?counts = 0" if "\<forall>i. Suc i < length h \<longrightarrow> rr_blocking_count (h ! Suc i) \<le> rr_blocking_count (h ! i)"
    by (rule growth_zero) (use that in simp)
  have fresh: "rr_blocking_fingerprint (h ! j) \<noteq> Some fp"
    if ij: "i < j" "j < length h" and fp: "rr_blocking_fingerprint (h ! i) = Some fp" for i j fp
  proof
    assume fpj: "rr_blocking_fingerprint (h ! j) = Some fp"
    have "h ! i \<in> set (take j h)" using ij by (auto simp: in_set_conv_nth)
    then have "find (\<lambda>r. rr_blocking_fingerprint r = Some fp) (take j h) \<noteq> None"
      using fp by (auto simp: find_None_iff)
    then have "plan_review_nonconvergence (take j h) (h ! j) \<noteq> None"
      using fpj unfolding plan_review_nonconvergence_def agent_rejections_all [OF assms(3)] Let_def
      by (auto simp: repeated_from_def)
    then show False using assms(1) ij(2) by (simp add: unflagged_def)
  qed
  show ?thesis
  proof (intro conjI impI allI)
    assume "\<forall>i. Suc i < length h \<longrightarrow> rr_blocking_count (h ! Suc i) \<le> rr_blocking_count (h ! i)"
    from bound [unfolded steady [OF this]] show "length h \<le> 2 * rr_blocking_count (h ! 0)" by simp
  qed (use bound fresh in blast)+
qed

definition sample_record :: "string \<Rightarrow> nat \<Rightarrow> PlanReviewRecord" where
  "sample_record fp n = \<lparr>rr_revision = 1, rr_plan_digest = ''d'', rr_source = ''agent'',
     rr_reviewer_agent_id = None, rr_verdict = ''changes_requested'', rr_summary = ''s'', rr_findings = [],
     rr_evidence = None, rr_blocking_fingerprint = Some fp, rr_blocking_count = n, rr_recorded_at = ''now''\<rparr>"

lemma sample_history_unflagged: "unflagged [sample_record ''a'' 2, sample_record ''b'' 1]"
  unfolding unflagged_def by (simp add: All_less_Suc2) code_simp

theorem review_loop_terminates_witness:
  "length [sample_record ''a'' 2, sample_record ''b'' 1] \<le> 2 * rr_blocking_count (sample_record ''a'' 2)"
  using review_loop_terminates [OF sample_history_unflagged] by (simp add: sample_record_def less_Suc_eq)

text \<open>
  One and two blocking findings in turn, each time others, are never stopped, however long it goes on: a count that went
  up is always followed by one that went down.
\<close>

definition alternating :: "nat \<Rightarrow> PlanReviewRecord list" where
  "alternating n = map (\<lambda>i. sample_record (replicate i CHR ''x'') (if even i then 1 else 2)) [0..<n]"

lemma alternating_nth:
  "i < n \<Longrightarrow> alternating n ! i = sample_record (replicate i CHR ''x'') (if even i then 1 else 2)"
  "length (alternating n) = n" "i \<le> n \<Longrightarrow> take i (alternating n) = alternating i"
  by (simp_all add: alternating_def take_map take_upt)

lemma alternating_window:
  "rev (take 2 (map rr_blocking_count (rev (alternating (Suc (Suc i)))))) = (if even i then [1, 2] else [2, 1])"
  by (simp add: alternating_def sample_record_def)

lemma alternating_new: "repeated_from (alternating i) (sample_record (replicate i CHR ''x'') n) = None"
  by (auto simp: repeated_from_def find_None_iff alternating_def sample_record_def)

lemma alternating_never_stopped: "unflagged (alternating n)"
proof -
  have "plan_review_nonconvergence (alternating i) (sample_record (replicate i CHR ''x'') (if even i then 1 else 2)) = None" for i
  proof -
    have all: "agent_rejections (alternating i) = alternating i"
      by (auto simp: agent_rejections_def filter_id_conv alternating_def sample_record_def)
    show ?thesis
    proof (cases "i < 2")
      case True
      then show ?thesis unfolding plan_review_nonconvergence_def all alternating_new Let_def
        by (simp add: PLAN_NONSHRINKING_REVIEW_WINDOW_def alternating_nth)
    next
      case False
      then obtain k where i: "i = Suc (Suc k)" by (metis less_2_cases_iff not0_implies_Suc One_nat_def)
      show ?thesis unfolding plan_review_nonconvergence_def all alternating_new Let_def
        unfolding i PLAN_NONSHRINKING_REVIEW_WINDOW_def
        using alternating_window [of k] by (simp add: sample_record_def)
    qed
  qed
  then show ?thesis by (simp add: unflagged_def alternating_nth)
qed

section \<open>Fingerprints\<close>

definition blocking_keys :: "PlanReviewFinding list \<Rightarrow> string list" where
  "blocking_keys fs = map finding_key (blocking_findings fs)"

lemma sort_eq_iff: "sort xs = sort ys \<longleftrightarrow> mset xs = mset ys" for xs ys :: "'a::linorder list"
  by (metis mset_sort properties_for_sort sorted_sort)

lemma fingerprint_of_keys:
  "hash (sort (blocking_keys fs)) = Some d \<Longrightarrow>
     plan_review_blocking_fingerprint hash fs = Inr (if blocking_keys fs = [] then None else Some d)"
  by (simp add: plan_review_blocking_fingerprint_def blocking_keys_def)

text \<open>
  A fingerprint identifies the blocking findings: as long as the digest does not confuse the two lists of
  findings at hand, two reviews have the same fingerprint exactly when they block on the same files
  and descriptions, up to case and spacing, in any order and whatever their advisory findings, lines and
  corrections are.
\<close>

theorem fingerprint_identifies_blockers:
  assumes "hash (sort (blocking_keys fs)) = Some d" and "hash (sort (blocking_keys gs)) = Some e"
    and "d = e \<longrightarrow> sort (blocking_keys fs) = sort (blocking_keys gs)"
  shows "plan_review_blocking_fingerprint hash fs = plan_review_blocking_fingerprint hash gs \<longleftrightarrow>
    mset (blocking_keys fs) = mset (blocking_keys gs)"
proof -
  have "mset (blocking_keys fs) = mset (blocking_keys gs) \<longleftrightarrow> d = e"
    unfolding sort_eq_iff [symmetric] using assms by auto
  moreover have "blocking_keys fs = [] \<longleftrightarrow> blocking_keys gs = []"
    if "mset (blocking_keys fs) = mset (blocking_keys gs)" using that by (metis mset_zero_iff)
  ultimately show ?thesis
    unfolding fingerprint_of_keys [where hash = hash and fs = fs, OF assms(1)]
      fingerprint_of_keys [where hash = hash and fs = gs, OF assms(2)] by auto
qed

definition sample_finding :: "PlanFindingSeverity \<Rightarrow> string \<Rightarrow> PlanReviewFinding" where
  "sample_finding sev d = \<lparr>pf_severity = sev, pf_file = Some ''src/lib.rs'', pf_line = None,
     pf_description = d, pf_required_correction = ''fix''\<rparr>"

lemma sample_keys:
  "blocking_keys [sample_finding Blocking ''Wrong  order''] = [''src/lib.rs'' @ CHR 0x00 # ''wrong order'']"
  "blocking_keys [sample_finding AdvisoryFinding ''x'', sample_finding Blocking ''wrong order''] =
     [''src/lib.rs'' @ CHR 0x00 # ''wrong order'']"
  by code_simp+

theorem fingerprint_identifies_blockers_witness:
  "plan_review_blocking_fingerprint (\<lambda>xs. Some (concat xs)) [sample_finding Blocking ''Wrong  order''] =
   plan_review_blocking_fingerprint (\<lambda>xs. Some (concat xs))
     [sample_finding AdvisoryFinding ''x'', sample_finding Blocking ''wrong order'']"
proof -
  let ?fs = "[sample_finding Blocking ''Wrong  order'']"
  let ?gs = "[sample_finding AdvisoryFinding ''x'', sample_finding Blocking ''wrong order'']"
  have "blocking_keys ?fs = blocking_keys ?gs" unfolding sample_keys ..
  then show ?thesis
    using fingerprint_identifies_blockers [of "\<lambda>xs. Some (concat xs)" ?fs _ ?gs] by simp
qed

end
