(* ===== verification/Governor_Checkpoint.thy ===== *)
theory Governor_Checkpoint
  imports Orchestrator_Base
begin

text \<open>
  The governor's progress ledger (\<open>GovernorCheckpoint\<close>, \<open>reconcile_governor_checkpoint\<close>,
  \<open>validate_governor_checkpoint\<close>, \<open>persist_governor_checkpoint\<close> of
  \<^verbatim>\<open>crates/harness-orchestrator/src/lib.rs\<close>), the count of repeated remediations and the token
  checkpoints of a session.

  The controller keeps one ledger per task. A governor model hands in checkpoints, which are reconciled with the
  ledger and validated before they replace it; the step relation is one such hand-in. The main
  theorem: along any sequence of hand-ins, completed milestones are never lost or altered.
\<close>

section \<open>Data\<close>

record GovernorMilestoneCheckpoint =
  gm_id :: string
  gm_title :: string
  gm_status :: string
  gm_outcome :: string
  gm_acceptance :: "string list"

record GovernorDurableArtifact =
  ga_kind :: string
  ga_locator :: string
  ga_summary :: string
  ga_base_sha :: "string option"
  ga_digest :: "string option"

record GovernorCheckpoint =
  gc_schema :: string
  gc_revision :: u64
  gc_status :: string
  gc_operator_update :: string
  gc_milestones :: "GovernorMilestoneCheckpoint list"
  gc_current_milestone_id :: "string option"
  gc_next_action :: "string option"
  gc_blocked_on :: "string option"
  gc_durable_artifacts :: "GovernorDurableArtifact list"
  gc_workspace_state :: string

section \<open>Reconciliation\<close>

text \<open>\<open>Iterator::position\<close>.\<close>

definition position :: "('a \<Rightarrow> bool) \<Rightarrow> 'a list \<Rightarrow> nat option" where
  "position P xs = (let i = length (takeWhile (\<lambda>x. \<not> P x) xs) in if i < length xs then Some i else None)"

fun keep_completed ::
  "GovernorMilestoneCheckpoint list \<Rightarrow> GovernorMilestoneCheckpoint list \<Rightarrow>
   OrchestratorError + GovernorMilestoneCheckpoint list" where
  "keep_completed [] ms = Inr ms"
| "keep_completed (completed # rest) ms =
    (case position (\<lambda>m. gm_id m = gm_id completed) ms of
       Some i \<Rightarrow> keep_completed rest (ms[i := completed])
     | None \<Rightarrow>
        (if length ms < 50 then keep_completed rest (ms @ [completed])
         else Inl (ValidationErr (''governor checkpoint omitted completed milestone '' @ gm_id completed
            @ '' and the ledger is full''))))"

definition or_else :: "'a option \<Rightarrow> 'a option \<Rightarrow> 'a option" where
  "or_else x y = (case x of None \<Rightarrow> y | Some v \<Rightarrow> Some v)"

text \<open>The milestone a checkpoint names, if it is there and not completed.\<close>

definition named_open ::
  "string option \<Rightarrow> GovernorMilestoneCheckpoint list \<Rightarrow> GovernorMilestoneCheckpoint option" where
  "named_open current ms = (case current of None \<Rightarrow> None
     | Some i \<Rightarrow> find (\<lambda>m. gm_id m = i \<and> gm_status m \<noteq> ''completed'') ms)"

definition with_status :: "string \<Rightarrow> GovernorMilestoneCheckpoint list \<Rightarrow> GovernorMilestoneCheckpoint option" where
  "with_status st ms = find (\<lambda>m. gm_status m = st) ms"

definition mark_only :: "string \<Rightarrow> string \<Rightarrow> GovernorMilestoneCheckpoint list \<Rightarrow> GovernorMilestoneCheckpoint list" where
  "mark_only i st ms = map (\<lambda>m. if gm_status m \<noteq> ''completed''
     then m\<lparr>gm_status := (if gm_id m = i then st else ''pending'')\<rparr> else m) ms"

text \<open>The second half, on the checkpoint with its new revision and merged milestones.\<close>

definition settle_status :: "GovernorCheckpoint \<Rightarrow> OrchestratorError + GovernorCheckpoint" where
  "settle_status c = (let ms = gc_milestones c in
    if list_all (\<lambda>m. gm_status m = ''completed'') ms
    then Inr (c\<lparr>gc_status := ''complete'', gc_current_milestone_id := None, gc_next_action := None,
      gc_blocked_on := None\<rparr>)
    else if gc_status c = ''progressing'' then
      (case or_else (named_open (gc_current_milestone_id c) ms)
          (or_else (with_status ''in_progress'' ms) (with_status ''pending'' ms)) of
         None \<Rightarrow> Inl (ValidationErr ''progressing governor checkpoint has no remaining milestone'')
       | Some active \<Rightarrow> Inr (c\<lparr>gc_milestones := mark_only (gm_id active) ''in_progress'' ms,
           gc_current_milestone_id := Some (gm_id active),
           gc_next_action := (if gc_current_milestone_id c \<noteq> Some (gm_id active)
               \<or> is_none_or (\<lambda>a. a = []) (gc_next_action c) then Some (gm_title active) else gc_next_action c),
           gc_blocked_on := None\<rparr>))
    else if gc_status c = ''blocked'' then
      (case or_else (named_open (gc_current_milestone_id c) ms) (with_status ''blocked'' ms) of
         None \<Rightarrow> Inl (ValidationErr ''blocked governor checkpoint has no remaining milestone'')
       | Some blocked \<Rightarrow> Inr (c\<lparr>gc_milestones := mark_only (gm_id blocked) ''blocked'' ms,
           gc_current_milestone_id := Some (gm_id blocked)\<rparr>))
    else Inr c)"

definition reconcile_governor_checkpoint ::
  "GovernorCheckpoint \<Rightarrow> GovernorCheckpoint \<Rightarrow> OrchestratorError + GovernorCheckpoint" where
  "reconcile_governor_checkpoint prior proposed =
    and_then (keep_completed (filter (\<lambda>m. gm_status m = ''completed'') (gc_milestones prior)) (gc_milestones proposed))
      (\<lambda>ms. settle_status (proposed\<lparr>gc_revision := sat_add (gc_revision prior) 1, gc_milestones := ms\<rparr>))"

section \<open>Validation\<close>

type_synonym milestone_tally = "string set \<times> nat \<times> nat"

fun tally_milestones ::
  "GovernorMilestoneCheckpoint list \<Rightarrow> milestone_tally \<Rightarrow> OrchestratorError + milestone_tally" where
  "tally_milestones [] st = Inr st"
| "tally_milestones (m # ms) (ids, in_progress, blocked) =
    (if trim_is_empty (gm_id m) \<or> trim_is_empty (gm_title m) \<or> trim_is_empty (gm_outcome m)
        \<or> gm_acceptance m = [] \<or> gm_id m \<in> ids
     then Inl (ValidationErr (''governor milestone '' @ gm_id m @ '' is empty or duplicated''))
     else if gm_status m = ''pending'' \<or> gm_status m = ''completed''
     then tally_milestones ms (insert (gm_id m) ids, in_progress, blocked)
     else if gm_status m = ''in_progress'' then tally_milestones ms (insert (gm_id m) ids, in_progress + 1, blocked)
     else if gm_status m = ''blocked'' then tally_milestones ms (insert (gm_id m) ids, in_progress, blocked + 1)
     else Inl (ValidationErr (''governor milestone '' @ gm_id m @ '' has invalid status '' @ gm_status m)))"

definition check_checkpoint_status :: "GovernorCheckpoint \<Rightarrow> nat \<Rightarrow> nat \<Rightarrow> OrchestratorError + unit" where
  "check_checkpoint_status c in_progress blocked =
    (if gc_status c = ''progressing'' then
       ensure (\<not> (in_progress \<noteq> 1 \<or> gc_current_milestone_id c = None \<or> gc_next_action c = None \<or> gc_blocked_on c \<noteq> None))
         (ValidationErr ''progressing checkpoint requires exactly one active milestone and a next action'')
     else if gc_status c = ''blocked'' then
       ensure (\<not> (blocked \<noteq> 1 \<or> gc_current_milestone_id c = None \<or> gc_blocked_on c = None))
         (ValidationErr ''blocked checkpoint requires exactly one blocked milestone and a concrete blocker'')
     else
       ensure (\<not> (list_ex (\<lambda>m. gm_status m \<noteq> ''completed'') (gc_milestones c) \<or> gc_current_milestone_id c \<noteq> None
           \<or> gc_next_action c \<noteq> None \<or> gc_blocked_on c \<noteq> None))
         (ValidationErr ''complete checkpoint requires every milestone to be completed''))"

definition check_current_milestone :: "GovernorCheckpoint \<Rightarrow> string set \<Rightarrow> OrchestratorError + unit" where
  "check_current_milestone c ids =
    (case gc_current_milestone_id c of None \<Rightarrow> Inr ()
     | Some current \<Rightarrow>
        (let expected = (if gc_status c = ''blocked'' then ''blocked'' else ''in_progress'') in all_ok
          [ensure (current \<in> ids)
             (ValidationErr (''current milestone '' @ current @ '' is not present in the ledger'')),
           ensure (map_option gm_status (find (\<lambda>m. gm_id m = current) (gc_milestones c)) = Some expected)
             (ValidationErr (''current milestone '' @ current @ '' is not '' @ expected))]))"

definition validate_governor_checkpoint :: "TaskPacket \<Rightarrow> GovernorCheckpoint \<Rightarrow> OrchestratorError + unit" where
  "validate_governor_checkpoint packet c =
    (if \<not> (3 \<le> length (gc_milestones c) \<and> length (gc_milestones c) \<le> 50)
     then Inl (ValidationErr ''governor checkpoint must contain 3-50 bounded milestones'')
     else if gc_status c \<notin> set [''progressing'', ''blocked'', ''complete'']
     then Inl (ValidationErr ''governor checkpoint status is invalid'')
     else if gc_workspace_state c \<notin> set [''clean'', ''uncommitted'', ''controller_committed'', ''external_only'']
     then Inl (ValidationErr ''governor checkpoint workspace state is invalid'')
     else and_then (tally_milestones (gc_milestones c) ({}, 0, 0)) (\<lambda>(ids, in_progress, blocked). all_ok
       [for_ok (\<lambda>planned. ensure (tm_id planned \<in> ids)
          (ValidationErr (''governor checkpoint omitted planned milestone '' @ tm_id planned))) (tp_milestones packet),
        check_checkpoint_status c in_progress blocked,
        check_current_milestone c ids]))"

section \<open>Persisting a checkpoint\<close>

text \<open>
  What the handler reads of the store is an argument: the run and attempt of an agent, the task
  of an attempt and the packet of a task. It writes two keys of the runtime metadata and one event. Metadata
  under these keys is a ledger; a value that does not decode as one counts as absent, as in the code.
\<close>

record governor_env =
  ge_agent_context :: "string \<Rightarrow> StoreError + string \<times> string option"
  ge_task_for_attempt :: "string \<Rightarrow> StoreError + string"
  ge_task_packet :: "string \<Rightarrow> StoreError + TaskPacket option"

record progress_event =
  ev_run_id :: string
  ev_task_id :: string
  ev_attempt_id :: string
  ev_agent_id :: string
  ev_revision :: u64
  ev_status :: string
  ev_current_milestone_id :: "string option"
  ev_completed_milestones :: nat
  ev_total_milestones :: nat

record governor_state =
  gs_metadata :: "string \<Rightarrow> GovernorCheckpoint option"
  gs_events :: "progress_event list"

definition progress_key :: "string \<Rightarrow> string" where
  "progress_key task_id = ''governor-progress:'' @ task_id"

definition agent_progress_key :: "string \<Rightarrow> string" where
  "agent_progress_key agent_id = ''governor-progress-checkpoint:'' @ agent_id"

definition persist_governor_checkpoint ::
  "governor_env \<Rightarrow> governor_state \<Rightarrow> string \<Rightarrow> GovernorCheckpoint \<Rightarrow> OrchestratorError + governor_state" where
  "persist_governor_checkpoint env s agent_id proposed =
    (if gc_schema proposed \<noteq> ''harness.governor-checkpoint.v1''
     then Inl (ValidationErr ''governor checkpoint schema is not harness.governor-checkpoint.v1'')
     else and_then (map_err StoreErr (ge_agent_context env agent_id)) (\<lambda>(run_id, attempt).
     case attempt of None \<Rightarrow> Inl (ProtocolErr ''governor checkpoint has no task attempt'')
     | Some attempt_id \<Rightarrow>
     and_then (map_err StoreErr (ge_task_for_attempt env attempt_id)) (\<lambda>task_id.
     and_then (map_err StoreErr (ge_task_packet env task_id)) (\<lambda>found.
     and_then (ok_or (ProtocolErr ''governor task packet missing'') found) (\<lambda>packet.
     and_then (case gs_metadata s (progress_key task_id) of
         None \<Rightarrow> Inr proposed
       | Some prior \<Rightarrow> reconcile_governor_checkpoint prior proposed) (\<lambda>c.
     and_then (validate_governor_checkpoint packet c) (\<lambda>_.
       Inr (s\<lparr>gs_metadata := (gs_metadata s)(progress_key task_id := Some c, agent_progress_key agent_id := Some c),
         gs_events := gs_events s @ [\<lparr>ev_run_id = run_id, ev_task_id = task_id, ev_attempt_id = attempt_id,
           ev_agent_id = agent_id, ev_revision = gc_revision c, ev_status = gc_status c,
           ev_current_milestone_id = gc_current_milestone_id c,
           ev_completed_milestones = length (filter (\<lambda>m. gm_status m = ''completed'') (gc_milestones c)),
           ev_total_milestones = length (gc_milestones c)\<rparr>]\<rparr>))))))))"

text \<open>One hand-in by some agent.\<close>

inductive governor_step :: "governor_env \<Rightarrow> governor_state \<Rightarrow> governor_state \<Rightarrow> bool" for env where
  handed_in: "persist_governor_checkpoint env s agent_id proposed = Inr s' \<Longrightarrow> governor_step env s s'"

inductive_cases governor_stepE: "governor_step env s s'"

section \<open>Completed work is kept\<close>

definition completed :: "GovernorCheckpoint \<Rightarrow> GovernorMilestoneCheckpoint set" where
  "completed c = {m \<in> set (gc_milestones c). gm_status m = ''completed''}"

lemma position_Some: "position P xs = Some i \<Longrightarrow> i < length xs \<and> P (xs ! i)"
  by (auto simp: position_def Let_def split: if_splits dest: nth_length_takeWhile)

lemma keep_completed_others:
  "keep_completed cs ms = Inr ms' \<Longrightarrow> m \<in> set ms \<Longrightarrow> gm_id m \<notin> gm_id ` set cs \<Longrightarrow> m \<in> set ms'"
proof (induction cs arbitrary: ms)
  case (Cons c cs)
  show ?case
  proof (cases "position (\<lambda>m. gm_id m = gm_id c) ms")
    case None
    with Cons show ?thesis by (auto split: if_splits)
  next
    case (Some i)
    then have i: "i < length ms" "gm_id (ms ! i) = gm_id c" by (auto dest: position_Some)
    from Cons.prems(2) obtain j where j: "j < length ms" "ms ! j = m" by (auto simp: in_set_conv_nth)
    then have "j \<noteq> i" using i Cons.prems(3) by auto
    then have "m \<in> set (ms[i := c])" using j by (metis length_list_update nth_list_update_neq nth_mem)
    with Cons Some show ?thesis by auto
  qed
qed simp

lemma keep_completed_keeps:
  "keep_completed cs ms = Inr ms' \<Longrightarrow> distinct (map gm_id cs) \<Longrightarrow> set cs \<subseteq> set ms'"
proof (induction cs arbitrary: ms)
  case (Cons c cs)
  show ?case
  proof (cases "position (\<lambda>m. gm_id m = gm_id c) ms")
    case None
    with Cons.prems have rest: "keep_completed cs (ms @ [c]) = Inr ms'" by (auto split: if_splits)
    then have "c \<in> set ms'" using Cons.prems(2) by (intro keep_completed_others [OF rest]) auto
    with Cons.IH [OF rest] Cons.prems(2) show ?thesis by simp
  next
    case (Some i)
    with Cons.prems have rest: "keep_completed cs (ms[i := c]) = Inr ms'" by simp
    have "c \<in> set (ms[i := c])" using position_Some [OF Some] by (simp add: set_update_memI)
    then have "c \<in> set ms'" using Cons.prems(2) by (intro keep_completed_others [OF rest]) auto
    with Cons.IH [OF rest] Cons.prems(2) show ?thesis by simp
  qed
qed simp

lemma mark_only_completed: "m \<in> set ms \<Longrightarrow> gm_status m = ''completed'' \<Longrightarrow> m \<in> set (mark_only i st ms)"
  by (force simp: mark_only_def)

lemma le_sat_add_one: "a \<le> sat_add a 1" for a :: u64
proof -
  have "unat a < 2 ^ LENGTH(64)" by (rule unsigned_less)
  then show ?thesis unfolding word_le_nat_alt unat_sat_add by simp
qed

lemma settle_status_milestones:
  "settle_status c = Inr c' \<Longrightarrow> gc_revision c' = gc_revision c \<and>
     (\<forall>m \<in> set (gc_milestones c). gm_status m = ''completed'' \<longrightarrow> m \<in> set (gc_milestones c'))"
  by (auto simp: settle_status_def Let_def mark_only_completed split: if_splits option.splits)

lemma reconcile_keeps:
  assumes "reconcile_governor_checkpoint prior proposed = Inr c" and "distinct (map gm_id (gc_milestones prior))"
  shows "completed prior \<subseteq> completed c \<and> gc_revision c = sat_add (gc_revision prior) 1"
proof -
  from assms(1) obtain ms where keep: "keep_completed (filter (\<lambda>m. gm_status m = ''completed'') (gc_milestones prior))
      (gc_milestones proposed) = Inr ms"
    and settle: "settle_status (proposed\<lparr>gc_revision := sat_add (gc_revision prior) 1, gc_milestones := ms\<rparr>) = Inr c"
    by (auto simp: reconcile_governor_checkpoint_def and_then_ok)
  from settle_status_milestones [OF settle]
  have rev: "gc_revision c = sat_add (gc_revision prior) 1"
    and kept: "\<forall>m \<in> set ms. gm_status m = ''completed'' \<longrightarrow> m \<in> set (gc_milestones c)" by simp_all
  have "distinct (map gm_id (filter (\<lambda>m. gm_status m = ''completed'') (gc_milestones prior)))"
    using assms(2) by (rule distinct_map_filter)
  from keep_completed_keeps [OF keep this] have "completed prior \<subseteq> set ms" by (auto simp: completed_def)
  then show ?thesis using rev kept by (auto simp: completed_def)
qed

lemma tally_ok:
  "tally_milestones ms (ids, a, b) = Inr (ids', a', b') \<Longrightarrow>
     distinct (map gm_id ms) \<and> gm_id ` set ms \<inter> ids = {} \<and> ids' = ids \<union> gm_id ` set ms \<and>
     a' = a + length (filter (\<lambda>m. gm_status m = ''in_progress'') ms) \<and>
     b' = b + length (filter (\<lambda>m. gm_status m = ''blocked'') ms)"
proof (induction ms arbitrary: ids a b)
  case (Cons m ms)
  from Cons.prems obtain a1 b1 where rest: "tally_milestones ms (insert (gm_id m) ids, a1, b1) = Inr (ids', a', b')"
    and new: "gm_id m \<notin> ids"
    and counts: "a1 = a + (if gm_status m = ''in_progress'' then 1 else 0)"
      "b1 = b + (if gm_status m = ''blocked'' then 1 else 0)"
    by (auto split: if_splits)
  from Cons.IH [OF rest] new counts show ?case by auto
qed simp

lemma valid_checkpoint:
  assumes "validate_governor_checkpoint packet c = Inr ()"
  shows "distinct (map gm_id (gc_milestones c)) \<and>
    gc_status c \<in> {''progressing'', ''blocked'', ''complete''} \<and>
    tm_id ` set (tp_milestones packet) \<subseteq> gm_id ` set (gc_milestones c) \<and>
    (\<exists>ids. check_current_milestone c ids = Inr ()) \<and>
    check_checkpoint_status c (length (filter (\<lambda>m. gm_status m = ''in_progress'') (gc_milestones c)))
      (length (filter (\<lambda>m. gm_status m = ''blocked'') (gc_milestones c))) = Inr ()"
proof -
  from assms obtain ids a b where tally: "tally_milestones (gc_milestones c) ({}, 0, 0) = Inr (ids, a, b)"
    and rest: "\<forall>planned \<in> set (tp_milestones packet). tm_id planned \<in> ids"
      "check_checkpoint_status c a b = Inr ()" "check_current_milestone c ids = Inr ()"
    and status: "gc_status c \<in> {''progressing'', ''blocked'', ''complete''}"
    by (auto simp: validate_governor_checkpoint_def and_then_ok split: if_splits)
  from tally_ok [OF tally] rest status show ?thesis by auto
qed

section \<open>Sequences of hand-ins\<close>

lemma progress_key_inj [simp]: "progress_key a = progress_key b \<longleftrightarrow> a = b"
  by (simp add: progress_key_def)

lemma agent_key_differs [simp]: "progress_key a \<noteq> agent_progress_key b"
  by (simp add: progress_key_def agent_progress_key_def)

definition ledgers_valid :: "governor_state \<Rightarrow> bool" where
  "ledgers_valid s \<longleftrightarrow> (\<forall>task c. gs_metadata s (progress_key task) = Some c \<longrightarrow>
     distinct (map gm_id (gc_milestones c)))"

lemma persist_ok:
  assumes "persist_governor_checkpoint env s agent_id proposed = Inr s'"
  shows "\<exists>task packet c. ge_task_packet env task = Inr (Some packet) \<and>
    validate_governor_checkpoint packet c = Inr () \<and> gs_metadata s' (progress_key task) = Some c \<and>
    (\<forall>prior. gs_metadata s (progress_key task) = Some prior \<longrightarrow> reconcile_governor_checkpoint prior proposed = Inr c) \<and>
    (\<forall>other. other \<noteq> task \<longrightarrow> gs_metadata s' (progress_key other) = gs_metadata s (progress_key other))"
proof -
  note def = persist_governor_checkpoint_def and_then_ok
  obtain run_id attempt where ctx: "ge_agent_context env agent_id = Inr (run_id, Some attempt)"
    using assms by (auto simp: def split: if_splits option.splits)
  then obtain task where task: "ge_task_for_attempt env attempt = Inr task"
    using assms by (auto simp: def split: if_splits)
  then obtain packet where packet: "ge_task_packet env task = Inr (Some packet)"
    using assms ctx by (auto simp: def split: if_splits)
  then obtain c where c: "(case gs_metadata s (progress_key task) of None \<Rightarrow> Inr proposed
       | Some prior \<Rightarrow> reconcile_governor_checkpoint prior proposed) = Inr c"
    and valid: "validate_governor_checkpoint packet c = Inr ()"
    and s': "gs_metadata s' = (gs_metadata s)(progress_key task := Some c, agent_progress_key agent_id := Some c)"
    using assms ctx task by (auto simp: def split: if_splits)
  have "\<forall>prior. gs_metadata s (progress_key task) = Some prior \<longrightarrow> reconcile_governor_checkpoint prior proposed = Inr c"
    using c by auto
  moreover have "gs_metadata s' (progress_key task) = Some c"
    "\<forall>other. other \<noteq> task \<longrightarrow> gs_metadata s' (progress_key other) = gs_metadata s (progress_key other)"
    by (simp_all add: s')
  ultimately show ?thesis using valid packet by blast
qed

lemma governor_step_keeps:
  assumes "governor_step env s s'" and "ledgers_valid s"
  shows "ledgers_valid s' \<and> (\<forall>task c. gs_metadata s (progress_key task) = Some c \<longrightarrow>
    (\<exists>c'. gs_metadata s' (progress_key task) = Some c' \<and> completed c \<subseteq> completed c' \<and> gc_revision c \<le> gc_revision c'))"
proof -
  from assms(1) obtain agent_id proposed where "persist_governor_checkpoint env s agent_id proposed = Inr s'"
    by (rule governor_stepE)
  from persist_ok [OF this] obtain task packet c where valid: "validate_governor_checkpoint packet c = Inr ()"
    and new: "gs_metadata s' (progress_key task) = Some c"
    and from_prior: "\<And>prior. gs_metadata s (progress_key task) = Some prior \<Longrightarrow>
        reconcile_governor_checkpoint prior proposed = Inr c"
    and others: "\<And>other. other \<noteq> task \<Longrightarrow> gs_metadata s' (progress_key other) = gs_metadata s (progress_key other)"
    by blast
  have keeps: "completed prior \<subseteq> completed c \<and> gc_revision prior \<le> gc_revision c"
    if "gs_metadata s (progress_key task) = Some prior" for prior
    using reconcile_keeps [OF from_prior [OF that]] assms(2) that le_sat_add_one
    by (auto simp: ledgers_valid_def)
  have "ledgers_valid s'"
    unfolding ledgers_valid_def using valid_checkpoint [OF valid] new others assms(2)
    by (metis ledgers_valid_def option.inject)
  moreover have "\<exists>c'. gs_metadata s' (progress_key t) = Some c' \<and> completed p \<subseteq> completed c' \<and> gc_revision p \<le> gc_revision c'"
    if "gs_metadata s (progress_key t) = Some p" for t p
    using that keeps new others [of t] by (cases "t = task") auto
  ultimately show ?thesis by blast
qed

text \<open>
  C7. Completed work is never lost: whatever checkpoints governors hand in, for however long, a milestone that was
  completed in a task's ledger is still there, unchanged and completed, in every later ledger of that task, and
  the ledger's revision never goes back.
\<close>

theorem completed_milestones_are_kept:
  assumes "(governor_step env)\<^sup>*\<^sup>* s s'" and "ledgers_valid s" and "gs_metadata s (progress_key task) = Some c"
  shows "ledgers_valid s' \<and> (\<exists>c'. gs_metadata s' (progress_key task) = Some c' \<and>
    completed c \<subseteq> completed c' \<and> gc_revision c \<le> gc_revision c')"
  using assms
proof (induction rule: rtranclp_induct)
  case base
  then show ?case by blast
next
  case (step u v)
  then obtain c' where u: "ledgers_valid u" "gs_metadata u (progress_key task) = Some c'"
    "completed c \<subseteq> completed c'" "gc_revision c \<le> gc_revision c'" by blast
  from governor_step_keeps [OF step(2) u(1)] u(2) obtain c'' where
    "ledgers_valid v" "gs_metadata v (progress_key task) = Some c''"
    "completed c' \<subseteq> completed c''" "gc_revision c' \<le> gc_revision c''" by blast
  with u(3,4) show ?case by (meson order_trans subset_trans)
qed

definition focused :: "GovernorCheckpoint \<Rightarrow> string \<Rightarrow> bool" where
  "focused c st \<longleftrightarrow> (\<exists>m. filter (\<lambda>m. gm_status m = st) (gc_milestones c) = [m] \<and>
     gc_current_milestone_id c = Some (gm_id m))"

lemma focusedI:
  assumes "length (filter (\<lambda>m. gm_status m = st) (gc_milestones c)) = 1"
    and "gc_current_milestone_id c = Some i"
    and "map_option gm_status (find (\<lambda>m. gm_id m = i) (gc_milestones c)) = Some st"
  shows "focused c st"
proof -
  from assms(1) obtain m where m: "filter (\<lambda>m. gm_status m = st) (gc_milestones c) = [m]"
    by (auto simp: length_Suc_conv)
  from assms(3) obtain n where n: "find (\<lambda>m. gm_id m = i) (gc_milestones c) = Some n" "gm_status n = st" by auto
  have n_mem: "n \<in> set (gc_milestones c)" "gm_id n = i" using find_mem [OF n(1)] by simp_all
  then have "n \<in> set (filter (\<lambda>m. gm_status m = st) (gc_milestones c))" using n(2) by simp
  then have "n = m" using m by simp
  with m assms(2) n_mem(2) show ?thesis by (simp add: focused_def)
qed

text \<open>
  An accepted ledger has one focus: after a hand-in the task's ledger holds every planned milestone and no id
  twice; when it is progressing exactly one milestone is in progress and it is the current one, when it
  is blocked exactly one is blocked and it is the current one, and when it is complete all are completed.
\<close>

theorem accepted_ledger_has_one_focus:
  assumes "persist_governor_checkpoint env s agent_id proposed = Inr s'"
  shows "\<exists>task packet c. ge_task_packet env task = Inr (Some packet) \<and>
    gs_metadata s' (progress_key task) = Some c \<and> distinct (map gm_id (gc_milestones c)) \<and>
    tm_id ` set (tp_milestones packet) \<subseteq> gm_id ` set (gc_milestones c) \<and>
    (gc_status c = ''progressing'' \<and> focused c ''in_progress'' \<or>
     gc_status c = ''blocked'' \<and> focused c ''blocked'' \<or>
     gc_status c = ''complete'' \<and> set (gc_milestones c) = completed c \<and> gc_current_milestone_id c = None)"
proof -
  from persist_ok [OF assms] obtain task packet c where packet: "ge_task_packet env task = Inr (Some packet)"
    and valid: "validate_governor_checkpoint packet c = Inr ()"
    and new: "gs_metadata s' (progress_key task) = Some c" by blast
  from valid_checkpoint [OF valid] obtain ids where facts: "distinct (map gm_id (gc_milestones c))"
    "gc_status c \<in> {''progressing'', ''blocked'', ''complete''}"
    "tm_id ` set (tp_milestones packet) \<subseteq> gm_id ` set (gc_milestones c)"
    and current: "check_current_milestone c ids = Inr ()"
    and status: "check_checkpoint_status c (length (filter (\<lambda>m. gm_status m = ''in_progress'') (gc_milestones c)))
      (length (filter (\<lambda>m. gm_status m = ''blocked'') (gc_milestones c))) = Inr ()" by blast
  consider "gc_status c = ''progressing''" | "gc_status c = ''blocked''" | "gc_status c = ''complete''"
    using facts(2) by blast
  then have "gc_status c = ''progressing'' \<and> focused c ''in_progress'' \<or>
     gc_status c = ''blocked'' \<and> focused c ''blocked'' \<or>
     gc_status c = ''complete'' \<and> set (gc_milestones c) = completed c \<and> gc_current_milestone_id c = None"
  proof cases
    case 1
    then obtain i where i: "gc_current_milestone_id c = Some i"
      and one: "length (filter (\<lambda>m. gm_status m = ''in_progress'') (gc_milestones c)) = 1"
      using status by (auto simp: check_checkpoint_status_def)
    have "map_option gm_status (find (\<lambda>m. gm_id m = i) (gc_milestones c)) = Some ''in_progress''"
      using current i 1 by (simp add: check_current_milestone_def Let_def)
    from focusedI [OF one i this] show ?thesis using 1 by blast
  next
    case 2
    then obtain i where i: "gc_current_milestone_id c = Some i"
      and one: "length (filter (\<lambda>m. gm_status m = ''blocked'') (gc_milestones c)) = 1"
      using status by (auto simp: check_checkpoint_status_def)
    have "map_option gm_status (find (\<lambda>m. gm_id m = i) (gc_milestones c)) = Some ''blocked''"
      using current i 2 by (simp add: check_current_milestone_def Let_def)
    from focusedI [OF one i this] show ?thesis using 2 by blast
  next
    case 3
    then have "set (gc_milestones c) = completed c" "gc_current_milestone_id c = None"
      using status by (auto simp: check_checkpoint_status_def completed_def list_ex_iff)
    then show ?thesis using 3 by blast
  qed
  then show ?thesis by (intro exI conjI) (rule packet new facts | assumption)+
qed

section \<open>Example\<close>

definition sample_gm :: "string \<Rightarrow> string \<Rightarrow> GovernorMilestoneCheckpoint" where
  "sample_gm i st = \<lparr>gm_id = i, gm_title = ''t'', gm_status = st, gm_outcome = ''o'', gm_acceptance = [''a'']\<rparr>"

definition sample_checkpoint :: "GovernorMilestoneCheckpoint list \<Rightarrow> GovernorCheckpoint" where
  "sample_checkpoint ms = \<lparr>gc_schema = ''harness.governor-checkpoint.v1'', gc_revision = 1,
     gc_status = ''progressing'', gc_operator_update = ''u'', gc_milestones = ms,
     gc_current_milestone_id = Some ''b'', gc_next_action = Some ''n'', gc_blocked_on = None,
     gc_durable_artifacts = [], gc_workspace_state = ''clean''\<rparr>"

definition sample_env :: governor_env where
  "sample_env = \<lparr>ge_agent_context = (\<lambda>_. Inr (''run'', Some ''att'')), ge_task_for_attempt = (\<lambda>_. Inr ''t''),
     ge_task_packet = (\<lambda>_. Inr (Some sample_packet))\<rparr>"

definition sample_ledger :: GovernorCheckpoint where
  "sample_ledger = sample_checkpoint [sample_gm ''a'' ''completed'', sample_gm ''b'' ''in_progress'', sample_gm ''c'' ''pending'']"

definition sample_state :: governor_state where
  "sample_state = \<lparr>gs_metadata = (\<lambda>k. if k = progress_key ''t'' then Some sample_ledger else None), gs_events = []\<rparr>"

text \<open>The model forgets the completed milestone and declares another one completed.\<close>

definition forgetful :: GovernorCheckpoint where
  "forgetful = sample_checkpoint [sample_gm ''b'' ''completed'', sample_gm ''c'' ''pending'']"

definition merged :: GovernorCheckpoint where
  "merged = (sample_checkpoint [sample_gm ''b'' ''completed'', sample_gm ''c'' ''in_progress'', sample_gm ''a'' ''completed''])
     \<lparr>gc_revision := 2, gc_current_milestone_id := Some ''c'', gc_next_action := Some ''t''\<rparr>"

lemma sample_reconciled: "reconcile_governor_checkpoint sample_ledger forgetful = Inr merged"
  by (simp add: reconcile_governor_checkpoint_def sample_ledger_def forgetful_def merged_def sample_checkpoint_def
      sample_gm_def position_def settle_status_def mark_only_def named_open_def with_status_def or_else_def
      is_none_or_def sat_add_def)

lemma sample_handed_in:
  "\<exists>s'. persist_governor_checkpoint sample_env sample_state ''agent'' forgetful = Inr s'"
proof -
  have "validate_governor_checkpoint sample_packet merged = Inr ()"
    by (simp add: validate_governor_checkpoint_def merged_def sample_checkpoint_def sample_gm_def sample_packet_def
        check_checkpoint_status_def check_current_milestone_def text_eval)
  moreover have "gc_schema forgetful = ''harness.governor-checkpoint.v1''"
    by (simp add: forgetful_def sample_checkpoint_def)
  ultimately show ?thesis
    by (simp add: persist_governor_checkpoint_def sample_env_def sample_state_def sample_reconciled)
qed

lemma sample_ledgers_valid: "ledgers_valid sample_state"
  by (simp add: ledgers_valid_def sample_state_def sample_ledger_def sample_checkpoint_def sample_gm_def)

theorem completed_milestones_are_kept_witness:
  "\<exists>s' c'. persist_governor_checkpoint sample_env sample_state ''agent'' forgetful = Inr s' \<and>
     gs_metadata s' (progress_key ''t'') = Some c' \<and> sample_gm ''a'' ''completed'' \<in> completed c'"
proof -
  obtain s' where s': "persist_governor_checkpoint sample_env sample_state ''agent'' forgetful = Inr s'"
    using sample_handed_in by blast
  then have "(governor_step sample_env)\<^sup>*\<^sup>* sample_state s'" by (blast intro: handed_in)
  moreover have "gs_metadata sample_state (progress_key ''t'') = Some sample_ledger" by (simp add: sample_state_def)
  moreover have "sample_gm ''a'' ''completed'' \<in> completed sample_ledger"
    by (simp add: completed_def sample_ledger_def sample_checkpoint_def sample_gm_def)
  ultimately show ?thesis
    using completed_milestones_are_kept [of sample_env sample_state s' "''t''" sample_ledger] sample_ledgers_valid s'
    by blast
qed

theorem accepted_ledger_has_one_focus_witness:
  "\<exists>s' task c. persist_governor_checkpoint sample_env sample_state ''agent'' forgetful = Inr s' \<and>
     gs_metadata s' (progress_key task) = Some c \<and> distinct (map gm_id (gc_milestones c))"
proof -
  obtain s' where s': "persist_governor_checkpoint sample_env sample_state ''agent'' forgetful = Inr s'"
    using sample_handed_in by blast
  from accepted_ledger_has_one_focus [OF this] obtain task c where
    "gs_metadata s' (progress_key task) = Some c" "distinct (map gm_id (gc_milestones c))"
    by (elim exE conjE)
  with s' show ?thesis by blast
qed

end
