(* ===== verification/Run_Store.thy ===== *)
theory Run_Store
  imports Orchestrator_Base
begin

text \<open>
  The run tables of \<^verbatim>\<open>crates/harness-store/src/queries.rs\<close>: creation, reads, the guarded life-cycle
  transition and the unguarded column updates.

  The database is a record of tables, a table the list of its rows with the columns the queries use
  (\<^verbatim>\<open>migrations/0001_initial.sql\<close>, \<^verbatim>\<open>0002_runtime.sql\<close>, \<^verbatim>\<open>0012\<close>, \<^verbatim>\<open>0021\<close>). Every operation returns its result
  together with the database it leaves: an operation inside a transaction leaves the old one when it
  fails, a statement outside a transaction is kept even when a later read fails. The clock
  (\<open>now_ms\<close>) is an argument. \<open>format_timestamp\<close>, which prints a time through the \<open>time\<close> crate, is a
  parameter. Integer columns are SQLite's 64-bit integers; counters that grow by one per call are not
  followed beyond that range.

  The lemmas show that the log of life-cycle events of a run spells out a path of the transition table
  that ends in the stored state, and that a writer with a stale version changes nothing.
\<close>

section \<open>Tables\<close>

record run_row =
  rn_id :: string
  rn_repository_id :: string
  rn_title :: string
  rn_requested_objective :: string
  rn_mode :: string
  rn_publication_mode :: string
  rn_state :: string
  rn_phase :: string
  rn_base_ref :: string
  rn_base_sha :: string
  rn_integration_branch :: "string option"
  rn_integration_sha :: "string option"
  rn_authority_digest :: string
  rn_profile_digest :: string
  rn_codex_version :: "string option"
  rn_protocol_schema_sha256 :: "string option"
  rn_requested_by :: string
  rn_scheduler_paused :: bool
  rn_run_token_budget :: "i64 option"
  rn_created_at :: i64
  rn_updated_at :: i64
  rn_started_at :: "i64 option"
  rn_completed_at :: "i64 option"
  rn_failure_class :: "string option"
  rn_failure_reason :: "string option"
  rn_version :: i64
  rn_pinned :: bool

text \<open>The payload of \<open>run.lifecycle.transitioned\<close>, with the run it is filed under.\<close>

record lifecycle_event =
  ev_run_id :: string
  ev_occurred_at :: i64
  ev_prior_state :: string
  ev_next_state :: string
  ev_phase :: string
  ev_run_version :: u64
  ev_failure_class :: "string option"

record run_tables =
  db_repositories :: "string list"
  db_runs :: "run_row list"
  db_events :: "lifecycle_event list"

text \<open>The rows an \<open>UPDATE\<close> changes, and how many they are.\<close>

definition update_where :: "('r \<Rightarrow> bool) \<Rightarrow> ('r \<Rightarrow> 'r) \<Rightarrow> 'r list \<Rightarrow> 'r list" where
  "update_where p f rows = map (\<lambda>r. if p r then f r else r) rows"

definition changed_rows :: "('r \<Rightarrow> bool) \<Rightarrow> 'r list \<Rightarrow> nat" where
  "changed_rows p rows = length (filter p rows)"

section \<open>Reading\<close>

definition map_run :: "(i64 \<Rightarrow> string) \<Rightarrow> run_row \<Rightarrow> RunSummary stored" where
  "map_run format_timestamp r =
    and_then (ok_or (Sqlite ''conversion failure'') (parse_run_state (rn_state r))) (\<lambda>st.
      Inr \<lparr>ru_id = rn_id r, ru_repository_id = rn_repository_id r, ru_title = rn_title r,
        ru_objective = rn_requested_objective r, ru_mode = rn_mode r,
        ru_publication_mode = rn_publication_mode r, ru_state = st, ru_phase = rn_phase r,
        ru_base_ref = rn_base_ref r, ru_base_sha = rn_base_sha r,
        ru_integration_branch = rn_integration_branch r, ru_integration_sha = rn_integration_sha r,
        ru_authority_digest = rn_authority_digest r,
        ru_created_at = format_timestamp (rn_created_at r),
        ru_started_at = map_option format_timestamp (rn_started_at r),
        ru_completed_at = map_option format_timestamp (rn_completed_at r),
        ru_failure_reason = rn_failure_reason r, ru_scheduler_paused = rn_scheduler_paused r,
        ru_run_token_budget = map_option word_of_int (rn_run_token_budget r),
        ru_pinned = rn_pinned r, ru_version = word_of_int (rn_version r)\<rparr>)"

definition run_query :: "(i64 \<Rightarrow> string) \<Rightarrow> string \<Rightarrow> run_row list \<Rightarrow> RunSummary stored" where
  "run_query format_timestamp i rows =
    and_then (ok_or (NotFound (''run '' @ i)) (lookup_row (\<lambda>r. rn_id r = i) rows)) (map_run format_timestamp)"

definition run :: "(i64 \<Rightarrow> string) \<Rightarrow> string \<Rightarrow> run_tables \<Rightarrow> RunSummary stored" where
  "run format_timestamp i db = run_query format_timestamp i (db_runs db)"

section \<open>Creating\<close>

record NewRun =
  nr_id :: string
  nr_repository_id :: string
  nr_title :: string
  nr_objective :: string
  nr_mode :: string
  nr_publication_mode :: string
  nr_state :: string
  nr_phase :: string
  nr_base_ref :: string
  nr_base_sha :: string
  nr_authority_digest :: string
  nr_profile_digest :: string
  nr_codex_version :: "string option"
  nr_protocol_schema_sha256 :: "string option"
  nr_requested_by :: string
  nr_token_budget :: "u64 option"

definition new_run_row :: "i64 \<Rightarrow> NewRun \<Rightarrow> run_row" where
  "new_run_row now v =
    \<lparr>rn_id = nr_id v, rn_repository_id = nr_repository_id v, rn_title = nr_title v,
     rn_requested_objective = nr_objective v, rn_mode = nr_mode v,
     rn_publication_mode = nr_publication_mode v, rn_state = nr_state v, rn_phase = nr_phase v,
     rn_base_ref = nr_base_ref v, rn_base_sha = nr_base_sha v, rn_integration_branch = None,
     rn_integration_sha = None, rn_authority_digest = nr_authority_digest v,
     rn_profile_digest = nr_profile_digest v, rn_codex_version = nr_codex_version v,
     rn_protocol_schema_sha256 = nr_protocol_schema_sha256 v, rn_requested_by = nr_requested_by v,
     rn_scheduler_paused = False,
     rn_run_token_budget = map_option (\<lambda>b. sint b) (nr_token_budget v),
     rn_created_at = now, rn_updated_at = now, rn_started_at = Some now, rn_completed_at = None,
     rn_failure_class = None, rn_failure_reason = None, rn_version = 1, rn_pinned = False\<rparr>"

definition create_run :: "(i64 \<Rightarrow> string) \<Rightarrow> i64 \<Rightarrow> NewRun \<Rightarrow> run_tables \<Rightarrow> RunSummary stored \<times> run_tables" where
  "create_run format_timestamp now v db =
    (if nr_id v \<in> rn_id ` set (db_runs db) then (Inl (Sqlite ''UNIQUE constraint failed: runs.id''), db)
     else if nr_repository_id v \<notin> set (db_repositories db) then (Inl (Sqlite ''FOREIGN KEY constraint failed''), db)
     else let db' = db\<lparr>db_runs := db_runs db @ [new_run_row now v]\<rparr>
          in (run format_timestamp (nr_id v) db', db'))"

section \<open>The guarded transition\<close>

definition sqlite_version :: "u64 \<Rightarrow> i64 stored" where
  "sqlite_version v = (if unat v < 2 ^ 63 then Inr (int (unat v))
     else Inl (Validation ''resource version exceeds SQLite range''))"

definition transitioned_row ::
  "i64 \<Rightarrow> RunState \<Rightarrow> string \<Rightarrow> (string \<times> string) option \<Rightarrow> run_row \<Rightarrow> run_row" where
  "transitioned_row now next_state phase failure r =
     r\<lparr>rn_state := run_state_text next_state, rn_phase := phase, rn_updated_at := now,
       rn_completed_at := (if run_is_terminal next_state then Some now else rn_completed_at r),
       rn_failure_class := map_option fst failure, rn_failure_reason := map_option snd failure,
       rn_version := rn_version r + 1\<rparr>"

definition transition_event ::
  "string \<Rightarrow> i64 \<Rightarrow> RunState \<Rightarrow> RunState \<Rightarrow> string \<Rightarrow> u64 \<Rightarrow> (string \<times> string) option \<Rightarrow> lifecycle_event" where
  "transition_event i now prior next_state phase resulting_version failure =
    \<lparr>ev_run_id = i, ev_occurred_at = now, ev_prior_state = run_state_text prior,
     ev_next_state = run_state_text next_state, ev_phase = phase,
     ev_run_version = resulting_version, ev_failure_class = map_option fst failure\<rparr>"

definition transition_run ::
  "(i64 \<Rightarrow> string) \<Rightarrow> i64 \<Rightarrow> string \<Rightarrow> RunState \<Rightarrow> string \<Rightarrow> u64 option \<Rightarrow> (string \<times> string) option \<Rightarrow>
   run_tables \<Rightarrow> RunSummary stored \<times> run_tables" where
  "transition_run format_timestamp now i next_state phase expected_version failure db =
    (case and_then (run_query format_timestamp i (db_runs db)) (\<lambda>current.
       if is_some_and (\<lambda>v. v \<noteq> ru_version current) expected_version
       then Inl (Conflict (''run '' @ i @ '' is version '' @ digits (unat (ru_version current)) @ '', not ''
              @ digits (case expected_version of None \<Rightarrow> 0 | Some v \<Rightarrow> unat v)))
       else if \<not> run_can_transition_to (ru_state current) next_state
       then Inl (Conflict (''illegal run transition '' @ run_state_text (ru_state current) @ '' -> ''
              @ run_state_text next_state))
       else and_then (sqlite_version (ru_version current)) (\<lambda>current_version.
         let hit = (\<lambda>r. rn_id r = i \<and> rn_version r = current_version);
             rows = update_where hit (transitioned_row now next_state phase failure) (db_runs db)
         in if changed_rows hit (db_runs db) \<noteq> 1
            then Inl (Conflict (''run '' @ i @ '' changed concurrently''))
            else and_then (ok_or (Validation (''run '' @ i @ '' version exceeds supported range''))
                             (checked_add (ru_version current) 1)) (\<lambda>resulting_version.
              let event = transition_event i now (ru_state current) next_state phase resulting_version failure
              in and_then (run_query format_timestamp i rows) (\<lambda>updated.
                   Inr (updated, db\<lparr>db_runs := rows, db_events := db_events db @ [event]\<rparr>))))) of
       Inl e \<Rightarrow> (Inl e, db)
     | Inr (updated, db') \<Rightarrow> (Inr updated, db'))"

section \<open>Column updates\<close>

text \<open>An \<open>UPDATE runs SET .. WHERE id=?1\<close> with the read that follows it.\<close>

definition update_run_row :: "string \<Rightarrow> (run_row \<Rightarrow> run_row) \<Rightarrow> run_tables \<Rightarrow> run_tables" where
  "update_run_row i f db = db\<lparr>db_runs := update_where (\<lambda>r. rn_id r = i) f (db_runs db)\<rparr>"

definition run_rows_hit :: "string \<Rightarrow> run_tables \<Rightarrow> nat" where
  "run_rows_hit i db = changed_rows (\<lambda>r. rn_id r = i) (db_runs db)"

definition update_then_read ::
  "(i64 \<Rightarrow> string) \<Rightarrow> string \<Rightarrow> (run_row \<Rightarrow> run_row) \<Rightarrow> run_tables \<Rightarrow> RunSummary stored \<times> run_tables" where
  "update_then_read format_timestamp i f db =
    (let db' = update_run_row i f db
     in if run_rows_hit i db \<noteq> 1 then (Inl (NotFound (''run '' @ i)), db')
        else (run format_timestamp i db', db'))"

definition set_scheduler_paused ::
  "(i64 \<Rightarrow> string) \<Rightarrow> i64 \<Rightarrow> string \<Rightarrow> bool \<Rightarrow> run_tables \<Rightarrow> RunSummary stored \<times> run_tables" where
  "set_scheduler_paused format_timestamp now i paused =
     update_then_read format_timestamp i
       (\<lambda>r. r\<lparr>rn_scheduler_paused := paused, rn_updated_at := now, rn_version := rn_version r + 1\<rparr>)"

definition set_run_token_budget_and_resume ::
  "(i64 \<Rightarrow> string) \<Rightarrow> i64 \<Rightarrow> string \<Rightarrow> u64 \<Rightarrow> run_tables \<Rightarrow> RunSummary stored \<times> run_tables" where
  "set_run_token_budget_and_resume format_timestamp now i token_budget =
     update_then_read format_timestamp i
       (\<lambda>r. r\<lparr>rn_run_token_budget := Some (sint token_budget), rn_scheduler_paused := False,
             rn_updated_at := now, rn_version := rn_version r + 1\<rparr>)"

definition set_run_pinned ::
  "(i64 \<Rightarrow> string) \<Rightarrow> i64 \<Rightarrow> string \<Rightarrow> bool \<Rightarrow> run_tables \<Rightarrow> RunSummary stored \<times> run_tables" where
  "set_run_pinned format_timestamp now i pinned =
     update_then_read format_timestamp i (\<lambda>r. r\<lparr>rn_pinned := pinned, rn_updated_at := now\<rparr>)"

definition set_run_integration :: "i64 \<Rightarrow> string \<Rightarrow> string \<Rightarrow> string \<Rightarrow> run_tables \<Rightarrow> unit stored \<times> run_tables" where
  "set_run_integration now i branch sha db =
    (Inr (), update_run_row i (\<lambda>r. r\<lparr>rn_integration_branch := Some branch, rn_integration_sha := Some sha,
       rn_updated_at := now, rn_version := rn_version r + 1\<rparr>) db)"

definition clear_run_integration :: "i64 \<Rightarrow> string \<Rightarrow> run_tables \<Rightarrow> unit stored \<times> run_tables" where
  "clear_run_integration now i db =
    (if run_rows_hit i db \<noteq> 1 then Inl (NotFound (''run '' @ i)) else Inr (),
     update_run_row i (\<lambda>r. r\<lparr>rn_integration_branch := None, rn_integration_sha := None,
       rn_updated_at := now, rn_version := rn_version r + 1\<rparr>) db)"

section \<open>Rows and updates\<close>

lemma lookup_update:
  assumes "\<And>r. key (f r) = key r"
  shows "lookup_row (\<lambda>r. key r = k) (update_where p f rows) =
    map_option (\<lambda>r. if p r then f r else r) (lookup_row (\<lambda>r. key r = k) rows)"
  using assms by (induction rows) (auto simp: lookup_row_def update_where_def)

lemma update_where_keys: "(\<And>r. key (f r) = key r) \<Longrightarrow> map key (update_where p f rows) = map key rows"
  by (induction rows) (auto simp: update_where_def)

lemma lookup_unique:
  "distinct (map key rows) \<Longrightarrow> r \<in> set rows \<Longrightarrow> lookup_row (\<lambda>x. key x = key r) rows = Some r"
  by (induction rows) (auto simp: lookup_row_def rev_image_eqI)

lemma lookup_hit:
  assumes "distinct (map key rows)" and "lookup_row (\<lambda>x. key x = k) rows = Some r"
    and "changed_rows (\<lambda>x. key x = k \<and> q x) rows = 1"
  shows "q r"
proof -
  from assms(3) have "filter (\<lambda>x. key x = k \<and> q x) rows \<noteq> []" by (auto simp: changed_rows_def)
  then obtain x where x: "x \<in> set rows" "key x = k" "q x" by (auto simp: filter_empty_conv)
  with lookup_unique [OF assms(1) x(1)] assms(2) show ?thesis by simp
qed

lemma changed_rows_unique:
  assumes "distinct (map key rows)" and "lookup_row (\<lambda>x. key x = k) rows = Some r" and "q r"
  shows "changed_rows (\<lambda>x. key x = k \<and> q x) rows = 1"
proof -
  have "filter (\<lambda>x. key x = k \<and> q x) rows = [r]"
    using assms
  proof (induction rows)
    case (Cons x rows)
    show ?case
    proof (cases "key x = k")
      case True
      with Cons.prems have "x = r" "filter (\<lambda>x. key x = k \<and> q x) rows = []"
        by (auto simp: lookup_row_def filter_empty_conv rev_image_eqI)
      with True Cons.prems(3) show ?thesis by simp
    next
      case False
      with Cons show ?thesis by (simp add: lookup_row_def)
    qed
  qed (simp add: lookup_row_def)
  then show ?thesis by (simp add: changed_rows_def)
qed

lemma lookup_append_new:
  "k \<notin> key ` set rows \<Longrightarrow> key r = k \<Longrightarrow> lookup_row (\<lambda>x. key x = k) (rows @ [r]) = Some r"
  "key r \<noteq> k \<Longrightarrow> lookup_row (\<lambda>x. key x = k) (rows @ [r]) = lookup_row (\<lambda>x. key x = k) rows"
  by (induction rows) (auto simp: lookup_row_def)

lemma map_run_ok:
  "map_run ft r = Inr s \<Longrightarrow> rn_state r = run_state_text (ru_state s) \<and> ru_id s = rn_id r \<and>
     ru_version s = word_of_int (rn_version r)"
  by (auto simp: map_run_def and_then_ok parse_run_state_iff)

lemma map_run_total: "rn_state r = run_state_text st \<Longrightarrow> \<exists>s. map_run ft r = Inr s \<and> ru_state s = st"
  by (simp add: map_run_def)

lemma run_query_ok:
  "run_query ft i rows = Inr s \<longleftrightarrow> (\<exists>r. lookup_row (\<lambda>r. rn_id r = i) rows = Some r \<and> map_run ft r = Inr s)"
  by (auto simp: run_query_def and_then_ok)

lemma sqlite_version_ok [simp]: "sqlite_version v = Inr n \<longleftrightarrow> unat v < 2 ^ 63 \<and> n = int (unat v)"
  by (auto simp: sqlite_version_def)

section \<open>What a transition does\<close>

lemma transition_run_err: "transition_run ft now i n ph ver fl db = (Inl e, db') \<Longrightarrow> db' = db"
  by (auto simp: transition_run_def split: sum.splits)

definition version_hit :: "string \<Rightarrow> u64 \<Rightarrow> run_row \<Rightarrow> bool" where
  "version_hit i v r \<longleftrightarrow> rn_id r = i \<and> rn_version r = int (unat v)"

lemma transition_run_ok:
  assumes "transition_run ft now i n ph ver fl db = (Inr s, db')"
  obtains r st rows v w where "lookup_row (\<lambda>r. rn_id r = i) (db_runs db) = Some r"
    "rn_state r = run_state_text st" "run_can_transition_to st n"
    "v = word_of_int (rn_version r)" "ver = None \<or> ver = Some v"
    "changed_rows (version_hit i v) (db_runs db) = 1"
    "rows = update_where (version_hit i v) (transitioned_row now n ph fl) (db_runs db)"
    "db' = db\<lparr>db_runs := rows, db_events := db_events db @ [transition_event i now st n ph w fl]\<rparr>"
    "run_query ft i rows = Inr s"
proof -
  from assms obtain current where cur: "run_query ft i (db_runs db) = Inr current"
    by (auto simp: transition_run_def and_then_ok split: sum.splits)
  from cur obtain r where r: "lookup_row (\<lambda>r. rn_id r = i) (db_runs db) = Some r" "map_run ft r = Inr current"
    by (auto simp: run_query_ok)
  from map_run_ok [OF r(2)] have st: "rn_state r = run_state_text (ru_state current)"
    and v: "ru_version current = word_of_int (rn_version r)" by auto
  have hit: "version_hit i (ru_version current) = (\<lambda>r. rn_id r = i \<and> rn_version r = int (unat (ru_version current)))"
    by (auto simp: version_hit_def)
  from assms obtain w where "run_can_transition_to (ru_state current) n"
    "ver = None \<or> ver = Some (ru_version current)"
    "changed_rows (version_hit i (ru_version current)) (db_runs db) = 1"
    "db' = db\<lparr>db_runs := update_where (version_hit i (ru_version current)) (transitioned_row now n ph fl) (db_runs db),
       db_events := db_events db @ [transition_event i now (ru_state current) n ph w fl]\<rparr>"
    "run_query ft i (update_where (version_hit i (ru_version current)) (transitioned_row now n ph fl) (db_runs db)) = Inr s"
    unfolding transition_run_def cur hit
    by (auto simp: and_then_ok Let_def is_some_and_def split: sum.splits if_splits option.splits)
  from that [OF r(1) st this(1) v this(2,3) refl this(4,5)] show ?thesis .
qed

section \<open>Whole histories\<close>

text \<open>The calls that write the run table, in any order and with any arguments.\<close>

datatype run_call =
    CreateRun i64 NewRun
  | TransitionRun i64 string RunState string "u64 option" "(string \<times> string) option"
  | SetPaused i64 string bool
  | SetBudget i64 string u64
  | SetPinned i64 string bool
  | SetIntegration i64 string string string
  | ClearIntegration i64 string

fun run_call_effect :: "(i64 \<Rightarrow> string) \<Rightarrow> run_call \<Rightarrow> run_tables \<Rightarrow> run_tables" where
  "run_call_effect ft (CreateRun now v) db = snd (create_run ft now v db)"
| "run_call_effect ft (TransitionRun now i n ph ver fl) db = snd (transition_run ft now i n ph ver fl db)"
| "run_call_effect ft (SetPaused now i b) db = snd (set_scheduler_paused ft now i b db)"
| "run_call_effect ft (SetBudget now i b) db = snd (set_run_token_budget_and_resume ft now i b db)"
| "run_call_effect ft (SetPinned now i b) db = snd (set_run_pinned ft now i b db)"
| "run_call_effect ft (SetIntegration now i br sha) db = snd (set_run_integration now i br sha db)"
| "run_call_effect ft (ClearIntegration now i) db = snd (clear_run_integration now i db)"

definition run_calls :: "(i64 \<Rightarrow> string) \<Rightarrow> run_call list \<Rightarrow> run_tables \<Rightarrow> run_tables" where
  "run_calls ft calls db = fold (run_call_effect ft) calls db"

definition run_log :: "string \<Rightarrow> run_tables \<Rightarrow> lifecycle_event list" where
  "run_log i db = filter (\<lambda>e. ev_run_id e = i) (db_events db)"

text \<open>
  A state path explains the log of a run: its moves are the logged ones, each allowed by the table, and
  it ends in the stored state.
\<close>

definition explains :: "RunState list \<Rightarrow> string \<Rightarrow> run_tables \<Rightarrow> bool" where
  "explains ss i db \<longleftrightarrow> run_of run_can_transition_to ss \<and>
     map run_state_text (butlast ss) = map ev_prior_state (run_log i db) \<and>
     map run_state_text (tl ss) = map ev_next_state (run_log i db) \<and>
     (\<exists>r. lookup_row (\<lambda>r. rn_id r = i) (db_runs db) = Some r \<and> rn_state r = run_state_text (last ss))"

definition unique_runs :: "run_tables \<Rightarrow> bool" where
  "unique_runs db \<longleftrightarrow> distinct (map rn_id (db_runs db))"

text \<open>An update that keeps id and state leaves every explanation valid.\<close>

lemma update_run_row_keeps:
  assumes "\<And>r. rn_id (f r) = rn_id r" and "\<And>r. rn_state (f r) = rn_state r"
  shows "unique_runs (update_run_row i f db) = unique_runs db" "explains ss j (update_run_row i f db) = explains ss j db"
proof -
  show "unique_runs (update_run_row i f db) = unique_runs db"
    using update_where_keys [where key = rn_id and f = f] assms(1) by (simp add: unique_runs_def update_run_row_def)
  have "(\<exists>r. lookup_row (\<lambda>r. rn_id r = j) (db_runs (update_run_row i f db)) = Some r \<and> rn_state r = t) \<longleftrightarrow>
      (\<exists>r. lookup_row (\<lambda>r. rn_id r = j) (db_runs db) = Some r \<and> rn_state r = t)" for t
    using lookup_update [where key = rn_id and f = f] assms
    by (cases "lookup_row (\<lambda>r. rn_id r = j) (db_runs db)") (auto simp: update_run_row_def)
  moreover have "db_events (update_run_row i f db) = db_events db" by (simp add: update_run_row_def)
  ultimately show "explains ss j (update_run_row i f db) = explains ss j db"
    by (simp add: explains_def run_log_def)
qed

lemma update_then_read_db: "snd (update_then_read ft i f db) = update_run_row i f db"
  by (simp add: update_then_read_def Let_def)

lemma lookup_after_create:
  assumes "lookup_row (\<lambda>r. rn_id r = i) rows = Some r" and "nr_id v \<notin> rn_id ` set rows"
  shows "lookup_row (\<lambda>r. rn_id r = i) (rows @ [new_run_row now v]) = Some r"
proof -
  have "rn_id (new_run_row now v) \<noteq> i"
    using lookup_row_Some [OF assms(1)] assms(2) by (auto simp: new_run_row_def)
  with assms(1) show ?thesis by (simp add: lookup_append_new(2))
qed

lemma create_run_keeps:
  assumes "unique_runs db"
  shows "unique_runs (snd (create_run ft now v db))"
    and "explains ss i db \<Longrightarrow> explains ss i (snd (create_run ft now v db))"
proof -
  show "unique_runs (snd (create_run ft now v db))"
    using assms by (auto simp: create_run_def Let_def unique_runs_def new_run_row_def)
  assume ex: "explains ss i db"
  then obtain r where r: "lookup_row (\<lambda>r. rn_id r = i) (db_runs db) = Some r" by (auto simp: explains_def)
  with lookup_after_create [OF r] ex show "explains ss i (snd (create_run ft now v db))"
    by (auto simp: create_run_def Let_def explains_def run_log_def)
qed

lemma transition_run_keeps:
  assumes u: "unique_runs db" and ex: "explains ss j db"
  shows "unique_runs (snd (transition_run ft now i n ph ver fl db)) \<and>
    (\<exists>ss'. explains ss' j (snd (transition_run ft now i n ph ver fl db)) \<and> hd ss' = hd ss)"
proof (cases "transition_run ft now i n ph ver fl db")
  case (Pair res db')
  show ?thesis
  proof (cases res)
    case (Inl e)
    with Pair transition_run_err have "db' = db" by blast
    with Pair u ex show ?thesis by auto
  next
    case (Inr s)
    with Pair obtain r st rows v w where r: "lookup_row (\<lambda>r. rn_id r = i) (db_runs db) = Some r"
      and st: "rn_state r = run_state_text st" "run_can_transition_to st n"
      and hit: "changed_rows (version_hit i v) (db_runs db) = 1"
      and rows: "rows = update_where (version_hit i v) (transitioned_row now n ph fl) (db_runs db)"
      and db': "db' = db\<lparr>db_runs := rows, db_events := db_events db @ [transition_event i now st n ph w fl]\<rparr>"
      by (metis transition_run_ok)
    have ids: "rn_id (transitioned_row now n ph fl x) = rn_id x" for x by (simp add: transitioned_row_def)
    have row: "lookup_row (\<lambda>r. rn_id r = k) rows =
        map_option (\<lambda>x. if version_hit i v x then transitioned_row now n ph fl x else x)
          (lookup_row (\<lambda>r. rn_id r = k) (db_runs db))" for k
      unfolding rows by (rule lookup_update) (rule ids)
    have unique: "unique_runs db'"
      using u by (simp add: unique_runs_def db' rows update_where_keys [where key = rn_id, OF ids])
    obtain rj where rj: "lookup_row (\<lambda>r. rn_id r = j) (db_runs db) = Some rj" "rn_state rj = run_state_text (last ss)"
      using ex by (auto simp: explains_def)
    show ?thesis
    proof (cases "i = j")
      case True
      with r rj have same: "rj = r" by simp
      with rj st have last: "last ss = st" using parse_run_state_text by (metis option.inject)
      have "version_hit i v r"
        using lookup_hit [where key = rn_id and q = "\<lambda>x. rn_version x = int (unat v)", OF u [unfolded unique_runs_def] r]
          hit lookup_row_Some [OF r] unfolding version_hit_def by simp
      with row r True have found: "lookup_row (\<lambda>r. rn_id r = j) rows = Some (transitioned_row now n ph fl r)" by simp
      have ne: "ss \<noteq> []" using ex run_of_nonempty by (auto simp: explains_def)
      have "run_of run_can_transition_to (ss @ [n])"
        using ex st(2) last by (simp add: run_of_snoc explains_def)
      moreover have "map run_state_text (butlast (ss @ [n])) = map ev_prior_state (run_log j db')"
        using ex append_butlast_last_id [OF ne] last True
        by (simp add: explains_def run_log_def db' transition_event_def) (metis list.simps(8,9) map_append)
      moreover have "map run_state_text (tl (ss @ [n])) = map ev_next_state (run_log j db')"
        using ex ne True by (simp add: explains_def run_log_def db' transition_event_def)
      ultimately have "explains (ss @ [n]) j db'"
        using found by (simp add: explains_def db' transitioned_row_def)
      with Pair unique ne show ?thesis by (auto intro!: exI [of _ "ss @ [n]"])
    next
      case False
      then have "\<not> version_hit i v rj" using lookup_row_Some [OF rj(1)] by (auto simp: version_hit_def)
      with row rj have "lookup_row (\<lambda>r. rn_id r = j) rows = Some rj" by simp
      with ex rj False have "explains ss j db'"
        by (auto simp: explains_def run_log_def db' transition_event_def)
      with Pair unique show ?thesis by auto
    qed
  qed
qed

lemma run_call_keeps:
  assumes "unique_runs db" and "explains ss j db"
  shows "unique_runs (run_call_effect ft call db) \<and>
    (\<exists>ss'. explains ss' j (run_call_effect ft call db) \<and> hd ss' = hd ss)"
proof (cases call)
  case (CreateRun now v)
  with create_run_keeps(1) [OF assms(1)] create_run_keeps(2) [OF assms]
  show ?thesis by (auto intro!: exI [of _ ss])
next
  case (TransitionRun now i n ph ver fl)
  with transition_run_keeps [OF assms] show ?thesis by simp
qed (use assms in \<open>auto simp: set_scheduler_paused_def set_run_token_budget_and_resume_def set_run_pinned_def
       set_run_integration_def clear_run_integration_def update_then_read_db update_run_row_keeps\<close>)

lemma run_calls_keep:
  "unique_runs db \<Longrightarrow> explains ss j db \<Longrightarrow>
     unique_runs (run_calls ft calls db) \<and> (\<exists>ss'. explains ss' j (run_calls ft calls db) \<and> hd ss' = hd ss)"
proof (induction calls arbitrary: db ss)
  case (Cons call calls)
  from run_call_keeps [OF Cons.prems] obtain ss' where "unique_runs (run_call_effect ft call db)"
    "explains ss' j (run_call_effect ft call db)" "hd ss' = hd ss" by blast
  from Cons.IH [OF this(1,2)] this(3) show ?case by (auto simp: run_calls_def)
qed (auto simp: run_calls_def)

text \<open>A created run is explained by its first state alone.\<close>

lemma created_run_explained:
  assumes "unique_runs db" and "run_log (nr_id v) db = []" and "create_run ft now v db = (Inr s, db')"
  shows "unique_runs db' \<and> explains [ru_state s] (nr_id v) db'"
proof -
  from assms(3) have new: "nr_id v \<notin> rn_id ` set (db_runs db)"
    and db': "db' = db\<lparr>db_runs := db_runs db @ [new_run_row now v]\<rparr>"
    and s: "run ft (nr_id v) db' = Inr s"
    by (auto simp: create_run_def Let_def split: if_splits)
  have found: "lookup_row (\<lambda>r. rn_id r = nr_id v) (db_runs db') = Some (new_run_row now v)"
    unfolding db' using lookup_append_new(1) [where key = rn_id, OF new] by (simp add: new_run_row_def)
  with s have "map_run ft (new_run_row now v) = Inr s" by (simp add: run_def run_query_ok)
  from map_run_ok [OF this] found have "explains [ru_state s] (nr_id v) db'"
    using assms(2) by (auto simp: explains_def run_log_def db')
  moreover have "unique_runs db'"
    using create_run_keeps(1) [OF assms(1)] assms(3) by (metis snd_conv)
  ultimately show ?thesis by simp
qed

lemma explained_run_reads:
  assumes "explains ss i db"
  shows "\<exists>s. run ft i db = Inr s \<and> ru_state s = last ss"
  using assms map_run_total by (fastforce simp: explains_def run_def run_query_ok)

text \<open>
  C11. The event log of a run refines the life cycle: whatever calls write the run table after a run was
  created, reading the run succeeds, and the logged transitions of that run are, one after the
  other and without a gap, a path of the transition table from the state it was created in to
  the state it is read in.
\<close>

theorem run_log_refines_lifecycle:
  assumes "unique_runs db" and "run_log (nr_id v) db = []"
    and "create_run ft now v db = (Inr created, db0)"
  shows "\<exists>ss summary. run ft (nr_id v) (run_calls ft calls db0) = Inr summary \<and>
    run_of run_can_transition_to ss \<and> hd ss = ru_state created \<and> last ss = ru_state summary \<and>
    map run_state_text (butlast ss) = map ev_prior_state (run_log (nr_id v) (run_calls ft calls db0)) \<and>
    map run_state_text (tl ss) = map ev_next_state (run_log (nr_id v) (run_calls ft calls db0))"
proof -
  from created_run_explained [OF assms] have "unique_runs db0" "explains [ru_state created] (nr_id v) db0" by auto
  from run_calls_keep [OF this] obtain ss where ss: "explains ss (nr_id v) (run_calls ft calls db0)"
    and "hd ss = ru_state created" by fastforce
  moreover from explained_run_reads [OF ss] obtain summary
    where "run ft (nr_id v) (run_calls ft calls db0) = Inr summary" "ru_state summary = last ss" by blast
  ultimately show ?thesis unfolding explains_def by metis
qed

text \<open>
  C17. No draft pull request without a trail: when a run created in \<open>CREATED\<close> is read as
  \<open>DRAFT_PR_CREATED\<close>, its event log holds the entries into task verification, integration, integration
  verification, the final audit, human review and publication, in this order.
\<close>

theorem published_run_has_a_trail:
  assumes "unique_runs db" and "run_log (nr_id v) db = []"
    and "create_run ft now v db = (Inr created, db0)" and "ru_state created = Created"
    and "run ft (nr_id v) (run_calls ft calls db0) = Inr summary" and "ru_state summary = DraftPrCreated"
  shows "subseq [''TASK_VERIFICATION'', ''INTEGRATION_READY'', ''INTEGRATING'', ''INTEGRATION_VERIFICATION'',
      ''FINAL_AUDIT'', ''HUMAN_REVIEW'', ''PUBLICATION_READY'', ''DRAFT_PR_CREATED'']
    (map ev_next_state (run_log (nr_id v) (run_calls ft calls db0)))"
proof -
  from created_run_explained [OF assms(1-3)] have "unique_runs db0" "explains [ru_state created] (nr_id v) db0" by auto
  from run_calls_keep [OF this] obtain ss where ss: "explains ss (nr_id v) (run_calls ft calls db0)"
    and start: "hd ss = Created" using assms(4) by fastforce
  from explained_run_reads [OF ss, of ft] assms(5,6) have "last ss = DraftPrCreated" by auto
  moreover have path: "run_of run_can_transition_to ss" using ss by (simp add: explains_def)
  ultimately have "subseq (map fst delivery_chain) ss"
    using start by (intro delivery.chain_in_order) (simp_all add: delivery_chain_def planning_region_def)
  then have "subseq (map fst delivery_chain) (tl ss)"
    using start run_of_nonempty [OF path] by (cases ss) (auto simp: delivery_chain_def)
  then have "subseq (map run_state_text (map fst delivery_chain)) (map run_state_text (tl ss))"
    by (rule subseq_map)
  with ss show ?thesis by (simp add: explains_def delivery_chain_def)
qed

section \<open>Optimistic concurrency\<close>

lemma stale_bound:
  "transition_run ft now i n ph (Some v) fl db = (Inr s, db1) \<Longrightarrow> unat v < 2 ^ 63"
  by (auto simp: transition_run_def and_then_ok Let_def is_some_and_def split: sum.splits if_splits)

text \<open>A run that can be read and whose version lies between two bounds.\<close>

definition run_between :: "string \<Rightarrow> int \<Rightarrow> int \<Rightarrow> run_tables \<Rightarrow> bool" where
  "run_between i lo hi db \<longleftrightarrow> unique_runs db \<and>
     (\<exists>r st. lookup_row (\<lambda>r. rn_id r = i) (db_runs db) = Some r \<and> rn_state r = run_state_text st \<and>
        lo \<le> rn_version r \<and> rn_version r \<le> hi)"

lemma run_between_update:
  assumes "run_between i lo hi db" and "\<And>r. rn_id (f r) = rn_id r"
    and "\<And>r st. rn_state r = run_state_text st \<Longrightarrow> \<exists>st'. rn_state (f r) = run_state_text st'"
    and "\<And>r. rn_version r \<le> rn_version (f r) \<and> rn_version (f r) \<le> rn_version r + 1"
    and "db_runs db' = update_where p f (db_runs db)"
  shows "run_between i lo (hi + 1) db'"
proof -
  from assms(1) obtain r st where r: "lookup_row (\<lambda>r. rn_id r = i) (db_runs db) = Some r"
    "rn_state r = run_state_text st" "lo \<le> rn_version r" "rn_version r \<le> hi" by (auto simp: run_between_def)
  have found: "lookup_row (\<lambda>r. rn_id r = i) (db_runs db') = Some (if p r then f r else r)"
    unfolding assms(5) using lookup_update [where key = rn_id and f = f, OF assms(2)] r(1) by simp
  obtain st' where st': "rn_state (f r) = run_state_text st'" using assms(3) r(2) by blast
  have "distinct (map rn_id (db_runs db'))"
    using assms(1) update_where_keys [where key = rn_id and f = f, OF assms(2)]
    by (simp add: run_between_def unique_runs_def assms(5))
  moreover have "lo \<le> rn_version (if p r then f r else r) \<and> rn_version (if p r then f r else r) \<le> hi + 1"
    using r(3,4) assms(4) [of r] by simp
  moreover have "\<exists>st''. rn_state (if p r then f r else r) = run_state_text st''" using st' r(2) by auto
  ultimately show ?thesis using found by (auto simp: run_between_def unique_runs_def)
qed

lemma run_between_mono: "run_between i lo hi db \<Longrightarrow> hi \<le> hi' \<Longrightarrow> run_between i lo hi' db"
  by (fastforce simp: run_between_def)

lemma run_between_column:
  assumes "run_between i lo hi db" and "\<And>r. rn_id (f r) = rn_id r" and "\<And>r. rn_state (f r) = rn_state r"
    and "\<And>r. rn_version r \<le> rn_version (f r) \<and> rn_version (f r) \<le> rn_version r + 1"
  shows "run_between i lo (hi + 1) (update_run_row j f db)"
  by (rule run_between_update [OF assms(1,2) _ assms(4)]) (use assms(3) in \<open>auto simp: update_run_row_def\<close>)

lemma run_between_transition:
  assumes "run_between i lo hi db"
  shows "run_between i lo (hi + 1) (snd (transition_run ft now j n ph ver fl db))"
proof (cases "transition_run ft now j n ph ver fl db")
  case (Pair res db')
  show ?thesis
  proof (cases res)
    case (Inl e)
    with Pair transition_run_err have "db' = db" by blast
    with Pair assms run_between_mono show ?thesis by fastforce
  next
    case (Inr s)
    with Pair obtain st v w where "db' = db\<lparr>db_runs := update_where (version_hit j v) (transitioned_row now n ph fl) (db_runs db),
        db_events := db_events db @ [transition_event j now st n ph w fl]\<rparr>" by (metis transition_run_ok)
    then have "db_runs db' = update_where (version_hit j v) (transitioned_row now n ph fl) (db_runs db)" by simp
    then have "run_between i lo (hi + 1) db'"
      by (rule run_between_update [OF assms, rotated -1]) (auto simp: transitioned_row_def)
    with Pair show ?thesis by simp
  qed
qed

lemma run_between_call:
  assumes "run_between i lo hi db"
  shows "run_between i lo (hi + 1) (run_call_effect ft call db)"
proof (cases call)
  case (CreateRun now v)
  from assms obtain r st where r: "lookup_row (\<lambda>r. rn_id r = i) (db_runs db) = Some r"
    "rn_state r = run_state_text st" "lo \<le> rn_version r" "rn_version r \<le> hi" by (auto simp: run_between_def)
  from assms have unique: "unique_runs (snd (create_run ft now v db))"
    by (auto simp: run_between_def intro: create_run_keeps(1))
  have "\<exists>r. lookup_row (\<lambda>r. rn_id r = i) (db_runs (snd (create_run ft now v db))) = Some r \<and>
      rn_state r = run_state_text st \<and> lo \<le> rn_version r \<and> rn_version r \<le> hi + 1"
    using r lookup_after_create [OF r(1)] by (auto simp: create_run_def Let_def)
  with unique CreateRun show ?thesis by (auto simp: run_between_def)
next
  case (TransitionRun now j n ph ver fl)
  with run_between_transition [OF assms] show ?thesis by simp
qed (auto simp: set_scheduler_paused_def set_run_token_budget_and_resume_def set_run_pinned_def
       set_run_integration_def clear_run_integration_def update_then_read_db intro!: run_between_column [OF assms])

lemma run_between_calls:
  "run_between i lo hi db \<Longrightarrow> run_between i lo (hi + int (length calls)) (run_calls ft calls db)"
proof (induction calls arbitrary: hi db)
  case (Cons call calls)
  from Cons.IH [OF run_between_call [OF Cons.prems]] show ?case by (simp add: run_calls_def algebra_simps)
qed (simp add: run_calls_def)

lemma stale_version_refused:
  assumes "run_between i (int (unat v) + 1) (2 ^ 64 - 1) db"
  shows "\<exists>msg. transition_run ft now i n ph (Some v) fl db = (Inl (Conflict msg), db)"
proof -
  from assms obtain r st where r: "lookup_row (\<lambda>r. rn_id r = i) (db_runs db) = Some r" "rn_state r = run_state_text st"
    "int (unat v) + 1 \<le> rn_version r" "rn_version r \<le> 2 ^ 64 - 1" by (auto simp: run_between_def)
  from map_run_total [OF r(2)] obtain s where s: "map_run ft r = Inr s" by blast
  have "run_query ft i (db_runs db) = Inr s" using r(1) s by (auto simp: run_query_ok)
  moreover have "v \<noteq> ru_version s"
  proof
    assume "v = ru_version s"
    with map_run_ok [OF s] have "int (unat v) = rn_version r mod 2 ^ 64"
      by (simp add: uint_word_of_int flip: uint_nat)
    also have "0 \<le> rn_version r" using r(3) by linarith
    then have "rn_version r mod 2 ^ 64 = rn_version r" using r(4) by (intro mod_pos_pos_trivial) linarith+
    finally show False using r(3) by simp
  qed
  ultimately show ?thesis by (simp add: transition_run_def)
qed

text \<open>
  C18. No lost update: when a transition that expects version \<open>v\<close> succeeds, every later transition of that
  run that still expects \<open>v\<close> is refused with a conflict and changes nothing, whatever calls come in
  between (fewer than \<open>2\<^sup>6\<^sup>3\<close> of them).
\<close>

theorem stale_writer_changes_nothing:
  assumes "unique_runs db" and "transition_run ft now i n ph (Some v) fl db = (Inr s, db1)"
    and "length calls < 2 ^ 63"
  shows "\<exists>msg. transition_run ft now' i n' ph' (Some v) fl' (run_calls ft calls db1) =
    (Inl (Conflict msg), run_calls ft calls db1)"
proof -
  from assms(2) obtain r st rows v' w where r: "lookup_row (\<lambda>r. rn_id r = i) (db_runs db) = Some r"
    and "Some v = None \<or> Some v = Some v'" and "changed_rows (version_hit i v') (db_runs db) = 1"
    and "rows = update_where (version_hit i v') (transitioned_row now n ph fl) (db_runs db)"
    and db1: "db1 = db\<lparr>db_runs := rows, db_events := db_events db @ [transition_event i now st n ph w fl]\<rparr>"
    by (metis transition_run_ok)
  then have hit: "changed_rows (version_hit i v) (db_runs db) = 1" and rows: "db_runs db1 = rows"
    "rows = update_where (version_hit i v) (transitioned_row now n ph fl) (db_runs db)" by simp_all
  have vr: "rn_version r = int (unat v)"
    using lookup_hit [where key = rn_id and q = "\<lambda>x. rn_version x = int (unat v)",
        OF assms(1) [unfolded unique_runs_def] r] hit unfolding version_hit_def by simp
  have ids: "rn_id (transitioned_row now n ph fl x) = rn_id x" for x by (simp add: transitioned_row_def)
  have "lookup_row (\<lambda>r. rn_id r = i) rows = Some (transitioned_row now n ph fl r)"
    using lookup_update [where key = rn_id, OF ids] r lookup_row_Some [OF r] vr
    by (simp add: rows(2) version_hit_def)
  moreover have "unique_runs db1"
    using assms(1) update_where_keys [where key = rn_id, OF ids] by (simp add: unique_runs_def rows)
  ultimately have "run_between i (int (unat v) + 1) (int (unat v) + 1) db1"
    using vr rows(1) by (auto simp: run_between_def transitioned_row_def)
  from run_between_calls [OF this]
  have "run_between i (int (unat v) + 1) (int (unat v) + 1 + int (length calls)) (run_calls ft calls db1)" .
  moreover have "int (unat v) + 1 + int (length calls) \<le> 2 ^ 64 - 1"
  proof -
    have "int (unat v) < 2 ^ 63" "int (length calls) < 2 ^ 63"
      using assms(3) stale_bound [OF assms(2)] by (simp_all only: of_nat_less_numeral_power_cancel_iff)
    moreover have "(2::int) ^ 64 = 2 ^ 63 + 2 ^ 63" by simp
    ultimately show ?thesis by linarith
  qed
  ultimately show ?thesis using stale_version_refused run_between_mono by blast
qed

section \<open>Every path of the table can be taken\<close>

lemma transition_run_succeeds:
  assumes "unique_runs db" and r: "lookup_row (\<lambda>r. rn_id r = i) (db_runs db) = Some r"
    and "rn_state r = run_state_text st" and "run_can_transition_to st n"
    and "0 \<le> rn_version r" and "rn_version r < 2 ^ 63"
    and ver: "ver = None \<or> ver = Some (word_of_int (rn_version r))"
  shows "\<exists>s db'. transition_run ft now i n ph ver fl db = (Inr s, db') \<and> ru_state s = n \<and> unique_runs db' \<and>
    lookup_row (\<lambda>r. rn_id r = i) (db_runs db') = Some (transitioned_row now n ph fl r)"
proof -
  from map_run_total [OF assms(3)] obtain current where cur: "map_run ft r = Inr current" "ru_state current = st" by blast
  let ?v = "ru_version current"
  have raw: "?v = word_of_int (rn_version r)" using map_run_ok [OF cur(1)] by simp
  moreover have "rn_version r mod 2 ^ 64 = rn_version r"
    using assms(5,6) by (intro mod_pos_pos_trivial) (simp_all add: order.strict_trans [where b = "2 ^ 63"])
  ultimately have v: "int (unat ?v) = rn_version r" by (simp add: uint_word_of_int flip: uint_nat)
  have small: "unat ?v < 2 ^ 63" using assms(6) unfolding v [symmetric] by (simp only: of_nat_less_numeral_power_cancel_iff)
  obtain w where w: "checked_add ?v 1 = Some w"
    using small by (cases "checked_add ?v 1") (auto simp: checked_add_None)
  let ?hit = "\<lambda>x. rn_id x = i \<and> rn_version x = int (unat ?v)"
  let ?rows = "update_where ?hit (transitioned_row now n ph fl) (db_runs db)"
  have ids: "rn_id (transitioned_row now n ph fl x) = rn_id x" for x by (simp add: transitioned_row_def)
  have found: "lookup_row (\<lambda>r. rn_id r = i) ?rows = Some (transitioned_row now n ph fl r)"
    using lookup_update [where key = rn_id, OF ids] r lookup_row_Some [OF r] v by simp
  have one: "changed_rows ?hit (db_runs db) = 1"
    using changed_rows_unique [where key = rn_id, OF assms(1) [unfolded unique_runs_def] r] v by simp
  have "rn_state (transitioned_row now n ph fl r) = run_state_text n" by (simp add: transitioned_row_def)
  from map_run_total [OF this] obtain s where s: "map_run ft (transitioned_row now n ph fl r) = Inr s" "ru_state s = n" by blast
  have "run_query ft i (db_runs db) = Inr current" "run_query ft i ?rows = Inr s"
    using r cur(1) found s(1) by (auto simp: run_query_ok)
  then have "transition_run ft now i n ph ver fl db =
      (Inr s, db\<lparr>db_runs := ?rows, db_events := db_events db @ [transition_event i now st n ph w fl]\<rparr>)"
    using one small w assms(4) cur(2) ver raw
    by (auto simp add: transition_run_def sqlite_version_def Let_def is_some_and_def)
  moreover have "unique_runs (db\<lparr>db_runs := ?rows, db_events := e\<rparr>)" for e
    using assms(1) update_where_keys [where key = rn_id, OF ids] by (simp add: unique_runs_def)
  ultimately show ?thesis using s(2) found by auto
qed

text \<open>
  The store refuses no legal history: a run that stands at the head of a path of the transition
  table, with a version that leaves room for the path, is taken along it to its end by one
  transition call per step.
\<close>

lemma lifecycle_paths_are_storable:
  assumes "unique_runs db" and "lookup_row (\<lambda>r. rn_id r = i) (db_runs db) = Some r"
    and "rn_state r = run_state_text st" and "run_of run_can_transition_to (st # ns)"
    and "0 \<le> rn_version r" and "rn_version r + int (length ns) < 2 ^ 63"
  shows "\<exists>s. run ft i (run_calls ft (map (\<lambda>n. TransitionRun now i n ph None fl) ns) db) = Inr s \<and>
    ru_state s = last (st # ns)"
  using assms
proof (induction ns arbitrary: db r st)
  case Nil
  from map_run_total [OF Nil(3)] Nil(2) show ?case by (auto simp: run_calls_def run_def run_query_ok)
next
  case (Cons n ns)
  from Cons.prems(4) have can: "run_can_transition_to st n" and rest: "run_of run_can_transition_to (n # ns)"
    by (cases ns; simp)+
  from Cons.prems(6) have "rn_version r < 2 ^ 63" by simp
  from transition_run_succeeds [OF Cons.prems(1-3) can Cons.prems(5) this disjI1 [OF refl], of ft now ph fl]
  obtain s db' where "transition_run ft now i n ph None fl db = (Inr s, db')" "unique_runs db'"
    "lookup_row (\<lambda>r. rn_id r = i) (db_runs db') = Some (transitioned_row now n ph fl r)" by blast
  with Cons.IH [OF this(2,3) _ rest] Cons.prems(5,6) show ?case
    by (simp add: run_calls_def transitioned_row_def)
qed

section \<open>Witnesses\<close>

definition sample_new_run :: NewRun where
  "sample_new_run = \<lparr>nr_id = ''r'', nr_repository_id = ''repo'', nr_title = ''t'', nr_objective = ''o'',
     nr_mode = ''execute'', nr_publication_mode = ''draft_pr'', nr_state = ''CREATED'', nr_phase = ''intake'',
     nr_base_ref = ''main'', nr_base_sha = ''b'', nr_authority_digest = ''d'', nr_profile_digest = ''p'',
     nr_codex_version = None, nr_protocol_schema_sha256 = None, nr_requested_by = ''op'', nr_token_budget = None\<rparr>"

definition empty_tables :: run_tables where
  "empty_tables = \<lparr>db_repositories = [''repo''], db_runs = [], db_events = []\<rparr>"

definition no_clock :: "i64 \<Rightarrow> string" where
  "no_clock t = []"

definition delivery_states :: "RunState list" where
  "delivery_states = [Preparing, ReadyForArchitecture, Architecting, PlanAdversarialReview,
     PlanReviewRequired, ReadyToExecute, Executing, TaskVerification, IntegrationReady, RunState.Integrating,
     IntegrationVerification, FinalAudit, HumanReview, PublicationReady, DraftPrCreated]"

definition delivery_calls :: "run_call list" where
  "delivery_calls = map (\<lambda>n. TransitionRun 2 ''r'' n ''phase'' None None) delivery_states"

definition sample_run_row :: run_row where
  "sample_run_row = new_run_row 0 sample_new_run"

definition created_tables :: run_tables where
  "created_tables = empty_tables\<lparr>db_runs := [sample_run_row]\<rparr>"

lemma sample_created:
  "map_sum id ru_state (fst (create_run no_clock 0 sample_new_run empty_tables)) = Inr Created"
  "snd (create_run no_clock 0 sample_new_run empty_tables) = created_tables"
  by code_simp+

lemma sample_row:
  "unique_runs created_tables" "lookup_row (\<lambda>r. rn_id r = ''r'') (db_runs created_tables) = Some sample_run_row"
  "rn_state sample_run_row = run_state_text Created" "rn_version sample_run_row = 1" "rn_id sample_run_row = ''r''"
  by (simp_all add: created_tables_def sample_run_row_def new_run_row_def sample_new_run_def unique_runs_def
      lookup_row_def)

lemma delivery_path: "run_of run_can_transition_to (Created # delivery_states)"
  by code_simp

lemma sample_creation:
  obtains s where "create_run no_clock 0 sample_new_run empty_tables = (Inr s, created_tables)" "ru_state s = Created"
  using sample_created
  by (cases "create_run no_clock 0 sample_new_run empty_tables"; cases "fst (create_run no_clock 0 sample_new_run empty_tables)")
    auto

lemma sample_tables: "unique_runs empty_tables" "run_log (nr_id sample_new_run) empty_tables = []"
  "nr_id sample_new_run = ''r''"
  by (simp_all add: empty_tables_def unique_runs_def run_log_def sample_new_run_def)

lemma sample_delivered:
  "\<exists>s. run no_clock ''r'' (run_calls no_clock delivery_calls created_tables) = Inr s \<and> ru_state s = DraftPrCreated"
proof -
  have "last (Created # delivery_states) = DraftPrCreated" "length delivery_states = 15"
    by (simp_all add: delivery_states_def)
  with lifecycle_paths_are_storable [OF sample_row(1-3) delivery_path, of no_clock 2 "''phase''" None]
  show ?thesis by (simp add: sample_row(4) delivery_calls_def)
qed

theorem run_log_refines_lifecycle_witness:
  "\<exists>ss summary. run no_clock ''r'' (run_calls no_clock delivery_calls created_tables) = Inr summary \<and>
    hd ss = Created \<and> last ss = ru_state summary \<and>
    map run_state_text (tl ss) = map ev_next_state (run_log ''r'' (run_calls no_clock delivery_calls created_tables))"
proof -
  obtain s where "create_run no_clock 0 sample_new_run empty_tables = (Inr s, created_tables)" "ru_state s = Created"
    by (rule sample_creation)
  with run_log_refines_lifecycle [OF sample_tables(1,2) this(1), of delivery_calls] show ?thesis
    unfolding sample_tables(3) by metis
qed

theorem published_run_has_a_trail_witness:
  "subseq [''TASK_VERIFICATION'', ''INTEGRATION_READY'', ''INTEGRATING'', ''INTEGRATION_VERIFICATION'',
      ''FINAL_AUDIT'', ''HUMAN_REVIEW'', ''PUBLICATION_READY'', ''DRAFT_PR_CREATED'']
    (map ev_next_state (run_log ''r'' (run_calls no_clock delivery_calls created_tables)))"
proof -
  obtain s where s: "create_run no_clock 0 sample_new_run empty_tables = (Inr s, created_tables)" "ru_state s = Created"
    by (rule sample_creation)
  from sample_delivered obtain summary
    where "run no_clock (nr_id sample_new_run) (run_calls no_clock delivery_calls created_tables) = Inr summary"
      "ru_state summary = DraftPrCreated" by (auto simp: sample_tables(3))
  from published_run_has_a_trail [OF sample_tables(1,2) s this] show ?thesis by (simp add: sample_tables(3))
qed

theorem stale_writer_changes_nothing_witness:
  "\<exists>s db msg. transition_run no_clock 5 ''r'' Preparing ''prepare'' (Some 1) None created_tables = (Inr s, db) \<and>
     transition_run no_clock 6 ''r'' RunState.Canceled ''cancel'' (Some 1) None
       (run_calls no_clock [SetPinned 5 ''r'' True] db) =
       (Inl (Conflict msg), run_calls no_clock [SetPinned 5 ''r'' True] db)"
proof -
  have can: "run_can_transition_to Created Preparing" by code_simp
  obtain s db where first: "transition_run no_clock 5 ''r'' Preparing ''prepare'' (Some 1) None created_tables = (Inr s, db)"
    using transition_run_succeeds [OF sample_row(1-3) can, of "Some 1" no_clock 5 "''prepare''" None]
    by (auto simp: sample_row(4))
  with stale_writer_changes_nothing [OF sample_row(1) first, of "[SetPinned 5 ''r'' True]" 6 RunState.Canceled "''cancel''" None]
  show ?thesis by auto
qed

end
