(* ===== verification/Call_Sequences.thy ===== *)
theory Call_Sequences
  imports Main
begin

text \<open>
  What the clients of a repository rely on, stated once: a repository whose calls keep an invariant keeps it over every
  sequence of calls, and a fact that no call can undo in a state with the invariant is permanent. The repositories
  interpret these contracts with their own calls and invariants.
\<close>

locale call_sequence =
  fixes effect :: "'c \<Rightarrow> 's \<Rightarrow> 's" and inv :: "'s \<Rightarrow> bool"
  assumes keeps: "inv s \<Longrightarrow> inv (effect c s)"
begin

lemma always: "inv s \<Longrightarrow> inv (fold effect calls s)"
  by (induction calls arbitrary: s) (simp_all add: keeps)

end

locale permanent_fact = call_sequence +
  fixes holds :: "'s \<Rightarrow> bool"
  assumes lasts: "inv s \<Longrightarrow> holds s \<Longrightarrow> holds (effect c s)"
begin

lemma permanent: "inv s \<Longrightarrow> holds s \<Longrightarrow> holds (fold effect calls s)"
  by (induction calls arbitrary: s) (simp_all add: keeps lasts)

end

end
