(* ===== verification/Plan_Store.thy ===== *)
theory Plan_Store
  imports Run_Store Plan_Validation Call_Sequences "HOL-Library.Multiset"
begin

text \<open>
  Plan revisions, tasks and attempts in \<^verbatim>\<open>crates/harness-store/src/queries.rs\<close>: storing a plan as a new
  revision with its tasks and dependencies, the review states of the latest revision, approval, and the
  updates of tasks and attempts the scheduler makes.

  The constraints are those of \<^verbatim>\<open>migrations/0001_initial.sql\<close>: primary keys, \<open>UNIQUE(run_id, revision)\<close>,
  \<open>UNIQUE(run_id, plan_sha256)\<close>, \<open>UNIQUE(run_id, external_task_id)\<close>, \<open>UNIQUE(task_id, attempt_number)\<close>,
  foreign keys with their cascades. Fresh identifiers (\<open>PlanRevisionId::new\<close>, \<open>TaskId::new\<close>) are
  arguments. The order in which SQLite hands out rows that a query does not order is the parameter
  \<open>scan\<close>; what is used of it is that it loses and invents no row. Tables that only receive
  \<open>ON DELETE SET NULL\<close> are left out, as is the table of consumed reconciliation proofs, whose rows
  keep their attempts from being deleted.

  The operations on the latest revision read it, give the connection back and take it again to write. Each of the two
  sections is a definition of its own; the whole operation takes as its argument \<open>between\<close> what other
  threads do to the tables in the meantime, and the histories below interleave the sections of any number of
  operations.

  The lemmas show that under every interleaving at most one revision of a run is open and it is the newest, that a decided
  revision is never opened again, and that whatever is approved was the newest revision and certified when the approving
  operation looked. The write that approves does not look again, so a revision that was superseded in the meantime is
  approved all the same.
\<close>

section \<open>Tables\<close>

record plan_row =
  pl_id :: string
  pl_run_id :: string
  pl_revision :: i64
  pl_architect_agent_session_id :: string
  pl_plan_json :: string
  pl_plan_sha256 :: string
  pl_state :: string
  pl_created_at :: i64
  pl_approved_at :: "i64 option"
  pl_approved_by :: "string option"

record task_row =
  tr_id :: string
  tr_run_id :: string
  tr_plan_revision_id :: string
  tr_external_task_id :: string
  tr_title :: string
  tr_objective :: string
  tr_priority :: string
  tr_owner_profile :: string
  tr_reviewer_profile :: string
  tr_state :: string
  tr_current_attempt_number :: i64
  tr_failure_reason :: "string option"
  tr_created_at :: i64
  tr_updated_at :: i64
  tr_version :: i64

record dependency_row =
  dr_task_id :: string
  dr_depends_on_task_id :: string
  dr_expected_dependency_sha :: "string option"

record attempt_row =
  ar_id :: string
  ar_task_id :: string
  ar_attempt_number :: i64
  ar_state :: string
  ar_task_packet_json :: string
  ar_task_packet_sha256 :: string
  ar_base_sha :: string
  ar_head_sha :: "string option"
  ar_requested_model_route :: string
  ar_token_budget :: "i64 option"
  ar_tool_budget :: "i64 option"
  ar_diff_file_budget :: i64
  ar_diff_line_budget :: i64
  ar_started_at :: "i64 option"
  ar_completed_at :: "i64 option"
  ar_terminal_class :: "string option"
  ar_failure_reason :: "string option"
  ar_created_at :: i64
  ar_updated_at :: i64
  ar_version :: i64

record result_row =
  rs_task_attempt_id :: string
  rs_verified_commit_sha :: "string option"
  rs_diff_files :: i64
  rs_diff_additions :: i64
  rs_diff_deletions :: i64
  rs_unexpected_paths_json :: string
  rs_updated_at :: i64

record lease_row =
  ls_id :: string
  ls_run_id :: string
  ls_task_attempt_id :: string
  ls_path_glob :: string
  ls_normalized_prefix :: string
  ls_base_sha :: string
  ls_acquired_at :: i64
  ls_heartbeat_at :: i64
  ls_expires_at :: i64
  ls_released_at :: "i64 option"
  ls_release_reason :: "string option"

record plan_tables =
  pt_runs :: "run_row list"
  pt_plans :: "plan_row list"
  pt_tasks :: "task_row list"
  pt_dependencies :: "dependency_row list"
  pt_attempts :: "attempt_row list"
  pt_results :: "result_row list"
  pt_leases :: "lease_row list"

section \<open>Storing a plan\<close>

definition open_plan_state :: "string \<Rightarrow> bool" where
  "open_plan_state s \<longleftrightarrow> s \<in> set [''PROPOSED'', ''CERTIFIED'', ''REVISION_REQUIRED'']"

definition next_revision :: "string \<Rightarrow> plan_row list \<Rightarrow> i64" where
  "next_revision run_id rows =
     fold max (map pl_revision (filter (\<lambda>r. pl_run_id r = run_id) rows)) 0 + 1"

text \<open>\<open>DELETE FROM tasks\<close> with the cascades to dependencies, attempts, results and leases.\<close>

definition delete_tasks :: "(task_row \<Rightarrow> bool) \<Rightarrow> plan_tables \<Rightarrow> plan_tables" where
  "delete_tasks p db =
    (let gone = (\<lambda>i. list_ex (\<lambda>t. tr_id t = i \<and> p t) (pt_tasks db));
         lost = (\<lambda>a. list_ex (\<lambda>r. ar_id r = a \<and> gone (ar_task_id r)) (pt_attempts db))
     in db\<lparr>pt_tasks := filter (\<lambda>t. \<not> p t) (pt_tasks db),
           pt_dependencies := filter (\<lambda>d. \<not> gone (dr_task_id d) \<and> \<not> gone (dr_depends_on_task_id d)) (pt_dependencies db),
           pt_attempts := filter (\<lambda>r. \<not> gone (ar_task_id r)) (pt_attempts db),
           pt_results := filter (\<lambda>r. \<not> lost (rs_task_attempt_id r)) (pt_results db),
           pt_leases := filter (\<lambda>l. \<not> lost (ls_task_attempt_id l)) (pt_leases db)\<rparr>)"

definition unique_failed :: "string \<Rightarrow> StoreError" where
  "unique_failed t = Sqlite (''UNIQUE constraint failed: '' @ t)"

definition insert_plan :: "plan_row \<Rightarrow> plan_tables \<Rightarrow> plan_tables stored" where
  "insert_plan row db =
    (if list_ex (\<lambda>r. pl_id r = pl_id row \<or> pl_run_id r = pl_run_id row \<and>
          (pl_revision r = pl_revision row \<or> pl_plan_sha256 r = pl_plan_sha256 row)) (pt_plans db)
     then Inl (unique_failed ''run_plan_revisions'')
     else if pl_run_id row \<notin> rn_id ` set (pt_runs db) then Inl (Sqlite ''FOREIGN KEY constraint failed'')
     else Inr (db\<lparr>pt_plans := pt_plans db @ [row]\<rparr>))"

definition insert_task :: "task_row \<Rightarrow> plan_tables \<Rightarrow> plan_tables stored" where
  "insert_task row db =
    (if list_ex (\<lambda>t. tr_id t = tr_id row \<or> tr_run_id t = tr_run_id row \<and>
          tr_external_task_id t = tr_external_task_id row) (pt_tasks db)
     then Inl (unique_failed ''tasks'') else Inr (db\<lparr>pt_tasks := pt_tasks db @ [row]\<rparr>))"

definition insert_dependency :: "dependency_row \<Rightarrow> plan_tables \<Rightarrow> plan_tables stored" where
  "insert_dependency row db =
    (if list_ex (\<lambda>d. dr_task_id d = dr_task_id row \<and> dr_depends_on_task_id d = dr_depends_on_task_id row)
          (pt_dependencies db)
     then Inl (unique_failed ''task_dependencies'')
     else if dr_task_id row = dr_depends_on_task_id row then Inl (Sqlite ''CHECK constraint failed'')
     else Inr (db\<lparr>pt_dependencies := pt_dependencies db @ [row]\<rparr>))"

definition new_task_row :: "string \<Rightarrow> string \<Rightarrow> i64 \<Rightarrow> string \<Rightarrow> TaskPacket \<Rightarrow> task_row" where
  "new_task_row run_id revision_id now task_id packet =
    \<lparr>tr_id = task_id, tr_run_id = run_id, tr_plan_revision_id = revision_id,
     tr_external_task_id = tp_task_id packet, tr_title = tp_title packet, tr_objective = tp_objective packet,
     tr_priority = tp_priority packet, tr_owner_profile = tp_owner_profile packet,
     tr_reviewer_profile = tp_reviewer_profile packet, tr_state = ''PROPOSED'',
     tr_current_attempt_number = 0, tr_failure_reason = None, tr_created_at = now, tr_updated_at = now,
     tr_version = 1\<rparr>"

text \<open>The first loop: one row per packet, and the map from external to new ids.\<close>

fun store_tasks ::
  "string \<Rightarrow> string \<Rightarrow> i64 \<Rightarrow> (TaskPacket \<times> string) list \<Rightarrow> (string \<times> string) list \<Rightarrow> plan_tables \<Rightarrow>
   ((string \<times> string) list \<times> plan_tables) stored" where
  "store_tasks run_id revision_id now [] ids db = Inr (ids, db)"
| "store_tasks run_id revision_id now ((packet, task_id) # rest) ids db =
    and_then (insert_task (new_task_row run_id revision_id now task_id packet) db)
      (store_tasks run_id revision_id now rest ((tp_task_id packet, task_id) # ids))"

text \<open>The second loop: one row per dependency.\<close>

fun store_dependencies ::
  "(string \<times> string) list \<Rightarrow> TaskPacket \<Rightarrow> string \<Rightarrow> string list \<Rightarrow> plan_tables \<Rightarrow> plan_tables stored" where
  "store_dependencies ids packet task_id [] db = Inr db"
| "store_dependencies ids packet task_id (external # rest) db =
    and_then (ok_or (Validation (''task '' @ tp_task_id packet @ '' depends on missing task '' @ external))
                (map_of ids external)) (\<lambda>dependency_id.
    and_then (insert_dependency \<lparr>dr_task_id = task_id, dr_depends_on_task_id = dependency_id,
        dr_expected_dependency_sha = map_of (tp_dependency_shas packet) external\<rparr> db)
      (store_dependencies ids packet task_id rest))"

fun store_all_dependencies ::
  "(string \<times> string) list \<Rightarrow> TaskPacket list \<Rightarrow> plan_tables \<Rightarrow> plan_tables stored" where
  "store_all_dependencies ids [] db = Inr db"
| "store_all_dependencies ids (packet # rest) db =
    and_then (ok_or (Validation (''task '' @ tp_task_id packet @ '' disappeared while storing the plan''))
                (map_of ids (tp_task_id packet))) (\<lambda>task_id.
    and_then (store_dependencies ids packet task_id (tp_depends_on packet) db) (store_all_dependencies ids rest))"

definition fresh_ids :: "(nat \<Rightarrow> string) \<Rightarrow> TaskPacket list \<Rightarrow> (TaskPacket \<times> string) list" where
  "fresh_ids new_task_id packets = zip packets (map new_task_id [0..<length packets])"

definition supersede_open :: "string \<Rightarrow> plan_tables \<Rightarrow> plan_tables" where
  "supersede_open run_id db = db\<lparr>pt_plans := update_where
     (\<lambda>r. pl_run_id r = run_id \<and> open_plan_state (pl_state r)) (\<lambda>r. r\<lparr>pl_state := ''SUPERSEDED''\<rparr>) (pt_plans db)\<rparr>"

definition drop_open_tasks :: "string \<Rightarrow> plan_tables \<Rightarrow> plan_tables" where
  "drop_open_tasks run_id db = delete_tasks (\<lambda>t. tr_run_id t = run_id \<and>
     list_ex (\<lambda>r. pl_id r = tr_plan_revision_id t \<and> pl_run_id r = run_id \<and> open_plan_state (pl_state r)) (pt_plans db)) db"

definition store_plan ::
  "RunPlan codec \<Rightarrow> (string \<Rightarrow> string) \<Rightarrow> i64 \<Rightarrow> string \<Rightarrow> (nat \<Rightarrow> string) \<Rightarrow> string \<Rightarrow> string \<Rightarrow> RunPlan \<Rightarrow>
   plan_tables \<Rightarrow> string stored \<times> plan_tables" where
  "store_plan c sha now revision_id new_task_id run_id architect_agent_id plan db =
    (case and_then (to_json c plan) (\<lambda>plan_json.
       let row = \<lparr>pl_id = revision_id, pl_run_id = run_id, pl_revision = next_revision run_id (pt_plans db),
             pl_architect_agent_session_id = architect_agent_id, pl_plan_json = plan_json,
             pl_plan_sha256 = sha plan_json, pl_state = ''PROPOSED'', pl_created_at = now,
             pl_approved_at = None, pl_approved_by = None\<rparr>
       in and_then (insert_plan row (supersede_open run_id (drop_open_tasks run_id db))) (\<lambda>db1.
          and_then (store_tasks run_id revision_id now (fresh_ids new_task_id (plan_tasks plan)) [] db1) (\<lambda>(ids, db2).
            store_all_dependencies ids (plan_tasks plan) db2))) of
       Inl e \<Rightarrow> (Inl e, db)
     | Inr db' \<Rightarrow> (Inr revision_id, db'))"

section \<open>Reviewing and approving\<close>

definition latest_row :: "string \<Rightarrow> plan_row list \<Rightarrow> plan_row option" where
  "latest_row run_id rows = (case filter (\<lambda>r. pl_run_id r = run_id) rows of
     [] \<Rightarrow> None
   | r # rs \<Rightarrow> Some (fold (\<lambda>x best. if pl_revision best < pl_revision x then x else best) rs r))"

definition latest_plan ::
  "RunPlan codec \<Rightarrow> string \<Rightarrow> plan_tables \<Rightarrow> (string \<times> RunPlan \<times> string \<times> u64) option stored" where
  "latest_plan c run_id db = (case latest_row run_id (pt_plans db) of
     None \<Rightarrow> Inr None
   | Some r \<Rightarrow> and_then (ok_or (Sqlite ''conversion failure'') (dec c (pl_plan_json r))) (\<lambda>plan.
       Inr (Some (pl_id r, plan, pl_state r, word_of_int (pl_revision r)))))"

text \<open>
  The first section of the review operations: \<open>let Some(..) = self.latest_plan(run_id)? else\<close>, and the check of the
  state that was read.
\<close>

definition latest_in_state :: "RunPlan codec \<Rightarrow> string \<Rightarrow> string \<Rightarrow> plan_tables \<Rightarrow> string stored" where
  "latest_in_state c run_id expected db =
     and_then (latest_plan c run_id db) (\<lambda>found. case found of
         None \<Rightarrow> Inl (NotFound (''plan for run '' @ run_id))
       | Some (revision_id, plan, st, n) \<Rightarrow>
          if st \<noteq> expected then Inl (Conflict (''plan is '' @ st @ '', not '' @ expected)) else Inr revision_id)"

text \<open>The second section of an approval: a transaction that looks at the revision by its id only.\<close>

definition approved_row :: "i64 \<Rightarrow> string \<Rightarrow> plan_row \<Rightarrow> plan_row" where
  "approved_row now actor r = r\<lparr>pl_state := ''APPROVED'', pl_approved_at := Some now, pl_approved_by := Some actor\<rparr>"

definition approve_write :: "i64 \<Rightarrow> string \<Rightarrow> string \<Rightarrow> plan_tables \<Rightarrow> plan_tables" where
  "approve_write now actor revision_id db = db\<lparr>
     pt_plans := update_where (\<lambda>r. pl_id r = revision_id) (approved_row now actor) (pt_plans db),
     pt_tasks := update_where (\<lambda>t. tr_plan_revision_id t = revision_id)
       (\<lambda>t. t\<lparr>tr_state := (if list_ex (\<lambda>d. dr_task_id d = tr_id t) (pt_dependencies db)
                then ''WAITING_DEPENDENCY'' else ''READY''),
             tr_updated_at := now, tr_version := tr_version t + 1\<rparr>) (pt_tasks db)\<rparr>"

definition approve_latest_plan ::
  "RunPlan codec \<Rightarrow> i64 \<Rightarrow> string \<Rightarrow> string \<Rightarrow> (plan_tables \<Rightarrow> plan_tables) \<Rightarrow> plan_tables \<Rightarrow> unit stored \<times> plan_tables" where
  "approve_latest_plan c now run_id actor between db =
    (case latest_in_state c run_id ''CERTIFIED'' db of
       Inl e \<Rightarrow> (Inl e, db)
     | Inr revision_id \<Rightarrow> (Inr (), approve_write now actor revision_id (between db)))"

text \<open>The second section of a change of state: one \<open>UPDATE\<close> that checks the state again.\<close>

definition set_plan_state :: "string \<Rightarrow> string \<Rightarrow> string \<Rightarrow> plan_tables \<Rightarrow> plan_tables stored" where
  "set_plan_state revision_id expected next_state db =
    (let hit = (\<lambda>r. pl_id r = revision_id \<and> pl_state r = expected)
     in if changed_rows hit (pt_plans db) \<noteq> 1
        then Inl (Conflict ''plan changed during state transition'')
        else Inr (db\<lparr>pt_plans := update_where hit (\<lambda>r. r\<lparr>pl_state := next_state\<rparr>) (pt_plans db)\<rparr>))"

definition move_write :: "string \<Rightarrow> string \<Rightarrow> string \<Rightarrow> plan_tables \<Rightarrow> unit stored \<times> plan_tables" where
  "move_write revision_id expected next_state db =
    (case set_plan_state revision_id expected next_state db of Inl e \<Rightarrow> (Inl e, db) | Inr db' \<Rightarrow> (Inr (), db'))"

definition transition_latest_plan_state ::
  "RunPlan codec \<Rightarrow> string \<Rightarrow> string \<Rightarrow> string \<Rightarrow> (plan_tables \<Rightarrow> plan_tables) \<Rightarrow> plan_tables \<Rightarrow> unit stored \<times> plan_tables" where
  "transition_latest_plan_state c run_id expected next_state between db =
    (case latest_in_state c run_id expected db of
       Inl e \<Rightarrow> (Inl e, db)
     | Inr revision_id \<Rightarrow> move_write revision_id expected next_state (between db))"

datatype plan_move = Certify | RequireRevision | RequestRevision | Reopen

fun move_from :: "plan_move \<Rightarrow> string" where
  "move_from Certify = ''PROPOSED''"
| "move_from RequireRevision = ''PROPOSED''"
| "move_from RequestRevision = ''CERTIFIED''"
| "move_from Reopen = ''CERTIFIED''"

fun move_to :: "plan_move \<Rightarrow> string" where
  "move_to Certify = ''CERTIFIED''"
| "move_to RequireRevision = ''REVISION_REQUIRED''"
| "move_to RequestRevision = ''REVISION_REQUIRED''"
| "move_to Reopen = ''PROPOSED''"

definition move_latest_plan ::
  "plan_move \<Rightarrow> RunPlan codec \<Rightarrow> string \<Rightarrow> (plan_tables \<Rightarrow> plan_tables) \<Rightarrow> plan_tables \<Rightarrow> unit stored \<times> plan_tables" where
  "move_latest_plan m c run_id = transition_latest_plan_state c run_id (move_from m) (move_to m)"

definition certify_latest_plan :: "RunPlan codec \<Rightarrow> string \<Rightarrow> (plan_tables \<Rightarrow> plan_tables) \<Rightarrow> plan_tables \<Rightarrow> unit stored \<times> plan_tables" where
  "certify_latest_plan = move_latest_plan Certify"

definition mark_latest_plan_revision_required ::
  "RunPlan codec \<Rightarrow> string \<Rightarrow> (plan_tables \<Rightarrow> plan_tables) \<Rightarrow> plan_tables \<Rightarrow> unit stored \<times> plan_tables" where
  "mark_latest_plan_revision_required = move_latest_plan RequireRevision"

definition reopen_latest_plan_for_review ::
  "RunPlan codec \<Rightarrow> string \<Rightarrow> (plan_tables \<Rightarrow> plan_tables) \<Rightarrow> plan_tables \<Rightarrow> unit stored \<times> plan_tables" where
  "reopen_latest_plan_for_review = move_latest_plan Reopen"

text \<open>A request for a revision reads the latest plan once more before it starts the change: two gaps.\<close>

definition request_latest_plan_revision ::
  "RunPlan codec \<Rightarrow> string \<Rightarrow> (plan_tables \<Rightarrow> plan_tables) \<Rightarrow> (plan_tables \<Rightarrow> plan_tables) \<Rightarrow> plan_tables \<Rightarrow>
     unit stored \<times> plan_tables" where
  "request_latest_plan_revision c run_id before between db =
    (case latest_plan c run_id db of
       Inl e \<Rightarrow> (Inl e, db)
     | Inr None \<Rightarrow> (Inl (NotFound (''plan for run '' @ run_id)), db)
     | Inr (Some (revision_id, plan, st, n)) \<Rightarrow>
        (if st = ''CERTIFIED'' then move_latest_plan RequestRevision c run_id between (before db)
         else if st = ''REVISION_REQUIRED'' then (Inr (), db)
         else (Inl (Conflict (''plan is '' @ st @ '', not CERTIFIED or REVISION_REQUIRED'')), db)))"

section \<open>The revisions of a run\<close>

text \<open>
  The sections as steps of a history: the tables, and the operations that have read the latest revision and not written
  yet. \<open>WriteNow\<close> lets one of them go on. The first read of \<open>request_latest_plan_revision\<close> decides whether its change is
  started at all, so every history of the code is one of these.
\<close>

datatype pending_write = PendingApproval string string | PendingMove string plan_move

record review_state =
  rv_tables :: plan_tables
  rv_pending :: "pending_write list"

datatype review_step =
    StorePlan i64 string "nat \<Rightarrow> string" string string RunPlan
  | CheckApproval string string
  | CheckMove string plan_move
  | WriteNow i64 nat

fun write_effect :: "i64 \<Rightarrow> pending_write \<Rightarrow> plan_tables \<Rightarrow> plan_tables" where
  "write_effect now (PendingApproval actor revision_id) db = approve_write now actor revision_id db"
| "write_effect now (PendingMove revision_id m) db = snd (move_write revision_id (move_from m) (move_to m) db)"

definition await_write :: "string stored \<Rightarrow> (string \<Rightarrow> pending_write) \<Rightarrow> review_state \<Rightarrow> review_state" where
  "await_write found op s = (case found of Inl _ \<Rightarrow> s | Inr i \<Rightarrow> s\<lparr>rv_pending := rv_pending s @ [op i]\<rparr>)"

fun review_effect :: "RunPlan codec \<Rightarrow> (string \<Rightarrow> string) \<Rightarrow> review_step \<Rightarrow> review_state \<Rightarrow> review_state" where
  "review_effect c sha (StorePlan now i ids run_id architect plan) s =
     s\<lparr>rv_tables := snd (store_plan c sha now i ids run_id architect plan (rv_tables s))\<rparr>"
| "review_effect c sha (CheckApproval run_id actor) s =
     await_write (latest_in_state c run_id ''CERTIFIED'' (rv_tables s)) (PendingApproval actor) s"
| "review_effect c sha (CheckMove run_id m) s =
     await_write (latest_in_state c run_id (move_from m) (rv_tables s)) (\<lambda>i. PendingMove i m) s"
| "review_effect c sha (WriteNow now n) s =
    (if n < length (rv_pending s)
     then \<lparr>rv_tables = write_effect now (rv_pending s ! n) (rv_tables s),
           rv_pending = take n (rv_pending s) @ drop (Suc n) (rv_pending s)\<rparr>
     else s)"

definition review_start :: "plan_tables \<Rightarrow> review_state" where
  "review_start db = \<lparr>rv_tables = db, rv_pending = []\<rparr>"

definition review_steps ::
  "RunPlan codec \<Rightarrow> (string \<Rightarrow> string) \<Rightarrow> review_step list \<Rightarrow> plan_tables \<Rightarrow> review_state" where
  "review_steps c sha steps db = fold (review_effect c sha) steps (review_start db)"

abbreviation plan_rows :: "review_state \<Rightarrow> plan_row list" where
  "plan_rows s \<equiv> pt_plans (rv_tables s)"

text \<open>An operation is its check followed, after what others did, by its write.\<close>

lemma approval_sections:
  assumes "approve_latest_plan c now run_id actor between (rv_tables s) = (Inr u, db')"
    and "s' = review_effect c sha (CheckApproval run_id actor) s"
  shows "rv_tables (review_effect c sha (WriteNow now (length (rv_pending s))) (s'\<lparr>rv_tables := between (rv_tables s')\<rparr>)) = db'"
  using assms by (auto simp: approve_latest_plan_def await_write_def split: sum.splits)

lemma move_sections:
  assumes "move_latest_plan m c run_id between (rv_tables s) = (Inr u, db')"
    and "s' = review_effect c sha (CheckMove run_id m) s"
  shows "rv_tables (review_effect c sha (WriteNow now (length (rv_pending s))) (s'\<lparr>rv_tables := between (rv_tables s')\<rparr>)) = db'"
  using assms by (auto simp: move_latest_plan_def transition_latest_plan_state_def await_write_def split: sum.splits)

definition plans_ok :: "plan_row list \<Rightarrow> bool" where
  "plans_ok rows \<longleftrightarrow> distinct (map pl_id rows) \<and>
     (\<forall>r \<in> set rows. \<forall>r' \<in> set rows. pl_run_id r = pl_run_id r' \<longrightarrow>
        (pl_revision r = pl_revision r' \<longrightarrow> r = r') \<and> (open_plan_state (pl_state r) \<longrightarrow> pl_revision r' \<le> pl_revision r))"

lemma newest_of_fold:
  "let b = fold (\<lambda>x best. if pl_revision best < pl_revision x then x else best) rs r in
     b \<in> insert r (set rs) \<and> (\<forall>x \<in> insert r (set rs). pl_revision x \<le> pl_revision b)"
  by (induction rs arbitrary: r) (auto simp: Let_def, (meson insertI1 insertI2 less_imp_le order_trans not_less)+)

lemma latest_row_Some:
  assumes "latest_row run_id rows = Some r"
  shows "r \<in> set rows \<and> pl_run_id r = run_id \<and> (\<forall>x \<in> set rows. pl_run_id x = run_id \<longrightarrow> pl_revision x \<le> pl_revision r)"
proof (cases "filter (\<lambda>r. pl_run_id r = run_id) rows")
  case Nil
  with assms show ?thesis by (simp add: latest_row_def)
next
  case (Cons x xs)
  then have rows: "insert x (set xs) = {r \<in> set rows. pl_run_id r = run_id}" by (metis list.simps(15) set_filter)
  from assms Cons newest_of_fold [of xs x] show ?thesis unfolding rows by (auto simp: latest_row_def Let_def)
qed

lemma next_revision_above: "r \<in> set rows \<Longrightarrow> pl_run_id r = run_id \<Longrightarrow> pl_revision r < next_revision run_id rows"
proof -
  have "x \<in> set xs \<Longrightarrow> x \<le> fold max xs m" for x m and xs :: "int list"
    by (metis Max.set_eq_fold List.finite_set Max_ge insertI2 list.simps(15))
  then show "r \<in> set rows \<Longrightarrow> pl_run_id r = run_id \<Longrightarrow> pl_revision r < next_revision run_id rows"
    unfolding next_revision_def by (simp add: zless_add1_eq order_le_less [symmetric])
qed

lemma insert_plan_ok:
  "insert_plan row db = Inr db' \<Longrightarrow> pt_plans db' = pt_plans db @ [row] \<and> pl_id row \<notin> pl_id ` set (pt_plans db)"
  by (auto simp: insert_plan_def list_ex_iff split: if_splits)

lemma insert_task_plans: "insert_task t db = Inr db' \<Longrightarrow> pt_plans db' = pt_plans db"
  by (auto simp: insert_task_def split: if_splits)

lemma store_tasks_plans: "store_tasks run_id i now ps ids db = Inr (ids', db') \<Longrightarrow> pt_plans db' = pt_plans db"
  by (induction ps arbitrary: ids db) (auto simp: and_then_ok, metis insert_task_plans)

lemma store_dependencies_plans: "store_dependencies ids p i ds db = Inr db' \<Longrightarrow> pt_plans db' = pt_plans db"
  by (induction ds arbitrary: db) (auto simp: and_then_ok insert_dependency_def split: if_splits)

lemma store_all_dependencies_plans: "store_all_dependencies ids ps db = Inr db' \<Longrightarrow> pt_plans db' = pt_plans db"
  by (induction ps arbitrary: db) (auto simp: and_then_ok dest: store_dependencies_plans)

text \<open>What a step does to the revisions: nothing, a new state for one of them, or a new revision.\<close>

inductive revision_step :: "plan_row list \<Rightarrow> plan_row list \<Rightarrow> bool" where
  same: "revision_step rows rows"
| approve: "revision_step rows (map (\<lambda>x. if pl_id x = i then approved_row now actor x else x) rows)"
| move: "open_plan_state e \<Longrightarrow> open_plan_state n \<Longrightarrow>
    revision_step rows (map (\<lambda>x. if pl_id x = i \<and> pl_state x = e then x\<lparr>pl_state := n\<rparr> else x) rows)"
| revision: "pl_id row \<notin> pl_id ` set rows \<Longrightarrow> pl_state row = ''PROPOSED'' \<Longrightarrow>
    pl_revision row = next_revision (pl_run_id row) rows \<Longrightarrow>
    revision_step rows (map (\<lambda>x. if pl_run_id x = pl_run_id row \<and> open_plan_state (pl_state x)
      then x\<lparr>pl_state := ''SUPERSEDED''\<rparr> else x) rows @ [row])"

inductive_cases revision_stepE: "revision_step rows rows'"

lemma store_plan_rows:
  "pt_plans (snd (store_plan c sha now i ids run_id arch plan db)) = pt_plans db \<or>
   (\<exists>row. pl_id row \<notin> pl_id ` set (pt_plans db) \<and> pl_state row = ''PROPOSED'' \<and>
      pl_revision row = next_revision (pl_run_id row) (pt_plans db) \<and>
      pt_plans (snd (store_plan c sha now i ids run_id arch plan db)) =
        map (\<lambda>x. if pl_run_id x = pl_run_id row \<and> open_plan_state (pl_state x)
          then x\<lparr>pl_state := ''SUPERSEDED''\<rparr> else x) (pt_plans db) @ [row])"
proof (cases "fst (store_plan c sha now i ids run_id arch plan db)")
  case (Inl e)
  then have "snd (store_plan c sha now i ids run_id arch plan db) = db"
    by (auto simp: store_plan_def split: sum.splits)
  then show ?thesis by simp
next
  case (Inr u)
  let ?rows = "pt_plans db"
  let ?old = "map (\<lambda>x. if pl_run_id x = run_id \<and> open_plan_state (pl_state x) then x\<lparr>pl_state := ''SUPERSEDED''\<rparr> else x) ?rows"
  from Inr obtain raw row db1 where row: "row = \<lparr>pl_id = i, pl_run_id = run_id,
        pl_revision = next_revision run_id ?rows, pl_architect_agent_session_id = arch, pl_plan_json = raw,
        pl_plan_sha256 = sha raw, pl_state = ''PROPOSED'', pl_created_at = now, pl_approved_at = None, pl_approved_by = None\<rparr>"
    and ins: "insert_plan row (supersede_open run_id (drop_open_tasks run_id db)) = Inr db1"
    and rest: "pt_plans (snd (store_plan c sha now i ids run_id arch plan db)) = pt_plans db1"
    by (auto simp: store_plan_def and_then_ok Let_def split: sum.splits
        dest!: store_tasks_plans store_all_dependencies_plans)
  have old: "pt_plans (supersede_open run_id (drop_open_tasks run_id db)) = ?old"
    by (simp add: supersede_open_def drop_open_tasks_def delete_tasks_def Let_def update_where_def)
  have "pt_plans db1 = ?old @ [row]" and "pl_id row \<notin> pl_id ` set ?old"
    using insert_plan_ok [OF ins] unfolding old by blast+
  moreover have "pl_id ` set ?old = pl_id ` set ?rows"
    unfolding set_map image_image by (rule image_cong) simp_all
  ultimately show ?thesis
    unfolding rest by (intro disjI2 exI [of _ row]) (simp add: row)
qed

lemma store_plan_step: "revision_step (pt_plans db) (pt_plans (snd (store_plan c sha now i ids run_id arch plan db)))"
  using store_plan_rows [of c sha now i ids run_id arch plan db]
  by (elim disjE exE conjE) (simp_all add: revision_step.same revision_step.revision)

lemma move_states_open: "open_plan_state (move_from m) \<and> open_plan_state (move_to m)"
  by (cases m) (simp_all add: open_plan_state_def)

lemma write_step: "revision_step (pt_plans db) (pt_plans (write_effect now w db))"
proof (cases w)
  case (PendingApproval actor i)
  with revision_step.approve [of "pt_plans db" i now actor] show ?thesis
    by (simp add: approve_write_def update_where_def)
next
  case (PendingMove i m)
  with revision_step.move [of "move_from m" "move_to m" "pt_plans db" i] move_states_open [of m] show ?thesis
    by (auto simp: move_write_def set_plan_state_def Let_def update_where_def revision_step.same split: sum.splits if_splits)
qed

lemma review_step_rows: "revision_step (plan_rows s) (plan_rows (review_effect c sha x s))"
  by (cases x) (auto simp: store_plan_step write_step await_write_def revision_step.same split: sum.splits)

lemma superseded_closed: "\<not> open_plan_state ''SUPERSEDED''"
  by (simp add: open_plan_state_def)

lemma plans_ok_map:
  assumes "plans_ok rows"
    and keep: "\<And>x. x \<in> set rows \<Longrightarrow> pl_id (g x) = pl_id x \<and> pl_run_id (g x) = pl_run_id x \<and> pl_revision (g x) = pl_revision x"
    and newest: "\<And>x y. x \<in> set rows \<Longrightarrow> open_plan_state (pl_state (g x)) \<Longrightarrow> y \<in> set rows \<Longrightarrow> pl_run_id y = pl_run_id x \<Longrightarrow>
      pl_revision y \<le> pl_revision x"
  shows "plans_ok (map g rows)"
proof -
  have ids: "map pl_id (map g rows) = map pl_id rows" using keep by simp
  have same: "x = y" if "x \<in> set rows" "y \<in> set rows" "pl_run_id x = pl_run_id y" "pl_revision x = pl_revision y" for x y
    using that assms(1) by (auto simp: plans_ok_def)
  show ?thesis unfolding plans_ok_def ids
  proof (intro conjI ballI impI)
    show "distinct (map pl_id rows)" using assms(1) by (simp add: plans_ok_def)
  next
    fix a b assume "a \<in> set (map g rows)" "b \<in> set (map g rows)" and run: "pl_run_id a = pl_run_id b"
    then obtain x y where xy: "a = g x" "b = g y" "x \<in> set rows" "y \<in> set rows" by auto
    with run keep have "pl_run_id x = pl_run_id y" by simp
    with xy keep same newest
    show "pl_revision a = pl_revision b \<Longrightarrow> a = b" "open_plan_state (pl_state a) \<Longrightarrow> pl_revision b \<le> pl_revision a" by auto
  qed
qed

lemma plans_ok_snoc:
  assumes "plans_ok rows" and "pl_id row \<notin> pl_id ` set rows"
    and "\<And>x. x \<in> set rows \<Longrightarrow> pl_run_id x = pl_run_id row \<Longrightarrow> pl_revision x < pl_revision row \<and> \<not> open_plan_state (pl_state x)"
  shows "plans_ok (rows @ [row])"
proof -
  have old: "x \<in> set rows \<Longrightarrow> pl_run_id x = pl_run_id row \<Longrightarrow> pl_revision x \<noteq> pl_revision row \<and> pl_revision x \<le> pl_revision row \<and>
      \<not> open_plan_state (pl_state x)" for x
    using assms(3) by fastforce
  have pair: "x \<in> set rows \<Longrightarrow> y \<in> set rows \<Longrightarrow> pl_run_id x = pl_run_id y \<Longrightarrow>
      (pl_revision x = pl_revision y \<longrightarrow> x = y) \<and> (open_plan_state (pl_state x) \<longrightarrow> pl_revision y \<le> pl_revision x)" for x y
    using assms(1) by (simp add: plans_ok_def)
  show ?thesis unfolding plans_ok_def
  proof (intro conjI [rotated] ballI impI)
    fix a b assume "a \<in> set (rows @ [row])" "b \<in> set (rows @ [row])" "pl_run_id a = pl_run_id b"
    with old [of a] old [of b] pair [of a b]
    show "pl_revision a = pl_revision b \<Longrightarrow> a = b" "open_plan_state (pl_state a) \<Longrightarrow> pl_revision b \<le> pl_revision a" by auto
  qed (use assms in \<open>auto simp: plans_ok_def\<close>)
qed

lemma approved_closed: "\<not> open_plan_state ''APPROVED''"
  by (simp add: open_plan_state_def)

lemma approved_row_simps [simp]:
  "pl_id (approved_row now actor r) = pl_id r" "pl_run_id (approved_row now actor r) = pl_run_id r"
  "pl_revision (approved_row now actor r) = pl_revision r" "pl_plan_json (approved_row now actor r) = pl_plan_json r"
  "pl_state (approved_row now actor r) = ''APPROVED''" "pl_approved_by (approved_row now actor r) = Some actor"
  by (simp_all add: approved_row_def)

lemma revision_step_ok:
  assumes "revision_step rows rows'" and "plans_ok rows"
  shows "plans_ok rows'"
  using assms(1)
proof cases
  case same
  with assms(2) show ?thesis by simp
next
  case (approve i now actor)
  show ?thesis unfolding approve
    by (rule plans_ok_map [OF assms(2)])
      (use assms(2) in \<open>auto simp: approved_closed plans_ok_def split: if_splits\<close>)
next
  case (move e n i)
  show ?thesis unfolding move(1)
    by (rule plans_ok_map [OF assms(2)])
      (use assms(2) move(2) in \<open>auto simp: plans_ok_def split: if_splits\<close>)
next
  case (revision row)
  let ?g = "\<lambda>x. if pl_run_id x = pl_run_id row \<and> open_plan_state (pl_state x) then x\<lparr>pl_state := ''SUPERSEDED''\<rparr> else x"
  have "plans_ok (map ?g rows)"
    by (rule plans_ok_map [OF assms(2)])
      (use assms(2) in \<open>auto simp: superseded_closed plans_ok_def split: if_splits\<close>)
  moreover have "pl_id ` set (map ?g rows) = pl_id ` set rows"
    unfolding set_map image_image by (rule image_cong) simp_all
  ultimately show ?thesis unfolding revision(1) using revision(2)
    by (intro plans_ok_snoc)
      (auto simp: superseded_closed revision(4) next_revision_above split: if_splits)
qed

text \<open>A decided revision is there for good: as it was, or approved.\<close>

definition decided_as :: "plan_row \<Rightarrow> plan_row \<Rightarrow> bool" where
  "decided_as d x \<longleftrightarrow> pl_id x = pl_id d \<and> pl_run_id x = pl_run_id d \<and> pl_revision x = pl_revision d \<and>
     pl_plan_json x = pl_plan_json d \<and> \<not> open_plan_state (pl_state x) \<and> (x = d \<or> pl_state x = ''APPROVED'')"

lemma revision_step_image:
  assumes "revision_step rows rows'"
  shows "\<exists>g. g ` set rows \<subseteq> set rows' \<and> (\<forall>x. pl_id (g x) = pl_id x \<and> pl_run_id (g x) = pl_run_id x \<and>
    pl_revision (g x) = pl_revision x \<and> pl_plan_json (g x) = pl_plan_json x \<and>
    (\<not> open_plan_state (pl_state x) \<longrightarrow> g x = x \<or> pl_state (g x) = ''APPROVED''))"
  using assms
proof cases
  case same
  then show ?thesis by (intro exI [of _ id]) simp
next
  case (approve i now actor)
  then show ?thesis by (intro exI [of _ "\<lambda>x. if pl_id x = i then approved_row now actor x else x"]) simp
next
  case (move e n i)
  then show ?thesis
    by (intro exI [of _ "\<lambda>x. if pl_id x = i \<and> pl_state x = e then x\<lparr>pl_state := n\<rparr> else x"]) auto
next
  case (revision row)
  then show ?thesis
    by (intro exI [of _ "\<lambda>x. if pl_run_id x = pl_run_id row \<and> open_plan_state (pl_state x)
      then x\<lparr>pl_state := ''SUPERSEDED''\<rparr> else x"]) auto
qed

lemma decided_step:
  assumes "revision_step rows rows'" and "\<exists>x \<in> set rows. decided_as d x"
  shows "\<exists>x \<in> set rows'. decided_as d x"
proof -
  obtain g where "g ` set rows \<subseteq> set rows'" and g: "\<And>x. pl_id (g x) = pl_id x \<and> pl_run_id (g x) = pl_run_id x \<and>
    pl_revision (g x) = pl_revision x \<and> pl_plan_json (g x) = pl_plan_json x \<and>
    (\<not> open_plan_state (pl_state x) \<longrightarrow> g x = x \<or> pl_state (g x) = ''APPROVED'')"
    using revision_step_image [OF assms(1)] by blast
  moreover have "decided_as d x \<Longrightarrow> decided_as d (g x)" for x
    using g [of x] by (auto simp: decided_as_def approved_closed)
  ultimately show ?thesis using assms(2) by blast
qed

interpretation reviews: permanent_fact "review_effect c sha" "\<lambda>s. plans_ok (plan_rows s)" "\<lambda>s. \<exists>x \<in> set (plan_rows s). decided_as d x"
  for c sha d
  by unfold_locales (blast intro: revision_step_ok decided_step review_step_rows)+

lemma start_ok: "pt_plans db = [] \<Longrightarrow> plans_ok (plan_rows (review_start db))"
  by (simp add: review_start_def plans_ok_def)

lemma review_steps_ok: "pt_plans db = [] \<Longrightarrow> plans_ok (plan_rows (review_steps c sha steps db))"
  unfolding review_steps_def by (rule reviews.always [OF start_ok])

text \<open>
  C12. One open plan at a time: whatever plans are stored and however the sections of certifications, revision requests,
  reopenings and approvals interleave, a run has at most one revision that is still open, and it is the newest one. A
  revision that was approved or superseded is never opened again and keeps its text; all that can happen to it is that it
  is approved.
\<close>

theorem one_open_plan_per_run:
  assumes "pt_plans db = []" and "rows = plan_rows (review_steps c sha steps db)"
    and "r \<in> set rows" and "open_plan_state (pl_state r)"
  shows "(\<forall>r' \<in> set rows. pl_run_id r' = pl_run_id r \<longrightarrow> pl_revision r' \<le> pl_revision r) \<and>
    (\<forall>r' \<in> set rows. pl_run_id r' = pl_run_id r \<longrightarrow> open_plan_state (pl_state r') \<longrightarrow> r' = r) \<and>
    (\<forall>d \<in> set rows. \<forall>later. \<not> open_plan_state (pl_state d) \<longrightarrow>
       (\<exists>x \<in> set (plan_rows (review_steps c sha (steps @ later) db)). decided_as d x))"
proof -
  from review_steps_ok [OF assms(1)] have ok: "plans_ok rows" unfolding assms(2) .
  moreover have "\<exists>x \<in> set (plan_rows (review_steps c sha (steps @ later) db)). decided_as d x"
    if "d \<in> set rows" "\<not> open_plan_state (pl_state d)" for d later
  proof -
    have "\<exists>x \<in> set rows. decided_as d x" using that by (auto simp: decided_as_def)
    from reviews.permanent [OF ok [unfolded assms(2)] this [unfolded assms(2)], of c sha later] show ?thesis
      by (simp add: review_steps_def)
  qed
  ultimately show ?thesis using assms(3,4) by (auto simp: plans_ok_def) (metis antisym)
qed

section \<open>What is approved\<close>

text \<open>At an earlier moment the actor's approval checked the revision: it was the newest of its run, with this text, and certified.\<close>

definition checked ::
  "RunPlan codec \<Rightarrow> (string \<Rightarrow> string) \<Rightarrow> plan_tables \<Rightarrow> review_step list \<Rightarrow> string \<Rightarrow> string \<Rightarrow> string \<Rightarrow> bool" where
  "checked c sha db steps actor i raw \<longleftrightarrow> (\<exists>k < length steps. \<exists>run_id r0. steps ! k = CheckApproval run_id actor \<and>
     latest_row run_id (plan_rows (review_steps c sha (take k steps) db)) = Some r0 \<and>
     pl_id r0 = i \<and> pl_plan_json r0 = raw \<and> pl_state r0 = ''CERTIFIED'')"

lemma checked_later: "checked c sha db steps actor i raw \<Longrightarrow> checked c sha db (steps @ [x]) actor i raw"
proof -
  assume "checked c sha db steps actor i raw"
  then obtain k run_id r0 where "k < length steps" "steps ! k = CheckApproval run_id actor"
    "latest_row run_id (plan_rows (review_steps c sha (take k steps) db)) = Some r0"
    "pl_id r0 = i" "pl_plan_json r0 = raw" "pl_state r0 = ''CERTIFIED''"
    unfolding checked_def by blast
  then show ?thesis unfolding checked_def
    by (intro exI [of _ k] conjI exI [of _ run_id] exI [of _ r0]) (simp_all add: nth_append)
qed

lemma latest_in_state_ok:
  "latest_in_state c run_id e db = Inr i \<Longrightarrow> \<exists>r. latest_row run_id (pt_plans db) = Some r \<and> pl_id r = i \<and> pl_state r = e"
  by (auto simp: latest_in_state_def latest_plan_def and_then_ok split: option.splits if_splits)

definition approvals_checked :: "RunPlan codec \<Rightarrow> (string \<Rightarrow> string) \<Rightarrow> plan_tables \<Rightarrow> review_step list \<Rightarrow> bool" where
  "approvals_checked c sha db steps \<longleftrightarrow> (let s = review_steps c sha steps db in
    (\<forall>actor i. PendingApproval actor i \<in> set (rv_pending s) \<longrightarrow>
       (\<exists>r \<in> set (plan_rows s). pl_id r = i \<and> checked c sha db steps actor i (pl_plan_json r))) \<and>
    (\<forall>r \<in> set (plan_rows s). pl_state r = ''APPROVED'' \<longrightarrow>
       (\<exists>actor. pl_approved_by r = Some actor \<and> checked c sha db steps actor (pl_id r) (pl_plan_json r))))"

lemma revision_step_keeps:
  assumes "revision_step rows rows'" and "r \<in> set rows"
  shows "\<exists>x \<in> set rows'. pl_id x = pl_id r \<and> pl_plan_json x = pl_plan_json r"
proof -
  obtain g where "g ` set rows \<subseteq> set rows'" "pl_id (g r) = pl_id r" "pl_plan_json (g r) = pl_plan_json r"
    using revision_step_image [OF assms(1)] by blast
  with assms(2) show ?thesis by (intro bexI [of _ "g r"]) blast+
qed

lemma review_steps_snoc: "review_steps c sha (steps @ [x]) db = review_effect c sha x (review_steps c sha steps db)"
  by (simp add: review_steps_def)

text \<open>Only the write of a pending approval makes a revision approved.\<close>

lemma write_approves:
  assumes "r \<in> set (pt_plans (write_effect now w db))" and "pl_state r = ''APPROVED''" and "r \<notin> set (pt_plans db)"
  shows "\<exists>actor. w = PendingApproval actor (pl_id r) \<and> pl_approved_by r = Some actor \<and>
    (\<exists>r0 \<in> set (pt_plans db). pl_id r0 = pl_id r \<and> pl_plan_json r0 = pl_plan_json r)"
proof (cases w)
  case (PendingApproval actor i)
  with assms show ?thesis by (auto simp: approve_write_def update_where_def split: if_splits)
next
  case (PendingMove i m)
  have "move_to m \<noteq> ''APPROVED''" by (cases m) simp_all
  with PendingMove assms show ?thesis
    by (cases "set_plan_state i (move_from m) (move_to m) db")
      (auto simp: move_write_def set_plan_state_def Let_def update_where_def split: if_splits)
qed

lemma newly_approved:
  assumes "r \<in> set (plan_rows (review_effect c sha x s))" and "pl_state r = ''APPROVED''" and "r \<notin> set (plan_rows s)"
  shows "\<exists>actor. PendingApproval actor (pl_id r) \<in> set (rv_pending s) \<and> pl_approved_by r = Some actor \<and>
    (\<exists>r0 \<in> set (plan_rows s). pl_id r0 = pl_id r \<and> pl_plan_json r0 = pl_plan_json r)"
proof (cases x)
  case (StorePlan now i ids run_id architect plan)
  with assms store_plan_rows [of c sha now i ids run_id architect plan "rv_tables s"] show ?thesis
    by (auto split: if_splits)
next
  case (WriteNow now n)
  with assms have n: "n < length (rv_pending s)" and "r \<in> set (pt_plans (write_effect now (rv_pending s ! n) (rv_tables s)))"
    by (auto split: if_splits)
  from write_approves [OF this(2) assms(2,3)] nth_mem [OF n] show ?thesis by metis
qed (use assms in \<open>auto simp: await_write_def split: sum.splits\<close>)

lemma pending_after:
  "PendingApproval actor i \<in> set (rv_pending (review_effect c sha x s)) \<Longrightarrow> PendingApproval actor i \<in> set (rv_pending s) \<or>
     (\<exists>run_id. x = CheckApproval run_id actor \<and> latest_in_state c run_id ''CERTIFIED'' (rv_tables s) = Inr i)"
  by (cases x) (auto simp: await_write_def dest: in_set_takeD in_set_dropD split: sum.splits if_splits)

lemma approvals_checked_snoc:
  assumes "pt_plans db = []" and "approvals_checked c sha db steps"
  shows "approvals_checked c sha db (steps @ [x])"
proof -
  let ?s = "review_steps c sha steps db" and ?s' = "review_effect c sha x (review_steps c sha steps db)"
  have ids: "r = r'" if "r \<in> set (plan_rows ?s)" "r' \<in> set (plan_rows ?s)" "pl_id r = pl_id r'" for r r'
    using review_steps_ok [OF assms(1), of c sha steps] that by (auto simp: plans_ok_def distinct_map inj_on_def)
  have pend: "\<exists>r \<in> set (plan_rows ?s). pl_id r = i \<and> checked c sha db steps actor i (pl_plan_json r)"
    if "PendingApproval actor i \<in> set (rv_pending ?s)" for actor i
    using assms(2) that by (simp add: approvals_checked_def Let_def)
  have old: "\<exists>actor. pl_approved_by r = Some actor \<and> checked c sha db steps actor (pl_id r) (pl_plan_json r)"
    if "r \<in> set (plan_rows ?s)" "pl_state r = ''APPROVED''" for r
    using assms(2) that by (simp add: approvals_checked_def Let_def)
  have here: "\<exists>r \<in> set (plan_rows ?s). pl_id r = i \<and> checked c sha db (steps @ [x]) actor i (pl_plan_json r)"
    if "PendingApproval actor i \<in> set (rv_pending ?s')" for actor i
    using pending_after [OF that]
  proof (elim disjE exE conjE)
    assume "PendingApproval actor i \<in> set (rv_pending ?s)"
    from pend [OF this] checked_later show ?thesis by blast
  next
    fix run_id assume x: "x = CheckApproval run_id actor" and "latest_in_state c run_id ''CERTIFIED'' (rv_tables ?s) = Inr i"
    from latest_in_state_ok [OF this(2)] obtain r
      where r: "latest_row run_id (plan_rows ?s) = Some r" "pl_id r = i" "pl_state r = ''CERTIFIED''" by blast
    then have "checked c sha db (steps @ [x]) actor i (pl_plan_json r)"
      unfolding checked_def by (intro exI [of _ "length steps"] conjI exI [of _ run_id] exI [of _ r]) (simp_all add: x)
    with r latest_row_Some [OF r(1)] show ?thesis by blast
  qed
  have "\<exists>r \<in> set (plan_rows ?s'). pl_id r = i \<and> checked c sha db (steps @ [x]) actor i (pl_plan_json r)"
    if "PendingApproval actor i \<in> set (rv_pending ?s')" for actor i
    using here [OF that] revision_step_keeps [OF review_step_rows [of ?s c sha x]] by metis
  moreover have "\<exists>actor. pl_approved_by r = Some actor \<and> checked c sha db (steps @ [x]) actor (pl_id r) (pl_plan_json r)"
    if r: "r \<in> set (plan_rows ?s')" "pl_state r = ''APPROVED''" for r
  proof (cases "r \<in> set (plan_rows ?s)")
    case True
    from old [OF this r(2)] checked_later show ?thesis by blast
  next
    case False
    from newly_approved [OF r False] obtain actor r0 where a: "PendingApproval actor (pl_id r) \<in> set (rv_pending ?s)"
      "pl_approved_by r = Some actor" and r0: "r0 \<in> set (plan_rows ?s)" "pl_id r0 = pl_id r" "pl_plan_json r0 = pl_plan_json r"
      by blast
    from pend [OF a(1)] ids r0 have "checked c sha db steps actor (pl_id r) (pl_plan_json r)" by metis
    with a(2) checked_later show ?thesis by blast
  qed
  ultimately show ?thesis by (simp add: approvals_checked_def review_steps_snoc Let_def)
qed

lemma approvals_always_checked: "pt_plans db = [] \<Longrightarrow> approvals_checked c sha db steps"
  by (induction steps rule: rev_induct)
    (simp_all add: approvals_checked_snoc, simp add: approvals_checked_def review_steps_def review_start_def)

text \<open>
  C13. Nothing is approved unseen: for every plan revision that stands as approved there is an earlier moment of the
  history at which the operation of the actor recorded as approver read it, and at that moment it was the newest revision
  of its run, it was certified, and it had exactly the text that is now approved. This holds however the sections of the
  operations interleave; that the revision is still certified when the approval is written does not.
\<close>

theorem approved_plan_was_certified:
  assumes "pt_plans db = []" and "r \<in> set (plan_rows (review_steps c sha steps db))" and "pl_state r = ''APPROVED''"
  shows "\<exists>actor. pl_approved_by r = Some actor \<and> (\<exists>k < length steps. \<exists>run_id r0. steps ! k = CheckApproval run_id actor \<and>
    latest_row run_id (plan_rows (review_steps c sha (take k steps) db)) = Some r0 \<and>
    pl_id r0 = pl_id r \<and> pl_plan_json r0 = pl_plan_json r \<and> pl_state r0 = ''CERTIFIED'')"
  using approvals_always_checked [OF assms(1), of c sha steps] assms(2,3)
  unfolding approvals_checked_def checked_def Let_def by blast

section \<open>Witnesses\<close>

definition plan_codec :: "RunPlan codec" where
  "plan_codec = list_codec [(sample_plan, ''plan''), (sample_plan\<lparr>plan_summary := ''revised''\<rparr>, ''revised'')]"

definition plan_base :: plan_tables where
  "plan_base = \<lparr>pt_runs = [sample_run_row], pt_plans = [], pt_tasks = [], pt_dependencies = [],
     pt_attempts = [], pt_results = [], pt_leases = []\<rparr>"

definition numbered :: "nat \<Rightarrow> string" where
  "numbered n = ''task-'' @ digits n"

definition review_history :: "review_step list" where
  "review_history = [StorePlan 1 ''rev-1'' numbered ''r'' ''arch'' sample_plan, CheckMove ''r'' Certify, WriteNow 1 0,
     CheckApproval ''r'' ''op'', WriteNow 2 0]"

definition revised_history :: "review_step list" where
  "revised_history = [StorePlan 1 ''rev-1'' numbered ''r'' ''arch'' sample_plan, CheckMove ''r'' RequireRevision, WriteNow 1 0,
     StorePlan 2 ''rev-2'' numbered ''r'' ''arch'' (sample_plan\<lparr>plan_summary := ''revised''\<rparr>)]"

lemma sample_reviews:
  "map (\<lambda>r. (pl_id r, pl_state r)) (plan_rows (review_steps plan_codec id review_history plan_base)) = [(''rev-1'', ''APPROVED'')]"
  "map (\<lambda>r. (pl_run_id r, pl_state r)) (plan_rows (review_steps plan_codec id revised_history plan_base)) =
     [(''r'', ''SUPERSEDED''), (''r'', ''PROPOSED'')]"
  by code_simp+

text \<open>
  A new plan is stored between the check and the write of an approval: the superseded revision is approved, without
  tasks, beside the open one.
\<close>

definition overtaken_history :: "review_step list" where
  "overtaken_history = [StorePlan 1 ''rev-1'' numbered ''r'' ''arch'' sample_plan, CheckMove ''r'' Certify, WriteNow 1 0,
     CheckApproval ''r'' ''op'', StorePlan 2 ''rev-2'' numbered ''r'' ''arch'' (sample_plan\<lparr>plan_summary := ''revised''\<rparr>)]"

lemma superseded_plan_gets_approved:
  "map (\<lambda>r. (pl_id r, pl_state r)) (plan_rows (review_steps plan_codec id overtaken_history plan_base)) =
     [(''rev-1'', ''SUPERSEDED''), (''rev-2'', ''PROPOSED'')]"
  "map (\<lambda>r. (pl_id r, pl_state r)) (plan_rows (review_steps plan_codec id (overtaken_history @ [WriteNow 3 0]) plan_base)) =
     [(''rev-1'', ''APPROVED''), (''rev-2'', ''PROPOSED'')]"
  "list_ex (\<lambda>t. tr_plan_revision_id t = ''rev-1'')
     (pt_tasks (rv_tables (review_steps plan_codec id (overtaken_history @ [WriteNow 3 0]) plan_base))) = False"
  by code_simp+

lemma plan_base_empty: "pt_plans plan_base = []"
  by (simp add: plan_base_def)

lemma single_row: "map f xs = [v] \<Longrightarrow> \<exists>x. xs = [x] \<and> f x = v"
  by (cases xs) auto

theorem one_open_plan_per_run_witness:
  "\<exists>r1 r2 x. plan_rows (review_steps plan_codec id revised_history plan_base) = [r1, r2] \<and> pl_revision r1 \<le> pl_revision r2 \<and>
     x \<in> set (plan_rows (review_steps plan_codec id (revised_history @ [CheckMove ''r'' Certify, WriteNow 3 0]) plan_base)) \<and>
     decided_as r1 x"
proof -
  let ?rows = "plan_rows (review_steps plan_codec id revised_history plan_base)"
  from sample_reviews(2) obtain r1 r2 where rows: "?rows = [r1, r2]" "pl_run_id r1 = ''r''" "pl_run_id r2 = ''r''"
    "pl_state r1 = ''SUPERSEDED''" "pl_state r2 = ''PROPOSED''"
    by (cases ?rows; cases "tl ?rows") auto
  then have r2: "open_plan_state (pl_state r2)" and r1: "\<not> open_plan_state (pl_state r1)" by (simp_all add: open_plan_state_def)
  have mem: "r1 \<in> set ?rows" "r2 \<in> set ?rows" using rows(1) by simp_all
  note spec = one_open_plan_per_run [OF plan_base_empty refl mem(2) r2]
  have "pl_revision r1 \<le> pl_revision r2" using spec mem(1) rows(2,3) by metis
  moreover have "\<exists>x \<in> set (plan_rows (review_steps plan_codec id (revised_history @ [CheckMove ''r'' Certify, WriteNow 3 0]) plan_base)).
      decided_as r1 x"
    using spec mem(1) r1 by blast
  ultimately show ?thesis using rows(1) by blast
qed

theorem approved_plan_was_certified_witness:
  "\<exists>k r0. k < 5 \<and> latest_row ''r'' (plan_rows (review_steps plan_codec id (take k review_history) plan_base)) = Some r0 \<and>
     pl_id r0 = ''rev-1'' \<and> pl_state r0 = ''CERTIFIED''"
proof -
  from single_row [OF sample_reviews(1)] obtain r
    where r: "plan_rows (review_steps plan_codec id review_history plan_base) = [r]" "pl_state r = ''APPROVED''" "pl_id r = ''rev-1''" by auto
  then have mem: "r \<in> set (plan_rows (review_steps plan_codec id review_history plan_base))" by simp
  from approved_plan_was_certified [OF plan_base_empty mem r(2)] obtain actor k run_id r0 where
    k: "k < length review_history" "review_history ! k = CheckApproval run_id actor"
    "latest_row run_id (plan_rows (review_steps plan_codec id (take k review_history) plan_base)) = Some r0"
    "pl_id r0 = pl_id r" "pl_state r0 = ''CERTIFIED''" by blast
  have "CheckApproval run_id actor \<in> set review_history" using k(1,2) by (metis nth_mem)
  then have "run_id = ''r''" by (simp add: review_history_def)
  moreover have "length review_history = 5" by (simp add: review_history_def)
  ultimately show ?thesis using k r(3) by metis
qed

end
