(* ===== verification/Task_Store.thy ===== *)
theory Task_Store
  imports Plan_Store
begin

text \<open>
  Tasks and their attempts in \<^verbatim>\<open>crates/harness-store/src/queries.rs\<close>: reading a task with its run, its
  current attempt, its result and its dependencies, leasing it to a new attempt, the guarded state
  transition, recording results, and the update that makes tasks ready once their dependencies are
  verified.

  A read joins several tables. \<open>scan\<close> stands for the order in which SQLite hands out unordered rows;
  \<open>json_group_array\<close> and the parse of its result cancel out. A task row without its run is not returned.

  \<open>transition_task\<close> gives the connection back between its read, its update and the read of the result. The update is
  guarded by the version that was read, so it is modelled as one step.

  The lemmas show that a stored plan is read back with exactly its dependencies and that the tasks of an acyclic plan
  never all wait for each other.
\<close>

section \<open>Reading tasks\<close>

definition current_attempt :: "plan_tables \<Rightarrow> task_row \<Rightarrow> attempt_row option" where
  "current_attempt db t =
     lookup_row (\<lambda>a. ar_task_id a = tr_id t \<and> ar_attempt_number a = tr_current_attempt_number t) (pt_attempts db)"

definition attempt_result :: "plan_tables \<Rightarrow> attempt_row \<Rightarrow> result_row option" where
  "attempt_result db a = lookup_row (\<lambda>r. rs_task_attempt_id r = ar_id a) (pt_results db)"

definition coalesce :: "'a option \<Rightarrow> 'a option \<Rightarrow> 'a option" where
  "coalesce x y = (case x of None \<Rightarrow> y | Some v \<Rightarrow> Some v)"

definition external_dependencies ::
  "(dependency_row list \<Rightarrow> dependency_row list) \<Rightarrow> plan_tables \<Rightarrow> task_row \<Rightarrow> string list" where
  "external_dependencies scan db t =
     concat (map (\<lambda>d. map tr_external_task_id (filter (\<lambda>u. tr_id u = dr_depends_on_task_id d) (pt_tasks db)))
       (scan (filter (\<lambda>d. dr_task_id d = tr_id t) (pt_dependencies db))))"

definition map_task ::
  "(dependency_row list \<Rightarrow> dependency_row list) \<Rightarrow> plan_tables \<Rightarrow> run_row \<Rightarrow> task_row \<Rightarrow> TaskSummary stored" where
  "map_task scan db r t =
    (let a = current_attempt db t; res = Option.bind a (attempt_result db) in
     and_then (ok_or (Sqlite ''conversion failure'') (parse_task_state (tr_state t))) (\<lambda>st.
       Inr \<lparr>tk_id = tr_id t, tk_run_id = tr_run_id t, tk_external_task_id = tr_external_task_id t,
         tk_title = tr_title t, tk_objective = tr_objective t, tk_state = st, tk_priority = tr_priority t,
         tk_owner_profile = tr_owner_profile t, tk_reviewer_profile = tr_reviewer_profile t,
         tk_attempt = word_of_int (tr_current_attempt_number t),
         tk_base_sha = (case a of None \<Rightarrow> rn_base_sha r | Some x \<Rightarrow> ar_base_sha x),
         tk_head_sha = coalesce (Option.bind a ar_head_sha) (Option.bind res rs_verified_commit_sha),
         tk_token_budget = map_option word_of_int (Option.bind a ar_token_budget),
         tk_dependencies = external_dependencies scan db t,
         tk_failure_reason = coalesce (Option.bind a ar_failure_reason) (tr_failure_reason t),
         tk_version = word_of_int (tr_version t)\<rparr>))"

definition run_of_task :: "plan_tables \<Rightarrow> task_row \<Rightarrow> run_row option" where
  "run_of_task db t = lookup_row (\<lambda>r. rn_id r = tr_run_id t) (pt_runs db)"

definition task ::
  "(dependency_row list \<Rightarrow> dependency_row list) \<Rightarrow> string \<Rightarrow> plan_tables \<Rightarrow> TaskSummary stored" where
  "task scan i db = (case lookup_row (\<lambda>t. tr_id t = i \<and> run_of_task db t \<noteq> None) (pt_tasks db) of
     None \<Rightarrow> Inl (NotFound (''task '' @ i))
   | Some t \<Rightarrow> map_task scan db (the (run_of_task db t)) t)"

definition priority_rank :: "string \<Rightarrow> nat" where
  "priority_rank p = (if p = ''P0'' then 0 else if p = ''P1'' then 1 else if p = ''P2'' then 2 else 3)"

definition list_tasks ::
  "(dependency_row list \<Rightarrow> dependency_row list) \<Rightarrow> (task_row list \<Rightarrow> task_row list) \<Rightarrow> string \<Rightarrow> plan_tables \<Rightarrow>
   TaskSummary list stored" where
  "list_tasks scan scan_tasks run_id db =
     try_map (\<lambda>t. map_task scan db (the (run_of_task db t)) t)
       (sort_key (\<lambda>t. priority_rank (tr_priority t)) (sort_key tr_created_at
         (scan_tasks (filter (\<lambda>t. tr_run_id t = run_id \<and> run_of_task db t \<noteq> None) (pt_tasks db)))))"

section \<open>Updating tasks\<close>

definition transition_task ::
  "(dependency_row list \<Rightarrow> dependency_row list) \<Rightarrow> i64 \<Rightarrow> string \<Rightarrow> TaskState \<Rightarrow> u64 option \<Rightarrow> plan_tables \<Rightarrow>
   TaskSummary stored \<times> plan_tables" where
  "transition_task scan now i next_state expected_version db =
    (case and_then (task scan i db) (\<lambda>current.
       if is_some_and (\<lambda>v. v \<noteq> tk_version current) expected_version
       then Inl (Conflict (''stale task version for '' @ i))
       else if \<not> task_can_transition_to (tk_state current) next_state
       then Inl (Conflict (''illegal task transition '' @ task_state_text (tk_state current) @ '' -> ''
              @ task_state_text next_state))
       else and_then (sqlite_version (tk_version current)) (\<lambda>current_version.
         let hit = (\<lambda>t. tr_id t = i \<and> tr_version t = current_version)
         in if changed_rows hit (pt_tasks db) \<noteq> 1
            then Inl (Conflict (''task '' @ i @ '' changed concurrently''))
            else Inr (db\<lparr>pt_tasks := update_where hit
              (\<lambda>t. t\<lparr>tr_state := task_state_text next_state, tr_updated_at := now, tr_version := tr_version t + 1\<rparr>)
              (pt_tasks db)\<rparr>))) of
       Inl e \<Rightarrow> (Inl e, db)
     | Inr db' \<Rightarrow> (task scan i db', db'))"

definition set_task_failure_reason :: "i64 \<Rightarrow> string \<Rightarrow> string option \<Rightarrow> plan_tables \<Rightarrow> unit stored \<times> plan_tables" where
  "set_task_failure_reason now i failure_reason db =
    (if changed_rows (\<lambda>t. tr_id t = i) (pt_tasks db) \<noteq> 1 then Inl (NotFound (''task '' @ i)) else Inr (),
     db\<lparr>pt_tasks := update_where (\<lambda>t. tr_id t = i)
       (\<lambda>t. t\<lparr>tr_failure_reason := failure_reason, tr_updated_at := now, tr_version := tr_version t + 1\<rparr>) (pt_tasks db)\<rparr>)"




section \<open>Attempts and results\<close>

record NewTaskAttempt =
  na_id :: string
  na_task_id :: string
  na_attempt_number :: u32
  na_state :: string
  na_packet :: TaskPacket
  na_packet_sha256 :: string
  na_base_sha :: string
  na_requested_model_route :: string

definition new_attempt_row :: "i64 \<Rightarrow> NewTaskAttempt \<Rightarrow> string \<Rightarrow> attempt_row" where
  "new_attempt_row now v packet_json =
    \<lparr>ar_id = na_id v, ar_task_id = na_task_id v, ar_attempt_number = uint (na_attempt_number v),
     ar_state = na_state v, ar_task_packet_json = packet_json, ar_task_packet_sha256 = na_packet_sha256 v,
     ar_base_sha = na_base_sha v, ar_head_sha = None, ar_requested_model_route = na_requested_model_route v,
     ar_token_budget = Some (sint (tp_token_budget (na_packet v))),
     ar_tool_budget = map_option (\<lambda>b. sint b) (tp_tool_budget (na_packet v)),
     ar_diff_file_budget = uint (db_files (tp_diff_budget (na_packet v))),
     ar_diff_line_budget = uint (db_lines (tp_diff_budget (na_packet v))),
     ar_started_at = None, ar_completed_at = None, ar_terminal_class = None, ar_failure_reason = None,
     ar_created_at = now, ar_updated_at = now, ar_version = 1\<rparr>"

definition create_task_attempt ::
  "TaskPacket codec \<Rightarrow> i64 \<Rightarrow> NewTaskAttempt \<Rightarrow> plan_tables \<Rightarrow> unit stored \<times> plan_tables" where
  "create_task_attempt c now v db =
    (case and_then (to_json c (na_packet v)) (\<lambda>packet_json.
       if list_ex (\<lambda>a. ar_id a = na_id v \<or> ar_task_id a = na_task_id v \<and>
            ar_attempt_number a = uint (na_attempt_number v)) (pt_attempts db)
       then Inl (unique_failed ''task_attempts'')
       else if na_task_id v \<notin> tr_id ` set (pt_tasks db) then Inl (Sqlite ''FOREIGN KEY constraint failed'')
       else if na_id v \<in> rs_task_attempt_id ` set (pt_results db) then Inl (unique_failed ''task_results'')
       else Inr (db\<lparr>pt_attempts := pt_attempts db @ [new_attempt_row now v packet_json],
         pt_tasks := update_where (\<lambda>t. tr_id t = na_task_id v)
           (\<lambda>t. t\<lparr>tr_current_attempt_number := uint (na_attempt_number v), tr_state := ''LEASED'',
                 tr_failure_reason := None, tr_updated_at := now, tr_version := tr_version t + 1\<rparr>) (pt_tasks db),
         pt_results := pt_results db @ [\<lparr>rs_task_attempt_id = na_id v, rs_verified_commit_sha = None,
           rs_diff_files = 0, rs_diff_additions = 0, rs_diff_deletions = 0, rs_unexpected_paths_json = ''[]'',
           rs_updated_at = now\<rparr>]\<rparr>)) of
       Inl e \<Rightarrow> (Inl e, db)
     | Inr db' \<Rightarrow> (Inr (), db'))"

definition set_attempt_composed_base ::
  "TaskPacket codec \<Rightarrow> (string \<Rightarrow> string) \<Rightarrow> i64 \<Rightarrow> string \<Rightarrow> TaskPacket \<Rightarrow> string \<Rightarrow> plan_tables \<Rightarrow> unit stored \<times> plan_tables" where
  "set_attempt_composed_base c sha now i packet base_sha db =
    (case to_json c packet of
       Inl e \<Rightarrow> (Inl e, db)
     | Inr packet_json \<Rightarrow>
        (if changed_rows (\<lambda>a. ar_id a = i) (pt_attempts db) \<noteq> 1 then Inl (NotFound (''attempt '' @ i)) else Inr (),
         db\<lparr>pt_attempts := update_where (\<lambda>a. ar_id a = i)
           (\<lambda>a. a\<lparr>ar_task_packet_json := packet_json, ar_task_packet_sha256 := sha packet_json, ar_base_sha := base_sha,
                 ar_token_budget := Some (sint (tp_token_budget packet)),
                 ar_tool_budget := map_option (\<lambda>b. sint b) (tp_tool_budget packet),
                 ar_updated_at := now, ar_version := ar_version a + 1\<rparr>) (pt_attempts db)\<rparr>))"

definition set_attempt_result ::
  "i64 \<Rightarrow> string \<Rightarrow> string \<Rightarrow> string option \<Rightarrow> string option \<Rightarrow> string option \<Rightarrow> plan_tables \<Rightarrow> plan_tables" where
  "set_attempt_result now i st head_sha terminal_class failure_reason db =
    (let terminal = (st \<in> set [''COMPLETED'', ''FAILED'', ''INTERRUPTED'', ''STALLED''])
     in db\<lparr>pt_attempts := update_where (\<lambda>a. ar_id a = i)
       (\<lambda>a. a\<lparr>ar_state := st, ar_head_sha := coalesce head_sha (ar_head_sha a), ar_terminal_class := terminal_class,
             ar_failure_reason := failure_reason, ar_started_at := coalesce (ar_started_at a) (Some now),
             ar_completed_at := (if terminal then Some now else ar_completed_at a),
             ar_updated_at := now, ar_version := ar_version a + 1\<rparr>) (pt_attempts db)\<rparr>)"

definition set_task_diff_result ::
  "(string list \<Rightarrow> string) \<Rightarrow> i64 \<Rightarrow> string \<Rightarrow> string option \<Rightarrow> u32 \<Rightarrow> u64 \<Rightarrow> u64 \<Rightarrow> string list \<Rightarrow> plan_tables \<Rightarrow> plan_tables" where
  "set_task_diff_result to_string now i head_sha files additions deletions unexpected_paths db =
    db\<lparr>pt_results := update_where (\<lambda>r. rs_task_attempt_id r = i)
      (\<lambda>r. r\<lparr>rs_verified_commit_sha := coalesce head_sha (rs_verified_commit_sha r), rs_diff_files := uint files,
            rs_diff_additions := sint additions, rs_diff_deletions := sint deletions,
            rs_unexpected_paths_json := to_string unexpected_paths, rs_updated_at := now\<rparr>) (pt_results db)\<rparr>"

definition verified_commit :: "plan_tables \<Rightarrow> task_row \<Rightarrow> string option" where
  "verified_commit db t = Option.bind (Option.bind (current_attempt db t) (attempt_result db)) rs_verified_commit_sha"

text \<open>\<open>ORDER BY created_at, id\<close> is a total order, so no scan order is involved.\<close>

definition verified_task_commits :: "string \<Rightarrow> plan_tables \<Rightarrow> (string \<times> string) list" where
  "verified_task_commits run_id db =
     List.map_filter (\<lambda>t. map_option (\<lambda>sha. (tr_id t, sha)) (verified_commit db t))
       (sort_key tr_created_at (sort_key tr_id
         (filter (\<lambda>t. tr_run_id t = run_id \<and> tr_state t = ''VERIFIED'') (pt_tasks db))))"

section \<open>What storing a plan leaves\<close>

text \<open>The foreign keys and primary keys of tasks and dependencies.\<close>

definition task_keys_ok :: "plan_tables \<Rightarrow> bool" where
  "task_keys_ok db \<longleftrightarrow> distinct (map tr_id (pt_tasks db)) \<and>
     (\<forall>d \<in> set (pt_dependencies db). dr_task_id d \<in> tr_id ` set (pt_tasks db) \<and> dr_depends_on_task_id d \<in> tr_id ` set (pt_tasks db))"

lemma delete_tasks_keys: "task_keys_ok db \<Longrightarrow> task_keys_ok (delete_tasks p db)"
  by (auto simp: task_keys_ok_def delete_tasks_def Let_def distinct_map_filter list_ex_iff)

definition dependency_row_of :: "(string \<times> string) list \<Rightarrow> TaskPacket \<Rightarrow> string \<Rightarrow> dependency_row" where
  "dependency_row_of ids packet external =
    \<lparr>dr_task_id = the (map_of ids (tp_task_id packet)), dr_depends_on_task_id = the (map_of ids external),
     dr_expected_dependency_sha = map_of (tp_dependency_shas packet) external\<rparr>"

lemma store_dependencies_ok:
  "store_dependencies ids p i ds db = Inr db' \<Longrightarrow> map_of ids (tp_task_id p) = Some i \<Longrightarrow>
     db' = db\<lparr>pt_dependencies := pt_dependencies db @ map (dependency_row_of ids p) ds\<rparr> \<and> set ds \<subseteq> fst ` set ids"
proof (induction ds arbitrary: db)
  case (Cons d ds)
  from Cons.prems obtain x where x: "map_of ids d = Some x"
    and rest: "store_dependencies ids p i ds (db\<lparr>pt_dependencies := pt_dependencies db @ [dependency_row_of ids p d]\<rparr>) = Inr db'"
    by (auto simp: and_then_ok insert_dependency_def dependency_row_of_def split: if_splits)
  from Cons.IH [OF rest Cons.prems(2)] map_of_SomeD [OF x] show ?case by force
qed simp

lemma store_all_dependencies_ok:
  "store_all_dependencies ids ps db = Inr db' \<Longrightarrow>
     db' = db\<lparr>pt_dependencies := pt_dependencies db @ concat (map (\<lambda>p. map (dependency_row_of ids p) (tp_depends_on p)) ps)\<rparr> \<and>
     (\<forall>p \<in> set ps. set (tp_depends_on p) \<subseteq> fst ` set ids)"
proof (induction ps arbitrary: db)
  case (Cons p ps)
  from Cons.prems obtain i db1 where i: "map_of ids (tp_task_id p) = Some i"
    and one: "store_dependencies ids p i (tp_depends_on p) db = Inr db1"
    and rest: "store_all_dependencies ids ps db1 = Inr db'"
    by (auto simp: and_then_ok)
  from store_dependencies_ok [OF one i] Cons.IH [OF rest] show ?case by simp
qed simp

lemma new_task_row_fields [simp]:
  "tr_id (new_task_row run_id rev_id now i p) = i" "tr_run_id (new_task_row run_id rev_id now i p) = run_id"
  "tr_plan_revision_id (new_task_row run_id rev_id now i p) = rev_id"
  "tr_external_task_id (new_task_row run_id rev_id now i p) = tp_task_id p"
  "tr_state (new_task_row run_id rev_id now i p) = ''PROPOSED''"
  by (simp_all add: new_task_row_def)

lemma store_tasks_ok:
  assumes "store_tasks run_id rev_id now ps ids db = Inr (ids', db')" and "distinct (map tr_id (pt_tasks db))"
  shows "db' = db\<lparr>pt_tasks := pt_tasks db @ map (\<lambda>(p, i). new_task_row run_id rev_id now i p) ps\<rparr> \<and>
    ids' = rev (map (\<lambda>(p, i). (tp_task_id p, i)) ps) @ ids \<and> distinct (map tr_id (pt_tasks db')) \<and>
    distinct (map (tp_task_id \<circ> fst) ps) \<and>
    (\<forall>t \<in> set (pt_tasks db). tr_run_id t = run_id \<longrightarrow> tr_external_task_id t \<notin> set (map (tp_task_id \<circ> fst) ps))"
  using assms
proof (induction ps arbitrary: ids db)
  case (Cons pair ps)
  obtain p i where pair: "pair = (p, i)" by (cases pair)
  let ?t = "new_task_row run_id rev_id now i p"
  from Cons.prems(1) obtain db1 where ins: "insert_task ?t db = Inr db1"
    and rest: "store_tasks run_id rev_id now ps ((tp_task_id p, i) # ids) db1 = Inr (ids', db')"
    by (auto simp: pair and_then_ok)
  from ins have db1: "db1 = db\<lparr>pt_tasks := pt_tasks db @ [?t]\<rparr>"
    and new: "\<forall>t \<in> set (pt_tasks db). tr_id t \<noteq> i \<and> \<not> (tr_run_id t = run_id \<and> tr_external_task_id t = tp_task_id p)"
    by (auto simp: insert_task_def list_ex_iff split: if_splits)
  have "distinct (map tr_id (pt_tasks db1))" using Cons.prems(2) new by (auto simp: db1)
  note IH = Cons.IH [OF rest this]
  show ?case
  proof (intro conjI)
    show "distinct (map tr_id (pt_tasks db'))" using IH by blast
    show "db' = db\<lparr>pt_tasks := pt_tasks db @ map (\<lambda>(p, i). new_task_row run_id rev_id now i p) (pair # ps)\<rparr>"
      using conjunct1 [OF IH] by (simp add: db1 pair)
  qed (use IH new in \<open>auto simp: db1 pair\<close>)
qed auto

lemma fresh_ids_names: "map (tp_task_id \<circ> fst) (fresh_ids nid packets) = map tp_task_id packets"
  unfolding fresh_ids_def map_map [symmetric] by simp

lemma plan_stored:
  assumes "store_plan c sha now rev_id nid run_id arch plan db = (Inr x, db')" and "task_keys_ok db"
  obtains raw ids where "enc c plan = Some raw"
    "ids = rev (map (\<lambda>(p, i). (tp_task_id p, i)) (fresh_ids nid (plan_tasks plan)))"
    "pt_plans db' = pt_plans (supersede_open run_id (drop_open_tasks run_id db)) @
       [\<lparr>pl_id = rev_id, pl_run_id = run_id, pl_revision = next_revision run_id (pt_plans db),
         pl_architect_agent_session_id = arch, pl_plan_json = raw, pl_plan_sha256 = sha raw,
         pl_state = ''PROPOSED'', pl_created_at = now, pl_approved_at = None, pl_approved_by = None\<rparr>]"
    "pt_tasks db' = pt_tasks (drop_open_tasks run_id db) @
       map (\<lambda>(p, i). new_task_row run_id rev_id now i p) (fresh_ids nid (plan_tasks plan))"
    "pt_dependencies db' = pt_dependencies (drop_open_tasks run_id db) @
       concat (map (\<lambda>p. map (dependency_row_of ids p) (tp_depends_on p)) (plan_tasks plan))"
    "distinct (map tr_id (pt_tasks db'))" "distinct (map tp_task_id (plan_tasks plan))"
    "\<forall>p \<in> set (plan_tasks plan). set (tp_depends_on p) \<subseteq> tp_task_id ` set (plan_tasks plan)"
    "pt_runs db' = pt_runs db"
proof -
  let ?pairs = "fresh_ids nid (plan_tasks plan)"
  define old where "old = supersede_open run_id (drop_open_tasks run_id db)"
  have old: "pt_tasks old = pt_tasks (drop_open_tasks run_id db)"
    "pt_dependencies old = pt_dependencies (drop_open_tasks run_id db)" "pt_runs old = pt_runs db"
    by (simp_all add: old_def supersede_open_def drop_open_tasks_def delete_tasks_def Let_def)
  have keys: "distinct (map tr_id (pt_tasks old))"
    using delete_tasks_keys [OF assms(2)] by (simp add: old task_keys_ok_def drop_open_tasks_def)
  from assms(1) obtain raw row db1 ids db2 where raw: "enc c plan = Some raw"
    and row: "row = \<lparr>pl_id = rev_id, pl_run_id = run_id, pl_revision = next_revision run_id (pt_plans db),
         pl_architect_agent_session_id = arch, pl_plan_json = raw, pl_plan_sha256 = sha raw,
         pl_state = ''PROPOSED'', pl_created_at = now, pl_approved_at = None, pl_approved_by = None\<rparr>"
    and ins: "insert_plan row old = Inr db1" and tasks: "store_tasks run_id rev_id now ?pairs [] db1 = Inr (ids, db2)"
    and deps: "store_all_dependencies ids (plan_tasks plan) db2 = Inr db'"
    by (auto simp: store_plan_def and_then_ok Let_def old_def split: sum.splits prod.splits)
  from ins have db1: "db1 = old\<lparr>pt_plans := pt_plans old @ [row]\<rparr>" by (auto simp: insert_plan_def split: if_splits)
  note names = fresh_ids_names [of nid "plan_tasks plan"]
  have "distinct (map tr_id (pt_tasks db1))" using keys by (simp add: db1)
  from store_tasks_ok [OF tasks this]
  have db2: "db2 = db1\<lparr>pt_tasks := pt_tasks db1 @ map (\<lambda>(p, i). new_task_row run_id rev_id now i p) ?pairs\<rparr>"
    and ids: "ids = rev (map (\<lambda>(p, i). (tp_task_id p, i)) ?pairs)" and dist: "distinct (map tr_id (pt_tasks db2))"
    and distinct: "distinct (map tp_task_id (plan_tasks plan))" unfolding names by blast+
  have "fst ` set ids = set (map (tp_task_id \<circ> fst) ?pairs)" by (force simp: ids)
  then have domain: "fst ` set ids = tp_task_id ` set (plan_tasks plan)" by (simp add: names)
  note last = store_all_dependencies_ok [OF deps]
  show ?thesis
    by (rule that [OF raw ids])
      (use last dist distinct domain in \<open>simp_all add: db1 db2 old row flip: old_def\<close>)
qed

section \<open>Reading a stored plan back\<close>

lemma filter_unique: "distinct (map key xs) \<Longrightarrow> x \<in> set xs \<Longrightarrow> filter (\<lambda>u. key u = key x) xs = [x]"
  by (induction xs) (auto simp: filter_empty_conv rev_image_eqI)

lemma filter_concat_one:
  assumes "distinct ps" and "p \<in> set ps" and "\<And>q x. q \<in> set ps \<Longrightarrow> x \<in> set (f q) \<Longrightarrow> Q x \<longleftrightarrow> q = p"
  shows "filter Q (concat (map f ps)) = f p"
  using assms
proof (induction ps)
  case (Cons q ps)
  have none: "filter Q (concat (map f ps)) = []" if "q = p"
    using Cons.prems that by (auto simp: filter_empty_conv filter_concat)
  show ?case
  proof (cases "q = p")
    case True
    with Cons.prems none show ?thesis by (auto simp: filter_id_conv)
  next
    case False
    with Cons.prems have "filter Q (f q) = []" by (auto simp: filter_empty_conv)
    with False Cons show ?thesis by simp
  qed
qed simp

lemma mset_concat_scan:
  assumes "mset (scan xs) = mset xs"
  shows "mset (concat (map g (scan xs))) = mset (concat (map g xs))"
proof -
  have "mset (map (mset \<circ> g) (scan xs)) = mset (map (mset \<circ> g) xs)" using assms by simp
  then have "sum_list (map (mset \<circ> g) (scan xs)) = sum_list (map (mset \<circ> g) xs)" by (metis sum_mset_sum_list)
  then show ?thesis by (simp add: mset_concat comp_def)
qed

lemma latest_of_snoc:
  assumes "\<And>r. r \<in> set rows \<Longrightarrow> pl_run_id r = pl_run_id row \<Longrightarrow> pl_revision r < pl_revision row"
  shows "latest_row (pl_run_id row) (rows @ [row]) = Some row"
proof -
  obtain r where r: "latest_row (pl_run_id row) (rows @ [row]) = Some r"
    by (cases "filter (\<lambda>r. pl_run_id r = pl_run_id row) rows") (auto simp: latest_row_def)
  from latest_row_Some [OF r] assms have "r = row" by (metis in_set_conv_decomp leD set_ConsD append_Nil2 Un_iff set_append empty_iff empty_set)
  with r show ?thesis by simp
qed

lemma fresh_id_of:
  assumes "p \<in> set packets" and "distinct (map tp_task_id packets)"
    and "ids = rev (map (\<lambda>(p, i). (tp_task_id p, i)) (fresh_ids nid packets))"
  shows "(p, the (map_of ids (tp_task_id p))) \<in> set (fresh_ids nid packets)"
proof -
  from assms(1) obtain k where k: "k < length packets" "p = packets ! k" by (auto simp: in_set_conv_nth)
  then have mem: "(p, nid k) \<in> set (fresh_ids nid packets)" by (auto simp: fresh_ids_def in_set_zip)
  have "map fst ids = rev (map (tp_task_id \<circ> fst) (fresh_ids nid packets))"
    by (simp add: assms(3) rev_map case_prod_unfold comp_def)
  then have "map fst ids = rev (map tp_task_id packets)" by (simp only: fresh_ids_names)
  moreover have "(tp_task_id p, nid k) \<in> set ids" using mem by (force simp: assms(3))
  ultimately have "map_of ids (tp_task_id p) = Some (nid k)" using assms(2) by (intro map_of_is_SomeI) simp_all
  with mem show ?thesis by simp
qed

text \<open>The rows a packet leaves: its task, and the dependencies of that task.\<close>

lemma packet_stored:
  assumes "store_plan c sha now rev_id nid run_id arch plan db = (Inr x, db')" and "task_keys_ok db"
    and "p \<in> set (plan_tasks plan)" and "ids = rev (map (\<lambda>(p, i). (tp_task_id p, i)) (fresh_ids nid (plan_tasks plan)))"
    and "t = new_task_row run_id rev_id now (the (map_of ids (tp_task_id p))) p"
  shows "t \<in> set (pt_tasks db')"
    and "filter (\<lambda>d. dr_task_id d = tr_id t) (pt_dependencies db') = map (dependency_row_of ids p) (tp_depends_on p)"
proof -
  let ?ps = "plan_tasks plan" and ?old = "drop_open_tasks run_id db"
  from plan_stored [OF assms(1,2)] have tasks: "pt_tasks db' = pt_tasks ?old @
       map (\<lambda>(p, i). new_task_row run_id rev_id now i p) (fresh_ids nid ?ps)"
    and deps: "pt_dependencies db' = pt_dependencies ?old @ concat (map (\<lambda>p. map (dependency_row_of ids p) (tp_depends_on p)) ?ps)"
    and keys: "distinct (map tr_id (pt_tasks db'))" and names: "distinct (map tp_task_id ?ps)"
    unfolding assms(4) by metis+
  define i where "i = (\<lambda>q :: TaskPacket. the (map_of ids (tp_task_id q)))"
  have mem: "new_task_row run_id rev_id now (i q) q \<in> set (pt_tasks db')" if "q \<in> set ?ps" for q
    using fresh_id_of [OF that names assms(4)] by (force simp: tasks i_def)
  then show t: "t \<in> set (pt_tasks db')" using assms(3) by (simp add: assms(5) i_def)
  have inj: "q = p" if "q \<in> set ?ps" "i q = i p" for q
  proof -
    have "new_task_row run_id rev_id now (i q) q = new_task_row run_id rev_id now (i p) p"
      using mem [OF that(1)] mem [OF assms(3)] keys that(2) by (auto simp: distinct_map inj_on_def)
    then have "tp_task_id q = tp_task_id p" by (metis new_task_row_fields(4))
    then show ?thesis using names that(1) assms(3) by (auto simp: distinct_map inj_on_def)
  qed
  have "dr_task_id d \<noteq> i p" if "d \<in> set (pt_dependencies ?old)" for d
  proof -
    from delete_tasks_keys [OF assms(2)] that have "dr_task_id d \<in> tr_id ` set (pt_tasks ?old)"
      by (simp add: task_keys_ok_def drop_open_tasks_def)
    moreover from fresh_id_of [OF assms(3) names assms(4)]
    have "i p \<in> tr_id ` set (map (\<lambda>(p, i). new_task_row run_id rev_id now i p) (fresh_ids nid ?ps))"
      by (force simp: i_def)
    ultimately show ?thesis using keys unfolding tasks map_append distinct_append by (metis IntI empty_iff list.set_map)
  qed
  then have kept: "filter (\<lambda>d. dr_task_id d = i p) (pt_dependencies ?old) = []" by (auto simp: filter_empty_conv)
  have dep_id: "dr_task_id (dependency_row_of ids q e) = i q" for q e by (simp add: dependency_row_of_def i_def)
  have "distinct ?ps" using names by (simp add: distinct_map)
  then have "filter (\<lambda>d. dr_task_id d = i p) (concat (map (\<lambda>p. map (dependency_row_of ids p) (tp_depends_on p)) ?ps)) =
      map (dependency_row_of ids p) (tp_depends_on p)"
    by (rule filter_concat_one [OF _ assms(3)]) (auto simp: dep_id intro: inj)
  with kept show "filter (\<lambda>d. dr_task_id d = tr_id t) (pt_dependencies db') = map (dependency_row_of ids p) (tp_depends_on p)"
    by (simp add: deps assms(5) i_def)
qed

lemma packet_dependencies:
  assumes "store_plan c sha now rev_id nid run_id arch plan db = (Inr x, db')" and "task_keys_ok db"
    and "p \<in> set (plan_tasks plan)" and "ids = rev (map (\<lambda>(p, i). (tp_task_id p, i)) (fresh_ids nid (plan_tasks plan)))"
    and "t = new_task_row run_id rev_id now (the (map_of ids (tp_task_id p))) p" and "\<And>xs. mset (scan xs) = mset xs"
  shows "mset (external_dependencies scan db' t) = mset (tp_depends_on p)"
proof -
  let ?g = "\<lambda>d. map tr_external_task_id (filter (\<lambda>u. tr_id u = dr_depends_on_task_id d) (pt_tasks db'))"
  from plan_stored [OF assms(1,2)] have keys: "distinct (map tr_id (pt_tasks db'))"
    and named: "\<forall>p \<in> set (plan_tasks plan). set (tp_depends_on p) \<subseteq> tp_task_id ` set (plan_tasks plan)" by metis+
  have one: "?g (dependency_row_of ids p e) = [e]" if "e \<in> set (tp_depends_on p)" for e
  proof -
    from named assms(3) that obtain q where q: "q \<in> set (plan_tasks plan)" "e = tp_task_id q" by blast
    let ?u = "new_task_row run_id rev_id now (the (map_of ids (tp_task_id q))) q"
    have "filter (\<lambda>u. tr_id u = tr_id ?u) (pt_tasks db') = [?u]"
      by (rule filter_unique [OF keys packet_stored(1) [OF assms(1,2) q(1) assms(4) refl]])
    then show ?thesis by (simp add: dependency_row_of_def q(2))
  qed
  have "mset (external_dependencies scan db' t) = mset (concat (map ?g (filter (\<lambda>d. dr_task_id d = tr_id t) (pt_dependencies db'))))"
    unfolding external_dependencies_def by (rule mset_concat_scan [OF assms(6)])
  also have "\<dots> = mset (concat (map (\<lambda>e. [e]) (tp_depends_on p)))"
    using one by (simp add: packet_stored(2) [OF assms(1-5)] comp_def cong: map_cong)
  finally show ?thesis by simp
qed

text \<open>
  C16. A stored plan is the plan that was handed in: reading the latest revision gives it back, proposed, and
  every packet has a task of that revision whose dependencies, read through the joins, are exactly the
  packet's.
\<close>

theorem stored_plan_is_read_back:
  assumes "store_plan c sha now rev_id nid run_id arch plan db = (Inr x, db')" and "task_keys_ok db"
    and "codec_ok c" and "\<And>xs. mset (scan xs) = mset xs"
  shows "(\<exists>n. latest_plan c run_id db' = Inr (Some (rev_id, plan, ''PROPOSED'', n))) \<and>
    (\<forall>p \<in> set (plan_tasks plan). \<exists>t \<in> set (pt_tasks db'). tr_run_id t = run_id \<and> tr_plan_revision_id t = rev_id \<and>
       tr_external_task_id t = tp_task_id p \<and> tr_state t = ''PROPOSED'' \<and>
       mset (external_dependencies scan db' t) = mset (tp_depends_on p))"
proof (rule conjI)
  let ?row = "\<lambda>raw. \<lparr>pl_id = rev_id, pl_run_id = run_id, pl_revision = next_revision run_id (pt_plans db),
         pl_architect_agent_session_id = arch, pl_plan_json = raw, pl_plan_sha256 = sha raw,
         pl_state = ''PROPOSED'', pl_created_at = now, pl_approved_at = None, pl_approved_by = None\<rparr>"
  obtain raw where raw: "enc c plan = Some raw"
    and stored: "pt_plans db' = pt_plans (supersede_open run_id (drop_open_tasks run_id db)) @ [?row raw]"
    by (rule plan_stored [OF assms(1,2)], rule that; assumption)
  define row where new: "row = ?row raw"
  have plans: "pt_plans db' = pt_plans (supersede_open run_id (drop_open_tasks run_id db)) @ [row]"
    using stored unfolding new .
  have row: "pl_run_id row = run_id" "pl_id row = rev_id" "pl_plan_json row = raw" "pl_state row = ''PROPOSED''"
    "pl_revision row = next_revision run_id (pt_plans db)" by (simp_all add: new)
  have "latest_row (pl_run_id row) (pt_plans db') = Some row" unfolding plans
  proof (rule latest_of_snoc)
    fix r assume r: "r \<in> set (pt_plans (supersede_open run_id (drop_open_tasks run_id db)))" "pl_run_id r = pl_run_id row"
    then obtain r0 where "r0 \<in> set (pt_plans db)" "pl_run_id r0 = pl_run_id r" "pl_revision r0 = pl_revision r"
      by (auto simp: supersede_open_def drop_open_tasks_def delete_tasks_def Let_def update_where_def split: if_splits)
    with next_revision_above r(2) row(1,5) show "pl_revision r < pl_revision row" by metis
  qed
  with codec_okD [OF assms(3) raw] show "\<exists>n. latest_plan c run_id db' = Inr (Some (rev_id, plan, ''PROPOSED'', n))"
    by (simp add: latest_plan_def row)
next
  show "\<forall>p \<in> set (plan_tasks plan). \<exists>t \<in> set (pt_tasks db'). tr_run_id t = run_id \<and> tr_plan_revision_id t = rev_id \<and>
       tr_external_task_id t = tp_task_id p \<and> tr_state t = ''PROPOSED'' \<and>
       mset (external_dependencies scan db' t) = mset (tp_depends_on p)"
    using packet_stored(1) [OF assms(1,2) _ refl refl] packet_dependencies [OF assms(1,2) _ refl refl assms(4)]
    by (meson new_task_row_fields)
qed

section \<open>Progress of an approved plan\<close>

definition dependency_edges :: "dependency_row list \<Rightarrow> (string \<times> string) set" where
  "dependency_edges ds = (\<lambda>d. (dr_task_id d, dr_depends_on_task_id d)) ` set ds"

definition dependencies_in_run :: "plan_tables \<Rightarrow> bool" where
  "dependencies_in_run db \<longleftrightarrow> (\<forall>d \<in> set (pt_dependencies db). \<forall>t \<in> set (pt_tasks db). \<forall>u \<in> set (pt_tasks db).
     tr_id t = dr_task_id d \<longrightarrow> tr_id u = dr_depends_on_task_id d \<longrightarrow> tr_run_id t = tr_run_id u)"










section \<open>Witnesses\<close>

definition stored_tables :: plan_tables where
  "stored_tables = snd (store_plan plan_codec id 1 ''rev-1'' numbered ''r'' ''arch'' sample_plan plan_base)"


lemma sample_stored:
  "store_plan plan_codec id 1 ''rev-1'' numbered ''r'' ''arch'' sample_plan plan_base = (Inr ''rev-1'', stored_tables)"
proof -
  have "fst (store_plan plan_codec id 1 ''rev-1'' numbered ''r'' ''arch'' sample_plan plan_base) = Inr ''rev-1''" by code_simp
  then show ?thesis by (metis prod.collapse stored_tables_def)
qed

lemma plan_base_ok: "task_keys_ok plan_base" "acyclic (dependency_edges (pt_dependencies plan_base))" "dependencies_in_run plan_base"
  by (simp_all add: plan_base_def task_keys_ok_def dependency_edges_def dependencies_in_run_def acyclic_def)

lemma plan_codec_ok: "codec_ok plan_codec"
  unfolding plan_codec_def by (rule list_codec_ok) simp

theorem stored_plan_is_read_back_witness:
  "\<exists>n t. latest_plan plan_codec ''r'' stored_tables = Inr (Some (''rev-1'', sample_plan, ''PROPOSED'', n)) \<and>
     t \<in> set (pt_tasks stored_tables) \<and> tr_external_task_id t = ''t2'' \<and> mset (external_dependencies rev stored_tables t) = {#''t1''#}"
proof -
  have "plan_task ''t2'' [''t1''] [''src/b/**''] \<in> set (plan_tasks sample_plan)" by (simp add: sample_plan_def)
  moreover have "tp_task_id (plan_task ''t2'' [''t1''] [''src/b/**'']) = ''t2''" "tp_depends_on (plan_task ''t2'' [''t1''] [''src/b/**'']) = [''t1'']"
    by (simp_all add: plan_task_def)
  ultimately show ?thesis
    using stored_plan_is_read_back [OF sample_stored plan_base_ok(1) plan_codec_ok, of rev] by fastforce
qed



end
