(* ===== verification/Path_Leases.thy ===== *)
theory Path_Leases
  imports Task_Store
begin

text \<open>
  Write leases on repository paths (\<^verbatim>\<open>crates/harness-store/src/queries.rs\<close>): an attempt leases the literal
  prefixes of its custody patterns for a time, renews them by heartbeats and releases them.

  The conflict query compares prefixes with SQLite's \<open>LIKE\<close>, in which \<open>%\<close> and \<open>_\<close> inside a stored prefix
  are wildcards and letters match regardless of case; \<open>sql_like\<close> is that operator on ASCII text. Lease ids
  (\<open>Ulid::generate\<close>) are an argument.

  The lemmas show that active leases of different attempts of one run never overlap while heartbeats come in time, and
  that a heartbeat after expiry brings back a lease that somebody else may hold by then.
\<close>

section \<open>Prefixes\<close>

fun trim_dot_slash :: "string \<Rightarrow> string" where
  "trim_dot_slash (a # b # s) = (if a = CHR ''.'' \<and> b = CHR ''/'' then trim_dot_slash s else a # b # s)"
| "trim_dot_slash s = s"

definition normalized_prefix :: "string \<Rightarrow> string" where
  "normalized_prefix path = trim_slashes (takeWhile (\<lambda>c. c \<notin> set ''*?['') (trim_dot_slash path))"

text \<open>\<open>text LIKE pat\<close>.\<close>

fun sql_like :: "string \<Rightarrow> string \<Rightarrow> bool" where
  "sql_like [] t \<longleftrightarrow> t = []"
| "sql_like (p # ps) [] \<longleftrightarrow> p = CHR ''%'' \<and> sql_like ps []"
| "sql_like (p # ps) (c # cs) \<longleftrightarrow>
     (if p = CHR ''%'' then sql_like ps (c # cs) \<or> sql_like (p # ps) cs
      else (p = CHR ''_'' \<or> to_ascii_lowercase [p] = to_ascii_lowercase [c]) \<and> sql_like ps cs)"

section \<open>Operations\<close>

definition sat_i64 :: "int \<Rightarrow> i64" where
  "sat_i64 x = max (- (2 ^ 63)) (min (2 ^ 63 - 1) x)"

definition lease_conflict :: "string \<Rightarrow> string \<Rightarrow> i64 \<Rightarrow> string \<Rightarrow> lease_row \<Rightarrow> bool" where
  "lease_conflict run_id attempt_id now p l \<longleftrightarrow>
     ls_run_id l = run_id \<and> ls_task_attempt_id l \<noteq> attempt_id \<and> ls_released_at l = None \<and> ls_expires_at l > now \<and>
     (sql_like (ls_normalized_prefix l @ ''%'') p \<or> sql_like (p @ ''%'') (ls_normalized_prefix l))"

definition insert_lease :: "lease_row \<Rightarrow> plan_tables \<Rightarrow> plan_tables stored" where
  "insert_lease row db =
    (if ls_id row \<in> ls_id ` set (pt_leases db) then Inl (unique_failed ''path_leases'')
     else if ls_run_id row \<notin> rn_id ` set (pt_runs db) \<or> ls_task_attempt_id row \<notin> ar_id ` set (pt_attempts db)
     then Inl (Sqlite ''FOREIGN KEY constraint failed'')
     else Inr (db\<lparr>pt_leases := pt_leases db @ [row]\<rparr>))"

fun acquire_each ::
  "string \<Rightarrow> string \<Rightarrow> string \<Rightarrow> i64 \<Rightarrow> i64 \<Rightarrow> (string \<times> string) list \<Rightarrow> plan_tables \<Rightarrow> plan_tables stored" where
  "acquire_each run_id attempt_id base_sha now expires [] db = Inr db"
| "acquire_each run_id attempt_id base_sha now expires ((path, lease_id) # rest) db =
    (let p = normalized_prefix path in
     case lookup_row (lease_conflict run_id attempt_id now p) (pt_leases db) of
       Some l \<Rightarrow> Inl (Conflict (''path lease '' @ path @ '' overlaps active lease '' @ ls_path_glob l))
     | None \<Rightarrow> and_then (insert_lease
         \<lparr>ls_id = lease_id, ls_run_id = run_id, ls_task_attempt_id = attempt_id, ls_path_glob = path,
          ls_normalized_prefix = p, ls_base_sha = base_sha, ls_acquired_at = now, ls_heartbeat_at = now,
          ls_expires_at = expires, ls_released_at = None, ls_release_reason = None\<rparr> db)
         (acquire_each run_id attempt_id base_sha now expires rest))"

definition acquire_path_leases ::
  "i64 \<Rightarrow> (nat \<Rightarrow> string) \<Rightarrow> string \<Rightarrow> string \<Rightarrow> string \<Rightarrow> string list \<Rightarrow> u64 \<Rightarrow> plan_tables \<Rightarrow> unit stored \<times> plan_tables" where
  "acquire_path_leases now new_id run_id attempt_id base_sha paths ttl_seconds db =
    (let expires = sat_i64 (now + sat_i64 (sint ttl_seconds * 1000)) in
     case acquire_each run_id attempt_id base_sha now expires (zip paths (map new_id [0..<length paths])) db of
       Inl e \<Rightarrow> (Inl e, db)
     | Inr db' \<Rightarrow> (Inr (), db'))"

definition release_path_leases :: "i64 \<Rightarrow> string \<Rightarrow> string \<Rightarrow> plan_tables \<Rightarrow> plan_tables" where
  "release_path_leases now attempt_id reason db = db\<lparr>pt_leases := update_where
     (\<lambda>l. ls_task_attempt_id l = attempt_id \<and> ls_released_at l = None)
     (\<lambda>l. l\<lparr>ls_released_at := Some now, ls_release_reason := Some reason\<rparr>) (pt_leases db)\<rparr>"

definition release_run_path_leases :: "i64 \<Rightarrow> string \<Rightarrow> string \<Rightarrow> plan_tables \<Rightarrow> plan_tables" where
  "release_run_path_leases now run_id reason db = db\<lparr>pt_leases := update_where
     (\<lambda>l. ls_run_id l = run_id \<and> ls_released_at l = None)
     (\<lambda>l. l\<lparr>ls_released_at := Some now, ls_release_reason := Some reason\<rparr>) (pt_leases db)\<rparr>"

definition heartbeat_expiry :: "i64 \<Rightarrow> u64 \<Rightarrow> i64" where
  "heartbeat_expiry now ttl_seconds = sat_i64 (now + sat_i64 (min (uint ttl_seconds) (2 ^ 63 - 1) * 1000))"

definition renew :: "i64 \<Rightarrow> u64 \<Rightarrow> lease_row \<Rightarrow> lease_row" where
  "renew now ttl_seconds l = l\<lparr>ls_heartbeat_at := now, ls_expires_at := heartbeat_expiry now ttl_seconds\<rparr>"

definition own_lease :: "string \<Rightarrow> lease_row \<Rightarrow> bool" where
  "own_lease attempt_id l \<longleftrightarrow> ls_task_attempt_id l = attempt_id \<and> ls_released_at l = None"

definition heartbeat_path_leases :: "i64 \<Rightarrow> string \<Rightarrow> u64 \<Rightarrow> plan_tables \<Rightarrow> nat \<times> plan_tables" where
  "heartbeat_path_leases now attempt_id ttl_seconds db =
    (changed_rows (own_lease attempt_id) (pt_leases db),
     db\<lparr>pt_leases := update_where (own_lease attempt_id) (renew now ttl_seconds) (pt_leases db)\<rparr>)"

text \<open>The current attempts of the tasks of a run that are being worked on.\<close>

definition working_attempt :: "plan_tables \<Rightarrow> string \<Rightarrow> string \<Rightarrow> bool" where
  "working_attempt db run_id attempt_id \<longleftrightarrow> list_ex (\<lambda>a. ar_id a = attempt_id \<and>
     list_ex (\<lambda>t. tr_id t = ar_task_id a \<and> tr_run_id t = run_id \<and> ar_attempt_number a = tr_current_attempt_number t \<and>
       tr_state t \<in> set [''LEASED'', ''STARTING'', ''IMPLEMENTING'', ''REVIEW_READY'', ''VERIFYING'', ''WAITING_APPROVAL''])
     (pt_tasks db)) (pt_attempts db)"

definition run_lease :: "plan_tables \<Rightarrow> string \<Rightarrow> lease_row \<Rightarrow> bool" where
  "run_lease db run_id l \<longleftrightarrow>
     ls_run_id l = run_id \<and> ls_released_at l = None \<and> working_attempt db run_id (ls_task_attempt_id l)"

definition heartbeat_run_path_leases :: "i64 \<Rightarrow> string \<Rightarrow> u64 \<Rightarrow> plan_tables \<Rightarrow> nat \<times> plan_tables" where
  "heartbeat_run_path_leases now run_id ttl_seconds db =
    (changed_rows (run_lease db run_id) (pt_leases db),
     db\<lparr>pt_leases := update_where (run_lease db run_id) (renew now ttl_seconds) (pt_leases db)\<rparr>)"

section \<open>Exclusive leases\<close>

lemma sql_like_wild: "sql_like ''%'' t"
  by (induction t) simp_all

lemma sql_like_prefix: "prefix p t \<Longrightarrow> sql_like (p @ ''%'') t"
proof (induction p arbitrary: t)
  case (Cons c p)
  from Cons.prems obtain t' where t: "t = c # t'" "prefix p t'" by (cases t) simp_all
  from Cons.IH [OF t(2)] have rest: "sql_like (p @ ''%'') t'" .
  show ?case
  proof (cases "c = CHR ''%''")
    case True
    have "sql_like (CHR ''%'' # p @ ''%'') t'"
      by (cases t') (use rest in auto)
    with True t(1) show ?thesis by simp
  next
    case False
    with rest t(1) show ?thesis by simp
  qed
qed (use sql_like_wild in simp)

datatype lease_call =
    Acquire i64 "nat \<Rightarrow> string" string string string "string list" u64
  | Release i64 string string
  | ReleaseRun i64 string string
  | Heartbeat i64 string u64
  | HeartbeatRun i64 string u64

fun lease_call_time :: "lease_call \<Rightarrow> i64" where
  "lease_call_time (Acquire now _ _ _ _ _ _) = now"
| "lease_call_time (Release now _ _) = now"
| "lease_call_time (ReleaseRun now _ _) = now"
| "lease_call_time (Heartbeat now _ _) = now"
| "lease_call_time (HeartbeatRun now _ _) = now"

fun lease_call_effect :: "lease_call \<Rightarrow> plan_tables \<Rightarrow> plan_tables" where
  "lease_call_effect (Acquire now new_id run_id attempt_id base_sha paths ttl) db =
     snd (acquire_path_leases now new_id run_id attempt_id base_sha paths ttl db)"
| "lease_call_effect (Release now attempt_id reason) db = release_path_leases now attempt_id reason db"
| "lease_call_effect (ReleaseRun now run_id reason) db = release_run_path_leases now run_id reason db"
| "lease_call_effect (Heartbeat now attempt_id ttl) db = snd (heartbeat_path_leases now attempt_id ttl db)"
| "lease_call_effect (HeartbeatRun now run_id ttl) db = snd (heartbeat_run_path_leases now run_id ttl db)"

definition active :: "i64 \<Rightarrow> lease_row \<Rightarrow> bool" where
  "active t l \<longleftrightarrow> ls_released_at l = None \<and> ls_expires_at l > t"

text \<open>A heartbeat is in time when every lease it renews is still active.\<close>

fun in_time :: "lease_call \<Rightarrow> plan_tables \<Rightarrow> bool" where
  "in_time (Heartbeat now attempt_id ttl) db = list_all (\<lambda>l. own_lease attempt_id l \<longrightarrow> active now l) (pt_leases db)"
| "in_time (HeartbeatRun now run_id ttl) db = list_all (\<lambda>l. run_lease db run_id l \<longrightarrow> active now l) (pt_leases db)"
| "in_time _ db = True"

fun timely :: "i64 \<Rightarrow> lease_call list \<Rightarrow> plan_tables \<Rightarrow> bool" where
  "timely t [] db = True"
| "timely t (call # calls) db =
    (t \<le> lease_call_time call \<and> in_time call db \<and> timely (lease_call_time call) calls (lease_call_effect call db))"

definition lease_calls :: "lease_call list \<Rightarrow> plan_tables \<Rightarrow> plan_tables" where
  "lease_calls calls db = fold lease_call_effect calls db"

definition exclusive :: "i64 \<Rightarrow> lease_row list \<Rightarrow> bool" where
  "exclusive t ls \<longleftrightarrow> (\<forall>l \<in> set ls. \<forall>l' \<in> set ls. ls_run_id l = ls_run_id l' \<longrightarrow> ls_task_attempt_id l \<noteq> ls_task_attempt_id l' \<longrightarrow>
     active t l \<longrightarrow> active t l' \<longrightarrow> \<not> prefix (ls_normalized_prefix l) (ls_normalized_prefix l'))"

lemma active_earlier: "active t' l \<Longrightarrow> t \<le> t' \<Longrightarrow> active t l"
  by (simp add: active_def)

lemma exclusive_later: "exclusive t ls \<Longrightarrow> t \<le> t' \<Longrightarrow> exclusive t' ls"
  unfolding exclusive_def by (meson active_earlier)

definition keeps_lease :: "i64 \<Rightarrow> lease_row \<Rightarrow> lease_row \<Rightarrow> bool" where
  "keeps_lease t l l' \<longleftrightarrow> ls_run_id l' = ls_run_id l \<and> ls_task_attempt_id l' = ls_task_attempt_id l \<and>
     ls_normalized_prefix l' = ls_normalized_prefix l \<and> (active t l' \<longrightarrow> active t l)"

lemma exclusive_update:
  assumes "exclusive t ls" "\<And>l. l \<in> set ls \<Longrightarrow> P l \<Longrightarrow> keeps_lease t l (f l)"
  shows "exclusive t (update_where P f ls)"
proof -
  have "\<exists>m \<in> set ls. keeps_lease t m l" if "l \<in> set (update_where P f ls)" for l
    using that assms(2) by (auto simp: update_where_def keeps_lease_def)
  then show ?thesis
    using assms(1) unfolding exclusive_def keeps_lease_def by metis
qed

lemma exclusive_append:
  assumes "exclusive now ls" "lookup_row (lease_conflict (ls_run_id l) (ls_task_attempt_id l) now (ls_normalized_prefix l)) ls = None"
  shows "exclusive now (ls @ [l])"
  using assms by (auto simp: exclusive_def lookup_row_None lease_conflict_def active_def dest: sql_like_prefix)

lemma acquire_each_exclusive:
  "acquire_each run_id attempt_id base_sha now expires todo db = Inr db' \<Longrightarrow> exclusive now (pt_leases db)
    \<Longrightarrow> exclusive now (pt_leases db')"
proof (induction run_id attempt_id base_sha now expires todo db rule: acquire_each.induct)
  case (2 run_id attempt_id base_sha now expires path lease_id rest db)
  then show ?case
    by (auto simp: Let_def insert_lease_def exclusive_append and_then_ok split: option.splits if_splits)
qed simp

lemma lease_call_keeps_exclusive:
  assumes "exclusive t (pt_leases db)" "t \<le> lease_call_time call" "in_time call db"
  shows "exclusive (lease_call_time call) (pt_leases (lease_call_effect call db))"
proof -
  have now: "exclusive (lease_call_time call) (pt_leases db)"
    by (rule exclusive_later [OF assms(1,2)])
  show ?thesis
  proof (cases call)
    case (Acquire now new_id run_id attempt_id base_sha paths ttl)
    with now acquire_each_exclusive show ?thesis
      by (auto simp: acquire_path_leases_def Let_def split: sum.splits)
  next
    case (Release now attempt_id reason)
    with now show ?thesis
      by (auto simp: release_path_leases_def keeps_lease_def active_def intro!: exclusive_update)
  next
    case (ReleaseRun now run_id reason)
    with now show ?thesis
      by (auto simp: release_run_path_leases_def keeps_lease_def active_def intro!: exclusive_update)
  next
    case (Heartbeat now attempt_id ttl)
    with now assms(3) show ?thesis
      by (auto simp: heartbeat_path_leases_def keeps_lease_def renew_def list_all_iff intro!: exclusive_update)
  next
    case (HeartbeatRun now run_id ttl)
    with now assms(3) show ?thesis
      by (auto simp: heartbeat_run_path_leases_def keeps_lease_def renew_def list_all_iff intro!: exclusive_update)
  qed
qed

lemma timely_calls_exclusive:
  "timely t calls db \<Longrightarrow> exclusive t (pt_leases db) \<Longrightarrow> t \<le> now \<Longrightarrow> list_all (\<lambda>c. lease_call_time c \<le> now) calls
    \<Longrightarrow> exclusive now (pt_leases (lease_calls calls db))"
proof (induction t calls db rule: timely.induct)
  case (2 t call calls db)
  then have "exclusive now (pt_leases (lease_calls calls (lease_call_effect call db)))"
    by (intro "2.IH") (auto intro: lease_call_keeps_exclusive)
  then show ?case by (simp add: lease_calls_def)
qed (simp add: lease_calls_def exclusive_later)

section \<open>Properties\<close>

text \<open>
  C14. Write leases are exclusive within a run. In every sequence of acquisitions, releases and heartbeats, of any runs, that
  starts without leases, follows a clock that never goes back and whose heartbeats come before the leases they renew
  expire, two leases of one run that are active at one time and both cover a path belong to the same attempt. (The
  conflict query looks at one run only; each run has worktrees of its own.)
\<close>

theorem leases_are_exclusive:
  assumes "pt_leases db = []" "timely t calls db" "t \<le> now" "list_all (\<lambda>c. lease_call_time c \<le> now) calls"
    and "l \<in> set (pt_leases (lease_calls calls db))" "l' \<in> set (pt_leases (lease_calls calls db))"
    and "ls_run_id l = ls_run_id l'" "active now l" "active now l'"
    and "prefix (ls_normalized_prefix l) path" "prefix (ls_normalized_prefix l') path"
  shows "ls_task_attempt_id l = ls_task_attempt_id l'"
proof (rule ccontr)
  assume "ls_task_attempt_id l \<noteq> ls_task_attempt_id l'"
  moreover have "exclusive now (pt_leases (lease_calls calls db))"
    by (rule timely_calls_exclusive [OF assms(2) _ assms(3,4)]) (simp add: assms(1) exclusive_def)
  ultimately show False
    using assms(5-9) prefix_same_cases [OF assms(10,11)] unfolding exclusive_def by metis
qed

section \<open>Witnesses\<close>

definition lease_attempt :: "string \<Rightarrow> attempt_row" where
  "lease_attempt attempt_id =
    \<lparr>ar_id = attempt_id, ar_task_id = ''t'', ar_attempt_number = 1, ar_state = ''LEASED'', ar_task_packet_json = '''',
     ar_task_packet_sha256 = '''', ar_base_sha = ''base'', ar_head_sha = None, ar_requested_model_route = '''',
     ar_token_budget = None, ar_tool_budget = None, ar_diff_file_budget = 1, ar_diff_line_budget = 1,
     ar_started_at = None, ar_completed_at = None, ar_terminal_class = None, ar_failure_reason = None,
     ar_created_at = 0, ar_updated_at = 0, ar_version = 1\<rparr>"

definition lease_base :: plan_tables where
  "lease_base = plan_base\<lparr>pt_attempts := [lease_attempt ''a1'', lease_attempt ''a2'']\<rparr>"

definition sample_lease :: "string \<Rightarrow> string \<Rightarrow> string \<Rightarrow> string \<Rightarrow> i64 \<Rightarrow> i64 \<Rightarrow> lease_row" where
  "sample_lease i attempt_id path p since expires =
    \<lparr>ls_id = i, ls_run_id = ''r'', ls_task_attempt_id = attempt_id, ls_path_glob = path, ls_normalized_prefix = p,
     ls_base_sha = ''base'', ls_acquired_at = since, ls_heartbeat_at = since, ls_expires_at = expires,
     ls_released_at = None, ls_release_reason = None\<rparr>"

definition lease_id_of :: "string \<Rightarrow> nat \<Rightarrow> string" where
  "lease_id_of i n = i @ digits n"

definition timely_lease_calls :: "lease_call list" where
  "timely_lease_calls =
    [Acquire 0 (lease_id_of ''l'') ''r'' ''a1'' ''base'' [''src/a/**'', ''./src/a/x.rs''] 10,
     Acquire 5 (lease_id_of ''m'') ''r'' ''a2'' ''base'' [''src/b/''] 10]"

definition late_lease_calls :: "lease_call list" where
  "late_lease_calls =
    [Acquire 0 (lease_id_of ''l'') ''r'' ''a1'' ''base'' [''src/a/**''] 1,
     Acquire 2000 (lease_id_of ''m'') ''r'' ''a2'' ''base'' [''src/a/x.rs''] 10,
     Heartbeat 2500 ''a1'' 10]"

lemma lease_base_empty: "pt_leases lease_base = []"
  by (simp add: lease_base_def plan_base_def)

lemma timely_leases:
  "pt_leases (lease_calls timely_lease_calls lease_base) =
    [sample_lease ''l0'' ''a1'' ''src/a/**'' ''src/a'' 0 10000, sample_lease ''l1'' ''a1'' ''./src/a/x.rs'' ''src/a/x.rs'' 0 10000,
     sample_lease ''m0'' ''a2'' ''src/b/'' ''src/b'' 5 10005]"
  by code_simp

text \<open>A heartbeat revives an expired lease although another attempt has leased a path below it in the meantime.\<close>

lemma late_heartbeat_revives:
  "\<not> exclusive 3000 (pt_leases (lease_calls late_lease_calls lease_base))"
  by code_simp

theorem leases_are_exclusive_witness:
  "\<exists>l l'. pt_leases (lease_calls timely_lease_calls lease_base) ! 0 = l \<and>
     pt_leases (lease_calls timely_lease_calls lease_base) ! 1 = l' \<and> ls_task_attempt_id l = ls_task_attempt_id l'"
proof -
  have "timely 0 timely_lease_calls lease_base"
    by (simp add: timely_lease_calls_def)
  from leases_are_exclusive [OF lease_base_empty this, of 500
      "sample_lease ''l0'' ''a1'' ''src/a/**'' ''src/a'' 0 10000"
      "sample_lease ''l1'' ''a1'' ''./src/a/x.rs'' ''src/a/x.rs'' 0 10000" "''src/a/x.rs''"]
  show ?thesis
    by (simp add: timely_leases) (simp add: timely_lease_calls_def sample_lease_def active_def)
qed

end
