(* ===== verification/Rust_Numbers.thy ===== *)
theory Rust_Numbers
  imports Rust_Prelude
begin

text \<open>
  Printing and parsing of 64-bit integers and \<open>str::splitn\<close>, with the round trips the cursors of the
  store rely on.
\<close>

definition in_i64 :: "int \<Rightarrow> bool" where
  "in_i64 x \<longleftrightarrow> - (2 ^ 63) \<le> x \<and> x < 2 ^ 63"

definition format_i64 :: "i64 \<Rightarrow> string" where
  "format_i64 x = (if x < 0 then CHR ''-'' # digits (nat (- x)) else digits (nat x))"

text \<open>\<open>str::parse::<i64>\<close>: one optional sign, then at least one digit; \<open>None\<close> also when out of range.\<close>

definition parse_nat :: "string \<Rightarrow> nat option" where
  "parse_nat s = (if s \<noteq> [] \<and> list_all is_ascii_digit s
     then Some (foldl (\<lambda>a c. 10 * a + (of_char c - 48)) 0 s) else None)"

definition parse_i64 :: "string \<Rightarrow> i64 option" where
  "parse_i64 s =
    (case (case s of
        [] \<Rightarrow> None
      | c # t \<Rightarrow> if c = CHR ''-'' then map_option (\<lambda>n. - int n) (parse_nat t)
          else if c = CHR ''+'' then map_option int (parse_nat t) else map_option int (parse_nat s)) of
       Some x \<Rightarrow> if in_i64 x then Some x else None
     | None \<Rightarrow> None)"

fun splitn :: "nat \<Rightarrow> char \<Rightarrow> string \<Rightarrow> string list" where
  "splitn 0 d s = []"
| "splitn (Suc 0) d s = [s]"
| "splitn (Suc (Suc n)) d s =
    (if d \<in> set s then takeWhile (\<lambda>c. c \<noteq> d) s # splitn (Suc n) d (tl (dropWhile (\<lambda>c. c \<noteq> d) s)) else [s])"

lemma digit_ascii: "(m::nat) < 10 \<Longrightarrow> is_ascii_digit (char_of (48 + m))"
  by (simp add: is_ascii_digit_def byte_def)

lemma digits_ascii: "list_all is_ascii_digit (digits n)"
proof (induction n rule: digits.induct)
  case (1 n)
  show ?case
    by (subst digits.simps) (use 1 in \<open>simp add: digit_ascii\<close>)
qed

lemma digits_nonempty [simp]: "digits n \<noteq> []"
  by (subst digits.simps) simp

lemma parse_nat_digits: "parse_nat (digits n) = Some n"
proof -
  have "foldl (\<lambda>a c. 10 * a + (of_char c - 48)) 0 (digits n) = n"
  proof (induction n rule: digits.induct)
    case (1 n)
    show ?case
      by (subst digits.simps) (use 1 in auto)
  qed
  then show ?thesis by (simp add: parse_nat_def digits_ascii)
qed

lemma digits_no_sign: "c \<in> set (digits n) \<Longrightarrow> is_ascii_digit c"
  using digits_ascii by (auto simp: list_all_iff)

lemma parse_format_i64: "in_i64 x \<Longrightarrow> parse_i64 (format_i64 x) = Some x"
proof (cases "x < 0")
  case True
  then show "in_i64 x \<Longrightarrow> ?thesis" by (simp add: parse_i64_def format_i64_def parse_nat_digits)
next
  case False
  obtain c t where d: "digits (nat x) = c # t" by (cases "digits (nat x)") simp_all
  then have "is_ascii_digit c" using digits_no_sign [of c "nat x"] by simp
  then have "c \<noteq> CHR ''-''" "c \<noteq> CHR ''+''" by (auto simp: is_ascii_digit_def byte_def)
  moreover have "parse_nat (c # t) = Some (nat x)" using parse_nat_digits [of "nat x"] d by simp
  ultimately show "in_i64 x \<Longrightarrow> ?thesis"
    using False d by (simp add: parse_i64_def format_i64_def)
qed

lemma format_i64_no_colon: "CHR '':'' \<notin> set (format_i64 x)"
proof -
  have "\<not> is_ascii_digit (CHR '':'')" by (simp add: is_ascii_digit_def byte_def)
  then show ?thesis using digits_no_sign by (auto simp: format_i64_def)
qed

lemma splitn_cons: "d \<notin> set a \<Longrightarrow> splitn (Suc (Suc n)) d (a @ d # b) = a # splitn (Suc n) d b"
proof -
  assume "d \<notin> set a"
  then have "takeWhile (\<lambda>c. c \<noteq> d) (a @ d # b) = a" "dropWhile (\<lambda>c. c \<noteq> d) (a @ d # b) = d # b"
    by (induction a) auto
  then show ?thesis by simp
qed

end
