(* ===== verification/Approval_Store.thy ===== *)
theory Approval_Store
  imports Run_Store Rust_Numbers Call_Sequences
begin

text \<open>
  Approvals an agent's runtime asks for (\<^verbatim>\<open>crates/harness-store/src/queries.rs\<close>): each approval is stored with
  the RPC request it answers; an operator's decision moves it to \<open>delivering\<close>, the delivery report to \<open>resolved\<close> or
  back to \<open>pending\<close>, and recovery expires what is left.

  \<open>decide_approval\<close> takes the store's lock three times: to read the approval, to write the decision and to
  read the result. The three sections are definitions of their own, so that other calls can come between
  them. JSON values (\<open>serde_json::Value\<close>), their codec, the digest and the clock are parameters.

  The lemmas: deciding alone records the decision, a request that was answered or expired is never decided
  again, and two operators who decide at the same time can both be told that they succeeded.
\<close>

section \<open>Tables\<close>

datatype RiskLevel = LowRisk | MediumRisk | HighRisk | CriticalRisk

fun risk_text :: "RiskLevel \<Rightarrow> string" where
  "risk_text LowRisk = ''low''"
| "risk_text MediumRisk = ''medium''"
| "risk_text HighRisk = ''high''"
| "risk_text CriticalRisk = ''critical''"

definition parse_risk :: "string \<Rightarrow> RiskLevel option" where
  "parse_risk t = List.find (\<lambda>r. risk_text r = t) [LowRisk, MediumRisk, HighRisk, CriticalRisk]"

record approval_row =
  ap_id :: string
  ap_run_id :: string
  ap_task_attempt_id :: "string option"
  ap_agent_session_id :: "string option"
  ap_thread_id :: string
  ap_turn_id :: "string option"
  ap_item_id :: "string option"
  ap_approval_type :: string
  ap_risk_level :: string
  ap_request_json :: string
  ap_request_sha256 :: string
  ap_expected_head_sha :: "string option"
  ap_expected_worktree_fingerprint :: "string option"
  ap_state :: string
  ap_decision :: "string option"
  ap_decision_note :: "string option"
  ap_decided_by :: "string option"
  ap_created_at :: i64
  ap_resolved_at :: "i64 option"
  ap_delivered_at :: "i64 option"
  ap_delivery_error :: "string option"
  ap_version :: i64

record rpc_row =
  rq_request_key :: string
  rq_rpc_id_json :: string
  rq_method :: string
  rq_run_id :: string
  rq_agent_session_id :: "string option"
  rq_thread_id :: string
  rq_turn_id :: "string option"
  rq_item_id :: "string option"
  rq_payload_json :: string
  rq_state :: string
  rq_received_at :: i64
  rq_resolved_at :: "i64 option"

text \<open>The approvals and requests, with the keys the foreign keys refer to and the task of each attempt.\<close>

record approval_db =
  ap_rows :: "approval_row list"
  rpc_rows :: "rpc_row list"
  ap_runs :: "string list"
  ap_agents :: "string list"
  ap_attempts :: "(string \<times> string) list"

record 'v approval_env =
  pv_value :: "'v codec"
  pv_null :: 'v
  pv_sha :: "string \<Rightarrow> string"
  pv_format_timestamp :: "i64 \<Rightarrow> string"

record 'v NewApproval =
  nw_id :: string
  nw_run_id :: string
  nw_task_attempt_id :: "string option"
  nw_agent_session_id :: "string option"
  nw_thread_id :: string
  nw_turn_id :: "string option"
  nw_item_id :: "string option"
  nw_approval_type :: string
  nw_risk_level :: RiskLevel
  nw_request :: 'v
  nw_expected_head_sha :: "string option"
  nw_expected_worktree_fingerprint :: "string option"

record 'v ApprovalSummary =
  as_id :: string
  as_run_id :: string
  as_agent_id :: "string option"
  as_task_id :: "string option"
  as_thread_id :: string
  as_turn_id :: "string option"
  as_approval_type :: string
  as_risk_level :: RiskLevel
  as_request :: 'v
  as_state :: string
  as_decision :: "string option"
  as_created_at :: string
  as_resolved_at :: "string option"
  as_version :: u64

section \<open>Creating and reading\<close>

definition new_approval_row :: "'v approval_env \<Rightarrow> i64 \<Rightarrow> 'v NewApproval \<Rightarrow> string \<Rightarrow> approval_row" where
  "new_approval_row E now v request_json =
    \<lparr>ap_id = nw_id v, ap_run_id = nw_run_id v, ap_task_attempt_id = nw_task_attempt_id v,
     ap_agent_session_id = nw_agent_session_id v, ap_thread_id = nw_thread_id v, ap_turn_id = nw_turn_id v,
     ap_item_id = nw_item_id v, ap_approval_type = nw_approval_type v, ap_risk_level = risk_text (nw_risk_level v),
     ap_request_json = request_json, ap_request_sha256 = pv_sha E request_json,
     ap_expected_head_sha = nw_expected_head_sha v,
     ap_expected_worktree_fingerprint = nw_expected_worktree_fingerprint v, ap_state = ''pending'',
     ap_decision = None, ap_decision_note = None, ap_decided_by = None, ap_created_at = now, ap_resolved_at = None,
     ap_delivered_at = None, ap_delivery_error = None, ap_version = 1\<rparr>"

definition new_rpc_row :: "i64 \<Rightarrow> 'v NewApproval \<Rightarrow> string \<Rightarrow> string \<Rightarrow> rpc_row" where
  "new_rpc_row now v rpc_id_json request_json =
    \<lparr>rq_request_key = nw_id v, rq_rpc_id_json = rpc_id_json, rq_method = nw_approval_type v, rq_run_id = nw_run_id v,
     rq_agent_session_id = nw_agent_session_id v, rq_thread_id = nw_thread_id v, rq_turn_id = nw_turn_id v,
     rq_item_id = nw_item_id v, rq_payload_json = request_json, rq_state = ''pending'', rq_received_at = now,
     rq_resolved_at = None\<rparr>"

definition known :: "string list \<Rightarrow> string option \<Rightarrow> bool" where
  "known ids i \<longleftrightarrow> (case i of None \<Rightarrow> True | Some i \<Rightarrow> i \<in> set ids)"

definition insert_approval ::
  "'v approval_env \<Rightarrow> i64 \<Rightarrow> 'v NewApproval \<Rightarrow> 'v \<Rightarrow> approval_db \<Rightarrow> approval_db stored" where
  "insert_approval E now v rpc_id db =
     and_then (to_json (pv_value E) (nw_request v))
    (\<lambda>request_json. if nw_id v \<in> ap_id ` set (ap_rows db) then Inl (Sqlite ''UNIQUE constraint failed: approvals.id'')
       else if nw_run_id v \<notin> set (ap_runs db) \<or> \<not> known (map fst (ap_attempts db)) (nw_task_attempt_id v) \<or>
          \<not> known (ap_agents db) (nw_agent_session_id v) then Inl (Sqlite ''FOREIGN KEY constraint failed'')
       else and_then (to_json (pv_value E) rpc_id)
    (\<lambda>rpc_id_json. if nw_id v \<in> rq_request_key ` set (rpc_rows db)
       then Inl (Sqlite ''UNIQUE constraint failed: runtime_rpc_requests.request_key'')
       else Inr (db\<lparr>ap_rows := ap_rows db @ [new_approval_row E now v request_json],
          rpc_rows := rpc_rows db @ [new_rpc_row now v rpc_id_json request_json]\<rparr>)))"

definition create_approval ::
  "'v approval_env \<Rightarrow> i64 \<Rightarrow> 'v NewApproval \<Rightarrow> 'v \<Rightarrow> approval_db \<Rightarrow> unit stored \<times> approval_db" where
  "create_approval E now v rpc_id db =
    (case insert_approval E now v rpc_id db of Inl e \<Rightarrow> (Inl e, db) | Inr db' \<Rightarrow> (Inr (), db'))"

definition map_approval :: "'v approval_env \<Rightarrow> approval_db \<Rightarrow> approval_row \<Rightarrow> 'v ApprovalSummary stored" where
  "map_approval E db r =
     and_then (ok_or (Sqlite ''conversion failure'') (parse_risk (ap_risk_level r)))
    (\<lambda>risk. Inr
      \<lparr>as_id = ap_id r, as_run_id = ap_run_id r, as_agent_id = ap_agent_session_id r,
       as_task_id = Option.bind (ap_task_attempt_id r) (map_of (ap_attempts db)),
       as_thread_id = ap_thread_id r, as_turn_id = ap_turn_id r, as_approval_type = ap_approval_type r,
       as_risk_level = risk,
       as_request = (case dec (pv_value E) (ap_request_json r) of Some v \<Rightarrow> v | None \<Rightarrow> pv_null E),
       as_state = ap_state r, as_decision = ap_decision r, as_created_at = pv_format_timestamp E (ap_created_at r),
       as_resolved_at = map_option (pv_format_timestamp E) (ap_resolved_at r), as_version = word_of_int (ap_version r)\<rparr>)"

definition approval :: "'v approval_env \<Rightarrow> string \<Rightarrow> approval_db \<Rightarrow> 'v ApprovalSummary stored" where
  "approval E i db =
     and_then (ok_or (NotFound (''approval '' @ i)) (lookup_row (\<lambda>r. ap_id r = i) (ap_rows db))) (map_approval E db)"

definition approval_expected_custody :: "string \<Rightarrow> approval_db \<Rightarrow> (string option \<times> string option) stored" where
  "approval_expected_custody i db =
     and_then (ok_or (NotFound (''approval '' @ i)) (lookup_row (\<lambda>r. ap_id r = i) (ap_rows db)))
    (\<lambda>r. Inr (ap_expected_head_sha r, ap_expected_worktree_fingerprint r))"

definition risk_rank :: "string \<Rightarrow> nat" where
  "risk_rank r = (if r = ''critical'' then 0 else if r = ''high'' then 1 else if r = ''medium'' then 2 else 3)"

text \<open>Rows with equal risk and time come in the order of the table, which is one of the orders SQLite may choose.\<close>

definition list_approvals ::
  "'v approval_env \<Rightarrow> string option \<Rightarrow> string option \<Rightarrow> approval_db \<Rightarrow> 'v ApprovalSummary list stored" where
  "list_approvals E run_id state db = try_map (map_approval E db)
     (sort_key (\<lambda>r. risk_rank (ap_risk_level r)) (sort_key ap_created_at
       (filter (\<lambda>r. (case run_id of None \<Rightarrow> True | Some i \<Rightarrow> ap_run_id r = i) \<and>
          (case state of None \<Rightarrow> True | Some s \<Rightarrow> ap_state r = s)) (ap_rows db))))"

section \<open>Deciding\<close>

definition decide_read :: "'v approval_env \<Rightarrow> string \<Rightarrow> u64 option \<Rightarrow> approval_db \<Rightarrow> 'v ApprovalSummary stored" where
  "decide_read E i expected_version db =
     and_then (approval E i db)
    (\<lambda>a. if as_state a \<noteq> ''pending'' then Inl (Conflict (''approval '' @ i @ '' is already '' @ as_state a))
       else if (case expected_version of None \<Rightarrow> False | Some v \<Rightarrow> v \<noteq> as_version a)
       then Inl (Conflict (''approval '' @ i @ '' changed concurrently''))
       else Inr a)"

definition decided_row :: "i64 \<Rightarrow> string \<Rightarrow> string option \<Rightarrow> string \<Rightarrow> approval_row \<Rightarrow> approval_row" where
  "decided_row now decision note actor r =
     r\<lparr>ap_state := ''delivering'', ap_decision := Some decision, ap_decision_note := note, ap_decided_by := Some actor,
       ap_resolved_at := Some now, ap_version := ap_version r + 1\<rparr>"

definition decide_write ::
  "i64 \<Rightarrow> string \<Rightarrow> string \<Rightarrow> string option \<Rightarrow> string \<Rightarrow> u64 \<Rightarrow> approval_db \<Rightarrow> (string \<times> approval_db) stored" where
  "decide_write now i decision note actor seen_version db =
     and_then (ok_or (Sqlite ''Query returned no rows'')
       (lookup_row (\<lambda>q. rq_request_key q = i \<and> rq_state q = ''pending'') (rpc_rows db)))
    (\<lambda>q. and_then (sqlite_version seen_version)
    (\<lambda>v. Inr (rq_rpc_id_json q, db\<lparr>ap_rows := update_where (\<lambda>r. ap_id r = i \<and> ap_version r = v)
       (decided_row now decision note actor) (ap_rows db)\<rparr>)))"

definition decide_result ::
  "'v approval_env \<Rightarrow> string \<Rightarrow> string \<Rightarrow> approval_db \<Rightarrow> ('v ApprovalSummary \<times> 'v) stored" where
  "decide_result E i rpc db =
     and_then (approval E i db) (\<lambda>a. and_then (ok_or Json (dec (pv_value E) rpc)) (\<lambda>rpc_id. Inr (a, rpc_id)))"

definition decide_approval ::
  "'v approval_env \<Rightarrow> i64 \<Rightarrow> string \<Rightarrow> string \<Rightarrow> string option \<Rightarrow> string \<Rightarrow> u64 option \<Rightarrow> approval_db \<Rightarrow>
     ('v ApprovalSummary \<times> 'v) stored \<times> approval_db" where
  "decide_approval E now i decision note actor expected_version db =
    (case decide_read E i expected_version db of
       Inl e \<Rightarrow> (Inl e, db)
     | Inr a \<Rightarrow> (case decide_write now i decision note actor (as_version a) db of
         Inl e \<Rightarrow> (Inl e, db)
       | Inr (rpc, db') \<Rightarrow> (decide_result E i rpc db', db')))"

section \<open>Delivery and expiry\<close>

definition mark_approval_delivered :: "i64 \<Rightarrow> string \<Rightarrow> string option \<Rightarrow> approval_db \<Rightarrow> approval_db" where
  "mark_approval_delivered now i delivery_error db =
     db\<lparr>ap_rows := update_where (\<lambda>r. ap_id r = i)
          (\<lambda>r. r\<lparr>ap_state := (if delivery_error = None then ''resolved'' else ''pending''),
             ap_delivered_at := (if delivery_error = None then Some now else ap_delivered_at r),
             ap_delivery_error := delivery_error, ap_version := ap_version r + 1\<rparr>) (ap_rows db),
        rpc_rows := (if delivery_error = None
          then update_where (\<lambda>q. rq_request_key q = i)
            (\<lambda>q. q\<lparr>rq_state := ''resolved'', rq_resolved_at := Some now\<rparr>) (rpc_rows db)
          else rpc_rows db)\<rparr>"

definition expire_pending_approvals :: "i64 \<Rightarrow> string \<Rightarrow> string \<Rightarrow> approval_db \<Rightarrow> approval_db" where
  "expire_pending_approvals now run_id reason db =
     db\<lparr>ap_rows := update_where (\<lambda>r. ap_run_id r = run_id \<and> ap_state r \<in> set [''pending'', ''delivering''])
          (\<lambda>r. r\<lparr>ap_state := ''expired'', ap_decision := Some ''cancel'', ap_decision_note := Some reason,
             ap_decided_by := Some ''harnessd-recovery'', ap_resolved_at := Some now,
             ap_delivery_error := Some ''originating App Server process is unavailable'',
             ap_version := ap_version r + 1\<rparr>) (ap_rows db),
        rpc_rows := update_where (\<lambda>q. rq_run_id q = run_id \<and> rq_state q = ''pending'')
          (\<lambda>q. q\<lparr>rq_state := ''expired'', rq_resolved_at := Some now\<rparr>) (rpc_rows db)\<rparr>"

section \<open>Sequences of calls\<close>

text \<open>
  The sections that change the tables, in any order. \<open>WriteDecision\<close> is the middle section of
  \<open>decide_approval\<close> with the version its first section saw, so sequences with stale versions are the
  interleavings of concurrent decisions.
\<close>

datatype 'v approval_call =
    CreateApproval i64 "'v NewApproval" 'v
  | WriteDecision i64 string string "string option" string u64
  | ReportDelivery i64 string "string option"
  | ExpireApprovals i64 string string

fun approval_effect :: "'v approval_env \<Rightarrow> 'v approval_call \<Rightarrow> approval_db \<Rightarrow> approval_db" where
  "approval_effect E (CreateApproval now v rpc_id) db = snd (create_approval E now v rpc_id db)"
| "approval_effect E (WriteDecision now i decision remark actor seen) db =
     (case decide_write now i decision remark actor seen db of Inl _ \<Rightarrow> db | Inr (_, db') \<Rightarrow> db')"
| "approval_effect E (ReportDelivery now i err) db = mark_approval_delivered now i err db"
| "approval_effect E (ExpireApprovals now run_id reason) db = expire_pending_approvals now run_id reason db"

definition approval_calls :: "'v approval_env \<Rightarrow> 'v approval_call list \<Rightarrow> approval_db \<Rightarrow> approval_db" where
  "approval_calls E calls db = fold (approval_effect E) calls db"

definition no_approvals :: "approval_db \<Rightarrow> bool" where
  "no_approvals db \<longleftrightarrow> ap_rows db = [] \<and> rpc_rows db = []"

definition keys_ok :: "approval_db \<Rightarrow> bool" where
  "keys_ok db \<longleftrightarrow> distinct (map ap_id (ap_rows db)) \<and> distinct (map rq_request_key (rpc_rows db)) \<and>
     list_all (\<lambda>r. 1 \<le> ap_version r) (ap_rows db)"

lemma insert_approval_ok:
  assumes "insert_approval E now v rpc_id db = Inr db'"
  shows "nw_id v \<notin> ap_id ` set (ap_rows db) \<and> nw_id v \<notin> rq_request_key ` set (rpc_rows db) \<and>
    (\<exists>raw rpc. db' = db\<lparr>ap_rows := ap_rows db @ [new_approval_row E now v raw], rpc_rows := rpc_rows db @ [new_rpc_row now v rpc raw]\<rparr>)"
  using assms unfolding insert_approval_def and_then_ok by (auto simp: and_then_ok split: if_splits)

lemma create_approval_cases:
  "(snd (create_approval E now v rpc_id db) = db \<Longrightarrow> P) \<Longrightarrow>
   (\<And>raw rpc. nw_id v \<notin> ap_id ` set (ap_rows db) \<Longrightarrow> nw_id v \<notin> rq_request_key ` set (rpc_rows db) \<Longrightarrow>
      snd (create_approval E now v rpc_id db) =
        db\<lparr>ap_rows := ap_rows db @ [new_approval_row E now v raw], rpc_rows := rpc_rows db @ [new_rpc_row now v rpc raw]\<rparr> \<Longrightarrow> P) \<Longrightarrow> P"
proof (cases "insert_approval E now v rpc_id db")
  case (Inr db')
  with insert_approval_ok [OF Inr] show "(snd (create_approval E now v rpc_id db) = db \<Longrightarrow> P) \<Longrightarrow>
   (\<And>raw rpc. nw_id v \<notin> ap_id ` set (ap_rows db) \<Longrightarrow> nw_id v \<notin> rq_request_key ` set (rpc_rows db) \<Longrightarrow>
      snd (create_approval E now v rpc_id db) =
        db\<lparr>ap_rows := ap_rows db @ [new_approval_row E now v raw], rpc_rows := rpc_rows db @ [new_rpc_row now v rpc raw]\<rparr> \<Longrightarrow> P) \<Longrightarrow> P"
    by (auto simp: create_approval_def)
qed (simp add: create_approval_def)

lemma decide_write_ok:
  assumes "decide_write now i decision remark actor seen db = Inr (rpc, db')"
  obtains q where "q \<in> set (rpc_rows db)" "rq_request_key q = i" "rq_state q = ''pending''" "rq_rpc_id_json q = rpc"
    "unat seen < 2 ^ 63" "db' = db\<lparr>ap_rows := update_where (\<lambda>r. ap_id r = i \<and> ap_version r = uint seen)
       (decided_row now decision remark actor) (ap_rows db)\<rparr>"
proof -
  from assms obtain q v where q: "lookup_row (\<lambda>q. rq_request_key q = i \<and> rq_state q = ''pending'') (rpc_rows db) = Some q"
    and v: "sqlite_version seen = Inr v" and rpc: "rq_rpc_id_json q = rpc"
    and db: "db' = db\<lparr>ap_rows := update_where (\<lambda>r. ap_id r = i \<and> ap_version r = v) (decided_row now decision remark actor) (ap_rows db)\<rparr>"
    by (auto simp: decide_write_def and_then_ok)
  from v have "unat seen < 2 ^ 63" "v = uint seen" by (simp_all add: sqlite_version_def split: if_splits)
  with lookup_row_Some [OF q] rpc db show thesis by (intro that [of q]) blast+
qed

lemma keys_ok_update:
  assumes "keys_ok db" "\<And>r. ap_id (f r) = ap_id r \<and> ap_version (f r) = ap_version r + 1" "\<And>q. rq_request_key (g q) = rq_request_key q"
  shows "keys_ok (db\<lparr>ap_rows := update_where P f (ap_rows db), rpc_rows := update_where Q g (rpc_rows db)\<rparr>)"
proof -
  have "list_all (\<lambda>r. 1 \<le> ap_version r) (update_where P f (ap_rows db))"
    using assms(1,2) by (auto simp: keys_ok_def list_all_iff update_where_def)
  then show ?thesis
    using assms by (simp add: keys_ok_def update_where_keys)
qed

lemma update_where_id: "update_where P (\<lambda>x. x) rows = rows"
  by (simp add: update_where_def)

lemmas keys_ok_approvals = keys_ok_update [where g = "\<lambda>q. q", unfolded update_where_id, simplified]

lemma approval_effect_keys:
  assumes "keys_ok db" shows "keys_ok (approval_effect E call db)"
proof (cases call)
  case (CreateApproval now v rpc_id)
  show ?thesis
    unfolding CreateApproval approval_effect.simps
    by (rule create_approval_cases [of E now v rpc_id db])
      (use assms in \<open>simp_all add: keys_ok_def new_approval_row_def new_rpc_row_def\<close>)
next
  case (WriteDecision now i decision remark actor seen)
  show ?thesis
  proof (cases "decide_write now i decision remark actor seen db")
    case (Inr p)
    then obtain rpc db' where w: "decide_write now i decision remark actor seen db = Inr (rpc, db')" by (cases p) simp
    from decide_write_ok [OF w] have "db' = db\<lparr>ap_rows := update_where (\<lambda>r. ap_id r = i \<and> ap_version r = uint seen)
       (decided_row now decision remark actor) (ap_rows db)\<rparr>" by metis
    with w WriteDecision assms show ?thesis by (simp add: keys_ok_approvals decided_row_def)
  qed (use assms WriteDecision in simp)
next
  case (ReportDelivery now i err)
  then show ?thesis
    using assms by (cases err) (simp_all add: mark_approval_delivered_def keys_ok_update keys_ok_approvals)
next
  case (ExpireApprovals now run_id reason)
  then show ?thesis
    using assms by (simp add: expire_pending_approvals_def keys_ok_update)
qed

interpretation approvals: call_sequence "approval_effect E" keys_ok for E
  by unfold_locales (rule approval_effect_keys)

lemma approval_calls_keys: "keys_ok db \<Longrightarrow> keys_ok (approval_calls E calls db)"
  unfolding approval_calls_def by (rule approvals.always)

definition request_closed :: "string \<Rightarrow> approval_db \<Rightarrow> bool" where
  "request_closed i db \<longleftrightarrow> list_ex (\<lambda>q. rq_request_key q = i \<and> rq_state q \<noteq> ''pending'') (rpc_rows db)"

lemma list_ex_update_where: "list_ex R rows \<Longrightarrow> (\<And>q. R q \<Longrightarrow> R (g q)) \<Longrightarrow> list_ex R (update_where P g rows)"
  by (induction rows) (auto simp: update_where_def)

lemma request_stays_closed:
  assumes "request_closed i db" shows "request_closed i (approval_effect E call db)"
proof (cases call)
  case (CreateApproval now v rpc_id)
  show ?thesis
    unfolding CreateApproval approval_effect.simps
    by (rule create_approval_cases [of E now v rpc_id db]) (use assms in \<open>simp_all add: request_closed_def\<close>)
next
  case (WriteDecision now j decision remark actor seen)
  then show ?thesis
    using assms by (auto simp: request_closed_def decide_write_def and_then_ok split: sum.splits)
qed (use assms in \<open>auto simp: request_closed_def mark_approval_delivered_def expire_pending_approvals_def
    intro!: list_ex_update_where\<close>)

interpretation requests: permanent_fact "approval_effect E" "\<lambda>_. True" "request_closed i" for E i
  by unfold_locales (simp_all add: request_stays_closed)

lemma approval_calls_closed: "request_closed i db \<Longrightarrow> request_closed i (approval_calls E calls db)"
  unfolding approval_calls_def by (rule requests.permanent [OF TrueI])

lemma closed_not_decided:
  assumes "keys_ok db" "request_closed i db"
  shows "\<exists>e. decide_write now i decision remark actor seen db = Inl e"
proof -
  have "\<not> (q \<in> set (rpc_rows db) \<and> rq_request_key q = i \<and> rq_state q = ''pending'')" for q
    using assms by (auto simp: keys_ok_def request_closed_def list_ex_iff distinct_map dest: inj_onD)
  then show ?thesis
    by (cases "decide_write now i decision remark actor seen db") (auto elim!: decide_write_ok)
qed

lemma uint_of_small: "0 \<le> x \<Longrightarrow> x < 2 ^ 64 \<Longrightarrow> uint (word_of_int x :: u64) = x"
  by (simp add: uint_word_of_int_eq take_bit_int_eq_self)

lemma decide_records:
  assumes keys: "keys_ok db" and "list_all (\<lambda>r. ap_version r < 2 ^ 63 - 1) (ap_rows db)"
    and "decide_approval E now i decision remark actor expected db = (Inr (a, rpc_id), db')"
  shows "(\<exists>r q. r \<in> set (ap_rows db) \<and> ap_id r = i \<and> ap_state r = ''pending'' \<and>
      (\<forall>v. expected = Some v \<longrightarrow> uint v = ap_version r) \<and> uint (as_version a) = ap_version r + 1 \<and>
      q \<in> set (rpc_rows db) \<and> rq_request_key q = i \<and> rq_state q = ''pending'' \<and>
      dec (pv_value E) (rq_rpc_id_json q) = Some rpc_id) \<and>
    as_state a = ''delivering'' \<and> as_decision a = Some decision \<and> approval E i db' = Inr a"
proof -
  from assms(3) obtain s rpc where s: "decide_read E i expected db = Inr s"
    and w: "decide_write now i decision remark actor (as_version s) db = Inr (rpc, db')"
    and res: "decide_result E i rpc db' = Inr (a, rpc_id)"
    by (auto simp: decide_approval_def split: sum.splits)
  from s have ok: "approval E i db = Inr s" "as_state s = ''pending''" "\<forall>v. expected = Some v \<longrightarrow> v = as_version s"
    by (auto simp: decide_read_def and_then_ok split: if_splits option.splits)
  from ok(1) obtain r where r: "lookup_row (\<lambda>r. ap_id r = i) (ap_rows db) = Some r" "map_approval E db r = Inr s"
    by (auto simp: approval_def and_then_ok)
  from lookup_row_Some [OF r(1)] have rin: "r \<in> set (ap_rows db)" "ap_id r = i" by simp_all
  from r(2) have sr: "as_version s = word_of_int (ap_version r)" "as_state s = ap_state r"
    by (auto simp: map_approval_def and_then_ok)
  have range: "1 \<le> ap_version r" "ap_version r < 2 ^ 63 - 1"
    using keys assms(2) rin(1) by (auto simp: keys_ok_def list_all_iff)
  then have seen: "uint (as_version s) = ap_version r"
    unfolding sr(1) by (intro uint_of_small) simp_all
  obtain q where q: "q \<in> set (rpc_rows db)" "rq_request_key q = i" "rq_state q = ''pending''" "rq_rpc_id_json q = rpc"
    "unat (as_version s) < 2 ^ 63" and db': "db' = db\<lparr>ap_rows := update_where (\<lambda>r. ap_id r = i \<and> ap_version r = uint (as_version s))
       (decided_row now decision remark actor) (ap_rows db)\<rparr>"
    by (rule decide_write_ok [OF w])
  have "lookup_row (\<lambda>r. ap_id r = i) (ap_rows db') = Some (decided_row now decision remark actor r)"
    unfolding db' seen using r(1) rin by (simp add: lookup_update decided_row_def)
  moreover from res have a: "approval E i db' = Inr a" "dec (pv_value E) rpc = Some rpc_id"
    by (auto simp: decide_result_def and_then_ok)
  ultimately have "map_approval E db' (decided_row now decision remark actor r) = Inr a"
    by (simp add: approval_def)
  then have "as_state a = ''delivering''" "as_decision a = Some decision" "as_version a = word_of_int (ap_version r + 1)"
    by (auto simp: map_approval_def and_then_ok decided_row_def)
  moreover have "uint (word_of_int (ap_version r + 1) :: u64) = ap_version r + 1"
    using range by (intro uint_of_small) simp_all
  moreover have "ap_state r = ''pending''" "\<forall>v. expected = Some v \<longrightarrow> uint v = ap_version r"
    using ok(2,3) sr(2) seen by auto
  ultimately show ?thesis
    using rin q(1-4) a by (intro conjI exI [of _ r] exI [of _ q]) simp_all
qed

section \<open>Properties\<close>

text \<open>
  C20. A request that was answered or has expired is never decided again: whatever calls come before and after, also the
  writes of decisions that were read long ago, every later decision on it fails and changes nothing.
\<close>

theorem answered_request_is_closed:
  assumes "no_approvals db0" and "request_closed i (approval_calls E earlier db0)"
  shows "\<exists>e. decide_approval E' now i decision remark actor expected (approval_calls E (earlier @ later) db0) =
    (Inl e, approval_calls E (earlier @ later) db0)"
proof -
  define db where "db = approval_calls E (earlier @ later) db0"
  have "keys_ok db0" using assms(1) by (simp add: no_approvals_def keys_ok_def)
  then have keys: "keys_ok db" unfolding db_def by (rule approval_calls_keys)
  have closed: "request_closed i db"
    using approval_calls_closed [OF assms(2), of E later] by (simp add: db_def approval_calls_def)
  have "\<exists>e. decide_approval E' now i decision remark actor expected db = (Inl e, db)"
  proof (cases "decide_read E' i expected db")
    case (Inr s)
    then show ?thesis
      using closed_not_decided [OF keys closed, of now decision remark actor "as_version s"]
      by (auto simp: decide_approval_def)
  qed (simp add: decide_approval_def)
  then show ?thesis by (simp add: db_def)
qed

text \<open>
  C23. A decision that nobody interferes with is recorded: when \<open>decide_approval\<close> returns, the approval was pending at the
  version the caller asked for, its request was pending, and the approval it returns is the stored one, now being delivered,
  with the caller's decision and the next version.
\<close>

theorem decision_is_recorded:
  assumes "no_approvals db0" and "db = approval_calls E calls db0" and "list_all (\<lambda>r. ap_version r < 2 ^ 63 - 1) (ap_rows db)"
    and "decide_approval E now i decision remark actor expected db = (Inr (a, rpc_id), db')"
  shows "(\<exists>r q. r \<in> set (ap_rows db) \<and> ap_id r = i \<and> ap_state r = ''pending'' \<and>
      (\<forall>v. expected = Some v \<longrightarrow> uint v = ap_version r) \<and> uint (as_version a) = ap_version r + 1 \<and>
      q \<in> set (rpc_rows db) \<and> rq_request_key q = i \<and> rq_state q = ''pending'' \<and>
      dec (pv_value E) (rq_rpc_id_json q) = Some rpc_id) \<and>
    as_state a = ''delivering'' \<and> as_decision a = Some decision \<and> approval E i db' = Inr a"
proof -
  have "keys_ok db0" using assms(1) by (simp add: no_approvals_def keys_ok_def)
  then have "keys_ok db" unfolding assms(2) by (rule approval_calls_keys)
  from decide_records [OF this assms(3,4)] show ?thesis .
qed

section \<open>Witnesses\<close>

lemma sqlite_version_code [code]:
  "sqlite_version v = (if uint v < 2 ^ 63 then Inr (uint v) else Inl (Validation ''resource version exceeds SQLite range''))"
  unfolding sqlite_version_def unat_less_power by simp

definition text_values :: "string approval_env" where
  "text_values = \<lparr>pv_value = \<lparr>enc = Some, dec = Some\<rparr>, pv_null = [], pv_sha = id, pv_format_timestamp = (\<lambda>_. [])\<rparr>"

definition sample_new_approval :: "string NewApproval" where
  "sample_new_approval = \<lparr>nw_id = ''ap'', nw_run_id = ''r'', nw_task_attempt_id = None, nw_agent_session_id = None,
     nw_thread_id = ''th'', nw_turn_id = None, nw_item_id = None, nw_approval_type = ''command'', nw_risk_level = HighRisk,
     nw_request = ''{}'', nw_expected_head_sha = None, nw_expected_worktree_fingerprint = None\<rparr>"

definition approval_base :: approval_db where
  "approval_base = \<lparr>ap_rows = [], rpc_rows = [], ap_runs = [''r''], ap_agents = [], ap_attempts = []\<rparr>"

definition sample_approvals :: approval_db where
  "sample_approvals = approval_calls text_values [CreateApproval 0 sample_new_approval ''42''] approval_base"

text \<open>
  Two operators read the pending approval; one accepts, the other declines. Both writes succeed, the second
  changes nothing, and the second operator's call returns the approval with the first one's decision.
\<close>

lemma concurrent_decisions_both_succeed:
  "map_sum id as_version (decide_read text_values ''ap'' None sample_approvals) = Inr 1"
  "case decide_write 1 ''ap'' ''accept'' None ''op1'' 1 sample_approvals of
     Inr (rpc, db) \<Rightarrow> decide_write 2 ''ap'' ''decline'' None ''op2'' 1 db = Inr (rpc, db) \<and>
       map_sum id (\<lambda>(a, rpc). (as_decision a, rpc)) (decide_result text_values ''ap'' rpc db) = Inr (Some ''accept'', ''42'')
   | Inl _ \<Rightarrow> False"
  by code_simp+

text \<open>
  A delivery that is reported as failed after recovery has expired the approval makes it pending again, although
  its request can no longer be answered.
\<close>

definition revived_calls :: "string approval_call list" where
  "revived_calls = [CreateApproval 0 sample_new_approval ''42'', WriteDecision 1 ''ap'' ''accept'' None ''op'' 1,
     ExpireApprovals 2 ''r'' ''restart'', ReportDelivery 3 ''ap'' (Some ''closed'')]"

lemma expired_approval_can_be_revived:
  "map ap_state (ap_rows (approval_calls text_values revived_calls approval_base)) = [''pending'']"
  "request_closed ''ap'' (approval_calls text_values revived_calls approval_base)"
  by code_simp+

lemma approval_base_empty: "no_approvals approval_base"
  by (simp add: no_approvals_def approval_base_def)

theorem answered_request_is_closed_witness:
  "\<exists>e. decide_approval text_values 9 ''ap'' ''accept'' None ''op'' None
     (approval_calls text_values (revived_calls @ [ReportDelivery 8 ''ap'' (Some ''again'')]) approval_base) =
   (Inl e, approval_calls text_values (revived_calls @ [ReportDelivery 8 ''ap'' (Some ''again'')]) approval_base)"
  by (rule answered_request_is_closed [OF approval_base_empty expired_approval_can_be_revived(2)])

lemma sample_decision:
  "list_all (\<lambda>r. ap_version r < 2 ^ 63 - 1) (ap_rows sample_approvals)"
  "\<exists>a db. decide_approval text_values 1 ''ap'' ''accept'' None ''op1'' (Some 1) sample_approvals = (Inr (a, ''42''), db)"
proof -
  show "list_all (\<lambda>r. ap_version r < 2 ^ 63 - 1) (ap_rows sample_approvals)" by code_simp
  have "map_sum id snd (fst (decide_approval text_values 1 ''ap'' ''accept'' None ''op1'' (Some 1) sample_approvals)) = Inr ''42''"
    by code_simp
  then show "\<exists>a db. decide_approval text_values 1 ''ap'' ''accept'' None ''op1'' (Some 1) sample_approvals = (Inr (a, ''42''), db)"
    by (cases "decide_approval text_values 1 ''ap'' ''accept'' None ''op1'' (Some 1) sample_approvals")
      (auto simp: map_sum_def split: sum.splits)
qed

theorem decision_is_recorded_witness:
  "\<exists>a db. decide_approval text_values 1 ''ap'' ''accept'' None ''op1'' (Some 1) sample_approvals = (Inr (a, ''42''), db) \<and>
     as_decision a = Some ''accept'' \<and> approval text_values ''ap'' db = Inr a"
proof -
  obtain a db where d: "decide_approval text_values 1 ''ap'' ''accept'' None ''op1'' (Some 1) sample_approvals = (Inr (a, ''42''), db)"
    using sample_decision(2) by blast
  from decision_is_recorded [OF approval_base_empty sample_approvals_def sample_decision(1) d] d show ?thesis
    by (intro exI [of _ a] exI [of _ db]) simp
qed

end
