(* ===== verification/Attention_Store.thy ===== *)
theory Attention_Store
  imports Attention_Contract Correlation_Store Rust_Numbers Call_Sequences "HOL-Library.Multiset"
begin

text \<open>
  The attention repository (\<^verbatim>\<open>harness-store/src/operator_control/attention.rs\<close>): items opened by a source,
  acknowledged by an operator and closed by a receipt of the source's authority, the event log that is
  written with each change, the causal link of each change, and the paged listing.

  A row of \<open>attention_items\<close> keeps the columns some query reads; the columns that only copy fields of
  the payload (title, category, run and so on) are left out. \<open>now\<close> is the clock.

  The lemmas: a closed item is never changed again, a source has at most one live item, the version of
  an item counts its events, and following the cursors lists every item exactly once.
\<close>

section \<open>Tables\<close>

record attention_row =
  aw_id :: string
  aw_source_type :: AttentionSourceType
  aw_source_id :: string
  aw_source_revision :: i64
  aw_severity :: AttentionSeverity
  aw_state :: AttentionState
  aw_dedupe_key :: string
  aw_opened_at :: i64
  aw_raw :: string
  aw_sha :: string
  aw_version :: i64
  aw_updated_at :: i64

record attention_event =
  ae_attention_id :: string
  ae_source_type :: AttentionSourceType
  ae_source_id :: string
  ae_source_revision :: i64
  ae_event_kind :: string
  ae_expected_version :: "i64 option"
  ae_resulting_version :: i64
  ae_raw :: string
  ae_sha :: string
  ae_created_at :: i64

record attention_db =
  aitems :: "attention_row list"
  aevents :: "attention_event list"
  alinks :: "link_row list"

record attention_env =
  av_item :: "AttentionItem codec"
  av_link :: "CorrelationLink codec"
  av_sha :: "string \<Rightarrow> string"

definition live_state :: "AttentionState \<Rightarrow> bool" where
  "live_state s \<longleftrightarrow> s \<in> set [Open, Acknowledged, WaitingExternal]"

definition attention_from_raw :: "attention_env \<Rightarrow> string \<Rightarrow> AttentionItem stored" where
  "attention_from_raw E raw = and_then (ok_or Json (dec (av_item E) raw))
     (\<lambda>item. and_then (validated (validate_attention_item item)) (\<lambda>_. Inr item))"

definition checked_attention_row :: "attention_env \<Rightarrow> attention_row \<Rightarrow> AttentionItem stored" where
  "checked_attention_row E r =
     checked_row (av_item E) (av_sha E) validate_attention_item (aw_raw r) (aw_sha r)"

section \<open>Causal links\<close>

text \<open>The endpoints, the relation, the parent span and the time of the link of an event.\<close>

definition attention_edge ::
  "AttentionItem \<Rightarrow> string \<Rightarrow> string \<Rightarrow> (string \<times> string \<times> string \<times> string \<times> string \<times> string option \<times> i64) stored" where
  "attention_edge item event_kind opening_span_id =
    (if event_kind = ''opened'' then
       Inr (''source_event'', at_opened_event_id item, ''attention'', at_attention_id item, ''opens_attention'',
            None, at_opened_at_ms item)
     else if event_kind = ''acknowledged'' then
       and_then (ok_or (Validation ''acknowledged attention event requires an acknowledgement timestamp'')
           (at_acknowledged_at_ms item))
         (\<lambda>at. Inr (''attention'', at_attention_id item, ''attention_acknowledgement'',
            at_attention_id item @ '':v'' @ digits (unat (at_version item)), ''acknowledges_attention'',
            Some (take 16 opening_span_id), at))
     else if event_kind \<in> set [''resolved'', ''declined'', ''superseded'', ''invalidated''] then
       and_then (ok_or (Validation ''terminal attention event requires a source authority receipt'')
           (at_resolution item))
         (\<lambda>r. Inr (''authority_event'', res_authority_event_id r, ''attention'', at_attention_id item,
            ''resolves_attention'', Some (take 16 opening_span_id), res_resolved_at_ms r))
     else Inl (Validation ''attention correlation event kind is unsupported''))"

definition attention_correlation_link ::
  "(string \<Rightarrow> string) \<Rightarrow> AttentionItem \<Rightarrow> string \<Rightarrow> CorrelationLink stored" where
  "attention_correlation_link sha item event_kind =
    (let i = at_attention_id item;
         event = i @ '':'' @ event_kind @ '':v'' @ digits (unat (at_version item));
         trace_id = sha (''harness.attention.trace.v1:'' @ i);
         opening_span_id = sha (''harness.attention.span.v1:'' @ i @ '':opened:v1'');
         span_id = sha (''harness.attention.span.v1:'' @ event)
     in and_then (validated (parse_id ''CorrelationLinkId''
          (''correlation-'' @ take 48 (sha (''harness.attention.link.v1:'' @ event)))))
    (\<lambda>link_id. and_then (attention_edge item event_kind opening_span_id)
    (\<lambda>(from_kind, from_id, to_kind, to_id, relation, parent_span_id, created_at_ms).
       Inr \<lparr>cl_schema = ''harness.correlation-link.v1'', cl_link_id = link_id,
         cl_trace = \<lparr>tc_trace_id = take 32 trace_id, tc_span_id = take 16 span_id, tc_parent_span_id = parent_span_id\<rparr>,
         cl_from_kind = from_kind, cl_from_id = from_id, cl_to_kind = to_kind, cl_to_id = to_id,
         cl_relation = relation, cl_created_at_ms = created_at_ms\<rparr>)))"

definition link_event ::
  "attention_env \<Rightarrow> AttentionItem \<Rightarrow> string \<Rightarrow> attention_db \<Rightarrow> attention_db stored" where
  "link_event E item event_kind db =
     and_then (attention_correlation_link (av_sha E) item event_kind)
    (\<lambda>link. and_then (record_correlation_link_in_transaction (av_link E) (av_sha E) link (alinks db))
    (\<lambda>(_, links). Inr (db\<lparr>alinks := links\<rparr>)))"

section \<open>Rows and events\<close>

definition insert_attention_row ::
  "attention_env \<Rightarrow> i64 \<Rightarrow> AttentionItem \<Rightarrow> i64 \<Rightarrow> i64 \<Rightarrow> string \<Rightarrow> attention_db \<Rightarrow> attention_db stored" where
  "insert_attention_row E now item revision version raw db =
     and_then (check_payload_sha (av_sha E raw))
    (\<lambda>_. if list_ex (\<lambda>r. aw_id r = at_attention_id item \<or>
            (aw_source_type r = source_type (at_source item) \<and> aw_source_id r = source_id (at_source item) \<and>
             aw_source_revision r = revision) \<or>
            (aw_dedupe_key r = at_dedupe_key item \<and> live_state (aw_state r))) (aitems db)
         then Inl (Sqlite ''UNIQUE constraint failed'')
         else Inr (db\<lparr>aitems := aitems db @
           [\<lparr>aw_id = at_attention_id item, aw_source_type = source_type (at_source item),
             aw_source_id = source_id (at_source item), aw_source_revision = revision,
             aw_severity = at_severity item, aw_state = at_state item, aw_dedupe_key = at_dedupe_key item,
             aw_opened_at = at_opened_at_ms item, aw_raw = raw, aw_sha = av_sha E raw,
             aw_version = version, aw_updated_at = now\<rparr>]\<rparr>))"

definition insert_attention_event ::
  "AttentionItem \<Rightarrow> string \<Rightarrow> i64 option \<Rightarrow> string \<Rightarrow> string \<Rightarrow> i64 \<Rightarrow> attention_db \<Rightarrow> attention_db stored" where
  "insert_attention_event item event_kind expected_version raw payload_sha256 created_at db =
     and_then (to_i64 (source_revision (at_source item)) ''attention source revision'')
    (\<lambda>revision. and_then (to_i64 (at_version item) ''attention version'')
    (\<lambda>version. and_then (check_payload_sha payload_sha256)
    (\<lambda>_. if list_ex (\<lambda>e. ae_source_type e = source_type (at_source item) \<and>
            ae_source_id e = source_id (at_source item) \<and> ae_source_revision e = revision \<and>
            ae_event_kind e = event_kind) (aevents db)
         then Inl (Sqlite ''UNIQUE constraint failed'')
         else Inr (db\<lparr>aevents := aevents db @
           [\<lparr>ae_attention_id = at_attention_id item, ae_source_type = source_type (at_source item),
             ae_source_id = source_id (at_source item), ae_source_revision = revision, ae_event_kind = event_kind,
             ae_expected_version = expected_version, ae_resulting_version = version, ae_raw = raw,
             ae_sha = payload_sha256, ae_created_at = created_at\<rparr>]\<rparr>))))"

section \<open>Operations\<close>

definition same_source :: "AttentionSourceRef \<Rightarrow> attention_row \<Rightarrow> bool" where
  "same_source s r \<longleftrightarrow> aw_source_type r = source_type s \<and> aw_source_id r = source_id s"

definition open_new ::
  "attention_env \<Rightarrow> i64 \<Rightarrow> AttentionItem \<Rightarrow> i64 \<Rightarrow> i64 \<Rightarrow> string \<Rightarrow> attention_db \<Rightarrow>
     (AttentionItem \<times> attention_db) stored" where
  "open_new E now item revision version raw db =
    (if list_ex (\<lambda>r. same_source (at_source item) r \<and> live_state (aw_state r)) (aitems db)
     then Inl (Conflict ''a source revision cannot replace an active attention item; the source adapter must record a terminal authority receipt first'')
     else and_then (insert_attention_row E now item revision version raw db)
    (\<lambda>db. and_then (insert_attention_event item ''opened'' None raw (av_sha E raw) now db)
    (\<lambda>db. and_then (link_event E item ''opened'' db) (\<lambda>db. Inr (item, db)))))"

definition upsert_source_attention ::
  "attention_env \<Rightarrow> i64 \<Rightarrow> AttentionItem \<Rightarrow> attention_db \<Rightarrow> (AttentionItem \<times> attention_db) stored" where
  "upsert_source_attention E now item db =
     and_then (validated (validate_attention_item item))
    (\<lambda>_. if at_state item \<noteq> Open \<or> at_version item \<noteq> 1 \<or> at_acknowledged_at_ms item \<noteq> None \<or> at_resolution item \<noteq> None
       then Inl (Validation ''a new source attention item must be open at version one without acknowledgement or resolution'')
       else and_then (to_json (av_item E) item)
    (\<lambda>raw. and_then (to_i64 (source_revision (at_source item)) ''attention source revision'')
    (\<lambda>revision. and_then (to_i64 (at_version item) ''attention version'')
    (\<lambda>version. case lookup_row (\<lambda>r. same_source (at_source item) r \<and> aw_source_revision r = revision) (aitems db) of
       Some row \<Rightarrow> and_then (attention_from_raw E (aw_raw row))
         (\<lambda>existing. if aw_raw row = raw
            then and_then (link_event E existing ''opened'' db) (\<lambda>db. Inr (existing, db))
            else Inl (Conflict (''attention source '' @ source_id (at_source item) @ '' already has a different payload'')))
     | None \<Rightarrow> open_new E now item revision version raw db))))"

text \<open>The \<open>UPDATE\<close> of a changed item, its event and its link.\<close>

definition row_version_hit :: "string \<Rightarrow> i64 \<Rightarrow> attention_row \<Rightarrow> bool" where
  "row_version_hit i v r \<longleftrightarrow> aw_id r = i \<and> aw_version r = v"

definition changed_row :: "attention_env \<Rightarrow> i64 \<Rightarrow> AttentionItem \<Rightarrow> string \<Rightarrow> i64 \<Rightarrow> attention_row \<Rightarrow> attention_row" where
  "changed_row E now item raw version r =
     r\<lparr>aw_state := at_state item, aw_raw := raw,
       aw_sha := av_sha E raw, aw_version := version, aw_updated_at := now\<rparr>"

definition store_changed ::
  "attention_env \<Rightarrow> i64 \<Rightarrow> string \<Rightarrow> AttentionItem \<Rightarrow> i64 \<Rightarrow> string \<Rightarrow> attention_db \<Rightarrow>
     (AttentionItem \<times> attention_db) stored" where
  "store_changed E now attention_id item expected event_kind db =
     and_then (to_json (av_item E) item)
    (\<lambda>raw. and_then (to_i64 (at_version item) ''attention version'')
    (\<lambda>version. and_then (check_payload_sha (av_sha E raw))
    (\<lambda>_. if length (filter (row_version_hit attention_id expected) (aitems db)) \<noteq> 1
       then Inl (Conflict (''attention item '' @ attention_id @ '' changed concurrently''))
       else and_then (insert_attention_event item event_kind (Some expected) raw (av_sha E raw) now
           (db\<lparr>aitems := map (\<lambda>r. if row_version_hit attention_id expected r
             then changed_row E now item raw version r else r) (aitems db)\<rparr>))
    (\<lambda>db. and_then (link_event E item event_kind db) (\<lambda>db. Inr (item, db))))))"

text \<open>The item an update starts from: it must have the version the caller expects.\<close>

definition expected_item ::
  "attention_env \<Rightarrow> string \<Rightarrow> i64 \<Rightarrow> attention_db \<Rightarrow> AttentionItem stored" where
  "expected_item E attention_id expected db =
     and_then (ok_or (NotFound (''attention item '' @ attention_id)) (lookup_row (\<lambda>r. aw_id r = attention_id) (aitems db)))
    (\<lambda>row. and_then (attention_from_raw E (aw_raw row))
    (\<lambda>item. and_then (to_i64 (at_version item) ''attention version'')
    (\<lambda>v. if v \<noteq> expected then Inl (Conflict (''attention item '' @ attention_id @ '' has another version'')) else Inr item)))"

definition bump_version :: "AttentionItem \<Rightarrow> AttentionItem stored" where
  "bump_version item = and_then (ok_or (Validation ''attention version overflow'') (checked_add (at_version item) 1))
     (\<lambda>v. Inr (item\<lparr>at_version := v\<rparr>))"

definition acknowledge_attention ::
  "attention_env \<Rightarrow> i64 \<Rightarrow> string \<Rightarrow> u64 \<Rightarrow> i64 option \<Rightarrow> attention_db \<Rightarrow> (AttentionItem \<times> attention_db) stored" where
  "acknowledge_attention E clock attention_id expected_version acknowledged_at_ms db =
     and_then (to_i64 expected_version ''attention expected version'')
    (\<lambda>expected. let now = (case acknowledged_at_ms of Some t \<Rightarrow> t | None \<Rightarrow> clock) in
     and_then (expected_item E attention_id expected db)
    (\<lambda>item. and_then (validated (validate_transition (at_state item) Acknowledged False))
    (\<lambda>_. and_then (bump_version (item\<lparr>at_state := Acknowledged, at_acknowledged_at_ms := Some now\<rparr>))
    (\<lambda>item. and_then (validated (validate_attention_item item))
    (\<lambda>_. store_changed E now attention_id item expected ''acknowledged'' db)))))"

fun closing_event_kind :: "AttentionState \<Rightarrow> string" where
  "closing_event_kind Resolved = ''resolved''"
| "closing_event_kind Declined = ''declined''"
| "closing_event_kind Superseded = ''superseded''"
| "closing_event_kind Invalidated = ''invalidated''"
| "closing_event_kind s = ''unreachable''"

definition resolve_attention_from_source ::
  "attention_env \<Rightarrow> i64 \<Rightarrow> string \<Rightarrow> u64 \<Rightarrow> AttentionState \<Rightarrow> AttentionResolution \<Rightarrow> attention_db \<Rightarrow>
     (AttentionItem \<times> attention_db) stored" where
  "resolve_attention_from_source E now attention_id expected_version next_state resolution db =
    (if \<not> attention_is_terminal next_state
     then Inl (Validation ''source attention closure requires a terminal state'')
     else and_then (validated (validate_resolution resolution))
    (\<lambda>_. and_then (to_i64 expected_version ''attention expected version'')
    (\<lambda>expected. and_then (expected_item E attention_id expected db)
    (\<lambda>item. and_then (validated (validate_transition (at_state item) next_state False))
    (\<lambda>_. and_then (bump_version (item\<lparr>at_state := next_state, at_resolution := Some resolution\<rparr>))
    (\<lambda>item. and_then (validated (validate_attention_item item))
    (\<lambda>_. store_changed E now attention_id item expected (closing_event_kind next_state) db)))))))"

section \<open>Reads\<close>

definition attention_item :: "attention_env \<Rightarrow> string \<Rightarrow> attention_db \<Rightarrow> AttentionItem option stored" where
  "attention_item E attention_id db =
    (case lookup_row (\<lambda>r. aw_id r = attention_id) (aitems db) of
       None \<Rightarrow> Inr None
     | Some row \<Rightarrow> and_then (checked_attention_row E row) (\<lambda>item. Inr (Some item)))"

text \<open>\<open>ORDER BY source_revision DESC LIMIT 1\<close>; the revisions of a source are unique.\<close>

fun newest :: "attention_row list \<Rightarrow> attention_row option" where
  "newest [] = None"
| "newest (r # rs) = (case newest rs of
     None \<Rightarrow> Some r
   | Some q \<Rightarrow> Some (if aw_source_revision q > aw_source_revision r then q else r))"

definition attention_by_source ::
  "attention_env \<Rightarrow> AttentionSourceType \<Rightarrow> string \<Rightarrow> attention_db \<Rightarrow> AttentionItem option stored" where
  "attention_by_source E ty i db =
    (case newest (filter (\<lambda>r. aw_source_type r = ty \<and> aw_source_id r = i) (aitems db)) of
       None \<Rightarrow> Inr None
     | Some row \<Rightarrow> and_then (checked_attention_row E row) (\<lambda>item. Inr (Some item)))"

section \<open>Pages\<close>

record AttentionCursor =
  cu_severity_rank :: i64
  cu_opened_at_ms :: i64
  cu_attention_id :: string

record AttentionPage =
  pg_items :: "AttentionItem list"
  pg_includes_terminal :: bool
  pg_next_cursor :: "string option"

definition MAX_ATTENTION_PAGE_SIZE :: u32 where
  "MAX_ATTENTION_PAGE_SIZE = 200"

fun severity_rank_of :: "AttentionSeverity \<Rightarrow> i64" where
  "severity_rank_of Critical = 0"
| "severity_rank_of High = 1"
| "severity_rank_of Normal = 2"
| "severity_rank_of Info = 3"

definition severity_rank :: "AttentionItem \<Rightarrow> i64" where
  "severity_rank item = severity_rank_of (at_severity item)"

definition format_cursor :: "AttentionItem \<Rightarrow> string" where
  "format_cursor item = format_i64 (severity_rank item) @ '':'' @ format_i64 (at_opened_at_ms item) @ '':'' @ at_attention_id item"

definition parse_cursor :: "string \<Rightarrow> AttentionCursor stored" where
  "parse_cursor v =
    (let parts = splitn 3 (CHR '':'') v;
         nth_part = (\<lambda>n. if n < length parts then Some (parts ! n) else None);
         rank = (case Option.bind (nth_part 0) parse_i64 of
           Some r \<Rightarrow> if 0 \<le> r \<and> r \<le> 3 then Some r else None | None \<Rightarrow> None);
         opened = Option.bind (nth_part 1) parse_i64;
         i = Option.bind (nth_part 2) (\<lambda>s. case_sum (\<lambda>_. None) Some (parse_id ''AttentionItemId'' s))
     in case (rank, opened, i) of
          (Some rank, Some opened, Some i) \<Rightarrow>
            Inr \<lparr>cu_severity_rank = rank, cu_opened_at_ms = opened, cu_attention_id = i\<rparr>
        | _ \<Rightarrow> Inl (Validation ''attention cursor is malformed''))"

definition after_cursor :: "AttentionCursor \<Rightarrow> attention_row \<Rightarrow> bool" where
  "after_cursor c r \<longleftrightarrow> severity_rank_of (aw_severity r) > cu_severity_rank c \<or>
     (severity_rank_of (aw_severity r) = cu_severity_rank c \<and>
       (aw_opened_at r < cu_opened_at_ms c \<or> (aw_opened_at r = cu_opened_at_ms c \<and> aw_id r < cu_attention_id c)))"

definition listing_order :: "attention_row list \<Rightarrow> attention_row list" where
  "listing_order rows = sort_key (\<lambda>r. severity_rank_of (aw_severity r))
     (sort_key (\<lambda>r. - aw_opened_at r) (rev (sort_key aw_id rows)))"

definition list_attention_page ::
  "attention_env \<Rightarrow> bool \<Rightarrow> u32 \<Rightarrow> string option \<Rightarrow> attention_db \<Rightarrow> AttentionPage stored" where
  "list_attention_page E include_terminal limit cursor db =
    (if limit = 0 \<or> limit > MAX_ATTENTION_PAGE_SIZE
     then Inl (Validation ''attention page limit must be 1..=200'')
     else and_then (case cursor of None \<Rightarrow> Inr None | Some v \<Rightarrow> and_then (parse_cursor v) (\<lambda>c. Inr (Some c)))
    (\<lambda>cursor. let shown = (\<lambda>r. (include_terminal \<or> live_state (aw_state r)) \<and>
           (case cursor of None \<Rightarrow> True | Some c \<Rightarrow> after_cursor c r))
     in and_then (collect_rows (checked_attention_row E)
          (take (unat limit + 1) (listing_order (filter shown (aitems db)))))
    (\<lambda>items. let page = (if length items > unat limit then butlast items else items);
         cursor = (if length items > unat limit
           then Some (format_cursor (if page = [] then last items else last page)) else None)
     in Inr \<lparr>pg_items = page, pg_includes_terminal = include_terminal, pg_next_cursor = cursor\<rparr>)))"

definition list_attention :: "attention_env \<Rightarrow> bool \<Rightarrow> u32 \<Rightarrow> attention_db \<Rightarrow> AttentionPage stored" where
  "list_attention E include_terminal limit db = list_attention_page E include_terminal limit None db"

section \<open>Rows and the items they hold\<close>

definition item_row :: "attention_env \<Rightarrow> i64 \<Rightarrow> AttentionItem \<Rightarrow> string \<Rightarrow> attention_row" where
  "item_row E now item raw =
    \<lparr>aw_id = at_attention_id item, aw_source_type = source_type (at_source item),
     aw_source_id = source_id (at_source item), aw_source_revision = uint (source_revision (at_source item)),
     aw_severity = at_severity item, aw_state = at_state item, aw_dedupe_key = at_dedupe_key item,
     aw_opened_at = at_opened_at_ms item, aw_raw = raw, aw_sha = av_sha E raw,
     aw_version = uint (at_version item), aw_updated_at = now\<rparr>"

definition holds_item :: "attention_env \<Rightarrow> attention_row \<Rightarrow> AttentionItem \<Rightarrow> bool" where
  "holds_item E r item \<longleftrightarrow> enc (av_item E) item = Some (aw_raw r) \<and> validate_attention_item item = Inr () \<and>
     r = item_row E (aw_updated_at r) item (aw_raw r)"

definition row_source :: "attention_row \<Rightarrow> AttentionSourceType \<times> string" where
  "row_source r = (aw_source_type r, aw_source_id r)"

definition items_ok :: "attention_env \<Rightarrow> attention_row list \<Rightarrow> bool" where
  "items_ok E rows \<longleftrightarrow> (\<forall>r \<in> set rows. \<exists>item. holds_item E r item) \<and> distinct (map aw_id rows) \<and>
     distinct (map (\<lambda>r. (row_source r, aw_source_revision r)) rows) \<and>
     distinct (map row_source (filter (\<lambda>r. live_state (aw_state r)) rows))"

text \<open>What a call may do to the items.\<close>

inductive attention_step :: "attention_env \<Rightarrow> attention_row list \<Rightarrow> attention_row list \<Rightarrow> bool" for E where
  kept: "attention_step E rows rows"
| opened: "validate_attention_item item = Inr () \<Longrightarrow> enc (av_item E) item = Some raw \<Longrightarrow> at_state item = Open \<Longrightarrow>
    \<not> list_ex (\<lambda>r. aw_id r = at_attention_id item) rows \<Longrightarrow>
    \<not> list_ex (\<lambda>r. same_source (at_source item) r \<and> aw_source_revision r = uint (source_revision (at_source item))) rows \<Longrightarrow>
    \<not> list_ex (\<lambda>r. same_source (at_source item) r \<and> live_state (aw_state r)) rows \<Longrightarrow>
    attention_step E rows (rows @ [item_row E now item raw])"
| moved: "r \<in> set rows \<Longrightarrow> dec (av_item E) (aw_raw r) = Some item \<Longrightarrow> \<not> attention_is_terminal (at_state item) \<Longrightarrow>
    attention_can_transition_to (at_state item) s \<Longrightarrow> s \<noteq> Open \<Longrightarrow>
    item' = item\<lparr>at_state := s, at_acknowledged_at_ms := ack, at_resolution := res, at_version := at_version item + 1\<rparr> \<Longrightarrow>
    unat (at_version item + 1) = Suc (unat (at_version item)) \<Longrightarrow>
    validate_attention_item item' = Inr () \<Longrightarrow> enc (av_item E) item' = Some raw \<Longrightarrow>
    attention_step E rows (map (\<lambda>q. if row_version_hit (aw_id r) (uint (at_version item)) q
      then changed_row E now item' raw (uint (at_version item')) q else q) rows)"

lemma live_not_terminal: "live_state s \<longleftrightarrow> \<not> attention_is_terminal s"
  by (cases s) (simp_all add: live_state_def attention_is_terminal_def)

lemma link_event_tables: "link_event E item k db = Inr db' \<Longrightarrow> aitems db' = aitems db \<and> aevents db' = aevents db"
  by (auto simp: link_event_def and_then_ok)

lemma insert_attention_event_items:
  "insert_attention_event item k e raw d t db = Inr db' \<Longrightarrow> aitems db' = aitems db"
  by (auto simp: insert_attention_event_def and_then_ok split: if_splits)

lemma insert_attention_row_ok:
  assumes "insert_attention_row E now item (uint (source_revision (at_source item))) (uint (at_version item)) raw db = Inr db'"
  shows "aitems db' = aitems db @ [item_row E now item raw] \<and> \<not> list_ex (\<lambda>r. aw_id r = at_attention_id item) (aitems db)"
  using assms by (auto simp: insert_attention_row_def and_then_ok item_row_def list_ex_iff split: if_splits)

lemma open_new_step:
  assumes "open_new E now item (uint (source_revision (at_source item))) (uint (at_version item)) raw db = Inr (x, db')"
    "validate_attention_item item = Inr ()" "enc (av_item E) item = Some raw" "at_state item = Open"
    "lookup_row (\<lambda>r. same_source (at_source item) r \<and> aw_source_revision r = uint (source_revision (at_source item))) (aitems db) = None"
  shows "attention_step E (aitems db) (aitems db') \<and> aitems db' = aitems db @ [item_row E now item raw]"
proof -
  from assms(1) have live: "\<not> list_ex (\<lambda>r. same_source (at_source item) r \<and> live_state (aw_state r)) (aitems db)"
    by (auto simp: open_new_def)
  with assms(1) obtain db1 db2 where
    "insert_attention_row E now item (uint (source_revision (at_source item))) (uint (at_version item)) raw db = Inr db1"
    "insert_attention_event item ''opened'' None raw (av_sha E raw) now db1 = Inr db2"
    "link_event E item ''opened'' db2 = Inr db'"
    by (auto simp: open_new_def and_then_ok)
  then have "aitems db' = aitems db @ [item_row E now item raw]" "\<not> list_ex (\<lambda>r. aw_id r = at_attention_id item) (aitems db)"
    using link_event_tables insert_attention_event_items insert_attention_row_ok by metis+
  moreover have "\<not> list_ex (\<lambda>r. same_source (at_source item) r \<and> aw_source_revision r = uint (source_revision (at_source item))) (aitems db)"
    using assms(5) by (auto simp: lookup_row_None list_ex_iff)
  ultimately show ?thesis
    using assms(2-4) live by (auto intro: attention_step.opened)
qed

lemma upsert_cases:
  assumes "upsert_source_attention E now item db = Inr (x, db')"
  obtains (replayed) row where "row \<in> set (aitems db)" "same_source (at_source item) row"
      "aw_source_revision row = uint (source_revision (at_source item))" "enc (av_item E) item = Some (aw_raw row)"
      "aitems db' = aitems db"
    | (fresh) raw where "attention_step E (aitems db) (aitems db')" "enc (av_item E) item = Some raw"
      "aitems db' = aitems db @ [item_row E now item raw]" "at_state item = Open" "validate_attention_item item = Inr ()"
proof -
  define same where "same = (\<lambda>r. same_source (at_source item) r \<and> aw_source_revision r = uint (source_revision (at_source item)))"
  from assms have v: "validate_attention_item item = Inr ()" "at_state item = Open" "at_version item = 1"
    by (auto simp: upsert_source_attention_def and_then_ok split: if_splits)
  from assms obtain raw where raw: "enc (av_item E) item = Some raw" and
    c: "(case lookup_row same (aitems db) of
       Some row \<Rightarrow> and_then (attention_from_raw E (aw_raw row))
         (\<lambda>existing. if aw_raw row = raw
            then and_then (link_event E existing ''opened'' db) (\<lambda>db. Inr (existing, db))
            else Inl (Conflict (''attention source '' @ source_id (at_source item) @ '' already has a different payload'')))
     | None \<Rightarrow> open_new E now item (uint (source_revision (at_source item))) 1 raw db) = Inr (x, db')"
    by (auto simp: upsert_source_attention_def and_then_ok same_def split: if_splits)
  show thesis
  proof (cases "lookup_row same (aitems db)")
    case None
    with c v(3) have "open_new E now item (uint (source_revision (at_source item))) (uint (at_version item)) raw db = Inr (x, db')"
      by simp
    from open_new_step [OF this v(1) raw v(2) None [unfolded same_def]] fresh raw v show thesis by blast
  next
    case (Some row)
    with c have "aitems db' = aitems db" "aw_raw row = raw"
      by (auto simp: and_then_ok split: if_splits dest: link_event_tables)
    with lookup_row_Some [OF Some] raw show thesis
      by (intro replayed [of row]) (auto simp: same_def)
  qed
qed

lemma upsert_step:
  "upsert_source_attention E now item db = Inr (x, db') \<Longrightarrow> attention_step E (aitems db) (aitems db')"
  by (erule upsert_cases) (simp_all add: attention_step.kept)

lemma expected_item_ok:
  assumes "expected_item E i expected db = Inr item"
  obtains r where "r \<in> set (aitems db)" "aw_id r = i" "dec (av_item E) (aw_raw r) = Some item"
    "expected = uint (at_version item)"
  using assms by (auto simp: expected_item_def attention_from_raw_def and_then_ok dest!: lookup_row_Some split: if_splits)

lemma bump_version_ok:
  assumes "bump_version item = Inr item'"
  shows "item' = item\<lparr>at_version := at_version item + 1\<rparr> \<and> unat (at_version item + 1) = Suc (unat (at_version item))"
proof -
  from assms obtain v where v: "checked_add (at_version item) 1 = Some v" "item' = item\<lparr>at_version := v\<rparr>"
    by (auto simp: bump_version_def and_then_ok)
  then have "v = at_version item + 1" by (simp add: checked_add_def split: if_splits)
  with v show ?thesis by (simp add: checked_add_Some)
qed

lemma store_changed_ok:
  assumes "store_changed E now i item expected k db = Inr (x, db')"
  obtains raw where "enc (av_item E) item = Some raw" "x = item"
    "aitems db' = map (\<lambda>q. if row_version_hit i expected q
       then changed_row E now item raw (uint (at_version item)) q else q) (aitems db)"
proof -
  from assms obtain raw db2 where "enc (av_item E) item = Some raw" "x = item"
    "insert_attention_event item k (Some expected) raw (av_sha E raw) now
       (db\<lparr>aitems := map (\<lambda>q. if row_version_hit i expected q
          then changed_row E now item raw (uint (at_version item)) q else q) (aitems db)\<rparr>) = Inr db2"
    "link_event E item k db2 = Inr db'"
    by (auto simp: store_changed_def and_then_ok split: if_splits)
  then show thesis
    using that link_event_tables [of E item k db2 db'] insert_attention_event_items by fastforce
qed

lemma change_step:
  assumes "expected_item E i expected db = Inr item" "attention_can_transition_to (at_state item) s"
    "\<not> attention_is_terminal (at_state item)" "s \<noteq> Open"
    "bump_version (item\<lparr>at_state := s, at_acknowledged_at_ms := ack, at_resolution := res\<rparr>) = Inr item'"
    "validate_attention_item item' = Inr ()" "store_changed E now i item' expected k db = Inr (x, db')"
  shows "attention_step E (aitems db) (aitems db')"
proof -
  from expected_item_ok [OF assms(1)] obtain r where r: "r \<in> set (aitems db)" "aw_id r = i"
    "dec (av_item E) (aw_raw r) = Some item" "expected = uint (at_version item)" .
  from store_changed_ok [OF assms(7)] obtain raw where raw: "enc (av_item E) item' = Some raw" "x = item'"
    "aitems db' = map (\<lambda>q. if row_version_hit i expected q
       then changed_row E now item' raw (uint (at_version item')) q else q) (aitems db)" .
  from bump_version_ok [OF assms(5)] have bumped:
    "item' = item\<lparr>at_state := s, at_acknowledged_at_ms := ack, at_resolution := res, at_version := at_version item + 1\<rparr>"
    "unat (at_version item + 1) = Suc (unat (at_version item))"
    by simp_all
  from attention_step.moved [OF r(1,3) assms(3,2,4) bumped assms(6) raw(1), of now] show ?thesis
    by (simp add: raw(3) r(2,4))
qed

lemma acknowledge_step:
  assumes "acknowledge_attention E clock i v ack db = Inr (x, db')"
  shows "attention_step E (aitems db) (aitems db')"
proof -
  define now where "now = (case ack of Some t \<Rightarrow> t | None \<Rightarrow> clock)"
  from assms obtain expected item item' where *: "expected_item E i expected db = Inr item"
    "validate_transition (at_state item) Acknowledged False = Inr ()"
    "bump_version (item\<lparr>at_state := Acknowledged, at_acknowledged_at_ms := Some now\<rparr>) = Inr item'"
    "validate_attention_item item' = Inr ()" "store_changed E now i item' expected ''acknowledged'' db = Inr (x, db')"
    by (auto simp: acknowledge_attention_def Let_def and_then_ok now_def)
  have "item\<lparr>at_state := Acknowledged, at_acknowledged_at_ms := Some now\<rparr> =
    item\<lparr>at_state := Acknowledged, at_acknowledged_at_ms := Some now, at_resolution := at_resolution item\<rparr>"
    by simp
  with * show ?thesis
    by (intro change_step [OF *(1), where s = Acknowledged and ack = "Some now" and res = "at_resolution item"]) (auto simp: ok_iff)
qed

lemma resolve_step:
  assumes "resolve_attention_from_source E now i v s res db = Inr (x, db')"
  shows "attention_step E (aitems db) (aitems db')"
proof -
  from assms obtain expected item item' where *: "expected_item E i expected db = Inr item" "attention_is_terminal s"
    "validate_transition (at_state item) s False = Inr ()"
    "bump_version (item\<lparr>at_state := s, at_resolution := Some res\<rparr>) = Inr item'"
    "validate_attention_item item' = Inr ()" "store_changed E now i item' expected (closing_event_kind s) db = Inr (x, db')"
    by (auto simp: resolve_attention_from_source_def and_then_ok split: if_splits)
  have "item\<lparr>at_state := s, at_resolution := Some res\<rparr> =
    item\<lparr>at_state := s, at_acknowledged_at_ms := at_acknowledged_at_ms item, at_resolution := Some res\<rparr>"
    by simp
  moreover have "s \<noteq> Open" using *(2) by (auto simp: attention_is_terminal_def)
  ultimately show ?thesis using *
    by (intro change_step [OF *(1), where s = s and ack = "at_acknowledged_at_ms item" and res = "Some res"]) (auto simp: ok_iff)
qed

section \<open>Invariant\<close>

lemma holds_itemD:
  assumes "holds_item E r item"
  shows "aw_id r = at_attention_id item" "row_source r = (source_type (at_source item), source_id (at_source item))"
    "aw_source_revision r = uint (source_revision (at_source item))" "aw_severity r = at_severity item"
    "aw_state r = at_state item" "aw_opened_at r = at_opened_at_ms item" "aw_version r = uint (at_version item)"
proof -
  from assms obtain now raw where "r = item_row E now item raw" by (auto simp: holds_item_def)
  then show "aw_id r = at_attention_id item" "row_source r = (source_type (at_source item), source_id (at_source item))"
    "aw_source_revision r = uint (source_revision (at_source item))" "aw_severity r = at_severity item"
    "aw_state r = at_state item" "aw_opened_at r = at_opened_at_ms item" "aw_version r = uint (at_version item)"
    by (simp_all add: item_row_def row_source_def)
qed

lemma holds_item_new:
  "enc (av_item E) item = Some raw \<Longrightarrow> validate_attention_item item = Inr () \<Longrightarrow> holds_item E (item_row E now item raw) item"
  by (simp add: holds_item_def item_row_def)

lemma holds_item_dec:
  "codec_ok (av_item E) \<Longrightarrow> holds_item E r item \<Longrightarrow> dec (av_item E) (aw_raw r) = Some item"
  by (simp add: holds_item_def codec_okD)

lemma holds_item_sha: "holds_item E r item \<Longrightarrow> aw_sha r = av_sha E (aw_raw r)"
proof -
  assume "holds_item E r item"
  then have "r = item_row E (aw_updated_at r) item (aw_raw r)" by (simp add: holds_item_def)
  from arg_cong [OF this, of aw_sha] show ?thesis by (simp add: item_row_def)
qed

lemma holds_item_checked:
  "codec_ok (av_item E) \<Longrightarrow> holds_item E r item \<Longrightarrow> checked_attention_row E r = Inr item"
  using holds_item_dec [of E r item] holds_item_sha [of E r item]
  by (simp add: checked_attention_row_def holds_item_def)

lemma changed_row_keys [simp]:
  "aw_id (changed_row E now item raw v r) = aw_id r" "row_source (changed_row E now item raw v r) = row_source r"
  "aw_source_revision (changed_row E now item raw v r) = aw_source_revision r"
  "aw_state (changed_row E now item raw v r) = at_state item" "aw_severity (changed_row E now item raw v r) = aw_severity r"
  by (simp_all add: changed_row_def row_source_def)

lemma changed_row_holds:
  assumes "holds_item E r item" "enc (av_item E) item' = Some raw" "validate_attention_item item' = Inr ()"
    "item' = item\<lparr>at_state := s, at_acknowledged_at_ms := ack, at_resolution := res, at_version := v\<rparr>"
  shows "holds_item E (changed_row E now item' raw (uint (at_version item')) r) item'"
proof -
  from assms(1) obtain now0 raw0 where "r = item_row E now0 item raw0" by (auto simp: holds_item_def)
  then have "changed_row E now item' raw (uint (at_version item')) r = item_row E now item' raw"
    using assms(4) by (simp add: changed_row_def item_row_def)
  with assms(2,3) show ?thesis by (simp add: holds_item_new)
qed

text \<open>A move changes one row, which is live before.\<close>

lemma moved_row:
  assumes "codec_ok (av_item E)" "items_ok E rows" "r \<in> set rows" "dec (av_item E) (aw_raw r) = Some item"
    "q \<in> set rows" "row_version_hit (aw_id r) v q"
  shows "q = r \<and> holds_item E q item"
proof -
  from assms(2) have "inj_on aw_id (set rows)" by (simp add: items_ok_def distinct_map)
  with assms(3,5,6) have "q = r" by (auto simp: row_version_hit_def dest: inj_onD)
  moreover from assms(2,3) obtain it where "holds_item E r it" by (auto simp: items_ok_def)
  ultimately show ?thesis using assms(1,4) holds_item_dec by fastforce
qed

lemma distinct_filter_map:
  assumes "distinct (map k (filter P xs))" "\<And>x. x \<in> set xs \<Longrightarrow> k (f x) = k x" "\<And>x. x \<in> set xs \<Longrightarrow> P (f x) \<Longrightarrow> P x"
  shows "distinct (map k (filter P (map f xs)))"
proof -
  have "map k (filter P (map f xs)) = map k (filter (P \<circ> f) xs)"
    using assms(2) by (auto simp: filter_map)
  also have "filter (P \<circ> f) xs = filter (P \<circ> f) (filter P xs)"
    using assms(3) by (auto intro: filter_cong)
  finally show ?thesis by (simp only: distinct_map_filter [OF assms(1)])
qed

lemma attention_step_ok:
  assumes "attention_step E rows rows'" "codec_ok (av_item E)" "items_ok E rows"
  shows "items_ok E rows'"
  using assms(1)
proof (cases rule: attention_step.cases)
  case kept
  with assms(3) show ?thesis by simp
next
  case (opened item raw now)
  have src: "aw_source_type (item_row E now item raw) = source_type (at_source item)"
    "aw_source_id (item_row E now item raw) = source_id (at_source item)"
    "aw_source_revision (item_row E now item raw) = uint (source_revision (at_source item))"
    "aw_id (item_row E now item raw) = at_attention_id item" "aw_state (item_row E now item raw) = at_state item"
    by (simp_all add: item_row_def row_source_def)
  from opened assms(3) show ?thesis
    unfolding items_ok_def
    by (auto simp: src row_source_def same_source_def list_ex_iff intro: holds_item_new)
next
  case (moved r item s item' ack res raw now)
  define f where "f = (\<lambda>q. if row_version_hit (aw_id r) (uint (at_version item)) q
    then changed_row E now item' raw (uint (at_version item')) q else q)"
  have hit: "q = r \<and> holds_item E q item" if "q \<in> set rows" "row_version_hit (aw_id r) (uint (at_version item)) q" for q
    by (rule moved_row [OF assms(2,3) moved(2,3) that])
  have keys: "aw_id (f q) = aw_id q" "row_source (f q) = row_source q" "aw_source_revision (f q) = aw_source_revision q" for q
    by (simp_all add: f_def)
  have live: "live_state (aw_state q)" if "q \<in> set rows" "live_state (aw_state (f q))" for q
    using that hit [OF that(1)] moved(4) by (auto simp: f_def live_not_terminal holds_itemD split: if_splits)
  have "\<exists>it. holds_item E (f q) it" if "q \<in> set rows" for q
    using that hit [OF that] assms(3) changed_row_holds [OF _ moved(10,9,7)] by (auto simp: f_def items_ok_def)
  with assms(3) keys live show ?thesis
    unfolding moved(1) f_def [symmetric] items_ok_def
    by (auto simp: comp_def intro!: distinct_filter_map)
qed

lemma attention_step_final:
  assumes "attention_step E rows rows'" "codec_ok (av_item E)" "items_ok E rows" "q \<in> set rows" "attention_is_terminal (aw_state q)"
  shows "q \<in> set rows'"
  using assms(1)
proof (cases rule: attention_step.cases)
  case (moved r item s item' ack res raw now)
  have "\<not> row_version_hit (aw_id r) (uint (at_version item)) q"
    using moved_row [OF assms(2,3) moved(2,3) assms(4)] moved(4) assms(5) holds_itemD(5) by metis
  then show ?thesis using assms(4) unfolding moved(1) by force
qed (use assms(4) in simp_all)

section \<open>Sequences of calls\<close>

datatype attention_call =
    OpenAttention i64 AttentionItem
  | AcknowledgeAttention i64 string u64 "i64 option"
  | CloseAttention i64 string u64 AttentionState AttentionResolution

fun attention_result :: "attention_env \<Rightarrow> attention_call \<Rightarrow> attention_db \<Rightarrow> (AttentionItem \<times> attention_db) stored" where
  "attention_result E (OpenAttention now item) db = upsert_source_attention E now item db"
| "attention_result E (AcknowledgeAttention clock i v ack) db = acknowledge_attention E clock i v ack db"
| "attention_result E (CloseAttention now i v s res) db = resolve_attention_from_source E now i v s res db"

definition attention_effect :: "attention_env \<Rightarrow> attention_call \<Rightarrow> attention_db \<Rightarrow> attention_db" where
  "attention_effect E call db = (case attention_result E call db of Inl _ \<Rightarrow> db | Inr (_, db') \<Rightarrow> db')"

definition attention_calls :: "attention_env \<Rightarrow> attention_call list \<Rightarrow> attention_db \<Rightarrow> attention_db" where
  "attention_calls E calls db = fold (attention_effect E) calls db"

definition no_attention :: attention_db where
  "no_attention = \<lparr>aitems = [], aevents = [], alinks = []\<rparr>"

lemma attention_effect_step: "attention_step E (aitems db) (aitems (attention_effect E call db))"
proof (cases "attention_result E call db")
  case (Inr p)
  then obtain x db' where "attention_result E call db = Inr (x, db')" by (cases p) simp
  then show ?thesis
    by (cases call) (auto simp: attention_effect_def intro: upsert_step acknowledge_step resolve_step)
qed (simp add: attention_effect_def attention_step.kept)

definition attention_inv :: "attention_env \<Rightarrow> attention_db \<Rightarrow> bool" where
  "attention_inv E db \<longleftrightarrow> codec_ok (av_item E) \<and> items_ok E (aitems db)"

definition closed_row :: "attention_row \<Rightarrow> attention_db \<Rightarrow> bool" where
  "closed_row r db \<longleftrightarrow> r \<in> set (aitems db) \<and> attention_is_terminal (aw_state r)"

interpretation attention: permanent_fact "attention_effect E" "attention_inv E" "closed_row r" for E r
  by unfold_locales
    (auto simp: attention_inv_def closed_row_def intro: attention_step_ok attention_step_final attention_effect_step)

lemma attention_calls_ok:
  assumes "codec_ok (av_item E)" "items_ok E (aitems db)"
  shows "items_ok E (aitems (attention_calls E calls db))"
  using attention.always [of E db calls] assms by (simp add: attention_inv_def attention_calls_def)

lemma no_attention_ok: "items_ok E (aitems no_attention)"
  by (simp add: items_ok_def no_attention_def)

lemma attention_calls_final:
  assumes "codec_ok (av_item E)" "items_ok E (aitems db)" "r \<in> set (aitems db)" "attention_is_terminal (aw_state r)"
  shows "r \<in> set (aitems (attention_calls E calls db))"
  using attention.permanent [of E db r calls] assms by (simp add: attention_inv_def closed_row_def attention_calls_def)

lemma attention_item_iff:
  assumes "codec_ok (av_item E)" "items_ok E (aitems db)"
  shows "attention_item E i db = Inr (Some item) \<longleftrightarrow> (\<exists>r \<in> set (aitems db). aw_id r = i \<and> holds_item E r item)"
proof
  assume "attention_item E i db = Inr (Some item)"
  then obtain r where r: "lookup_row (\<lambda>r. aw_id r = i) (aitems db) = Some r" "checked_attention_row E r = Inr item"
    by (auto simp: attention_item_def and_then_ok split: option.splits)
  from lookup_row_Some [OF r(1)] assms(2) obtain it where "r \<in> set (aitems db)" "aw_id r = i" "holds_item E r it"
    by (auto simp: items_ok_def)
  with holds_item_checked [OF assms(1), of r it] r(2) show "\<exists>r \<in> set (aitems db). aw_id r = i \<and> holds_item E r item"
    by auto
next
  assume "\<exists>r \<in> set (aitems db). aw_id r = i \<and> holds_item E r item"
  then obtain r where r: "r \<in> set (aitems db)" "aw_id r = i" "holds_item E r item" by blast
  obtain q where q: "lookup_row (\<lambda>r. aw_id r = i) (aitems db) = Some q"
    using r(1,2) by (cases "lookup_row (\<lambda>r. aw_id r = i) (aitems db)") (auto simp: lookup_row_None)
  have "inj_on aw_id (set (aitems db))" using assms(2) by (simp add: items_ok_def distinct_map)
  with r lookup_row_Some [OF q] have "q = r" by (auto dest: inj_onD)
  with q holds_item_checked [OF assms(1) r(3)] show "attention_item E i db = Inr (Some item)"
    by (simp add: attention_item_def)
qed

section \<open>The order of the listing\<close>

definition listed_before :: "attention_row \<Rightarrow> attention_row \<Rightarrow> bool" where
  "listed_before a b \<longleftrightarrow> severity_rank_of (aw_severity a) < severity_rank_of (aw_severity b) \<or>
     severity_rank_of (aw_severity a) = severity_rank_of (aw_severity b) \<and>
       (- aw_opened_at a < - aw_opened_at b \<or> - aw_opened_at a = - aw_opened_at b \<and> aw_id b < aw_id a)"

text \<open>A stable sort refines the order its input already has.\<close>

lemma insort_refines:
  assumes "sorted_wrt (\<lambda>a b. f a < f b \<or> f a = f b \<and> P a b) ys" "\<And>y. y \<in> set ys \<Longrightarrow> P x y"
  shows "sorted_wrt (\<lambda>a b. f a < f b \<or> f a = f b \<and> P a b) (insort_key f x ys)"
  using assms
proof (induction ys)
  case (Cons y ys)
  show ?case
  proof (cases "f x \<le> f y")
    case True
    have "f x < f z \<or> f x = f z \<and> P x z" if "z \<in> set (y # ys)" for z
      using True Cons.prems that by (cases "z = y") (auto simp: order.order_iff_strict)
    with True Cons.prems(1) show ?thesis by simp
  next
    case False
    with Cons show ?thesis by (auto simp: set_insort_key)
  qed
qed simp

lemma sort_key_refines:
  "sorted_wrt P xs \<Longrightarrow> sorted_wrt (\<lambda>a b. f a < f b \<or> f a = f b \<and> P a b) (sort_key f xs)"
  by (induction xs) (auto intro!: insort_refines)

lemma listing_order_sorted:
  assumes "distinct (map aw_id rows)"
  shows "sorted_wrt listed_before (listing_order rows)"
proof -
  have "sorted_wrt (<) (map aw_id (sort_key aw_id rows))"
    using assms by (simp add: strict_sorted_iff distinct_map)
  then have "sorted_wrt (\<lambda>a b. aw_id b < aw_id a) (rev (sort_key aw_id rows))"
    by (simp add: sorted_wrt_map sorted_wrt_rev)
  from sort_key_refines [OF sort_key_refines [OF this, of "\<lambda>r. - aw_opened_at r"], of "\<lambda>r. severity_rank_of (aw_severity r)"]
  show ?thesis by (simp only: listing_order_def listed_before_def [abs_def])
qed

lemma listing_order_filter: "listing_order (filter P rows) = filter P (listing_order rows)"
  by (simp add: listing_order_def filter_sort rev_filter [symmetric] del: rev_filter)

lemma mset_listing_order [simp]: "mset (listing_order rows) = mset rows"
  by (simp add: listing_order_def)

lemma set_listing_order [simp]: "set (listing_order rows) = set rows"
  by (metis mset_listing_order set_mset_mset)

lemma listed_after:
  assumes "sorted_wrt listed_before L" "k < length L"
  shows "filter (listed_before (L ! k)) L = drop (Suc k) L"
proof -
  define xs x ys where "xs = take k L" and "x = L ! k" and "ys = drop (Suc k) L"
  have L: "L = xs @ x # ys" using assms(2) by (simp add: xs_def x_def ys_def id_take_nth_drop)
  have asym: "listed_before a b \<Longrightarrow> \<not> listed_before b a" and irr: "\<not> listed_before a a" for a b
    by (auto simp: listed_before_def)
  from assms(1) have "sorted_wrt listed_before (xs @ x # ys)" by (simp only: L [symmetric])
  then have "\<forall>y \<in> set xs. listed_before y x" "\<forall>y \<in> set ys. listed_before x y"
    by (auto simp: sorted_wrt_append)
  then have "filter (listed_before x) (xs @ x # ys) = ys"
    using asym irr by (auto simp: filter_empty_conv)
  then show ?thesis by (simp only: L [symmetric]) (simp add: x_def ys_def)
qed

section \<open>Following the cursors\<close>

definition stored_item :: "attention_env \<Rightarrow> attention_row \<Rightarrow> AttentionItem" where
  "stored_item E r = the (dec (av_item E) (aw_raw r))"

text \<open>What the types promise of a stored row: the time is a 64-bit number and the id a parsed identifier.\<close>

definition rows_typed :: "attention_row list \<Rightarrow> bool" where
  "rows_typed rows \<longleftrightarrow> list_all (\<lambda>r. in_i64 (aw_opened_at r) \<and> is_safe_operator_control_identifier (aw_id r)) rows"

definition shown_rows :: "bool \<Rightarrow> attention_db \<Rightarrow> attention_row list" where
  "shown_rows include_terminal db = listing_order (filter (\<lambda>r. include_terminal \<or> live_state (aw_state r)) (aitems db))"

text \<open>A client that reads pages until there is no next cursor; the first argument bounds the number of pages.\<close>

fun follow_cursors ::
  "nat \<Rightarrow> attention_env \<Rightarrow> bool \<Rightarrow> u32 \<Rightarrow> string option \<Rightarrow> attention_db \<Rightarrow> AttentionItem list option" where
  "follow_cursors 0 E include_terminal limit cursor db = None"
| "follow_cursors (Suc n) E include_terminal limit cursor db =
    (case list_attention_page E include_terminal limit cursor db of
       Inl _ \<Rightarrow> None
     | Inr page \<Rightarrow> (case pg_next_cursor page of
         None \<Rightarrow> Some (pg_items page)
       | Some c \<Rightarrow> map_option ((@) (pg_items page)) (follow_cursors n E include_terminal limit (Some c) db)))"

lemma stored_item_holds:
  assumes "codec_ok (av_item E)" "items_ok E rows" "r \<in> set rows"
  shows "holds_item E r (stored_item E r)"
proof -
  from assms(2,3) obtain it where "holds_item E r it" by (auto simp: items_ok_def)
  with holds_item_dec [OF assms(1) this] show ?thesis by (simp add: stored_item_def)
qed

lemma collect_stored:
  assumes "codec_ok (av_item E)" "items_ok E rows"
  shows "set xs \<subseteq> set rows \<Longrightarrow> collect_rows (checked_attention_row E) xs = Inr (map (stored_item E) xs)"
proof (induction xs)
  case (Cons r xs)
  then have "checked_attention_row E r = Inr (stored_item E r)"
    by (intro holds_item_checked [OF assms(1)] stored_item_holds [OF assms]) simp
  with Cons show ?case by simp
qed simp

lemma severity_rank_range: "0 \<le> severity_rank_of s \<and> severity_rank_of s \<le> 3"
  by (cases s) simp_all

lemma parse_format_cursor:
  assumes "in_i64 (at_opened_at_ms item)" "is_safe_operator_control_identifier (at_attention_id item)"
  shows "parse_cursor (format_cursor item) =
    Inr \<lparr>cu_severity_rank = severity_rank item, cu_opened_at_ms = at_opened_at_ms item, cu_attention_id = at_attention_id item\<rparr>"
proof -
  have rank: "in_i64 (severity_rank item)" "0 \<le> severity_rank item" "severity_rank item \<le> 3"
    using severity_rank_range [of "at_severity item"] by (auto simp: severity_rank_def in_i64_def)
  have "splitn 3 (CHR '':'') (format_cursor item) =
    [format_i64 (severity_rank item), format_i64 (at_opened_at_ms item), at_attention_id item]"
    by (simp add: format_cursor_def numeral_3_eq_3 splitn_cons format_i64_no_colon del: splitn.simps(3))
  moreover have i: "parse_id ''AttentionItemId'' (at_attention_id item) = Inr (at_attention_id item)"
    using assms(2) by simp
  ultimately show ?thesis
    using rank assms(1) by (simp add: parse_cursor_def Let_def parse_format_i64 i del: parse_id_ok)
qed

text \<open>The cursor after the first \<open>k\<close> rows, and the page that starts there.\<close>

definition cursor_at :: "attention_env \<Rightarrow> attention_row list \<Rightarrow> nat \<Rightarrow> string option" where
  "cursor_at E L k = (if k = 0 then None else Some (format_cursor (stored_item E (L ! (k - 1)))))"

lemma rows_from_cursor:
  assumes "codec_ok (av_item E)" "items_ok E (aitems db)" "rows_typed (aitems db)" "k \<le> length (shown_rows incl db)"
  obtains c where
    "(case cursor_at E (shown_rows incl db) k of None \<Rightarrow> Inr None | Some v \<Rightarrow> and_then (parse_cursor v) (\<lambda>c. Inr (Some c))) = Inr c"
    "listing_order (filter (\<lambda>r. (incl \<or> live_state (aw_state r)) \<and> (case c of None \<Rightarrow> True | Some c \<Rightarrow> after_cursor c r)) (aitems db)) =
       drop k (shown_rows incl db)"
proof (cases k)
  case 0
  then show thesis by (intro that [of None]) (simp_all add: cursor_at_def shown_rows_def)
next
  case (Suc j)
  define L where "L = shown_rows incl db"
  define r where "r = L ! j"
  from assms(4) Suc have j: "j < length L" by (simp add: L_def)
  then have r: "r \<in> set (aitems db)" using nth_mem [OF j] by (simp add: r_def L_def shown_rows_def)
  note item = stored_item_holds [OF assms(1,2) r]
  have typed: "in_i64 (at_opened_at_ms (stored_item E r))" "is_safe_operator_control_identifier (at_attention_id (stored_item E r))"
    using assms(3) r holds_itemD [OF item] by (auto simp: rows_typed_def list_all_iff)
  define c where "c = \<lparr>cu_severity_rank = severity_rank (stored_item E r),
    cu_opened_at_ms = at_opened_at_ms (stored_item E r), cu_attention_id = at_attention_id (stored_item E r)\<rparr>"
  have after: "after_cursor c = listed_before r"
    by (intro ext) (auto simp: after_cursor_def listed_before_def c_def severity_rank_def holds_itemD [OF item])
  have "distinct (map aw_id (filter (\<lambda>r. incl \<or> live_state (aw_state r)) (aitems db)))"
    using assms(2) by (intro distinct_map_filter) (simp add: items_ok_def)
  from listed_after [OF listing_order_sorted [OF this]] j have rest: "filter (listed_before r) L = drop k L"
    by (simp add: L_def shown_rows_def r_def Suc)
  have "listing_order (filter (\<lambda>r. (incl \<or> live_state (aw_state r)) \<and> after_cursor c r) (aitems db)) = filter (after_cursor c) L"
    by (simp add: L_def shown_rows_def listing_order_filter filter_filter)
  with rest show thesis
    using parse_format_cursor [OF typed]
    by (intro that [of "Some c"]) (simp_all add: cursor_at_def Suc L_def [symmetric] r_def [symmetric] c_def [symmetric] after)
qed

lemma page_from_cursor:
  assumes "codec_ok (av_item E)" "items_ok E (aitems db)" "rows_typed (aitems db)" "k \<le> length (shown_rows incl db)"
    "limit \<noteq> 0" "limit \<le> MAX_ATTENTION_PAGE_SIZE"
  shows "list_attention_page E incl limit (cursor_at E (shown_rows incl db) k) db =
    Inr \<lparr>pg_items = map (stored_item E) (take (unat limit) (drop k (shown_rows incl db))), pg_includes_terminal = incl,
      pg_next_cursor = (if k + unat limit < length (shown_rows incl db)
        then cursor_at E (shown_rows incl db) (k + unat limit) else None)\<rparr>"
proof -
  define L where "L = shown_rows incl db"
  from rows_from_cursor [OF assms(1-4)] obtain c where c:
    "(case cursor_at E L k of None \<Rightarrow> Inr None | Some v \<Rightarrow> and_then (parse_cursor v) (\<lambda>c. Inr (Some c))) = Inr c"
    "listing_order (filter (\<lambda>r. (incl \<or> live_state (aw_state r)) \<and> (case c of None \<Rightarrow> True | Some c \<Rightarrow> after_cursor c r)) (aitems db)) =
       drop k L"
    unfolding L_def .
  have pos: "0 < unat limit" using assms(5) by (simp add: unat_gt_0)
  have rows: "collect_rows (checked_attention_row E) (take (Suc (unat limit)) (drop k L)) =
    Inr (map (stored_item E) (take (Suc (unat limit)) (drop k L)))"
    by (intro collect_stored [OF assms(1,2)]) (auto simp: L_def shown_rows_def dest!: in_set_takeD in_set_dropD)
  have page: "butlast (map (stored_item E) (take (Suc (unat limit)) (drop k L))) = map (stored_item E) (take (unat limit) (drop k L))"
    if "k + unat limit < length L"
    using that by (simp add: map_butlast [symmetric] butlast_take)
  have last: "last (map (stored_item E) (take (unat limit) (drop k L))) = stored_item E (L ! (k + unat limit - 1))"
    if "k + unat limit < length L"
    using that pos by (simp add: last_conv_nth)
  have nonempty: "take (unat limit) (drop k L) \<noteq> []" if "k + unat limit < length L"
    using that pos by auto
  show ?thesis
  proof (cases "k + unat limit < length L")
    case True
    then show ?thesis
      unfolding L_def [symmetric] list_attention_page_def
      using assms(5,6) c rows page last nonempty pos by (simp add: cursor_at_def not_less del: map_butlast)
  next
    case False
    then have "take (Suc (unat limit)) (drop k L) = take (unat limit) (drop k L)" by simp
    with False show ?thesis
      unfolding L_def [symmetric] list_attention_page_def
      using assms(5,6) c rows by (simp add: not_less)
  qed
qed

lemma follow_cursors_from:
  assumes "codec_ok (av_item E)" "items_ok E (aitems db)" "rows_typed (aitems db)"
    "limit \<noteq> 0" "limit \<le> MAX_ATTENTION_PAGE_SIZE"
  shows "k \<le> length (shown_rows incl db) \<Longrightarrow> length (shown_rows incl db) - k < n \<Longrightarrow>
    follow_cursors n E incl limit (cursor_at E (shown_rows incl db) k) db =
      Some (map (stored_item E) (drop k (shown_rows incl db)))"
proof (induction n arbitrary: k)
  case (Suc n)
  define L where "L = shown_rows incl db"
  have pos: "0 < unat limit" using assms(4) by (simp add: unat_gt_0)
  note page = page_from_cursor [OF assms(1-3) Suc.prems(1) assms(4,5), folded L_def]
  show ?case
  proof (cases "k + unat limit < length L")
    case True
    have "follow_cursors n E incl limit (cursor_at E L (k + unat limit)) db = Some (map (stored_item E) (drop (k + unat limit) L))"
      unfolding L_def by (rule Suc.IH) (use True pos Suc.prems in \<open>auto simp: L_def\<close>)
    moreover have "take (unat limit) (drop k L) @ drop (k + unat limit) L = drop k L"
      by (metis add.commute append_take_drop_id drop_drop)
    moreover have "cursor_at E L (k + unat limit) \<noteq> None" using pos by (simp add: cursor_at_def)
    ultimately show ?thesis
      using page True by (auto simp: L_def [symmetric] simp flip: map_append)
  next
    case False
    with page show ?thesis by (simp add: L_def [symmetric])
  qed
qed simp

lemma shown_ids:
  assumes "codec_ok (av_item E)" "items_ok E (aitems db)"
  shows "map at_attention_id (map (stored_item E) (shown_rows incl db)) = map aw_id (shown_rows incl db)"
  using holds_itemD(1) [OF stored_item_holds [OF assms]] by (auto simp: shown_rows_def)

section \<open>Properties\<close>

text \<open>
  C24. Every stored attention row is well formed, whatever calls were made: its payload matches its digest, decodes and
  validates, the id, source, severity, state, time and version columns are those of the decoded item, and the item has a
  resolution exactly when its state is closed.
\<close>

theorem attention_rows_are_well_formed:
  assumes "codec_ok (av_item E)" and "r \<in> set (aitems (attention_calls E calls no_attention))"
  shows "\<exists>item. checked_attention_row E r = Inr item \<and> aw_id r = at_attention_id item \<and>
    aw_source_type r = source_type (at_source item) \<and> aw_source_id r = source_id (at_source item) \<and>
    aw_source_revision r = uint (source_revision (at_source item)) \<and> aw_severity r = at_severity item \<and>
    aw_state r = at_state item \<and> aw_opened_at r = at_opened_at_ms item \<and> aw_version r = uint (at_version item) \<and>
    (attention_is_terminal (aw_state r) = (at_resolution item \<noteq> None))"
proof -
  have "items_ok E (aitems (attention_calls E calls no_attention))"
    by (rule attention_calls_ok [OF assms(1) no_attention_ok])
  with assms(2) obtain item where item: "holds_item E r item" by (auto simp: items_ok_def)
  then have "attention_is_terminal (at_state item) = (at_resolution item \<noteq> None)"
    by (auto simp: holds_item_def validate_attention_item_def)
  with holds_item_checked [OF assms(1) item] holds_itemD [OF item] show ?thesis by (auto simp: row_source_def)
qed

text \<open>
  C25. A closed attention item is final: whatever items are opened, acknowledged or closed before and after, an item that
  reads as resolved, declined, superseded or invalidated reads as exactly the same item for ever.
\<close>

theorem closed_attention_is_final:
  assumes "codec_ok (av_item E)" "attention_item E i (attention_calls E earlier no_attention) = Inr (Some item)"
    and "attention_is_terminal (at_state item)"
  shows "attention_item E i (attention_calls E (earlier @ later) no_attention) = Inr (Some item)"
proof -
  define db where "db = attention_calls E earlier no_attention"
  have ok: "items_ok E (aitems db)" "items_ok E (aitems (attention_calls E later db))"
    unfolding db_def by (intro attention_calls_ok assms(1) no_attention_ok)+
  from attention_item_iff [OF assms(1) ok(1), of i item] assms(2) obtain r where
    r: "r \<in> set (aitems db)" "aw_id r = i" "holds_item E r item"
    by (auto simp: db_def)
  have "attention_is_terminal (aw_state r)" using assms(3) holds_itemD(5) [OF r(3)] by simp
  from attention_calls_final [OF assms(1) ok(1) r(1) this, of later] r(2,3)
  have "attention_item E i (attention_calls E later db) = Inr (Some item)"
    by (auto simp: attention_item_iff [OF assms(1) ok(2)])
  then show ?thesis by (simp add: db_def attention_calls_def)
qed

text \<open>
  C26. Reading the attention list page by page terminates and lists everything exactly once: with a page size from 1 to
  200, following the cursors from the first page, through at most one page more than there are rows, yields each item
  that is to be shown exactly once.
\<close>

theorem pages_list_everything_once:
  assumes "codec_ok (av_item E)" and "rows_typed (aitems (attention_calls E calls no_attention))"
    and "limit \<noteq> 0" and "limit \<le> MAX_ATTENTION_PAGE_SIZE"
  shows "\<exists>items. follow_cursors (Suc (length (aitems (attention_calls E calls no_attention)))) E incl limit None
       (attention_calls E calls no_attention) = Some items \<and>
     mset (map at_attention_id items) =
       mset (map aw_id (filter (\<lambda>r. incl \<or> live_state (aw_state r)) (aitems (attention_calls E calls no_attention))))"
proof -
  define db where "db = attention_calls E calls no_attention"
  have ok: "items_ok E (aitems db)"
    unfolding db_def by (rule attention_calls_ok [OF assms(1) no_attention_ok])
  have len: "length (shown_rows incl db) \<le> length (aitems db)"
    unfolding shown_rows_def by (metis length_filter_le mset_listing_order size_mset)
  from follow_cursors_from [OF assms(1) ok assms(2) [folded db_def] assms(3,4), of 0 incl "Suc (length (aitems db))"] len
  have "follow_cursors (Suc (length (aitems db))) E incl limit None db = Some (map (stored_item E) (shown_rows incl db))"
    by (simp add: cursor_at_def del: follow_cursors.simps)
  moreover have "mset (map at_attention_id (map (stored_item E) (shown_rows incl db))) =
    mset (map aw_id (filter (\<lambda>r. incl \<or> live_state (aw_state r)) (aitems db)))"
    by (simp only: shown_ids [OF assms(1) ok] mset_map) (simp add: shown_rows_def)
  ultimately show ?thesis
    unfolding db_def [symmetric] by blast
qed

section \<open>Witnesses\<close>

definition length_sha :: "string \<Rightarrow> string" where
  "length_sha s = (let d = digits (length s) in d @ replicate (64 - length d) (CHR ''0''))"

definition sample_attention :: AttentionItem where
  "sample_attention =
    \<lparr>at_schema = ''harness.attention-item.v1'', at_attention_id = ''a1'', at_repository_id = None, at_run_id = Some ''r'',
     at_task_id = None, at_source = \<lparr>source_type = SourceApproval, source_id = ''ap1'', source_revision = 1\<rparr>,
     at_category = Approval, at_severity = High, at_state = Open, at_title = ''Approval required'', at_summary = ''Review it.'',
     at_option_refs = [], at_evidence_refs = [], at_blocked_refs = [], at_dedupe_key = ''approval:ap1'',
     at_opened_event_id = ''approval:ap1:1'', at_opened_at_ms = 5, at_acknowledged_at_ms = None, at_due_at_ms = None,
     at_resurfacing = \<lparr>resurfacing_policy = ''until'', maximum_defer_ms = 0\<rparr>, at_resolution = None, at_version = 1\<rparr>"

definition sample_resolution :: AttentionResolution where
  "sample_resolution =
    \<lparr>res_outcome = ''approved'', res_actor_type = ''owner'', res_actor_id = ''op'', res_resolved_at_ms = 8,
     res_authority_event_id = ''receipt'', res_bound_head_sha = None, res_worktree_fingerprint = None,
     res_receipt_sha256 = replicate 64 (CHR ''a'')\<rparr>"

definition sample_closed :: AttentionItem where
  "sample_closed = sample_attention\<lparr>at_state := Resolved, at_resolution := Some sample_resolution, at_version := 2\<rparr>"

text \<open>The links of the two events, computed once.\<close>

definition opened_link :: "string \<Rightarrow> string \<Rightarrow> CorrelationLink" where
  "opened_link attention_id event_id =
    \<lparr>cl_schema = ''harness.correlation-link.v1'', cl_link_id = ''correlation-38'' @ replicate 46 (CHR ''0''),
     cl_trace = \<lparr>tc_trace_id = ''29'' @ replicate 30 (CHR ''0''), tc_span_id = ''3800000000000000'', tc_parent_span_id = None\<rparr>,
     cl_from_kind = ''source_event'', cl_from_id = event_id, cl_to_kind = ''attention'', cl_to_id = attention_id,
     cl_relation = ''opens_attention'', cl_created_at_ms = 5\<rparr>"

definition closed_link :: CorrelationLink where
  "closed_link =
    \<lparr>cl_schema = ''harness.correlation-link.v1'', cl_link_id = ''correlation-40'' @ replicate 46 (CHR ''0''),
     cl_trace = \<lparr>tc_trace_id = ''29'' @ replicate 30 (CHR ''0''), tc_span_id = ''4000000000000000'',
       tc_parent_span_id = Some ''3800000000000000''\<rparr>,
     cl_from_kind = ''authority_event'', cl_from_id = ''receipt'', cl_to_kind = ''attention'', cl_to_id = ''a1'',
     cl_relation = ''resolves_attention'', cl_created_at_ms = 8\<rparr>"

definition sample_attention_env :: attention_env where
  "sample_attention_env = \<lparr>av_item = list_codec [(sample_attention, ''open''), (sample_closed, ''closed'')],
     av_link = list_codec [(opened_link ''a1'' ''approval:ap1:1'', ''1''), (closed_link, ''2'')],
     av_sha = length_sha\<rparr>"

definition sample_attention_calls :: "attention_call list" where
  "sample_attention_calls = [OpenAttention 5 sample_attention, CloseAttention 8 ''a1'' 1 Resolved sample_resolution]"

lemma sample_attention_codec: "codec_ok (av_item sample_attention_env)"
  by (simp add: sample_attention_env_def list_codec_ok)

lemma sample_attention_closed:
  "attention_item sample_attention_env ''a1'' (attention_calls sample_attention_env sample_attention_calls no_attention) =
     Inr (Some sample_closed)"
  by code_simp

theorem closed_attention_is_final_witness:
  "attention_item sample_attention_env ''a1'' (attention_calls sample_attention_env
     (sample_attention_calls @ [AcknowledgeAttention 9 ''a1'' 2 None]) no_attention) = Inr (Some sample_closed)"
  using closed_attention_is_final [OF sample_attention_codec sample_attention_closed]
  by (simp add: sample_closed_def attention_is_terminal_def)

lemma sample_attention_rows:
  "map (\<lambda>r. (aw_id r, aw_state r, aw_opened_at r)) (aitems (attention_calls sample_attention_env [OpenAttention 5 sample_attention] no_attention)) =
     [(''a1'', Open, 5)]"
  by code_simp

theorem attention_rows_are_well_formed_witness:
  "\<exists>r item. aitems (attention_calls sample_attention_env [OpenAttention 5 sample_attention] no_attention) = [r] \<and>
     checked_attention_row sample_attention_env r = Inr item \<and> at_attention_id item = ''a1'' \<and> at_resolution item = None"
proof -
  define db where "db = attention_calls sample_attention_env [OpenAttention 5 sample_attention] no_attention"
  from sample_attention_rows obtain r where r: "aitems db = [r]" "aw_id r = ''a1''" "aw_state r = Open"
    unfolding db_def [symmetric] by (cases "aitems db") auto
  have "r \<in> set (aitems db)" by (simp add: r(1))
  from attention_rows_are_well_formed [OF sample_attention_codec this [unfolded db_def]] r show ?thesis
    unfolding db_def by (auto simp: attention_is_terminal_def)
qed

theorem pages_list_everything_once_witness:
  "\<exists>items. follow_cursors 2 sample_attention_env False 1 None
       (attention_calls sample_attention_env [OpenAttention 5 sample_attention] no_attention) = Some items \<and>
     mset (map at_attention_id items) = {#''a1''#}"
proof -
  define db where "db = attention_calls sample_attention_env [OpenAttention 5 sample_attention] no_attention"
  from sample_attention_rows obtain r where r: "aitems db = [r]" "aw_id r = ''a1''" "aw_state r = Open" "aw_opened_at r = 5"
    unfolding db_def [symmetric] by (cases "aitems db") auto
  have "rows_typed (aitems db)"
    unfolding r(1) by (simp add: rows_typed_def r in_i64_def is_safe_operator_control_identifier_def
        MAX_OPERATOR_CONTROL_IDENTIFIER_LEN_def ascii_defs)
  moreover have "(1 :: u32) \<noteq> 0" "(1 :: u32) \<le> MAX_ATTENTION_PAGE_SIZE"
    by (simp_all add: MAX_ATTENTION_PAGE_SIZE_def word_le_def)
  ultimately show ?thesis
    using pages_list_everything_once [OF sample_attention_codec, of "[OpenAttention 5 sample_attention]" 1 False]
    unfolding db_def [symmetric] r(1) by (simp add: r live_state_def numeral_2_eq_2 del: follow_cursors.simps)
qed

end
