(* ===== verification/Approval_Attention.thy ===== *)
theory Approval_Attention
  imports Approval_Store Attention_Store
begin

text \<open>
  The adapter that mirrors approvals into the attention list
  (\<^verbatim>\<open>harness-store/src/operator_control/approval.rs\<close>): a pending approval is shown as an open attention item, and the
  item is closed by the receipt of the approval once it is decided, delivered or expired.

  The RFC 3339 parser of the \<open>time\<close> crate (as nanoseconds since the epoch), the fresh attention ids and the
  clock are parameters. A refresh runs without other calls between its steps; when it fails it keeps the
  changes of the steps before.

  The theorem composes the two repositories: whatever happened before, after a successful refresh the
  approvals that wait for an operator are exactly those with a live attention item.
\<close>

section \<open>The adapter\<close>

definition ms_of_nanos :: "int \<Rightarrow> int" where
  "ms_of_nanos x = (if x < 0 then - ((- x) div 1000000) else x div 1000000)"

text \<open>\<open>i64::try_from\<close> of the milliseconds, or the clock.\<close>

definition timestamp_ms :: "(string \<Rightarrow> int option) \<Rightarrow> i64 \<Rightarrow> string \<Rightarrow> i64" where
  "timestamp_ms parse_rfc3339 now s =
    (case parse_rfc3339 s of
       Some x \<Rightarrow> if in_i64 (ms_of_nanos x) then ms_of_nanos x else now
     | None \<Rightarrow> now)"

text \<open>\<open>chars().take(n)\<close> on the bytes of valid UTF-8.\<close>

fun take_chars :: "nat \<Rightarrow> string \<Rightarrow> string" where
  "take_chars n [] = []"
| "take_chars n (c # s) =
    (if 128 \<le> byte c \<and> byte c < 192 then c # take_chars n s
     else (case n of 0 \<Rightarrow> [] | Suc m \<Rightarrow> c # take_chars m s))"

definition bounded_title :: "string \<Rightarrow> string" where
  "bounded_title approval_type = ''Approval required: '' @ take_chars 210 approval_type"

fun approval_severity :: "RiskLevel \<Rightarrow> AttentionSeverity" where
  "approval_severity LowRisk = Info"
| "approval_severity MediumRisk = Normal"
| "approval_severity HighRisk = High"
| "approval_severity CriticalRisk = Critical"

definition approval_attention ::
  "(string \<Rightarrow> int option) \<Rightarrow> i64 \<Rightarrow> string \<Rightarrow> 'v ApprovalSummary \<Rightarrow> AttentionItem" where
  "approval_attention parse_rfc3339 now new_id a =
    \<lparr>at_schema = ''harness.attention-item.v1'', at_attention_id = new_id, at_repository_id = None,
     at_run_id = Some (as_run_id a), at_task_id = as_task_id a,
     at_source = \<lparr>source_type = SourceApproval, source_id = as_id a, source_revision = as_version a\<rparr>,
     at_category = Approval, at_severity = approval_severity (as_risk_level a), at_state = Open,
     at_title = bounded_title (as_approval_type a),
     at_summary = ''A controller approval is pending for run '' @ as_run_id a @
       ''. Review the source approval before work can continue.'',
     at_option_refs = [], at_evidence_refs = [],
     at_blocked_refs = (case as_task_id a of Some t \<Rightarrow> [t] | None \<Rightarrow> []),
     at_dedupe_key = ''approval:'' @ as_id a,
     at_opened_event_id = ''approval:'' @ as_id a @ '':'' @ digits (unat (as_version a)),
     at_opened_at_ms = timestamp_ms parse_rfc3339 now (as_created_at a), at_acknowledged_at_ms = None, at_due_at_ms = None,
     at_resurfacing = \<lparr>resurfacing_policy = ''until_approval_authority_receipt'', maximum_defer_ms = 0\<rparr>,
     at_resolution = None, at_version = 1\<rparr>"

definition approval_terminal_state :: "'v ApprovalSummary \<Rightarrow> AttentionState" where
  "approval_terminal_state a =
    (if as_state a = ''expired'' \<or> as_decision a \<in> set [Some ''decline'', Some ''cancel''] then Declined else Resolved)"

definition decision_or_none :: "'v ApprovalSummary \<Rightarrow> string" where
  "decision_or_none a = (case as_decision a of Some d \<Rightarrow> d | None \<Rightarrow> ''none'')"

definition approval_resolution ::
  "(string \<Rightarrow> int option) \<Rightarrow> (string \<Rightarrow> string) \<Rightarrow> i64 \<Rightarrow> 'v ApprovalSummary \<Rightarrow> AttentionResolution" where
  "approval_resolution parse_rfc3339 sha now a =
    \<lparr>res_outcome = ''approval_'' @ as_state a @ ''_'' @ decision_or_none a,
     res_actor_type = ''controller_approval_source'', res_actor_id = as_id a,
     res_resolved_at_ms = (case as_resolved_at a of Some s \<Rightarrow> timestamp_ms parse_rfc3339 now s | None \<Rightarrow> now),
     res_authority_event_id = ''approval:'' @ as_id a @ '':'' @ digits (unat (as_version a)),
     res_bound_head_sha = None, res_worktree_fingerprint = None,
     res_receipt_sha256 = sha (''approval:'' @ as_id a @ '':'' @ as_state a @ '':'' @ decision_or_none a @ '':'' @
       digits (unat (as_version a)))\<rparr>"

record refresh_env =
  re_attention :: attention_env
  re_parse_rfc3339 :: "string \<Rightarrow> int option"

definition open_for ::
  "refresh_env \<Rightarrow> i64 \<Rightarrow> string \<Rightarrow> 'v ApprovalSummary \<Rightarrow> attention_db \<Rightarrow> attention_db stored" where
  "open_for R now new_id a adb =
     and_then (upsert_source_attention (re_attention R) now (approval_attention (re_parse_rfc3339 R) now new_id a) adb)
    (\<lambda>(_, adb). Inr adb)"

definition close_for ::
  "refresh_env \<Rightarrow> i64 \<Rightarrow> AttentionItem \<Rightarrow> 'v ApprovalSummary \<Rightarrow> attention_db \<Rightarrow> attention_db stored" where
  "close_for R now item a adb =
     and_then (resolve_attention_from_source (re_attention R) now (at_attention_id item) (at_version item)
       (approval_terminal_state a) (approval_resolution (re_parse_rfc3339 R) (av_sha (re_attention R)) now a) adb)
    (\<lambda>(_, adb). Inr adb)"

definition refresh_one ::
  "refresh_env \<Rightarrow> i64 \<Rightarrow> string \<Rightarrow> 'v ApprovalSummary \<Rightarrow> attention_db \<Rightarrow> attention_db stored" where
  "refresh_one R now new_id a adb =
     and_then (attention_by_source (re_attention R) SourceApproval (as_id a) adb)
    (\<lambda>existing. if as_state a = ''pending'' then
        (case existing of
           None \<Rightarrow> open_for R now new_id a adb
         | Some item \<Rightarrow> if attention_is_terminal (at_state item) \<and> source_revision (at_source item) < as_version a
             then open_for R now new_id a adb else Inr adb)
      else
        (case existing of
           None \<Rightarrow> Inr adb
         | Some item \<Rightarrow> if \<not> attention_is_terminal (at_state item) then close_for R now item a adb else Inr adb))"

fun refresh_each ::
  "refresh_env \<Rightarrow> i64 \<Rightarrow> (nat \<Rightarrow> string) \<Rightarrow> nat \<Rightarrow> 'v ApprovalSummary list \<Rightarrow> attention_db \<Rightarrow> unit stored \<times> attention_db" where
  "refresh_each R now new_id n [] adb = (Inr (), adb)"
| "refresh_each R now new_id n (a # rest) adb =
    (case refresh_one R now (new_id n) a adb of
       Inl e \<Rightarrow> (Inl e, adb)
     | Inr adb' \<Rightarrow> refresh_each R now new_id (Suc n) rest adb')"

definition refresh_approval_attention ::
  "refresh_env \<Rightarrow> 'v approval_env \<Rightarrow> i64 \<Rightarrow> (nat \<Rightarrow> string) \<Rightarrow> approval_db \<Rightarrow> attention_db \<Rightarrow> unit stored \<times> attention_db" where
  "refresh_approval_attention R E now new_id db adb =
    (case list_approvals E None None db of
       Inl e \<Rightarrow> (Inl e, adb)
     | Inr approvals \<Rightarrow> refresh_each R now new_id 0 approvals adb)"

section \<open>Both repositories\<close>

datatype 'v operator_step =
    OnApprovals "'v approval_call"
  | Refresh i64 "nat \<Rightarrow> string"
  | Acknowledge i64 string u64 "i64 option"

fun operator_effect ::
  "refresh_env \<Rightarrow> 'v approval_env \<Rightarrow> 'v operator_step \<Rightarrow> approval_db \<times> attention_db \<Rightarrow> approval_db \<times> attention_db" where
  "operator_effect R E (OnApprovals call) (db, adb) = (approval_effect E call db, adb)"
| "operator_effect R E (Refresh now new_id) (db, adb) = (db, snd (refresh_approval_attention R E now new_id db adb))"
| "operator_effect R E (Acknowledge clock i v ack) (db, adb) =
     (db, attention_effect (re_attention R) (AcknowledgeAttention clock i v ack) adb)"

definition operator_steps ::
  "refresh_env \<Rightarrow> 'v approval_env \<Rightarrow> 'v operator_step list \<Rightarrow> approval_db \<times> attention_db \<Rightarrow> approval_db \<times> attention_db" where
  "operator_steps R E steps s = fold (operator_effect R E) steps s"

section \<open>How the steps change the rows\<close>

definition approvals_grow :: "approval_row list \<Rightarrow> approval_row list \<Rightarrow> bool" where
  "approvals_grow rows rows' \<longleftrightarrow>
     (\<forall>p \<in> set rows. \<exists>p' \<in> set rows'. ap_id p' = ap_id p \<and> (p' = p \<or> ap_version p' = ap_version p + 1)) \<and>
     (\<forall>p' \<in> set rows'. ap_version p' = 1 \<or> (\<exists>p \<in> set rows. ap_version p' \<le> ap_version p + 1))"

lemma approvals_grow_refl: "approvals_grow rows rows"
  unfolding approvals_grow_def by (metis less_add_one less_imp_le)

lemma approvals_grow_update:
  assumes "\<And>r. ap_id (f r) = ap_id r \<and> ap_version (f r) = ap_version r + 1"
  shows "approvals_grow rows (update_where P f rows)"
proof -
  have "(if P p then f p else p) \<in> set (update_where P f rows)" if "p \<in> set rows" for p
    using that by (auto simp: update_where_def)
  then have "\<forall>p \<in> set rows. \<exists>p' \<in> set (update_where P f rows). ap_id p' = ap_id p \<and> (p' = p \<or> ap_version p' = ap_version p + 1)"
    using assms by (metis (full_types))
  moreover have "\<forall>p' \<in> set (update_where P f rows). \<exists>p \<in> set rows. ap_version p' \<le> ap_version p + 1"
  proof
    fix p' assume "p' \<in> set (update_where P f rows)"
    then obtain p where p: "p \<in> set rows" "p' = (if P p then f p else p)" by (auto simp: update_where_def)
    then show "\<exists>p \<in> set rows. ap_version p' \<le> ap_version p + 1"
      using assms [of p] by (intro bexI [of _ p]) auto
  qed
  ultimately show ?thesis by (simp add: approvals_grow_def)
qed

lemma approval_effect_grows: "approvals_grow (ap_rows db) (ap_rows (approval_effect E call db))"
proof (cases call)
  case (CreateApproval now v rpc_id)
  show ?thesis
    unfolding CreateApproval approval_effect.simps
  proof (rule create_approval_cases [of E now v rpc_id db])
    fix raw rpc
    assume "snd (create_approval E now v rpc_id db) = db\<lparr>ap_rows := ap_rows db @ [new_approval_row E now v raw],
      rpc_rows := rpc_rows db @ [new_rpc_row now v rpc raw]\<rparr>"
    then show "approvals_grow (ap_rows db) (ap_rows (snd (create_approval E now v rpc_id db)))"
      by (auto simp: approvals_grow_def new_approval_row_def) (metis less_add_one less_imp_le)
  qed (simp add: approvals_grow_refl)
next
  case (WriteDecision now i decision remark actor seen)
  show ?thesis
  proof (cases "decide_write now i decision remark actor seen db")
    case (Inr p)
    then obtain rpc db' where w: "decide_write now i decision remark actor seen db = Inr (rpc, db')" by (cases p) simp
    obtain q where "q \<in> set (rpc_rows db)" "rq_request_key q = i" "rq_state q = ''pending''" "rq_rpc_id_json q = rpc"
      "unat seen < 2 ^ 63" "db' = db\<lparr>ap_rows := update_where (\<lambda>r. ap_id r = i \<and> ap_version r = uint seen)
         (decided_row now decision remark actor) (ap_rows db)\<rparr>"
      by (rule decide_write_ok [OF w])
    with w WriteDecision show ?thesis by (simp add: approvals_grow_update decided_row_def)
  qed (simp add: WriteDecision approvals_grow_refl)
next
  case (ReportDelivery now i err)
  then show ?thesis by (simp add: mark_approval_delivered_def approvals_grow_update)
next
  case (ExpireApprovals now run_id reason)
  then show ?thesis by (simp add: expire_pending_approvals_def approvals_grow_update)
qed

text \<open>A change of attention rows that keeps identity, source and revision.\<close>

definition same_keys :: "attention_row \<Rightarrow> attention_row \<Rightarrow> bool" where
  "same_keys r r' \<longleftrightarrow> aw_id r' = aw_id r \<and> row_source r' = row_source r \<and> aw_source_revision r' = aw_source_revision r"

lemma store_changed_rows:
  assumes "store_changed E now i item expected k db = Inr (x, db')" "distinct (map aw_id (aitems db))"
  obtains f where "aitems db' = map f (aitems db)" "\<And>r. same_keys r (f r)"
    "\<And>r. r \<in> set (aitems db) \<Longrightarrow> aw_id r = i \<Longrightarrow> aw_state (f r) = at_state item"
    "\<And>r. r \<in> set (aitems db) \<Longrightarrow> aw_id r \<noteq> i \<Longrightarrow> f r = r"
proof -
  from store_changed_ok [OF assms(1)] obtain raw where rows: "aitems db' = map (\<lambda>q. if row_version_hit i expected q
       then changed_row E now item raw (uint (at_version item)) q else q) (aitems db)" .
  define f where "f = (\<lambda>q. if row_version_hit i expected q then changed_row E now item raw (uint (at_version item)) q else q)"
  from assms(1) have "length (filter (row_version_hit i expected) (aitems db)) = 1"
    by (auto simp: store_changed_def and_then_ok split: if_splits)
  then obtain h where "filter (row_version_hit i expected) (aitems db) = [h]" by (metis One_nat_def length_0_conv length_Suc_conv)
  then have h: "h \<in> set (aitems db)" "row_version_hit i expected h"
    using filter_eq_ConsD by fastforce+
  have hit: "row_version_hit i expected r" if "r \<in> set (aitems db)" "aw_id r = i" for r
    using h that assms(2) by (auto simp: row_version_hit_def distinct_map dest: inj_onD)
  show thesis
    by (rule that [of f]) (use rows hit in \<open>auto simp: f_def same_keys_def row_version_hit_def\<close>)
qed

lemma acknowledge_rows:
  assumes "acknowledge_attention E clock i v ack db = Inr (x, db')" "distinct (map aw_id (aitems db))"
  obtains f where "aitems db' = map f (aitems db)" "\<And>r. same_keys r (f r)"
    "\<And>r. r \<in> set (aitems db) \<Longrightarrow> aw_state (f r) = Acknowledged \<or> f r = r"
proof -
  from assms(1) obtain now item' expected k where "store_changed E now i item' expected k db = Inr (x, db')" "at_state item' = Acknowledged"
    by (auto simp: acknowledge_attention_def Let_def and_then_ok dest!: bump_version_ok)
  from store_changed_rows [OF this(1) assms(2)] this(2) that show thesis by metis
qed

lemma resolve_rows:
  assumes "resolve_attention_from_source E now i v s res db = Inr (x, db')" "distinct (map aw_id (aitems db))"
  obtains f where "aitems db' = map f (aitems db)" "\<And>r. same_keys r (f r)"
    "\<And>r. r \<in> set (aitems db) \<Longrightarrow> aw_id r = i \<Longrightarrow> attention_is_terminal (aw_state (f r))"
    "\<And>r. r \<in> set (aitems db) \<Longrightarrow> aw_id r \<noteq> i \<Longrightarrow> f r = r"
proof -
  from assms(1) obtain item' expected k where "store_changed E now i item' expected k db = Inr (x, db')"
      "at_state item' = s" "attention_is_terminal s"
    by (auto simp: resolve_attention_from_source_def and_then_ok split: if_splits dest!: bump_version_ok)
  from store_changed_rows [OF this(1) assms(2)] this(2,3) that show thesis by metis
qed

lemma newest_none: "newest rows = None \<longleftrightarrow> rows = []"
  by (cases rows) (auto split: option.splits)

lemma newest_some:
  "newest rows = Some r \<Longrightarrow> r \<in> set rows \<and> (\<forall>q \<in> set rows. aw_source_revision q \<le> aw_source_revision r)"
proof (induction rows arbitrary: r)
  case (Cons a rows)
  show ?case
  proof (cases "newest rows")
    case None
    with Cons.prems show ?thesis by (simp add: newest_none)
  next
    case (Some q)
    from Cons.IH [OF Some] Cons.prems Some show ?thesis by (auto split: if_splits intro: order_trans)
  qed
qed simp

section \<open>Invariant of both repositories\<close>

definition about :: "approval_row \<Rightarrow> attention_row \<Rightarrow> bool" where
  "about p r \<longleftrightarrow> row_source r = (SourceApproval, ap_id p)"

definition waiting :: "approval_row \<Rightarrow> bool" where
  "waiting p \<longleftrightarrow> ap_state p = ''pending''"

definition mirrored :: "attention_row list \<Rightarrow> approval_row \<Rightarrow> bool" where
  "mirrored rows p \<longleftrightarrow> waiting p = list_ex (\<lambda>r. about p r \<and> live_state (aw_state r)) rows"

definition mirror_ok :: "approval_row list \<Rightarrow> attention_row list \<Rightarrow> bool" where
  "mirror_ok ps rows \<longleftrightarrow>
     (\<forall>r \<in> set rows. \<exists>p \<in> set ps. about p r \<and> aw_source_revision r \<le> ap_version p \<and>
        (waiting p \<longrightarrow> attention_is_terminal (aw_state r) \<longrightarrow> aw_source_revision r < ap_version p)) \<and>
     (\<forall>r \<in> set rows. \<forall>q \<in> set rows. row_source q = row_source r \<longrightarrow> live_state (aw_state r) \<longrightarrow>
        aw_source_revision q \<le> aw_source_revision r)"

lemma mirror_ok_grow:
  assumes "mirror_ok ps rows" "approvals_grow ps ps'"
  shows "mirror_ok ps' rows"
proof -
  have "\<exists>p' \<in> set ps'. about p' r \<and> aw_source_revision r \<le> ap_version p' \<and>
      (waiting p' \<longrightarrow> attention_is_terminal (aw_state r) \<longrightarrow> aw_source_revision r < ap_version p')" if "r \<in> set rows" for r
  proof -
    from assms(1) that obtain p where p: "p \<in> set ps" "about p r" "aw_source_revision r \<le> ap_version p"
      "waiting p \<longrightarrow> attention_is_terminal (aw_state r) \<longrightarrow> aw_source_revision r < ap_version p"
      unfolding mirror_ok_def by blast
    from assms(2) p(1) obtain p' where "p' \<in> set ps'" "ap_id p' = ap_id p" "p' = p \<or> ap_version p' = ap_version p + 1"
      unfolding approvals_grow_def by blast
    with p show ?thesis by (intro bexI [of _ p']) (auto simp: about_def)
  qed
  with assms(1) show ?thesis by (simp add: mirror_ok_def)
qed

lemma mirror_ok_map:
  assumes "mirror_ok ps rows" "\<And>r. r \<in> set rows \<Longrightarrow> same_keys r (f r)"
    and "\<And>r p. r \<in> set rows \<Longrightarrow> p \<in> set ps \<Longrightarrow> about p r \<Longrightarrow> waiting p \<Longrightarrow> attention_is_terminal (aw_state (f r)) \<Longrightarrow>
      attention_is_terminal (aw_state r)"
    and "\<And>r. r \<in> set rows \<Longrightarrow> live_state (aw_state (f r)) \<Longrightarrow> live_state (aw_state r)"
  shows "mirror_ok ps (map f rows)"
proof -
  have "\<exists>p \<in> set ps. about p (f r) \<and> aw_source_revision (f r) \<le> ap_version p \<and>
      (waiting p \<longrightarrow> attention_is_terminal (aw_state (f r)) \<longrightarrow> aw_source_revision (f r) < ap_version p)" if "r \<in> set rows" for r
  proof -
    from assms(1) that obtain p where p: "p \<in> set ps" "about p r" "aw_source_revision r \<le> ap_version p"
      "waiting p \<longrightarrow> attention_is_terminal (aw_state r) \<longrightarrow> aw_source_revision r < ap_version p"
      unfolding mirror_ok_def by blast
    with assms(2) [OF that] assms(3) [OF that p(1,2)] show ?thesis
      by (intro bexI [of _ p]) (auto simp: about_def same_keys_def)
  qed
  moreover have "aw_source_revision (f q) \<le> aw_source_revision (f r)"
    if "r \<in> set rows" "q \<in> set rows" "row_source (f q) = row_source (f r)" "live_state (aw_state (f r))" for r q
    using assms(1) assms(2) [OF that(1)] assms(2) [OF that(2)] that assms(4) [OF that(1)]
    by (simp add: mirror_ok_def same_keys_def)
  ultimately show ?thesis by (simp add: mirror_ok_def)
qed

text \<open>Two rows of one approval that are both live are the same row.\<close>

lemma live_unique:
  assumes "items_ok E rows" "r \<in> set rows" "q \<in> set rows" "row_source q = row_source r"
    "live_state (aw_state r)" "live_state (aw_state q)"
  shows "q = r"
proof -
  have "inj_on row_source (set (filter (\<lambda>r. live_state (aw_state r)) rows))"
    using assms(1) by (simp add: items_ok_def distinct_map)
  with assms(2-) show ?thesis by (auto dest: inj_onD)
qed

lemma by_source_cases:
  assumes "codec_ok (av_item E)" "items_ok E (aitems adb)" "attention_by_source E SourceApproval (ap_id p) adb = Inr existing"
  obtains (none) "existing = None" "\<And>r. r \<in> set (aitems adb) \<Longrightarrow> \<not> about p r"
  | (some) r item where "existing = Some item" "r \<in> set (aitems adb)" "about p r" "holds_item E r item"
    "\<And>q. q \<in> set (aitems adb) \<Longrightarrow> about p q \<Longrightarrow> aw_source_revision q \<le> aw_source_revision r"
proof (cases "newest (filter (\<lambda>r. aw_source_type r = SourceApproval \<and> aw_source_id r = ap_id p) (aitems adb))")
  case None
  with assms(3) show thesis
    by (intro none) (auto simp: attention_by_source_def newest_none filter_empty_conv about_def row_source_def)
next
  case (Some r)
  from newest_some [OF Some] have r: "r \<in> set (aitems adb)" "about p r"
    "\<And>q. q \<in> set (aitems adb) \<Longrightarrow> about p q \<Longrightarrow> aw_source_revision q \<le> aw_source_revision r"
    by (auto simp: about_def row_source_def)
  from r(1) assms(2) obtain item where "holds_item E r item" by (auto simp: items_ok_def)
  with Some assms(3) holds_item_checked [OF assms(1), of r item] r show thesis
    by (intro some [of item r]) (auto simp: attention_by_source_def)
qed

lemma map_approval_ok:
  assumes "map_approval E db p = Inr a" "0 \<le> ap_version p" "ap_version p < 2 ^ 63"
  shows "as_id a = ap_id p" "as_state a = ap_state p" "uint (as_version a) = ap_version p"
proof -
  from assms(1) have "as_id a = ap_id p" "as_state a = ap_state p" "as_version a = word_of_int (ap_version p)"
    by (auto simp: map_approval_def and_then_ok)
  then show "as_id a = ap_id p" "as_state a = ap_state p" "uint (as_version a) = ap_version p"
    using assms(2,3) by (auto intro!: uint_of_small)
qed

section \<open>A refresh mirrors the approvals\<close>

lemma items_ok_ids: "items_ok E rows \<Longrightarrow> distinct (map aw_id rows)"
  by (simp add: items_ok_def)

lemma open_for_ok:
  assumes "codec_ok (av_item (re_attention R))" "items_ok (re_attention R) (aitems adb)" "mirror_ok ps (aitems adb)"
    and "p \<in> set ps" "waiting p" "as_id a = ap_id p" "uint (as_version a) = ap_version p"
    and older: "\<And>r. r \<in> set (aitems adb) \<Longrightarrow> about p r \<Longrightarrow> aw_source_revision r < ap_version p"
    and "open_for R now new_id a adb = Inr adb'"
  obtains n where "aitems adb' = aitems adb @ [n]" "about p n" "live_state (aw_state n)"
    "items_ok (re_attention R) (aitems adb')" "mirror_ok ps (aitems adb')"
proof -
  define item where "item = approval_attention (re_parse_rfc3339 R) now new_id a"
  have src: "at_source item = \<lparr>source_type = SourceApproval, source_id = ap_id p, source_revision = as_version a\<rparr>" "at_state item = Open"
    by (simp_all add: item_def approval_attention_def assms(6))
  from assms(9) obtain x where up: "upsert_source_attention (re_attention R) now item adb = Inr (x, adb')"
    by (auto simp: open_for_def item_def and_then_ok)
  from up show thesis
  proof (cases rule: upsert_cases)
    case (replayed row)
    then have "about p row" "aw_source_revision row = ap_version p"
      using assms(7) by (simp_all add: src about_def row_source_def same_source_def)
    with older [OF replayed(1)] show thesis by simp
  next
    case (fresh raw)
    define n where "n = item_row (re_attention R) now item raw"
    have n: "row_source n = (SourceApproval, ap_id p)" "aw_source_revision n = ap_version p" "aw_state n = Open"
      using assms(7) by (simp_all add: n_def item_row_def row_source_def src)
    have live: "live_state (aw_state n)" by (simp add: n(3) live_state_def)
    have "items_ok (re_attention R) (aitems adb')"
      by (rule attention_step_ok [OF fresh(1) assms(1,2)])
    moreover have "mirror_ok ps (aitems adb @ [n])"
    proof -
      have "aw_source_revision q \<le> aw_source_revision r"
        if "r \<in> set (aitems adb @ [n])" "q \<in> set (aitems adb @ [n])" "row_source q = row_source r" "live_state (aw_state r)" for r q
      proof (cases "r = n")
        case True
        with that older [of q] n show ?thesis by (force simp: about_def)
      next
        case False
        then have r: "r \<in> set (aitems adb)" using that(1) by simp
        show ?thesis
        proof (cases "q = n")
          case True
          with n(1) that(3) have "about p r" by (simp add: about_def)
          have "n \<in> set (aitems adb')" "r \<in> set (aitems adb')" using fresh(3) r by (simp_all add: n_def)
          from live_unique [OF \<open>items_ok (re_attention R) (aitems adb')\<close> this _ live that(4)] True that(3) False
          show ?thesis by simp
        next
          case False
          with r that assms(3) show ?thesis by (simp add: mirror_ok_def)
        qed
      qed
      moreover have "\<exists>p \<in> set ps. about p r \<and> aw_source_revision r \<le> ap_version p \<and>
        (waiting p \<longrightarrow> attention_is_terminal (aw_state r) \<longrightarrow> aw_source_revision r < ap_version p)"
        if "r \<in> set (aitems adb @ [n])" for r
      proof (cases "r = n")
        case True
        with n assms(4) show ?thesis by (intro bexI [of _ p]) (auto simp: about_def attention_is_terminal_def)
      next
        case False
        with that assms(3) show ?thesis by (simp add: mirror_ok_def)
      qed
      ultimately show ?thesis by (simp only: mirror_ok_def) blast
    qed
    ultimately show thesis
      using that [of n] fresh(3) n(1) live by (simp add: n_def [symmetric] about_def)
  qed
qed

lemma close_for_ok:
  assumes "codec_ok (av_item (re_attention R))" "items_ok (re_attention R) (aitems adb)" "mirror_ok ps (aitems adb)"
    and "distinct (map ap_id ps)" "p \<in> set ps" "\<not> waiting p" "r \<in> set (aitems adb)" "about p r" "holds_item (re_attention R) r item"
    and "close_for R now item a adb = Inr adb'"
  obtains f where "aitems adb' = map f (aitems adb)" "\<And>q. same_keys q (f q)" "attention_is_terminal (aw_state (f r))"
    "\<And>q. q \<in> set (aitems adb) \<Longrightarrow> q \<noteq> r \<Longrightarrow> f q = q"
    "items_ok (re_attention R) (aitems adb')" "mirror_ok ps (aitems adb')"
proof -
  from assms(10) obtain x v s res where cl:
    "resolve_attention_from_source (re_attention R) now (at_attention_id item) v s res adb = Inr (x, adb')"
    by (auto simp: close_for_def and_then_ok)
  note ids = items_ok_ids [OF assms(2)]
  from resolve_rows [OF cl ids] obtain f where f: "aitems adb' = map f (aitems adb)" "\<And>q. same_keys q (f q)"
    "\<And>q. q \<in> set (aitems adb) \<Longrightarrow> aw_id q = at_attention_id item \<Longrightarrow> attention_is_terminal (aw_state (f q))"
    "\<And>q. q \<in> set (aitems adb) \<Longrightarrow> aw_id q \<noteq> at_attention_id item \<Longrightarrow> f q = q" by blast
  have rid: "aw_id r = at_attention_id item" by (rule holds_itemD(1) [OF assms(9)])
  have other: "f q = q" if "q \<in> set (aitems adb)" "q \<noteq> r" for q
    using that f(4) rid ids assms(7) by (metis distinct_map inj_onD)
  have r_terminal: "attention_is_terminal (aw_state (f r))" using f(3) [OF assms(7) rid] .
  have "mirror_ok ps (map f (aitems adb))"
  proof (rule mirror_ok_map [OF assms(3) f(2)])
    fix q p' assume q: "q \<in> set (aitems adb)" "p' \<in> set ps" "about p' q" "waiting p'" "attention_is_terminal (aw_state (f q))"
    have "q \<noteq> r"
    proof
      assume "q = r"
      with q(3) assms(8) have "ap_id p' = ap_id p" by (simp add: about_def)
      with assms(4-6) q(2,4) show False by (auto simp: distinct_map dest: inj_onD)
    qed
    with other q(1,5) show "attention_is_terminal (aw_state q)" by simp
  next
    fix q assume "q \<in> set (aitems adb)" "live_state (aw_state (f q))"
    with other r_terminal show "live_state (aw_state q)" by (cases "q = r") (auto simp: live_not_terminal)
  qed
  moreover have "items_ok (re_attention R) (aitems adb')"
    by (rule attention_step_ok [OF resolve_step [OF cl] assms(1,2)])
  ultimately show thesis
    using that f(1,2) other r_terminal by metis
qed

lemma mirrored_other:
  assumes "list_all2 (\<lambda>r r'. row_source r' = row_source r \<and> (about p r \<or> r' = r)) rows rows'" "ap_id p' \<noteq> ap_id p"
  shows "mirrored rows' p' = mirrored rows p'"
proof -
  have "list_ex (\<lambda>r. about p' r \<and> live_state (aw_state r)) rows' = list_ex (\<lambda>r. about p' r \<and> live_state (aw_state r)) rows"
    using assms(1) by (induction rule: list_all2_induct) (use assms(2) in \<open>auto simp: about_def\<close>)
  then show ?thesis by (simp add: mirrored_def)
qed

definition others_kept :: "approval_row \<Rightarrow> attention_row list \<Rightarrow> attention_row list \<Rightarrow> bool" where
  "others_kept p rows rows' \<longleftrightarrow> (\<forall>p'. ap_id p' \<noteq> ap_id p \<longrightarrow> mirrored rows' p' = mirrored rows p')"

lemma others_kept_refl: "others_kept p rows rows"
  by (simp add: others_kept_def)

lemma refresh_opens:
  assumes "codec_ok (av_item (re_attention R))" "items_ok (re_attention R) (aitems adb)" "mirror_ok ps (aitems adb)"
    and "p \<in> set ps" "waiting p" "as_id a = ap_id p" "uint (as_version a) = ap_version p"
    and "\<And>r. r \<in> set (aitems adb) \<Longrightarrow> about p r \<Longrightarrow> aw_source_revision r < ap_version p"
    and "open_for R now new_id a adb = Inr adb'"
  shows "items_ok (re_attention R) (aitems adb') \<and> mirror_ok ps (aitems adb') \<and> mirrored (aitems adb') p \<and>
    others_kept p (aitems adb) (aitems adb')"
proof -
  obtain n where n: "aitems adb' = aitems adb @ [n]" "about p n" "live_state (aw_state n)"
    "items_ok (re_attention R) (aitems adb')" "mirror_ok ps (aitems adb')"
    by (rule open_for_ok [OF assms])
  then show ?thesis
    using assms(5) by (auto simp: mirrored_def others_kept_def about_def)
qed

text \<open>When the newest row of an approval is closed, no older one is live.\<close>

lemma newest_closed:
  assumes "items_ok E rows" "mirror_ok ps rows" "r \<in> set rows" "about p r" "attention_is_terminal (aw_state r)"
    and newest: "\<And>q. q \<in> set rows \<Longrightarrow> about p q \<Longrightarrow> aw_source_revision q \<le> aw_source_revision r"
    and q: "q \<in> set rows" "about p q"
  shows "\<not> live_state (aw_state q)"
proof
  assume l: "live_state (aw_state q)"
  with assms(2-4) q have "aw_source_revision r \<le> aw_source_revision q"
    by (auto simp: mirror_ok_def about_def)
  with newest [OF q] have "aw_source_revision q = aw_source_revision r" by simp
  moreover have "row_source q = row_source r" using q(2) assms(4) by (simp add: about_def)
  ultimately have "q = r" using assms(1,3) q(1) by (auto simp: items_ok_def distinct_map dest: inj_onD)
  with l assms(5) show False by (simp add: live_not_terminal)
qed

lemma refresh_closes:
  assumes "codec_ok (av_item (re_attention R))" "items_ok (re_attention R) (aitems adb)" "mirror_ok ps (aitems adb)"
    and "distinct (map ap_id ps)" "p \<in> set ps" "\<not> waiting p" "r \<in> set (aitems adb)" "about p r" "holds_item (re_attention R) r item"
    and "close_for R now item a adb = Inr adb'" and live: "\<not> attention_is_terminal (aw_state r)"
  shows "items_ok (re_attention R) (aitems adb') \<and> mirror_ok ps (aitems adb') \<and> mirrored (aitems adb') p \<and>
    others_kept p (aitems adb) (aitems adb')"
proof -
  from close_for_ok [OF assms(1-10)]
  obtain f where f: "aitems adb' = map f (aitems adb)" "\<And>q. same_keys q (f q)" "attention_is_terminal (aw_state (f r))"
    "\<And>q. q \<in> set (aitems adb) \<Longrightarrow> q \<noteq> r \<Longrightarrow> f q = q"
    "items_ok (re_attention R) (aitems adb')" "mirror_ok ps (aitems adb')" by blast
  have "\<not> (about p q \<and> live_state (aw_state q))" if "q \<in> set (aitems adb')" for q
  proof
    assume q: "about p q \<and> live_state (aw_state q)"
    from that f(1) obtain q0 where q0: "q0 \<in> set (aitems adb)" "q = f q0" by auto
    with f(3) q have "q0 \<noteq> r" by (auto simp: live_not_terminal)
    moreover with f(4) q0 have "q = q0" by simp
    ultimately show False
      using live_unique [OF assms(2,7) q0(1)] q live assms(8) by (simp add: about_def live_not_terminal)
  qed
  moreover have "list_all2 (\<lambda>r r'. row_source r' = row_source r \<and> (about p r \<or> r' = r)) (aitems adb) (aitems adb')"
    unfolding f(1) using f(2,4) assms(8) by (auto simp: list_all2_conv_all_nth same_keys_def) (metis nth_mem)
  ultimately show ?thesis
    using assms(6) f(5,6) mirrored_other by (auto simp: mirrored_def [of _ p] list_ex_iff others_kept_def)
qed

lemma refresh_one_ok:
  assumes codec: "codec_ok (av_item (re_attention R))" and items: "items_ok (re_attention R) (aitems adb)"
    and mirror: "mirror_ok ps (aitems adb)" and ids: "distinct (map ap_id ps)" and p: "p \<in> set ps"
    and a: "as_id a = ap_id p" "as_state a = ap_state p" "uint (as_version a) = ap_version p"
    and ref: "refresh_one R now new_id a adb = Inr adb'"
  shows "items_ok (re_attention R) (aitems adb') \<and> mirror_ok ps (aitems adb') \<and> mirrored (aitems adb') p \<and>
    others_kept p (aitems adb) (aitems adb')"
proof -
  from ref obtain existing where ex: "attention_by_source (re_attention R) SourceApproval (ap_id p) adb = Inr existing"
    by (auto simp: refresh_one_def and_then_ok a(1))
  have pend: "as_state a = ''pending'' \<longleftrightarrow> waiting p" by (simp add: waiting_def a(2))
  note run = ref [unfolded refresh_one_def a(1) ex pend and_then.simps]
  note opens = refresh_opens [OF codec items mirror p _ a(1,3)]
  from codec items ex show ?thesis
  proof (cases rule: by_source_cases)
    case none
    show ?thesis
    proof (cases "waiting p")
      case True
      with run none show ?thesis by (intro opens) auto
    next
      case False
      with run none(1) have "adb' = adb" by simp
      with False none(2) items mirror show ?thesis by (auto simp: mirrored_def list_ex_iff others_kept_refl)
    qed
  next
    case (some r item)
    note keys = holds_itemD [OF some(4)]
    consider "waiting p" "attention_is_terminal (aw_state r)" | "waiting p" "\<not> attention_is_terminal (aw_state r)"
      | "\<not> waiting p" "attention_is_terminal (aw_state r)" | "\<not> waiting p" "\<not> attention_is_terminal (aw_state r)" by blast
    then show ?thesis
    proof cases
      case 1
      from mirror some(2) obtain p' where p': "p' \<in> set ps" "about p' r"
        "waiting p' \<longrightarrow> attention_is_terminal (aw_state r) \<longrightarrow> aw_source_revision r < ap_version p'"
        unfolding mirror_ok_def by blast
      with some(3) ids p have "p' = p" by (auto simp: about_def distinct_map dest: inj_onD)
      with p'(3) 1 have older: "aw_source_revision r < ap_version p" by simp
      then have "source_revision (at_source item) < as_version a"
        using keys(3) a(3) by (simp add: word_less_def)
      with run some(1) 1 keys(5) have "open_for R now new_id a adb = Inr adb'" by simp
      with 1 older some(5) show ?thesis by (intro opens) (auto intro: le_less_trans)
    next
      case 2
      with run some(1) keys(5) have "adb' = adb" by simp
      with 2 some(2,3) items mirror show ?thesis
        by (auto simp: mirrored_def list_ex_iff others_kept_refl live_not_terminal)
    next
      case 3
      with run some(1) keys(5) have "adb' = adb" by simp
      with 3 newest_closed [OF items mirror some(2,3) _ some(5)] items mirror show ?thesis
        by (auto simp: mirrored_def list_ex_iff others_kept_refl)
    next
      case 4
      with run some(1) keys(5) have "close_for R now item a adb = Inr adb'" by simp
      from refresh_closes [OF codec items mirror ids p 4(1) some(2-4) this 4(2)] show ?thesis .
    qed
  qed
qed

lemma refresh_each_ok:
  assumes codec: "codec_ok (av_item (re_attention R))" and ids: "distinct (map ap_id ps)"
  shows "refresh_each R now new_id n approvals adb = (res, adb') \<Longrightarrow> items_ok (re_attention R) (aitems adb) \<Longrightarrow>
    mirror_ok ps (aitems adb) \<Longrightarrow>
    list_all2 (\<lambda>p a. p \<in> set ps \<and> as_id a = ap_id p \<and> as_state a = ap_state p \<and> uint (as_version a) = ap_version p) rows approvals \<Longrightarrow>
    items_ok (re_attention R) (aitems adb') \<and> mirror_ok ps (aitems adb') \<and>
    (\<forall>p \<in> set ps. res = Inr () \<longrightarrow> p \<in> set rows \<or> mirrored (aitems adb) p \<longrightarrow> mirrored (aitems adb') p)"
proof (induction approvals arbitrary: n adb rows)
  case Nil
  then show ?case by auto
next
  case (Cons a rest)
  from Cons.prems(4) obtain p rows0 where rows: "rows = p # rows0" and p: "p \<in> set ps" "as_id a = ap_id p" "as_state a = ap_state p"
    "uint (as_version a) = ap_version p"
    and rest: "list_all2 (\<lambda>p a. p \<in> set ps \<and> as_id a = ap_id p \<and> as_state a = ap_state p \<and> uint (as_version a) = ap_version p) rows0 rest"
    by (auto simp: list_all2_Cons2)
  show ?case
  proof (cases "refresh_one R now (new_id n) a adb")
    case (Inl e)
    with Cons.prems show ?thesis by auto
  next
    case (Inr adb1)
    from refresh_one_ok [OF codec Cons.prems(2,3) ids p Inr] have one: "items_ok (re_attention R) (aitems adb1)"
      "mirror_ok ps (aitems adb1)" "mirrored (aitems adb1) p" "others_kept p (aitems adb) (aitems adb1)" by simp_all
    from Cons.prems(1) Inr have "refresh_each R now new_id (Suc n) rest adb1 = (res, adb')" by simp
    note IH = Cons.IH [OF this one(1,2) rest]
    have "mirrored (aitems adb1) p'" if "p' \<in> set ps" "p' = p \<or> mirrored (aitems adb) p'" for p'
    proof (cases "ap_id p' = ap_id p")
      case True
      with that(1) p(1) ids have "p' = p" by (auto simp: distinct_map dest: inj_onD)
      with one(3) show ?thesis by simp
    next
      case False
      with that one(4) show ?thesis by (auto simp: others_kept_def)
    qed
    with IH show ?thesis by (auto simp: rows)
  qed
qed

lemma list_approvals_rows:
  assumes "list_approvals E None None db = Inr approvals" "list_all (\<lambda>p. 1 \<le> ap_version p \<and> ap_version p < 2 ^ 63) (ap_rows db)"
  obtains rows where "set rows = set (ap_rows db)"
    "list_all2 (\<lambda>p a. p \<in> set (ap_rows db) \<and> as_id a = ap_id p \<and> as_state a = ap_state p \<and> uint (as_version a) = ap_version p) rows approvals"
proof -
  define rows where "rows = sort_key (\<lambda>r. risk_rank (ap_risk_level r)) (sort_key ap_created_at (ap_rows db))"
  have set: "set rows = set (ap_rows db)" by (simp add: rows_def)
  from assms(1) have "try_map (map_approval E db) rows = Inr approvals" by (simp add: list_approvals_def rows_def)
  then have "list_all2 (\<lambda>p a. map_approval E db p = Inr a) rows approvals"
    by (induction rows arbitrary: approvals) (auto simp: and_then_ok)
  then have "list_all2 (\<lambda>p a. p \<in> set rows \<and> map_approval E db p = Inr a) rows approvals"
    by (auto simp: list_all2_conv_all_nth)
  then have "list_all2 (\<lambda>p a. p \<in> set (ap_rows db) \<and> as_id a = ap_id p \<and> as_state a = ap_state p \<and> uint (as_version a) = ap_version p) rows approvals"
    by (rule list_all2_mono) (use assms(2) set map_approval_ok in \<open>fastforce simp: list_all_iff\<close>)
  with set that show thesis by blast
qed

text \<open>The invariant after a number of steps; each step raises a version by one at most.\<close>

definition operator_ok :: "refresh_env \<Rightarrow> int \<Rightarrow> approval_db \<times> attention_db \<Rightarrow> bool" where
  "operator_ok R n s \<longleftrightarrow> keys_ok (fst s) \<and> items_ok (re_attention R) (aitems (snd s)) \<and>
     mirror_ok (ap_rows (fst s)) (aitems (snd s)) \<and> list_all (\<lambda>p. 1 \<le> ap_version p \<and> ap_version p \<le> n) (ap_rows (fst s))"

lemma refresh_ok:
  assumes "codec_ok (av_item (re_attention R))" "operator_ok R n (db, adb)" "n < 2 ^ 63"
    "refresh_approval_attention R E now new_id db adb = (res, adb')"
  shows "operator_ok R n (db, adb') \<and> (res = Inr () \<longrightarrow> list_all (mirrored (aitems adb')) (ap_rows db))"
proof (cases "list_approvals E None None db")
  case (Inl e)
  with assms(2,4) show ?thesis by (auto simp: refresh_approval_attention_def)
next
  case (Inr approvals)
  have "list_all (\<lambda>p. 1 \<le> ap_version p \<and> ap_version p < 2 ^ 63) (ap_rows db)"
    using assms(2,3) by (auto simp: operator_ok_def list_all_iff)
  from list_approvals_rows [OF Inr this] obtain rows where rows: "set rows = set (ap_rows db)"
    "list_all2 (\<lambda>p a. p \<in> set (ap_rows db) \<and> as_id a = ap_id p \<and> as_state a = ap_state p \<and> uint (as_version a) = ap_version p) rows approvals" .
  from assms(4) Inr have each: "refresh_each R now new_id 0 approvals adb = (res, adb')"
    by (simp add: refresh_approval_attention_def)
  have "distinct (map ap_id (ap_rows db))" using assms(2) by (simp add: operator_ok_def keys_ok_def)
  from refresh_each_ok [OF assms(1) this each _ _ rows(2)] assms(2) rows(1) show ?thesis
    by (auto simp: operator_ok_def list_all_iff)
qed

lemma acknowledge_ok:
  assumes "codec_ok (av_item (re_attention R))" "operator_ok R n (db, adb)"
  shows "operator_ok R n (db, attention_effect (re_attention R) (AcknowledgeAttention clock i v ack) adb)"
proof (cases "acknowledge_attention (re_attention R) clock i v ack adb")
  case (Inl e)
  with assms(2) show ?thesis by (simp add: attention_effect_def)
next
  case (Inr q)
  then obtain x adb' where ok: "acknowledge_attention (re_attention R) clock i v ack adb = Inr (x, adb')" by (cases q) simp
  have items: "items_ok (re_attention R) (aitems adb)" using assms(2) by (simp add: operator_ok_def)
  from acknowledge_rows [OF ok items_ok_ids [OF items]] obtain f where f: "aitems adb' = map f (aitems adb)"
    "\<And>r. same_keys r (f r)" "\<And>r. r \<in> set (aitems adb) \<Longrightarrow> aw_state (f r) = Acknowledged \<or> f r = r" by blast
  have step: "attention_step (re_attention R) (aitems adb) (aitems adb')" by (rule acknowledge_step [OF ok])
  have live: "live_state (aw_state r)" if r: "r \<in> set (aitems adb)" and l: "live_state (aw_state (f r))" for r
  proof (rule ccontr)
    assume c: "\<not> live_state (aw_state r)"
    then have "r \<in> set (aitems adb')"
      by (intro attention_step_final [OF step assms(1) items r]) (simp add: live_not_terminal)
    then obtain r0 where r0: "r0 \<in> set (aitems adb)" "r = f r0" by (auto simp: f(1))
    with f(2) [of r0] r items_ok_ids [OF items] have "r0 = r" by (auto simp: same_keys_def distinct_map dest: inj_onD)
    with r0(2) c l show False by simp
  qed
  have "mirror_ok (ap_rows db) (map f (aitems adb))"
  proof (rule mirror_ok_map [OF _ f(2) _ live])
    show "mirror_ok (ap_rows db) (aitems adb)" using assms(2) by (simp add: operator_ok_def)
  next
    fix r p assume "r \<in> set (aitems adb)" "attention_is_terminal (aw_state (f r))"
    with f(3) [of r] show "attention_is_terminal (aw_state r)" by (auto simp: attention_is_terminal_def)
  qed
  with assms(2) attention_step_ok [OF step assms(1) items] show ?thesis
    by (simp add: attention_effect_def ok operator_ok_def f(1))
qed

lemma operator_effect_ok:
  assumes "codec_ok (av_item (re_attention R))" "operator_ok R n s" "n < 2 ^ 63" "1 \<le> n"
  shows "operator_ok R (n + 1) (operator_effect R E step s)"
proof -
  obtain db adb where s: "s = (db, adb)" by fastforce
  have more: "operator_ok R (n + 1) t" if "operator_ok R n t" for t
    using that by (auto simp: operator_ok_def list_all_iff)
  show ?thesis
  proof (cases step)
    case (OnApprovals call)
    have grow: "approvals_grow (ap_rows db) (ap_rows (approval_effect E call db))" by (rule approval_effect_grows)
    have "keys_ok (approval_effect E call db)"
      using assms(2) by (intro approval_effect_keys) (simp add: s operator_ok_def)
    moreover have "ap_version p \<le> n + 1" if "p \<in> set (ap_rows (approval_effect E call db))" for p
      using grow that assms(2,4) by (fastforce simp: approvals_grow_def s operator_ok_def list_all_iff)
    moreover have "mirror_ok (ap_rows (approval_effect E call db)) (aitems adb)"
      using assms(2) by (intro mirror_ok_grow [OF _ grow]) (simp add: s operator_ok_def)
    ultimately show ?thesis
      using assms(2) by (auto simp: OnApprovals s operator_ok_def keys_ok_def list_all_iff)
  next
    case (Refresh now new_id)
    obtain res adb' where r: "refresh_approval_attention R E now new_id db adb = (res, adb')" by fastforce
    from refresh_ok [OF assms(1) assms(2) [unfolded s] assms(3) r] show ?thesis
      by (auto simp: Refresh s r intro: more)
  next
    case (Acknowledge clock i v ack)
    from acknowledge_ok [OF assms(1) assms(2) [unfolded s]] show ?thesis
      by (simp add: Acknowledge s more)
  qed
qed

lemma operator_steps_ok:
  assumes "codec_ok (av_item (re_attention R))"
  shows "operator_ok R n s \<Longrightarrow> 1 \<le> n \<Longrightarrow> n + int (length steps) < 2 ^ 63 \<Longrightarrow>
    operator_ok R (n + int (length steps)) (operator_steps R E steps s)"
proof (induction steps arbitrary: n s)
  case (Cons step steps)
  have "operator_ok R (n + 1) (operator_effect R E step s)"
    using Cons.prems by (intro operator_effect_ok [OF assms]) auto
  from Cons.IH [OF this] Cons.prems show ?case by (simp add: operator_steps_def add.assoc)
qed (simp add: operator_steps_def)

section \<open>Properties\<close>

text \<open>
  C19. After a successful refresh the attention list mirrors the approvals: whatever decisions, deliveries, expiries,
  refreshes and acknowledgements came before (fewer than 2 to the power of 62 of them), an approval is pending exactly
  when it has a live attention item.
\<close>

theorem refresh_mirrors_approvals:
  assumes "codec_ok (av_item (re_attention R))" and "no_approvals db0" and "length steps < 2 ^ 62"
    and "operator_steps R E steps (db0, no_attention) = (db, adb)"
    and "refresh_approval_attention R E now new_id db adb = (Inr (), adb')" and "p \<in> set (ap_rows db)"
  shows "ap_state p = ''pending'' \<longleftrightarrow> (\<exists>r. r \<in> set (aitems adb') \<and> aw_source_type r = SourceApproval \<and>
    aw_source_id r = ap_id p \<and> live_state (aw_state r))"
proof -
  have "operator_ok R 1 (db0, no_attention)"
    using assms(2) no_attention_ok by (simp add: operator_ok_def no_approvals_def keys_ok_def mirror_ok_def no_attention_def)
  moreover have "1 + int (length steps) < 2 ^ 63" using assms(3) by simp
  ultimately have "operator_ok R (1 + int (length steps)) (db, adb)"
    using operator_steps_ok [OF assms(1), of 1 "(db0, no_attention)" steps E] assms(4) by simp
  from refresh_ok [OF assms(1) this \<open>1 + int (length steps) < 2 ^ 63\<close> assms(5)] assms(6)
  have "mirrored (aitems adb') p" by (simp add: list_all_iff)
  then show ?thesis by (auto simp: mirrored_def waiting_def about_def row_source_def list_ex_iff)
qed

section \<open>Witnesses\<close>

definition sample_summary :: "string ApprovalSummary" where
  "sample_summary = \<lparr>as_id = ''ap'', as_run_id = ''r'', as_agent_id = None, as_task_id = None, as_thread_id = ''th'',
     as_turn_id = None, as_approval_type = ''command'', as_risk_level = HighRisk, as_request = ''{}'', as_state = ''pending'',
     as_decision = None, as_created_at = [], as_resolved_at = None, as_version = 1\<rparr>"

definition mirror_item :: AttentionItem where
  "mirror_item = approval_attention (\<lambda>_. None) 5 ''a9'' sample_summary"

definition sample_refresh_env :: refresh_env where
  "sample_refresh_env =
    \<lparr>re_attention = \<lparr>av_item = list_codec [(mirror_item, ''open'')], av_link = list_codec [(opened_link ''a9'' ''approval:ap:1'', ''1'')],
       av_sha = length_sha\<rparr>, re_parse_rfc3339 = (\<lambda>_. None)\<rparr>"

definition sample_steps :: "string operator_step list" where
  "sample_steps = [OnApprovals (CreateApproval 0 sample_new_approval ''42'')]"

lemma sample_steps_state:
  "operator_steps sample_refresh_env text_values sample_steps (approval_base, no_attention) = (sample_approvals, no_attention)"
  by (simp add: operator_steps_def sample_steps_def sample_approvals_def approval_calls_def)

lemma sample_refresh: "fst (refresh_approval_attention sample_refresh_env text_values 5 (\<lambda>_. ''a9'') sample_approvals no_attention) = Inr ()"
  by code_simp

lemma sample_pending: "map (\<lambda>p. (ap_id p, ap_state p)) (ap_rows sample_approvals) = [(''ap'', ''pending'')]"
  by code_simp

theorem refresh_mirrors_approvals_witness:
  "\<exists>p r. p \<in> set (ap_rows sample_approvals) \<and> ap_state p = ''pending'' \<and>
     r \<in> set (aitems (snd (refresh_approval_attention sample_refresh_env text_values 5 (\<lambda>_. ''a9'') sample_approvals no_attention))) \<and>
     aw_source_id r = ap_id p \<and> live_state (aw_state r)"
proof -
  define out where "out = refresh_approval_attention sample_refresh_env text_values 5 (\<lambda>_. ''a9'') sample_approvals no_attention"
  have out: "out = (Inr (), snd out)" using sample_refresh by (cases out) (simp add: out_def [symmetric])
  from sample_pending obtain p where p: "p \<in> set (ap_rows sample_approvals)" "ap_state p = ''pending''"
    by (cases "ap_rows sample_approvals") auto
  have "codec_ok (av_item (re_attention sample_refresh_env))"
    by (simp add: sample_refresh_env_def list_codec_ok)
  from refresh_mirrors_approvals [OF this approval_base_empty _ sample_steps_state out [unfolded out_def] p(1)] p show ?thesis
    unfolding out_def by (auto simp: sample_steps_def)
qed

end
