(* ===== verification/Approval_Decision.thy ===== *)
theory Approval_Decision
  imports Approval_Store Orchestrator_Base
begin

text \<open>
  The controller's handler for an operator's decision (\<open>decide_approval\<close> of
  \<^verbatim>\<open>crates/harness-orchestrator/src/lib.rs\<close>) with the store calls it makes: it checks that the worktree an accepted
  request is bound to has not moved, stores the decision, answers the runtime and reports the delivery.

  The git commands (head commit and content fingerprint of a worktree), the runtime and its answer, and the JSON
  payload of the audit entry are parameters; the answers the runtime has received are part of the state. The
  handler runs without interference here; \<open>Approval_Store\<close> treats concurrent decisions.

  The lemmas: an acceptance reaches the runtime only for an unchanged worktree and a request that was waiting, and
  a decision that is stored while the runtime is away can never be delivered or repeated.
\<close>

section \<open>Tables\<close>

record agent_row =
  ag_id :: string
  ag_task_attempt_id :: "string option"
  ag_state :: string
  ag_effective_model :: "string option"
  ag_effective_reasoning_effort :: "string option"
  ag_last_heartbeat_at :: "i64 option"
  ag_completed_at :: "i64 option"
  ag_failure_class :: "string option"
  ag_failure_reason :: "string option"
  ag_version :: i64

record detail_row =
  de_agent_session_id :: string
  de_current_action :: "string option"
  de_last_activity_at :: "i64 option"
  de_updated_at :: i64

record worktree_row =
  wt_id :: string
  wt_task_attempt_id :: "string option"
  wt_path :: string
  wt_base_sha :: string
  wt_head_sha :: "string option"
  wt_created_at :: i64
  wt_removed_at :: "i64 option"

record human_action_row =
  hu_run_id :: "string option"
  hu_task_attempt_id :: "string option"
  hu_actor :: string
  hu_action_type :: string
  hu_target_type :: string
  hu_target_id :: string
  hu_occurred_at :: i64
  hu_payload_json :: string
  hu_payload_sha256 :: string

record 'v decision_state =
  ds_approvals :: approval_db
  ds_agents :: "agent_row list"
  ds_details :: "detail_row list"
  ds_worktrees :: "worktree_row list"
  ds_actions :: "human_action_row list"
  ds_answers :: "('v \<times> string) list"

record 'v decision_env =
  dn_store :: "'v approval_env"
  dn_head_sha :: "string \<Rightarrow> string option"
  dn_worktree_fingerprint :: "string \<Rightarrow> string option"
  dn_runtime_available :: bool
  dn_respond :: "'v \<Rightarrow> string \<Rightarrow> string option"
  dn_payload :: "string \<Rightarrow> string option \<Rightarrow> 'v"

record ApprovalDecisionRequest =
  rq_decision :: string
  rq_note :: "string option"
  rq_expected_version :: "u64 option"

section \<open>Store calls\<close>

definition task_attempt_for_agent :: "string \<Rightarrow> 'v decision_state \<Rightarrow> string option" where
  "task_attempt_for_agent i s = Option.bind (lookup_row (\<lambda>a. ag_id a = i) (ds_agents s)) ag_task_attempt_id"

text \<open>\<open>ORDER BY created_at DESC LIMIT 1\<close>; among equal times the first row of the table.\<close>

definition worktree_for_attempt :: "string \<Rightarrow> 'v decision_state \<Rightarrow> (string \<times> string \<times> string \<times> string option) stored" where
  "worktree_for_attempt i s =
    (case sort_key (\<lambda>w. - wt_created_at w)
       (filter (\<lambda>w. wt_task_attempt_id w = Some i \<and> wt_removed_at w = None) (ds_worktrees s)) of
       [] \<Rightarrow> Inl (NotFound (''worktree for attempt '' @ i))
     | w # _ \<Rightarrow> Inr (wt_id w, wt_path w, wt_base_sha w, wt_head_sha w))"

definition agent_terminal :: "string \<Rightarrow> bool" where
  "agent_terminal st \<longleftrightarrow> st \<in> set [''COMPLETED'', ''FAILED'', ''INTERRUPTED'', ''CANCELED'']"

definition coalesced :: "'a option \<Rightarrow> 'a option \<Rightarrow> 'a option" where
  "coalesced new old = (case new of Some x \<Rightarrow> Some x | None \<Rightarrow> old)"

definition update_agent_state ::
  "i64 \<Rightarrow> string \<Rightarrow> string \<Rightarrow> string option \<Rightarrow> string option \<Rightarrow> string option \<Rightarrow> (string \<times> string) option \<Rightarrow>
     'v decision_state \<Rightarrow> 'v decision_state stored" where
  "update_agent_state now i st current_action effective_model effective_effort terminal_failure s =
    (if changed_rows (\<lambda>a. ag_id a = i) (ds_agents s) \<noteq> 1 then Inl (NotFound (''agent '' @ i))
     else Inr (s\<lparr>ds_agents := update_where (\<lambda>a. ag_id a = i)
         (\<lambda>a. a\<lparr>ag_state := st, ag_effective_model := coalesced effective_model (ag_effective_model a),
            ag_effective_reasoning_effort := coalesced effective_effort (ag_effective_reasoning_effort a),
            ag_last_heartbeat_at := Some now,
            ag_completed_at := (if agent_terminal st then Some now else ag_completed_at a),
            ag_failure_class := map_option fst terminal_failure, ag_failure_reason := map_option snd terminal_failure,
            ag_version := ag_version a + 1\<rparr>) (ds_agents s),
       ds_details := update_where (\<lambda>d. de_agent_session_id d = i)
         (\<lambda>d. d\<lparr>de_current_action := coalesced current_action (de_current_action d),
            de_last_activity_at := Some now, de_updated_at := now\<rparr>) (ds_details s)\<rparr>))"

definition record_human_action ::
  "'v approval_env \<Rightarrow> i64 \<Rightarrow> string option \<Rightarrow> string option \<Rightarrow> string \<Rightarrow> string \<Rightarrow> string \<Rightarrow> string \<Rightarrow> 'v \<Rightarrow>
     'v decision_state \<Rightarrow> 'v decision_state stored" where
  "record_human_action E now run_id attempt_id actor action_type target_type target_id payload s =
     and_then (to_json (pv_value E) payload)
    (\<lambda>raw. if \<not> known (ap_runs (ds_approvals s)) run_id \<or> \<not> known (map fst (ap_attempts (ds_approvals s))) attempt_id
       then Inl (Sqlite ''FOREIGN KEY constraint failed'')
       else Inr (s\<lparr>ds_actions := ds_actions s @
         [\<lparr>hu_run_id = run_id, hu_task_attempt_id = attempt_id, hu_actor = actor, hu_action_type = action_type,
           hu_target_type = target_type, hu_target_id = target_id, hu_occurred_at = now, hu_payload_json = raw,
           hu_payload_sha256 = pv_sha E raw\<rparr>]\<rparr>))"

section \<open>The handler\<close>

text \<open>\<open>?\<close> on a store call: the error becomes an \<open>OrchestratorError\<close>.\<close>

definition from_store :: "'a stored \<Rightarrow> OrchestratorError + 'a" where
  "from_store r = map_err StoreErr r"

definition check_request :: "ApprovalDecisionRequest \<Rightarrow> OrchestratorError + unit" where
  "check_request req =
    (if rq_decision req \<notin> set [''accept'', ''decline'', ''cancel'']
     then Inl (ValidationErr ''approval decision must be accept, decline, or cancel; session-wide approval is forbidden by v1 policy'')
     else if (case rq_note req of None \<Rightarrow> False | Some t \<Rightarrow> chars_count t > 4000)
     then Inl (ValidationErr ''approval note exceeds 4,000 characters'')
     else Inr ())"

definition check_unchanged :: "'v decision_env \<Rightarrow> string \<Rightarrow> string option \<Rightarrow> string option \<Rightarrow> OrchestratorError + unit" where
  "check_unchanged E worktree expected_head expected_fingerprint = and_then
     (case expected_head of
        None \<Rightarrow> Inr ()
      | Some h \<Rightarrow> and_then (ok_or GitErr (dn_head_sha E worktree))
          (\<lambda>current. ensure (current = h) (ConflictErr ''worktree head changed while approval was pending'')))
    (\<lambda>_. case expected_fingerprint of
        None \<Rightarrow> Inr ()
      | Some f \<Rightarrow> and_then (ok_or GitErr (dn_worktree_fingerprint E worktree))
          (\<lambda>current. ensure (current = f) (ConflictErr ''worktree contents changed while approval was pending'')))"

definition check_approval_custody :: "'v decision_env \<Rightarrow> string \<Rightarrow> 'v decision_state \<Rightarrow> OrchestratorError + unit" where
  "check_approval_custody E i s =
     and_then (from_store (approval_expected_custody i (ds_approvals s)))
    (\<lambda>(expected_head, expected_fingerprint).
       if expected_head = None \<and> expected_fingerprint = None then Inr ()
       else and_then (from_store (approval (dn_store E) i (ds_approvals s)))
    (\<lambda>a. and_then (ok_or (ProtocolErr ''custody-bound approval has no agent session'') (as_agent_id a))
    (\<lambda>agent_id. and_then (ok_or (ProtocolErr ''custody-bound approval has no task attempt'') (task_attempt_for_agent agent_id s))
    (\<lambda>attempt_id. and_then (from_store (worktree_for_attempt attempt_id s))
    (\<lambda>(_, worktree, _, _). check_unchanged E worktree expected_head expected_fingerprint)))))"

text \<open>Reporting a delivery, and what follows a successful one.\<close>

definition report_delivery :: "i64 \<Rightarrow> string \<Rightarrow> string option \<Rightarrow> 'v decision_state \<Rightarrow> 'v decision_state" where
  "report_delivery now i err s = s\<lparr>ds_approvals := mark_approval_delivered now i err (ds_approvals s)\<rparr>"

definition after_delivery ::
  "'v decision_env \<Rightarrow> i64 \<Rightarrow> string \<Rightarrow> ApprovalDecisionRequest \<Rightarrow> string \<Rightarrow> 'v ApprovalSummary \<Rightarrow> 'v decision_state \<Rightarrow>
     (OrchestratorError + 'v ApprovalSummary) \<times> 'v decision_state" where
  "after_delivery E now i req actor a s =
    (case (case as_agent_id a of
        None \<Rightarrow> Inr s
      | Some agent \<Rightarrow> update_agent_state now agent ''RUNNING'' (Some ''Approval decision delivered'') None None None s) of
       Inl e \<Rightarrow> (Inl (StoreErr e), s)
     | Inr s \<Rightarrow> (case record_human_action (dn_store E) now (Some (as_run_id a)) None actor ''decide_approval'' ''approval'' i
           (dn_payload E (rq_decision req) (rq_note req)) s of
         Inl e \<Rightarrow> (Inl (StoreErr e), s)
       | Inr s \<Rightarrow> (from_store (approval (dn_store E) i (ds_approvals s)), s)))"

definition handle_decision ::
  "'v decision_env \<Rightarrow> i64 \<Rightarrow> string \<Rightarrow> ApprovalDecisionRequest \<Rightarrow> string \<Rightarrow> 'v decision_state \<Rightarrow>
     (OrchestratorError + 'v ApprovalSummary) \<times> 'v decision_state" where
  "handle_decision E now i req actor s =
    (case and_then (check_request req) (\<lambda>_. if rq_decision req = ''accept'' then check_approval_custody E i s else Inr ()) of
       Inl e \<Rightarrow> (Inl e, s)
     | Inr _ \<Rightarrow>
       (case decide_approval (dn_store E) now i (rq_decision req) (rq_note req) actor (rq_expected_version req) (ds_approvals s) of
          (Inl e, db) \<Rightarrow> (Inl (StoreErr e), s\<lparr>ds_approvals := db\<rparr>)
        | (Inr (a, rpc_id), db) \<Rightarrow>
          (if \<not> dn_runtime_available E
           then (Inl (BlockedErr ''Codex App Server is unavailable''), s\<lparr>ds_approvals := db\<rparr>)
           else (case dn_respond E rpc_id (rq_decision req) of
             Some err \<Rightarrow> (Inl CodexErr, report_delivery now i (Some err) (s\<lparr>ds_approvals := db\<rparr>))
           | None \<Rightarrow> after_delivery E now i req actor a
               (report_delivery now i None (s\<lparr>ds_approvals := db, ds_answers := ds_answers s @ [(rpc_id, rq_decision req)]\<rparr>))))))"

section \<open>What reaches the runtime\<close>

lemma from_store_ok [simp]: "from_store r = Inr x \<longleftrightarrow> r = Inr x"
  by (simp add: from_store_def)

lemma update_agent_state_other:
  "update_agent_state now i st ca em ee tf s = Inr s' \<Longrightarrow> ds_answers s' = ds_answers s \<and> ds_approvals s' = ds_approvals s"
  by (auto simp: update_agent_state_def split: if_splits)

lemma record_human_action_other:
  "record_human_action E now r at actor ty tt ti p s = Inr s' \<Longrightarrow> ds_answers s' = ds_answers s \<and> ds_approvals s' = ds_approvals s"
  by (auto simp: record_human_action_def and_then_ok split: if_splits)

lemma after_delivery_answers: "ds_answers (snd (after_delivery E now i req actor a s)) = ds_answers s"
  by (auto simp: after_delivery_def split: sum.splits option.splits
      dest!: update_agent_state_other record_human_action_other)

lemma check_request_ok:
  "check_request req = Inr () \<Longrightarrow> rq_decision req \<in> set [''accept'', ''decline'', ''cancel'']"
  by (auto simp: check_request_def split: if_splits)

text \<open>The worktree an approval is bound to is the one the agent works in, and it is as the approval expects.\<close>

definition custody_holds :: "'v decision_env \<Rightarrow> 'v decision_state \<Rightarrow> approval_row \<Rightarrow> bool" where
  "custody_holds E s r \<longleftrightarrow> (ap_expected_head_sha r = None \<and> ap_expected_worktree_fingerprint r = None) \<or>
     (case Option.bind (ap_agent_session_id r) (\<lambda>agent. task_attempt_for_agent agent s) of
        None \<Rightarrow> False
      | Some attempt_id \<Rightarrow> (case worktree_for_attempt attempt_id s of
          Inl _ \<Rightarrow> False
        | Inr (_, worktree, _, _) \<Rightarrow>
            (ap_expected_head_sha r \<noteq> None \<longrightarrow> dn_head_sha E worktree = ap_expected_head_sha r) \<and>
            (ap_expected_worktree_fingerprint r \<noteq> None \<longrightarrow>
              dn_worktree_fingerprint E worktree = ap_expected_worktree_fingerprint r)))"

lemma check_unchanged_ok:
  "check_unchanged E w h f = Inr () \<Longrightarrow> (h \<noteq> None \<longrightarrow> dn_head_sha E w = h) \<and> (f \<noteq> None \<longrightarrow> dn_worktree_fingerprint E w = f)"
  by (auto simp: check_unchanged_def and_then_ok split: option.splits)

lemma check_approval_custody_holds:
  assumes "check_approval_custody E i s = Inr ()" "lookup_row (\<lambda>r. ap_id r = i) (ap_rows (ds_approvals s)) = Some r"
  shows "custody_holds E s r"
proof (cases "ap_expected_head_sha r = None \<and> ap_expected_worktree_fingerprint r = None")
  case False
  have e: "approval_expected_custody i (ds_approvals s) = Inr (ap_expected_head_sha r, ap_expected_worktree_fingerprint r)"
    using assms(2) by (simp add: approval_expected_custody_def)
  have ag: "approval (dn_store E) i (ds_approvals s) = Inr a \<Longrightarrow> as_agent_id a = ap_agent_session_id r" for a
    using assms(2) by (auto simp: approval_def map_approval_def and_then_ok)
  from assms(1) False obtain a agent_id attempt_id wid worktree base h where a: "approval (dn_store E) i (ds_approvals s) = Inr a"
    and b: "as_agent_id a = Some agent_id" and "task_attempt_for_agent agent_id s = Some attempt_id"
    and "worktree_for_attempt attempt_id s = Inr (wid, worktree, base, h)"
    and "check_unchanged E worktree (ap_expected_head_sha r) (ap_expected_worktree_fingerprint r) = Inr ()"
    unfolding check_approval_custody_def e by (auto simp: and_then_ok split: if_splits)
  moreover have "ap_agent_session_id r = Some agent_id" using ag [OF a] b by simp
  ultimately show ?thesis by (auto simp: custody_holds_def dest: check_unchanged_ok)
qed (simp add: custody_holds_def)

lemma decide_was_pending:
  assumes "decide_approval E now i d n actor v db = (Inr (a, rpc), db')"
  obtains r q where "lookup_row (\<lambda>r. ap_id r = i) (ap_rows db) = Some r" "ap_state r = ''pending''"
    "q \<in> set (rpc_rows db)" "rq_request_key q = i" "rq_state q = ''pending''" "dec (pv_value E) (rq_rpc_id_json q) = Some rpc"
proof -
  from assms obtain su raw where su: "decide_read E i v db = Inr su" and w: "decide_write now i d n actor (as_version su) db = Inr (raw, db')"
    and res: "decide_result E i raw db' = Inr (a, rpc)"
    by (auto simp: decide_approval_def split: sum.splits)
  from su obtain r where r: "lookup_row (\<lambda>r. ap_id r = i) (ap_rows db) = Some r" "map_approval E db r = Inr su" "as_state su = ''pending''"
    by (auto simp: decide_read_def approval_def and_then_ok split: if_splits)
  then have "ap_state r = ''pending''" by (auto simp: map_approval_def and_then_ok)
  moreover obtain q where "q \<in> set (rpc_rows db)" "rq_request_key q = i" "rq_state q = ''pending''" "rq_rpc_id_json q = raw"
    "unat (as_version su) < 2 ^ 63" "db' = db\<lparr>ap_rows := update_where (\<lambda>r. ap_id r = i \<and> ap_version r = uint (as_version su))
       (decided_row now d n actor) (ap_rows db)\<rparr>"
    by (rule decide_write_ok [OF w])
  moreover from res have "dec (pv_value E) raw = Some rpc" by (auto simp: decide_result_def and_then_ok)
  ultimately show thesis using that [OF r(1)] by metis
qed

text \<open>A decision on an approval that is already being delivered is refused and changes nothing.\<close>

lemma delivering_is_refused:
  assumes "approval (dn_store E) i (ds_approvals s) = Inr a" "as_state a = ''delivering''"
  shows "\<exists>e. handle_decision E now i req actor s = (Inl e, s)"
proof -
  have "decide_read (dn_store E) i v (ds_approvals s) = Inl (Conflict (''approval '' @ i @ '' is already '' @ as_state a))" for v
    using assms by (simp add: decide_read_def)
  then show ?thesis
    by (cases "and_then (check_request req) (\<lambda>_. if rq_decision req = ''accept'' then check_approval_custody E i s else Inr ())")
      (simp_all add: handle_decision_def decide_approval_def)
qed

lemma check_approval_custody_not_blocked: "check_approval_custody E i s \<noteq> Inl (BlockedErr m)"
  by (auto simp: check_approval_custody_def check_unchanged_def and_then_err from_store_def map_err_def ensure_def ok_or_def
      split: sum.splits option.splits if_splits)

lemma blocked_decision_is_stored:
  assumes "handle_decision E now i req actor s = (Inl (BlockedErr m), s')"
  obtains a rpc where "decide_approval (dn_store E) now i (rq_decision req) (rq_note req) actor (rq_expected_version req)
      (ds_approvals s) = (Inr (a, rpc), ds_approvals s')"
    "\<not> dn_runtime_available E" "ds_answers s' = ds_answers s"
proof -
  have "and_then (check_request req) (\<lambda>_. if rq_decision req = ''accept'' then check_approval_custody E i s else Inr ()) \<noteq> Inl (BlockedErr m)"
    using check_approval_custody_not_blocked by (auto simp: check_request_def and_then_err split: sum.splits if_splits)
  with assms obtain u where "and_then (check_request req) (\<lambda>_. if rq_decision req = ''accept'' then check_approval_custody E i s else Inr ()) = Inr u"
    by (cases "and_then (check_request req) (\<lambda>_. if rq_decision req = ''accept'' then check_approval_custody E i s else Inr ())")
      (auto simp: handle_decision_def)
  moreover obtain out db where "decide_approval (dn_store E) now i (rq_decision req) (rq_note req) actor (rq_expected_version req)
    (ds_approvals s) = (out, db)" by fastforce
  ultimately show thesis using assms
    by (intro that [of "fst (projr out)" "snd (projr out)"])
      (auto simp: handle_decision_def after_delivery_def from_store_def map_err_def split: sum.splits if_splits option.splits prod.splits)
qed

section \<open>Properties\<close>

text \<open>
  C21. An answer reaches the runtime at most once per call, it is the operator's decision and one of accept, decline and
  cancel, the approval and its request were pending, and an acceptance is only sent when the worktree the approval is
  bound to has the head commit and the contents the approval expects.
\<close>

theorem acceptance_needs_unchanged_worktree:
  assumes "handle_decision E now i req actor s = (res, s')"
  shows "ds_answers s' = ds_answers s \<or>
    (\<exists>rpc r q. ds_answers s' = ds_answers s @ [(rpc, rq_decision req)] \<and>
       rq_decision req \<in> set [''accept'', ''decline'', ''cancel''] \<and>
       r \<in> set (ap_rows (ds_approvals s)) \<and> ap_id r = i \<and> ap_state r = ''pending'' \<and>
       q \<in> set (rpc_rows (ds_approvals s)) \<and> rq_request_key q = i \<and> rq_state q = ''pending'' \<and>
       dec (pv_value (dn_store E)) (rq_rpc_id_json q) = Some rpc \<and>
       (rq_decision req = ''accept'' \<longrightarrow> custody_holds E s r))"
proof (cases "and_then (check_request req) (\<lambda>_. if rq_decision req = ''accept'' then check_approval_custody E i s else Inr ())")
  case (Inl e)
  with assms show ?thesis by (auto simp: handle_decision_def)
next
  case (Inr u)
  then have c: "check_request req = Inr ()" "rq_decision req = ''accept'' \<Longrightarrow> check_approval_custody E i s = Inr ()"
    by (auto simp: and_then_ok)
  obtain out db where d: "decide_approval (dn_store E) now i (rq_decision req) (rq_note req) actor (rq_expected_version req)
    (ds_approvals s) = (out, db)" by fastforce
  show ?thesis
  proof (cases out)
    case (Inl e)
    with assms Inr d show ?thesis by (auto simp: handle_decision_def)
  next
    case (Inr p)
    then obtain a rpc where p: "out = Inr (a, rpc)" by (cases p) simp
    have answers: "ds_answers s' = ds_answers s \<or> ds_answers s' = ds_answers s @ [(rpc, rq_decision req)]"
      using assms \<open>and_then _ _ = Inr u\<close> d p after_delivery_answers [of E now i req actor a]
      by (auto simp: handle_decision_def report_delivery_def split: if_splits option.splits dest!: arg_cong [where f = snd])
    obtain r q where r: "lookup_row (\<lambda>r. ap_id r = i) (ap_rows (ds_approvals s)) = Some r" "ap_state r = ''pending''"
      and q: "q \<in> set (rpc_rows (ds_approvals s))" "rq_request_key q = i" "rq_state q = ''pending''"
        "dec (pv_value (dn_store E)) (rq_rpc_id_json q) = Some rpc"
      by (rule decide_was_pending [OF d [unfolded p]])
    have "custody_holds E s r" if "rq_decision req = ''accept''"
      by (rule check_approval_custody_holds [OF c(2) [OF that] r(1)])
    with answers q r(2) lookup_row_Some [OF r(1)] check_request_ok [OF c(1)] show ?thesis by blast
  qed
qed

text \<open>
  C22. The decision is stored before the runtime is looked up. When the runtime is away, the handler answers that the
  controller is blocked, the runtime has received nothing, the approval is left \<open>delivering\<close> with the decision, and
  every later decision on it is refused and changes nothing, also once the runtime is back.
\<close>

theorem undelivered_decision_is_stuck:
  assumes "no_approvals db0" and "ds_approvals s = approval_calls (dn_store E) calls db0"
    and "list_all (\<lambda>r. ap_version r < 2 ^ 63 - 1) (ap_rows (ds_approvals s))"
    and "handle_decision E now i req actor s = (Inl (BlockedErr m), s')"
  shows "ds_answers s' = ds_answers s \<and>
    (\<exists>a. approval (dn_store E) i (ds_approvals s') = Inr a \<and> as_state a = ''delivering'' \<and> as_decision a = Some (rq_decision req)) \<and>
    (dn_store E' = dn_store E \<longrightarrow> (\<exists>e. handle_decision E' now' i req' actor' s' = (Inl e, s')))"
proof -
  obtain a rpc where d: "decide_approval (dn_store E) now i (rq_decision req) (rq_note req) actor (rq_expected_version req)
      (ds_approvals s) = (Inr (a, rpc), ds_approvals s')" and same: "ds_answers s' = ds_answers s"
    by (rule blocked_decision_is_stored [OF assms(4)])
  have "keys_ok db0" using assms(1) by (simp add: no_approvals_def keys_ok_def)
  then have "keys_ok (ds_approvals s)" unfolding assms(2) by (rule approval_calls_keys)
  from decide_records [OF this assms(3) d]
  have a: "approval (dn_store E) i (ds_approvals s') = Inr a" "as_state a = ''delivering''" "as_decision a = Some (rq_decision req)"
    by simp_all
  have "\<exists>e. handle_decision E' now' i req' actor' s' = (Inl e, s')" if "dn_store E' = dn_store E"
    by (rule delivering_is_refused [of E' i s' a]) (simp_all add: a that)
  with a same show ?thesis by blast
qed

section \<open>Witnesses\<close>

text \<open>An approval bound to the head commit of the worktree its agent works in.\<close>

definition bound_approval :: "string NewApproval" where
  "bound_approval = sample_new_approval\<lparr>nw_agent_session_id := Some ''ag'', nw_expected_head_sha := Some ''abc''\<rparr>"

definition bound_base :: approval_db where
  "bound_base = approval_base\<lparr>ap_agents := [''ag'']\<rparr>"

definition bound_state :: "string decision_state" where
  "bound_state =
    \<lparr>ds_approvals = approval_calls text_values [CreateApproval 0 bound_approval ''42''] bound_base,
     ds_agents = [\<lparr>ag_id = ''ag'', ag_task_attempt_id = Some ''at'', ag_state = ''WAITING'', ag_effective_model = None,
       ag_effective_reasoning_effort = None, ag_last_heartbeat_at = None, ag_completed_at = None, ag_failure_class = None,
       ag_failure_reason = None, ag_version = 1\<rparr>],
     ds_details = [],
     ds_worktrees = [\<lparr>wt_id = ''w'', wt_task_attempt_id = Some ''at'', wt_path = ''/w'', wt_base_sha = ''000'', wt_head_sha = None,
       wt_created_at = 0, wt_removed_at = None\<rparr>],
     ds_actions = [], ds_answers = []\<rparr>"

definition decision_world :: "string \<Rightarrow> bool \<Rightarrow> string decision_env" where
  "decision_world head available = \<lparr>dn_store = text_values, dn_head_sha = (\<lambda>_. Some head), dn_worktree_fingerprint = (\<lambda>_. None),
     dn_runtime_available = available, dn_respond = (\<lambda>_ _. None), dn_payload = (\<lambda>d _. d)\<rparr>"

definition accept_request :: ApprovalDecisionRequest where
  "accept_request = \<lparr>rq_decision = ''accept'', rq_note = None, rq_expected_version = Some 1\<rparr>"

text \<open>An acceptance is delivered while the head commit is the expected one, and refused once it has moved.\<close>

lemma bound_decisions:
  "ds_answers (snd (handle_decision (decision_world ''abc'' True) 1 ''ap'' accept_request ''op'' bound_state)) = [(''42'', ''accept'')]"
  "map ag_state (ds_agents (snd (handle_decision (decision_world ''abc'' True) 1 ''ap'' accept_request ''op'' bound_state))) = [''RUNNING'']"
  "handle_decision (decision_world ''def'' True) 1 ''ap'' accept_request ''op'' bound_state =
     (Inl (ConflictErr ''worktree head changed while approval was pending''), bound_state)"
  "fst (handle_decision (decision_world ''abc'' False) 1 ''ap'' accept_request ''op'' bound_state) =
     Inl (BlockedErr ''Codex App Server is unavailable'')"
  by code_simp+

theorem acceptance_needs_unchanged_worktree_witness:
  "\<exists>r \<in> set (ap_rows (ds_approvals bound_state)). ap_state r = ''pending'' \<and> custody_holds (decision_world ''abc'' True) bound_state r"
proof -
  obtain res s' where h: "handle_decision (decision_world ''abc'' True) 1 ''ap'' accept_request ''op'' bound_state = (res, s')"
    by fastforce
  with bound_decisions(1) have "ds_answers s' = [(''42'', ''accept'')]" by simp
  then have "ds_answers s' \<noteq> ds_answers bound_state" by (simp add: bound_state_def)
  moreover have "rq_decision accept_request = ''accept''" by (simp add: accept_request_def)
  ultimately show ?thesis using acceptance_needs_unchanged_worktree [OF h] by auto
qed

lemma bound_base_empty: "no_approvals bound_base"
  by (simp add: no_approvals_def bound_base_def approval_base_def)

theorem undelivered_decision_is_stuck_witness:
  "\<exists>e. handle_decision (decision_world ''abc'' True) 9 ''ap'' accept_request ''op2''
      (snd (handle_decision (decision_world ''abc'' False) 1 ''ap'' accept_request ''op'' bound_state)) =
    (Inl e, snd (handle_decision (decision_world ''abc'' False) 1 ''ap'' accept_request ''op'' bound_state))"
proof -
  have calls: "ds_approvals bound_state =
      approval_calls (dn_store (decision_world ''abc'' False)) [CreateApproval 0 bound_approval ''42''] bound_base"
    by (simp add: bound_state_def decision_world_def)
  have small: "list_all (\<lambda>r. ap_version r < 2 ^ 63 - 1) (ap_rows (ds_approvals bound_state))" by code_simp
  have h: "handle_decision (decision_world ''abc'' False) 1 ''ap'' accept_request ''op'' bound_state =
      (Inl (BlockedErr ''Codex App Server is unavailable''),
       snd (handle_decision (decision_world ''abc'' False) 1 ''ap'' accept_request ''op'' bound_state))"
    using bound_decisions(4) by (metis prod.collapse)
  have "dn_store (decision_world ''abc'' True) = dn_store (decision_world ''abc'' False)" by (simp add: decision_world_def)
  with undelivered_decision_is_stuck [OF bound_base_empty calls small h] show ?thesis by blast
qed

end
