(* ===== verification/Spec2Isabelle.thy ===== *)
theory Spec2Isabelle
  imports
    Run_Lifecycle Task_Lifecycle Improvement_Taxonomy Outcome_Contract Task_Contract
    Investigation_Contract Liveness_Contract Reconciliation_Contract Condition_Store
    Liveness_Store Usage_Cost Eval_Compare Promotion_Contract Avo_Episode Promotion_Health
    Commit_Order Plan_Review Governor_Checkpoint Path_Leases Approval_Attention Approval_Decision
begin

text \<open>
  Verification of BILDR, a local controller that runs coding agents on a repository: it plans a run, has the plan
  reviewed, executes its tasks in separate worktrees, verifies and integrates the commits, and offers the result as a
  draft pull request. Around this core it keeps a control plane for operators (attention, liveness, external conditions,
  causal links) and an improvement runtime that promotes or rolls back configuration bundles.

  \<^bold>\<open>The program and its parts.\<close> Paths are relative to \<^verbatim>\<open>src/crates\<close>.

  \<^item> \<^verbatim>\<open>harness-domain\<close> holds the state machines and the record contracts. Run and task life cycles are the theories
    \<open>Run_Lifecycle\<close> and \<open>Task_Lifecycle\<close>; budget states, improvement modes and outcomes \<open>Improvement_Taxonomy\<close> and
    \<open>Outcome_Contract\<close>; task packets and investigations \<open>Task_Contract\<close> and \<open>Investigation_Contract\<close>; identifiers and
    paths \<open>Identifiers\<close>; the records of \<^verbatim>\<open>operator_control.rs\<close> \<open>Attention_Contract\<close>, \<open>Liveness_Contract\<close>,
    \<open>Reconciliation_Contract\<close>, \<open>Condition_Contract\<close> and \<open>Topology_Contract\<close>, with their self-digests in
    \<open>Sealed_Records\<close>.
  \<^item> \<^verbatim>\<open>harness-store\<close> is the SQLite database. A table is the list of its rows, an operation the function from the tables
    to its result and the new tables. \<open>Run_Store\<close>, \<open>Plan_Store\<close>, \<open>Task_Store\<close>, \<open>Path_Leases\<close> and \<open>Approval_Store\<close> model
    \<^verbatim>\<open>queries.rs\<close>: runs with their event log, plan revisions, tasks and attempts, write leases and approvals.
    \<open>Correlation_Store\<close>, \<open>Condition_Store\<close>, \<open>Liveness_Store\<close>, \<open>Attention_Store\<close> and \<open>Approval_Attention\<close> model the
    repositories under \<^verbatim>\<open>operator_control\<close>. \<open>Store_Base\<close> has what they share.
  \<^item> \<^verbatim>\<open>harness-orchestrator\<close> decides. Its pure rules are modelled: \<open>Plan_Validation\<close> (\<open>validate_plan\<close>, custody overlap,
    dependency cycles), \<open>Commit_Order\<close> (\<open>ordered_task_commits\<close>, \<open>dependency_task_commits\<close>), \<open>Plan_Review\<close> (verdicts,
    budget, risk, convergence of the review loop) and \<open>Governor_Checkpoint\<close> (the progress ledger), over the summaries in
    \<open>Orchestrator_Base\<close>.
  \<^item> \<^verbatim>\<open>harness-profile\<close> is \<open>Repository_Profile\<close> and \<open>Harness_Config\<close>: policies, configuration, their validation, the
    environment overrides and the atomic write of the file.
  \<^item> \<^verbatim>\<open>harness-trace\<close> \<^verbatim>\<open>correlation.rs\<close> is \<open>Causal_Links\<close>; \<^verbatim>\<open>harness-usage\<close> is \<open>Usage_Cost\<close>; \<^verbatim>\<open>harness-eval\<close> is
    \<open>Eval_Compare\<close>; \<^verbatim>\<open>harness-promotion\<close> is \<open>Contract_Digest\<close>, \<open>Experiment_Stages\<close>, \<open>Promotion_Contract\<close>,
    \<open>Avo_Episode\<close> and \<open>Promotion_Health\<close>.

  The library below them is \<open>Rust_Prelude\<close> (words, \<open>Result\<close> as a sum, byte strings, paths through state machines and
  the locales \<open>gated\<close> and \<open>gate_chain\<close>), \<open>Rust_Numbers\<close> (printing and parsing) and \<open>Call_Sequences\<close> (the locales
  \<open>call_sequence\<close> and \<open>permanent_fact\<close>: what holds over every sequence of calls of a repository). \<open>Sealed_Records\<close> and
  \<open>Contract_Digest\<close> state the contract of a record that carries its own digest as locales (\<open>sealed\<close>,
  \<open>sealed_contract\<close>, \<open>digested\<close>), which every record type interprets; \<open>Commit_Order\<close> proves both commit loops through
  one locale \<open>commit_loop\<close>.

  \<^bold>\<open>How the parts meet.\<close> The orchestrator validates a plan (\<open>Plan_Validation\<close>) before the store keeps it (\<open>Plan_Store\<close>);
  the scheduler starts tasks the store marks ready (\<open>Task_Store\<close>) under leases on their paths (\<open>Path_Leases\<close>); verified
  commits are integrated in the order of \<open>Commit_Order\<close>; every move of a run goes through \<open>Run_Store.transition_run\<close>,
  which asks \<open>Run_Lifecycle\<close>. An agent's request becomes an approval (\<open>Approval_Store\<close>), which \<open>Approval_Attention\<close>
  mirrors into the attention list (\<open>Attention_Store\<close>) and whose decision the controller's handler (\<open>Approval_Decision\<close>)
  stores and delivers; each change of attention, condition and liveness records a causal
  link (\<open>Correlation_Store\<close>) after \<open>Causal_Links\<close> has checked that the graph stays acyclic.

  \<^bold>\<open>What is shown.\<close>

  \<^item> Life cycles: a draft pull request has passed task verification, integration, audit and human review in order, and
    planning and plan review before if the run was never paused or blocked; the stored event log of a run is a path of
    the life cycle, so a published run has its trail in the database; a writer with a stale version changes nothing.
  \<^item> Plans: the validation decides exactly the intended conditions; custody is exclusive for
    patterns whose wildcards stand for whole names; a stored plan is read back; however operations interleave, at
    most one revision of a run is open and what is approved was certified when its approver looked; the tasks of an
    accepted plan never all wait for each other; the integration order is a topological order, exists for every accepted
    plan, and a worktree gets exactly its transitive dependencies.
  \<^item> Reviews and ledger: verdicts are grounded in existing files and tasks; the rejections that are never
    reported as not converging are bounded by the blocking findings they start with and gain; what automatic approval
    demands is characterised, saturation and planning-only runs included; completed milestones are never lost.
  \<^item> Leases: while heartbeats come in time and the clock does not go back, no path is leased to two attempts of one run.
  \<^item> Approvals and attention: an answered request is never answered again; a decision without interference is recorded;
    an acceptance reaches the runtime only for an unchanged worktree; attention rows are well formed, a closed item is
    final, the pages list everything once; after a refresh that nothing disturbs exactly the pending approvals are shown.
  \<^item> Repositories: stored causality is acyclic; settled conditions are final and count their observations; only progress
    recovers an episode, and of the calls of the liveness repository only a pause on a stalled episode touches its run.
  \<^item> Configuration: a provider switch keeps the configuration valid and can be undone; a failed write leaves the old
    or the complete new file.
  \<^item> Improvement runtime: exposure stays within its sample budget, within its failure budget or one failure, and
    within a cost budget below the largest 64-bit number; a promotion needs a finished experiment; a rollback
    restores the replaced bundle; the trajectory of an episode is the right one; comparisons do not depend on order.

  Some lemmas show that the code does not do what it means to: a late heartbeat revives an overlapping lease, two
  concurrent decisions both succeed, a plan that was superseded while it was being approved is approved, an expired approval can become pending again, a decision
  stored while the runtime is away is never delivered, later experiment stages never start,
  a spent amount can wrap around, a redaction needs a separator, and others named in their theories.

  \<^bold>\<open>Parameters and hypotheses.\<close> Code outside the repository is an argument of the definitions: the JSON codec
  (\<open>codec_ok\<close>: what was encoded decodes to itself), SHA-256 (any function; where collisions matter the statement says
  so, \<open>hex_digests\<close>: its results are hexadecimal), JSON values and floating-point operations of the evaluation, TOML
  parsing, the file system views of the review and profile code, glob matching (\<open>glob_respects_literals\<close>), RFC 3339
  parsing, fresh identifiers and the clock. The order in which a query without a total \<open>ORDER BY\<close> returns rows is an
  argument or, where it cannot be observed, the order of the table.

  \<^bold>\<open>Conventions.\<close> Unsigned integers are words of their width; \<open>i64\<close> columns are integers, with the range written where
  a conversion depends on it. A string is the list of its UTF-8 bytes. An error that leaves a transaction rolls it back, so
  an operation that fails returns the tables unchanged; a function that makes several transactions returns the tables with
  the ones that were committed. Messages that interpolate values are shortened where nothing depends on them. All loops of
  the code are total functions with a termination proof; only \<open>follow_cursors\<close>, a client that reads pages, is bounded by a
  number of pages, and one more than the number of rows is enough. Enumerations in columns are values of the enumeration;
  the texts of run states, task states and risk levels are modelled, since the code parses them back.

  \<^bold>\<open>Not modelled.\<close> Asynchronous scheduling, prompts, process control and the git, runner, context and evidence crates
  (their effects are file system, process and network I/O); the Codex client, the HTTP API and the binaries (transport
  and command lines); migrations, backups and dashboard queries of the store; the supervision, notification, knowledge,
  investigation, progress, reconciliation, snapshot and topology repositories, which follow the pattern of the modelled
  ones; trace projection and the learning crate. 

  \<^bold>\<open>Concurrency.\<close> All operations share one connection behind a lock. Where an operation gives the lock back between a
  read and a write that does not check everything again, its sections are definitions of their own and are
  interleaved: \<open>decide_approval\<close> and the review operations of \<open>Plan_Store\<close>. \<open>transition_task\<close> and
  \<open>execute_wait_intervention\<close> give it back too, but their writes are guarded by the version that was read; they are
  modelled as one step. Operations that read their result again after the write (\<open>create_run\<close>, the column updates of
  runs, \<open>transition_task\<close>) are modelled with that read at once. \<open>refresh_approval_attention\<close> and the handler
  \<open>handle_decision\<close> are sequences of operations and are modelled without other calls in between. The remaining
  modelled operations hold the lock from their first to their last statement.
\<close>

end
